(* ===== verification/Prelude.thy ===== *)
theory Prelude
  imports Main "HOL-Library.AList"
begin

text \<open>
  Shared vocabulary of the development: the types every component uses (UUIDs, times, errors), the
  error-and-state computations that stand for statements run inside a database transaction, the
  list-of-rows view of a table, and the two generic interfaces (a machine with an invariant, and a
  create operation keyed by an idempotency key) that several components provide.

  A UUID is sixteen opaque bytes that the program only compares; it is a natural number here. A
  \<open>time.Time\<close> and a \<open>time.Duration\<close> are integers (nanoseconds). A Go string is a list of
  bytes, that is the HOL type of strings, whose characters are eight-bit.
\<close>

named_theorems tx_simps "equations of transactional computations"
named_theorems tx_pres "preservation rules for transactional computations"
named_theorems table_simps "facts about rows of a table"

type_synonym uuid = nat
type_synonym gtime = int

definition second :: gtime where "second = 1000000000"
definition minute :: gtime where "minute = 60 * second"
definition hour :: gtime where "hour = 60 * minute"

lemma second_pos [simp]: "0 < second" by (simp add: second_def)
lemma minute_pos [simp]: "0 < minute" by (simp add: minute_def)
lemma hour_pos [simp]: "0 < hour" by (simp add: hour_def)

subsection \<open>Errors\<close>

text \<open>
  One constructor per error value the program tests with \<open>errors.Is\<close> or \<open>errors.As\<close>:
  \<open>NoRows\<close> is \<open>pgx.ErrNoRows\<close> (and \<open>service.ErrNotFound\<close>), \<open>PgError\<close> carries the
  SQLSTATE code, and \<open>ErrText\<close> is any other \<open>errors.New\<close> or \<open>fmt.Errorf\<close> value.
\<close>

datatype error =
    NoRows
  | PgError string
  | ErrConflict
  | ErrIdempotencyConflict
  | ErrInvalidContextImpact string
  | ErrInvalidProjectParent string
  | ErrProjectNotEmpty string
  | ErrNoBlobStore
  | ErrTooManyAttachments
  | ErrMailboxGone
  | ErrSharingNotConfigured
  | ErrText string

definition unique_violation :: error where "unique_violation = PgError ''23505''"
definition fk_violation :: error where "fk_violation = PgError ''23503''"
definition check_violation :: error where "check_violation = PgError ''23514''"

lemma pg_error_distinct [simp]:
  "unique_violation \<noteq> NoRows" "fk_violation \<noteq> NoRows" "check_violation \<noteq> NoRows"
  "unique_violation \<noteq> ErrConflict" "fk_violation \<noteq> ErrConflict" "check_violation \<noteq> ErrConflict"
  "fk_violation \<noteq> unique_violation" "check_violation \<noteq> unique_violation"
  "NoRows \<noteq> unique_violation" "ErrConflict \<noteq> unique_violation"
  by (simp_all add: unique_violation_def fk_violation_def check_violation_def)

subsection \<open>Transactional computations\<close>

text \<open>
  A statement or a sequence of statements inside one transaction either fails, in which case
  nothing it did is kept, or returns a value and the new state. The failing branch carries no
  state: the rollback is in the type.
\<close>

type_synonym ('s, 'a) tx = "'s \<Rightarrow> error + ('a \<times> 's)"

definition tx_ret :: "'a \<Rightarrow> ('s, 'a) tx" where
  "tx_ret x s = Inr (x, s)"

definition tx_fail :: "error \<Rightarrow> ('s, 'a) tx" where
  "tx_fail e s = Inl e"

definition tx_bind :: "('s, 'a) tx \<Rightarrow> ('a \<Rightarrow> ('s, 'b) tx) \<Rightarrow> ('s, 'b) tx" where
  "tx_bind m k s = (case m s of Inl e \<Rightarrow> Inl e | Inr (x, s') \<Rightarrow> k x s')"

definition tx_then :: "('s, 'a) tx \<Rightarrow> ('s, 'b) tx \<Rightarrow> ('s, 'b) tx" where
  "tx_then m k = tx_bind m (\<lambda>_. k)"

text \<open>A read: the value, or the error, computed from the state; the state is unchanged.\<close>

definition tx_read :: "('s \<Rightarrow> error + 'a) \<Rightarrow> ('s, 'a) tx" where
  "tx_read f s = (case f s of Inl e \<Rightarrow> Inl e | Inr x \<Rightarrow> Inr (x, s))"

text \<open>A lookup whose miss is not an error: on no row the alternative runs.\<close>

definition tx_or_else :: "('s, 'a) tx \<Rightarrow> ('s, 'a) tx \<Rightarrow> ('s, 'a) tx" where
  "tx_or_else m k s = (case m s of Inl e \<Rightarrow> if e = NoRows then k s else Inl e | Inr r \<Rightarrow> Inr r)"

definition tx_when :: "bool \<Rightarrow> ('s, unit) tx \<Rightarrow> ('s, unit) tx" where
  "tx_when b m = (if b then m else tx_ret ())"

primrec tx_map :: "('x \<Rightarrow> ('s, 'a) tx) \<Rightarrow> 'x list \<Rightarrow> ('s, 'a list) tx" where
  "tx_map f [] = tx_ret []"
| "tx_map f (x # xs) = tx_bind (f x) (\<lambda>y. tx_bind (tx_map f xs) (\<lambda>ys. tx_ret (y # ys)))"

lemma tx_ret_eq [tx_simps]: "tx_ret x s = Inr r \<longleftrightarrow> r = (x, s)"
  by (auto simp: tx_ret_def)

lemma tx_fail_eq [tx_simps]: "tx_fail e s \<noteq> Inr r"
  by (simp add: tx_fail_def)

lemma tx_bind_Inr [tx_simps]:
  "tx_bind m k s = Inr r \<longleftrightarrow> (\<exists>x s'. m s = Inr (x, s') \<and> k x s' = Inr r)"
  by (auto simp: tx_bind_def split: sum.splits)

lemma tx_bindE:
  assumes "tx_bind m k s = Inr r"
  obtains x s' where "m s = Inr (x, s')" "k x s' = Inr r"
  using assms by (auto simp: tx_bind_Inr)

lemma unit_eq: "u = ()"
  by simp

lemma tx_then_Inr [tx_simps]:
  "tx_then m k s = Inr r \<longleftrightarrow> (\<exists>x s'. m s = Inr (x, s') \<and> k s' = Inr r)"
  by (auto simp: tx_then_def tx_bind_def split: sum.splits)

lemma tx_read_Inr [tx_simps]:
  "tx_read f s = Inr r \<longleftrightarrow> (\<exists>x. f s = Inr x \<and> r = (x, s))"
  by (auto simp: tx_read_def split: sum.splits)

text \<open>\<open>tx_keeps I m\<close>: a successful run of \<open>m\<close> keeps the invariant \<open>I\<close>.\<close>

definition tx_keeps :: "('s \<Rightarrow> bool) \<Rightarrow> ('s, 'a) tx \<Rightarrow> bool" where
  "tx_keeps I m \<longleftrightarrow> (\<forall>s x s'. I s \<longrightarrow> m s = Inr (x, s') \<longrightarrow> I s')"

lemma tx_keepsD: "tx_keeps I m \<Longrightarrow> m s = Inr (x, s') \<Longrightarrow> I s \<Longrightarrow> I s'"
  by (auto simp: tx_keeps_def)

lemma tx_keepsI: "(\<And>s x s'. I s \<Longrightarrow> m s = Inr (x, s') \<Longrightarrow> I s') \<Longrightarrow> tx_keeps I m"
  by (auto simp: tx_keeps_def)

lemma tx_keeps_ret [tx_pres, intro]: "tx_keeps I (tx_ret x)"
  by (auto simp: tx_keeps_def tx_simps)

lemma tx_keeps_fail [tx_pres, intro]: "tx_keeps I (tx_fail e)"
  by (auto simp: tx_keeps_def tx_simps)

lemma tx_keeps_read [tx_pres, intro]: "tx_keeps I (tx_read f)"
  by (auto simp: tx_keeps_def tx_simps)

lemma tx_keeps_bind [tx_pres, intro]:
  "tx_keeps I m \<Longrightarrow> (\<And>x. tx_keeps I (k x)) \<Longrightarrow> tx_keeps I (tx_bind m k)"
  by (rule tx_keepsI) (auto simp: tx_bind_Inr dest!: tx_keepsD)

lemma tx_keeps_then [tx_pres, intro]:
  "tx_keeps I m \<Longrightarrow> tx_keeps I k \<Longrightarrow> tx_keeps I (tx_then m k)"
  by (simp add: tx_then_def tx_keeps_bind)

lemma tx_keeps_map [tx_pres, intro]:
  "(\<And>x. tx_keeps I (f x)) \<Longrightarrow> tx_keeps I (tx_map f xs)"
  by (induction xs) auto

lemma tx_keeps_if [tx_pres, intro]:
  "tx_keeps I m \<Longrightarrow> tx_keeps I k \<Longrightarrow> tx_keeps I (if b then m else k)"
  by simp

lemma tx_keeps_or_else [tx_pres, intro]:
  "tx_keeps I m \<Longrightarrow> tx_keeps I k \<Longrightarrow> tx_keeps I (tx_or_else m k)"
  by (rule tx_keepsI) (auto simp: tx_or_else_def split: sum.splits if_splits dest: tx_keepsD)

lemma tx_keeps_when [tx_pres, intro]: "tx_keeps I m \<Longrightarrow> tx_keeps I (tx_when b m)"
  by (simp add: tx_when_def tx_keeps_ret)

lemma tx_when_Inr [tx_simps]:
  "tx_when b m s = Inr r \<longleftrightarrow> (if b then m s = Inr r else r = ((), s))"
  by (auto simp: tx_when_def tx_ret_def)

lemma tx_map_length: "tx_map f xs s = Inr (ys, s') \<Longrightarrow> length ys = length xs"
  by (induction xs arbitrary: s ys) (auto simp: tx_simps)

subsection \<open>Rows of a table\<close>

text \<open>
  A table is the list of its rows, in the order a scan returns them. \<open>rows_update p f\<close> is
  \<open>UPDATE ... SET f WHERE p\<close>; \<open>row_find\<close> is a query of at most one row.
\<close>

definition row_find :: "('r \<Rightarrow> bool) \<Rightarrow> 'r list \<Rightarrow> error + 'r" where
  "row_find p rs = (case filter p rs of [] \<Rightarrow> Inl NoRows | r # _ \<Rightarrow> Inr r)"

definition rows_update :: "('r \<Rightarrow> bool) \<Rightarrow> ('r \<Rightarrow> 'r) \<Rightarrow> 'r list \<Rightarrow> 'r list" where
  "rows_update p f rs = map (\<lambda>r. if p r then f r else r) rs"

lemma row_find_Nil [simp]: "row_find p [] = Inl NoRows"
  by (simp add: row_find_def)

lemma row_find_Cons [simp]: "row_find p (r # rs) = (if p r then Inr r else row_find p rs)"
  by (simp add: row_find_def)

lemma row_find_Inr: "row_find p rs = Inr r \<Longrightarrow> r \<in> set rs \<and> p r"
  by (induction rs) (auto split: if_splits)

lemma row_find_Inl: "row_find p rs = Inl e \<longleftrightarrow> e = NoRows \<and> (\<forall>r \<in> set rs. \<not> p r)"
  by (induction rs) auto

lemma row_find_cases:
  obtains r where "row_find p rs = Inr r" "r \<in> set rs" "p r"
  | "row_find p rs = Inl NoRows" "\<forall>r \<in> set rs. \<not> p r"
proof (cases "row_find p rs")
  case (Inl e)
  then show ?thesis using that(2) by (auto simp: row_find_Inl)
next
  case (Inr r)
  then show ?thesis using that(1) row_find_Inr[OF Inr] by auto
qed

lemma row_find_ex: "r \<in> set rs \<Longrightarrow> p r \<Longrightarrow> \<exists>r'. row_find p rs = Inr r'"
  by (cases "row_find p rs") (auto simp: row_find_Inl)

lemma row_find_key:
  assumes "distinct (map k rs)" and "r \<in> set rs"
  shows "row_find (\<lambda>x. k x = k r) rs = Inr r"
proof -
  obtain r' where r': "row_find (\<lambda>x. k x = k r) rs = Inr r'"
    using assms(2) row_find_ex by (metis (mono_tags, lifting))
  then have "r' \<in> set rs" and "k r' = k r" by (auto dest: row_find_Inr)
  with assms have "r' = r" by (meson distinct_map inj_onD)
  with r' show ?thesis by simp
qed

lemma distinct_key: "distinct (map k rs) \<Longrightarrow> x \<in> set rs \<Longrightarrow> y \<in> set rs \<Longrightarrow> k x = k y \<Longrightarrow> x = y"
  by (simp add: distinct_map inj_on_def)

lemma row_find_append:
  "row_find p (xs @ ys) = (case row_find p xs of Inr r \<Rightarrow> Inr r | Inl _ \<Rightarrow> row_find p ys)"
  by (induction xs) auto

lemma rows_update_set:
  "set (rows_update p f rs) = {r \<in> set rs. \<not> p r} \<union> f ` {r \<in> set rs. p r}"
  by (auto simp: rows_update_def)

lemma rows_update_keys [table_simps]:
  "(\<And>r. k (f r) = k r) \<Longrightarrow> map k (rows_update p f rs) = map k rs"
  by (simp add: rows_update_def)

lemma rows_update_length [simp]: "length (rows_update p f rs) = length rs"
  by (simp add: rows_update_def)

lemma rows_update_none: "\<forall>r \<in> set rs. \<not> p r \<Longrightarrow> rows_update p f rs = rs"
  by (induction rs) (auto simp: rows_update_def)

lemma row_find_rows_update:
  assumes "\<And>r. k (f r) = k r"
  shows "row_find (\<lambda>r. k r = a) (rows_update (\<lambda>r. k r = a) f rs)
         = (case row_find (\<lambda>r. k r = a) rs of Inl e \<Rightarrow> Inl e | Inr r \<Rightarrow> Inr (f r))"
  using assms by (induction rs) (auto simp: rows_update_def)

lemma row_find_rows_update_other:
  assumes "\<And>r. k (f r) = k r" and "a \<noteq> b"
  shows "row_find (\<lambda>r. k r = b) (rows_update (\<lambda>r. k r = a) f rs) = row_find (\<lambda>r. k r = b) rs"
  using assms by (induction rs) (auto simp: rows_update_def)

subsection \<open>A machine with an invariant\<close>

text \<open>
  Several components are deterministic machines: a state, an operation per event, and a
  well-formedness predicate that every operation keeps. The interface is that one-step law; what
  it gives is the invariant over every history of operations.
\<close>

locale machine =
  fixes step :: "'s \<Rightarrow> 'e \<Rightarrow> 's" and inv :: "'s \<Rightarrow> bool"
  assumes step_inv: "inv s \<Longrightarrow> inv (step s e)"
begin

lemma run_inv: "inv s \<Longrightarrow> inv (foldl step s es)"
  by (induction es arbitrary: s) (auto intro: step_inv)

lemma run_measure_mono:
  assumes mono: "\<And>s e. inv s \<Longrightarrow> (f s :: int) \<le> f (step s e)"
  shows "inv s \<Longrightarrow> f s \<le> f (foldl step s es)"
proof (induction es arbitrary: s)
  case Nil
  then show ?case by simp
next
  case (Cons e es)
  then have "f (step s e) \<le> f (foldl step (step s e) es)" by (simp add: step_inv)
  with mono[OF Cons.prems, of e] show ?case by simp
qed

lemma run_persist:
  assumes keep: "\<And>s e. inv s \<Longrightarrow> P s \<Longrightarrow> allowed e \<Longrightarrow> P (step s e)"
  shows "inv s \<Longrightarrow> P s \<Longrightarrow> \<forall>e \<in> set es. allowed e \<Longrightarrow> P (foldl step s es)"
  by (induction es arbitrary: s) (auto intro: step_inv keep)

end

subsection \<open>A create operation with an idempotency key\<close>

text \<open>
  Creation that can be retried: a request with a usable key returns the row that carries the key if
  there is one, and otherwise makes it. The laws are about one call; what follows is about retries.
\<close>

locale keyed_create =
  fixes usable :: "'p \<Rightarrow> bool"
    and found :: "'p \<Rightarrow> 's \<Rightarrow> 'r option"
    and create :: "'p \<Rightarrow> 's \<Rightarrow> (error + 'r) \<times> 's"
    and same_key :: "'p \<Rightarrow> 'p \<Rightarrow> bool"
    and inv :: "'s \<Rightarrow> bool"
  assumes hit: "usable p \<Longrightarrow> inv s \<Longrightarrow> found p s = Some r \<Longrightarrow> create p s = (Inr r, s)"
    and made: "usable p \<Longrightarrow> inv s \<Longrightarrow> found p s = None \<Longrightarrow> create p s = (Inr r, s') \<Longrightarrow> found p s' = Some r"
    and create_inv: "inv s \<Longrightarrow> inv (snd (create p s))"
    and key_found: "same_key p q \<Longrightarrow> found p s = found q s"
begin

lemma created_found:
  assumes "usable p" and "inv s" and "create p s = (Inr r, s')"
  shows "found p s' = Some r"
proof (cases "found p s")
  case None
  show ?thesis by (rule made[OF assms(1,2) None assms(3)])
next
  case (Some x)
  from hit[OF assms(1,2) Some] assms(3) have "x = r" "s' = s" by simp_all
  with Some show ?thesis by simp
qed

lemma retry:
  assumes "usable p" and "usable q" and "same_key p q" and "inv s" and "create p s = (Inr r, s')"
  shows "create q s' = (Inr r, s')"
proof -
  have "found q s' = Some r" using created_found[OF assms(1,4,5)] key_found[OF assms(3)] by simp
  moreover have "inv s'" using create_inv[OF assms(4), of p] assms(5) by simp
  ultimately show ?thesis using hit[OF assms(2)] by blast
qed

lemma retries:
  assumes "usable p" and "\<forall>q \<in> set qs. usable q \<and> same_key p q" and "inv s" and "create p s = (Inr r, s')"
  shows "foldl (\<lambda>t q. snd (create q t)) s' qs = s'"
  using assms(2)
proof (induction qs)
  case (Cons q qs)
  then show ?case using retry[OF assms(1) _ _ assms(3,4), of q] by simp
qed simp

end

end
