(* ===== verification/Text.thy ===== *)
theory Text
  imports Prelude
begin

text \<open>
  The parts of Go's string, UTF-8 and number formatting library that the program uses, on byte
  strings: prefix, suffix and containment tests, splitting and joining, white-space trimming,
  ASCII letter case, decimal formatting and scanning, and rune decoding.
\<close>

subsection \<open>Containment, prefixes, suffixes\<close>

text \<open>\<open>strings.HasPrefix\<close>, \<open>strings.TrimPrefix\<close>, \<open>strings.CutPrefix\<close>.\<close>

fun cut_prefix :: "string \<Rightarrow> string \<Rightarrow> string option" where
  "cut_prefix [] s = Some s"
| "cut_prefix (p # ps) [] = None"
| "cut_prefix (p # ps) (c # cs) = (if p = c then cut_prefix ps cs else None)"

definition has_prefix :: "string \<Rightarrow> string \<Rightarrow> bool" where
  "has_prefix p s = (cut_prefix p s \<noteq> None)"

definition trim_prefix :: "string \<Rightarrow> string \<Rightarrow> string" where
  "trim_prefix p s = (case cut_prefix p s of None \<Rightarrow> s | Some r \<Rightarrow> r)"

definition has_suffix :: "string \<Rightarrow> string \<Rightarrow> bool" where
  "has_suffix p s = has_prefix (rev p) (rev s)"

definition trim_suffix :: "string \<Rightarrow> string \<Rightarrow> string" where
  "trim_suffix p s = rev (trim_prefix (rev p) (rev s))"

lemma cut_prefix_iff: "cut_prefix p s = Some r \<longleftrightarrow> s = p @ r"
  by (induction p s rule: cut_prefix.induct) auto

lemma cut_prefix_append [simp]: "cut_prefix p (p @ r) = Some r"
  by (simp add: cut_prefix_iff)

lemma has_prefix_iff: "has_prefix p s \<longleftrightarrow> (\<exists>r. s = p @ r)"
  by (auto simp: has_prefix_def cut_prefix_iff)

lemma has_suffix_iff: "has_suffix p s \<longleftrightarrow> (\<exists>r. s = r @ p)"
  by (metis has_suffix_def has_prefix_iff rev_append rev_rev_ident)

lemma trim_suffix_append [simp]: "trim_suffix p (s @ p) = s"
  by (simp add: trim_suffix_def trim_prefix_def)

text \<open>\<open>strings.Contains(s, sub)\<close>.\<close>

fun str_contains :: "string \<Rightarrow> string \<Rightarrow> bool" where
  "str_contains [] sub = (sub = [])"
| "str_contains (c # cs) sub = (has_prefix sub (c # cs) \<or> str_contains cs sub)"

lemma str_contains_iff: "str_contains s sub \<longleftrightarrow> (\<exists>a b. s = a @ sub @ b)"
proof (induction s)
  case Nil
  then show ?case by auto
next
  case (Cons c cs)
  have "(\<exists>a b. c # cs = a @ sub @ b) \<longleftrightarrow>
        (\<exists>b. c # cs = sub @ b) \<or> (\<exists>a b. cs = a @ sub @ b)" (is "?l \<longleftrightarrow> ?r")
  proof
    assume ?l
    then obtain a b where "c # cs = a @ sub @ b" by blast
    then show ?r by (cases a) auto
  next
    assume ?r
    then show ?l by (metis append_Cons append_Nil)
  qed
  with Cons show ?case by (auto simp: has_prefix_iff)
qed

lemma str_contains_refl [simp]: "str_contains s s"
  by (auto simp: str_contains_iff intro: exI[of _ "[]"])

lemma str_contains_empty [simp]: "str_contains s []"
  by (auto simp: str_contains_iff intro: exI[of _ "[]"])

lemma str_contains_length: "str_contains s sub \<Longrightarrow> length sub \<le> length s"
  by (auto simp: str_contains_iff)

lemma str_contains_antisym: "str_contains s t \<Longrightarrow> str_contains t s \<Longrightarrow> s = t"
proof -
  assume a: "str_contains s t" and b: "str_contains t s"
  then have l: "length s = length t" by (meson le_antisym str_contains_length)
  from a obtain x y where "s = x @ t @ y" by (auto simp: str_contains_iff)
  with l show "s = t" by simp
qed

lemma str_contains_appendI1: "str_contains (s @ t) s"
  unfolding str_contains_iff by (rule exI[of _ "[]"], rule exI[of _ t]) simp

lemma str_contains_appendI2: "str_contains (s @ t) t"
  unfolding str_contains_iff by (rule exI[of _ s], rule exI[of _ "[]"]) simp

lemma str_contains_trans: "str_contains s t \<Longrightarrow> str_contains t u \<Longrightarrow> str_contains s u"
  unfolding str_contains_iff by (metis append.assoc)

subsection \<open>Splitting and joining\<close>

text \<open>\<open>strings.Split(s, sep)\<close> with a one-byte separator, and \<open>strings.Join\<close>.\<close>

fun split_on :: "char \<Rightarrow> string \<Rightarrow> string list" where
  "split_on c [] = [[]]"
| "split_on c (x # xs) =
     (if x = c then [] # split_on c xs
      else (case split_on c xs of [] \<Rightarrow> [[x]] | p # ps \<Rightarrow> (x # p) # ps))"

fun join :: "string \<Rightarrow> string list \<Rightarrow> string" where
  "join sep [] = []"
| "join sep [x] = x"
| "join sep (x # y # ys) = x @ sep @ join sep (y # ys)"

lemma split_on_nonempty [simp]: "split_on c s \<noteq> []"
  by (cases s) (auto split: list.splits)

lemma join_split_on: "join [c] (split_on c s) = s"
proof (induction c s rule: split_on.induct)
  case (2 c x xs)
  obtain p ps where ps: "split_on c xs = p # ps"
    using split_on_nonempty[of c xs] by (cases "split_on c xs") auto
  with 2 show ?case by (cases ps) auto
qed simp

lemma split_on_no_sep: "p \<in> set (split_on c s) \<Longrightarrow> c \<notin> set p"
proof (induction c s arbitrary: p rule: split_on.induct)
  case (2 c x xs)
  then show ?case by (fastforce split: if_splits list.splits)
qed simp

subsection \<open>Decimal numbers\<close>

definition digit_char :: "nat \<Rightarrow> char" where
  "digit_char d = char_of (48 + d)"

definition is_digit_char :: "char \<Rightarrow> bool" where
  "is_digit_char c = (48 \<le> (of_char c :: nat) \<and> (of_char c :: nat) \<le> 57)"

definition digit_val :: "char \<Rightarrow> nat" where
  "digit_val c = of_char c - 48"

fun dec_nat :: "nat \<Rightarrow> string" where
  "dec_nat n = (if n < 10 then [digit_char n] else dec_nat (n div 10) @ [digit_char (n mod 10)])"

declare dec_nat.simps [simp del]

text \<open>\<open>strconv.Itoa\<close> and the verb \<open>%d\<close>.\<close>

definition dec_int :: "int \<Rightarrow> string" where
  "dec_int i = (if i < 0 then CHR ''-'' # dec_nat (nat (- i)) else dec_nat (nat i))"

definition digits_val :: "string \<Rightarrow> nat" where
  "digits_val s = foldl (\<lambda>n c. 10 * n + digit_val c) 0 s"

lemma of_char_digit: "d < 10 \<Longrightarrow> (of_char (digit_char d) :: nat) = 48 + d"
  by (simp add: digit_char_def)

lemma is_digit_digit_char [simp]: "d < 10 \<Longrightarrow> is_digit_char (digit_char d)"
  by (simp add: is_digit_char_def of_char_digit)

lemma digit_val_digit_char [simp]: "d < 10 \<Longrightarrow> digit_val (digit_char d) = d"
  by (simp add: digit_val_def of_char_digit)

lemma dec_nat_digits: "c \<in> set (dec_nat n) \<Longrightarrow> is_digit_char c"
proof (induction n rule: dec_nat.induct)
  case (1 n)
  then show ?case by (subst (asm) dec_nat.simps) (auto split: if_splits)
qed

lemma dec_nat_nonempty [simp]: "dec_nat n \<noteq> []"
  by (subst dec_nat.simps) simp

lemma digits_val_snoc: "digits_val (s @ [c]) = 10 * digits_val s + digit_val c"
  by (simp add: digits_val_def)

lemma digits_val_dec_nat [simp]: "digits_val (dec_nat n) = n"
proof (induction n rule: dec_nat.induct)
  case (1 n)
  show ?case
  proof (cases "n < 10")
    case True
    then show ?thesis by (simp add: dec_nat.simps[of n]) (simp add: digits_val_def)
  next
    case False
    with 1 show ?thesis by (simp add: dec_nat.simps[of n] digits_val_snoc)
  qed
qed

lemma dec_nat_inj: "dec_nat m = dec_nat n \<longleftrightarrow> m = n"
  by (metis digits_val_dec_nat)

text \<open>Zero padding to a width, as the verb \<open>%0wd\<close> does for a value without sign.\<close>

definition zero_pad :: "nat \<Rightarrow> string \<Rightarrow> string" where
  "zero_pad w s = replicate (w - length s) (CHR ''0'') @ s"

lemma digit_val_zero [simp]: "digit_val (CHR ''0'') = 0"
  by (simp add: digit_val_def)

lemma is_digit_zero [simp]: "is_digit_char (CHR ''0'')"
  by (simp add: is_digit_char_def)

lemma digits_val_zeros: "digits_val (replicate k (CHR ''0'') @ s) = digits_val s"
  by (induction k) (simp_all add: digits_val_def)

lemma digits_val_zero_pad [simp]: "digits_val (zero_pad w s) = digits_val s"
  by (simp add: zero_pad_def digits_val_zeros)

lemma zero_pad_digits: "c \<in> set (zero_pad w (dec_nat n)) \<Longrightarrow> is_digit_char c"
  by (auto simp: zero_pad_def dec_nat_digits)

text \<open>
  \<open>fmt.Sscanf(s, "%d", &n)\<close>: an optional sign and the longest run of digits; it fails when
  there is no digit.
\<close>

definition scan_digits :: "string \<Rightarrow> nat option" where
  "scan_digits s = (let ds = takeWhile is_digit_char s in if ds = [] then None else Some (digits_val ds))"

fun scan_d :: "string \<Rightarrow> int option" where
  "scan_d (c # cs) =
     (if c = CHR ''-'' then map_option (\<lambda>n. - int n) (scan_digits cs)
      else if c = CHR ''+'' then map_option int (scan_digits cs)
      else map_option int (scan_digits (c # cs)))"
| "scan_d [] = None"

lemma not_digit_sign [simp]: "\<not> is_digit_char (CHR ''-'')" "\<not> is_digit_char (CHR ''+'')"
  by (simp_all add: is_digit_char_def)

lemma scan_digits_all:
  assumes "\<And>c. c \<in> set s \<Longrightarrow> is_digit_char c" and "s \<noteq> []"
  shows "scan_digits s = Some (digits_val s)"
proof -
  have tw: "takeWhile is_digit_char s = s"
    using assms(1) by (simp add: takeWhile_eq_all_conv)
  from assms(2) show ?thesis unfolding scan_digits_def Let_def tw by simp
qed

lemma scan_d_digits:
  assumes "\<And>c. c \<in> set s \<Longrightarrow> is_digit_char c" and "s \<noteq> []"
  shows "scan_d s = Some (int (digits_val s))"
proof (cases s)
  case Nil
  with assms show ?thesis by simp
next
  case (Cons c cs)
  with assms(1) have "is_digit_char c" by simp
  then have "c \<noteq> CHR ''-''" "c \<noteq> CHR ''+''" by auto
  with Cons scan_digits_all[OF assms] show ?thesis by simp
qed

subsection \<open>Trimming space\<close>

text \<open>
  \<open>strings.TrimSpace\<close>: the UTF-8 encodings of the code points of Unicode White_Space. No encoding is
  a suffix of another, so the last rune is a space exactly when the string ends with one of them.
\<close>

definition space_runes :: "string list" where
  "space_runes = [[CHR 0x09], [CHR 0x0A], [CHR 0x0B], [CHR 0x0C], [CHR 0x0D], [CHR 0x20],
     [CHR 0xC2, CHR 0x85], [CHR 0xC2, CHR 0xA0], [CHR 0xE1, CHR 0x9A, CHR 0x80],
     [CHR 0xE2, CHR 0x80, CHR 0x80], [CHR 0xE2, CHR 0x80, CHR 0x81], [CHR 0xE2, CHR 0x80, CHR 0x82],
     [CHR 0xE2, CHR 0x80, CHR 0x83], [CHR 0xE2, CHR 0x80, CHR 0x84], [CHR 0xE2, CHR 0x80, CHR 0x85],
     [CHR 0xE2, CHR 0x80, CHR 0x86], [CHR 0xE2, CHR 0x80, CHR 0x87], [CHR 0xE2, CHR 0x80, CHR 0x88],
     [CHR 0xE2, CHR 0x80, CHR 0x89], [CHR 0xE2, CHR 0x80, CHR 0x8A], [CHR 0xE2, CHR 0x80, CHR 0xA8],
     [CHR 0xE2, CHR 0x80, CHR 0xA9], [CHR 0xE2, CHR 0x80, CHR 0xAF], [CHR 0xE2, CHR 0x81, CHR 0x9F],
     [CHR 0xE3, CHR 0x80, CHR 0x80]]"

lemma space_runes_nonempty: "e \<in> set space_runes \<Longrightarrow> e \<noteq> []"
  by (auto simp: space_runes_def)

function trim_left :: "string \<Rightarrow> string" where
  "trim_left s = (case find (\<lambda>e. has_prefix e s) space_runes of None \<Rightarrow> s | Some e \<Rightarrow> trim_left (drop (length e) s))"
  by auto

lemma find_space_shorter:
  assumes "find (\<lambda>e. has_prefix e s) space_runes = Some e"
  shows "length (drop (length e) s) < length s"
proof -
  from assms have "e \<in> set space_runes" "has_prefix e s" by (auto simp: find_Some_iff)
  then show ?thesis using space_runes_nonempty[of e] by (auto simp: has_prefix_iff)
qed

termination trim_left
  by (relation "measure length") (auto dest: find_space_shorter)

declare trim_left.simps [simp del]

function trim_right :: "string \<Rightarrow> string" where
  "trim_right s = (case find (\<lambda>e. has_suffix e s) space_runes of None \<Rightarrow> s
     | Some e \<Rightarrow> trim_right (take (length s - length e) s))"
  by auto

lemma find_suffix_shorter:
  assumes "find (\<lambda>e. has_suffix e s) space_runes = Some e"
  shows "length (take (length s - length e) s) < length s"
proof -
  from assms have "e \<in> set space_runes" "has_suffix e s" by (auto simp: find_Some_iff)
  then show ?thesis using space_runes_nonempty[of e] by (auto simp: has_suffix_iff)
qed

termination trim_right
  by (relation "measure length") (auto dest: find_suffix_shorter)

declare trim_right.simps [simp del]

definition trim_space :: "string \<Rightarrow> string" where
  "trim_space s = trim_right (trim_left s)"

definition no_lead_space :: "string \<Rightarrow> bool" where
  "no_lead_space s = (\<forall>e \<in> set space_runes. \<not> has_prefix e s)"

definition no_trail_space :: "string \<Rightarrow> bool" where
  "no_trail_space s = (\<forall>e \<in> set space_runes. \<not> has_suffix e s)"

lemma no_lead_iff: "no_lead_space s \<longleftrightarrow> find (\<lambda>e. has_prefix e s) space_runes = None"
  by (auto simp: no_lead_space_def find_None_iff)

lemma no_trail_iff: "no_trail_space s \<longleftrightarrow> find (\<lambda>e. has_suffix e s) space_runes = None"
  by (auto simp: no_trail_space_def find_None_iff)

lemma trim_left_id: "no_lead_space s \<Longrightarrow> trim_left s = s"
  by (subst trim_left.simps) (simp add: no_lead_iff)

lemma trim_right_id: "no_trail_space s \<Longrightarrow> trim_right s = s"
  by (subst trim_right.simps) (simp add: no_trail_iff)

lemma trim_left_clean: "no_lead_space (trim_left s)"
proof (induction s rule: trim_left.induct)
  case (1 s)
  show ?case
  proof (cases "find (\<lambda>e. has_prefix e s) space_runes")
    case None
    then have "trim_left s = s" "no_lead_space s" by (simp_all add: trim_left_id no_lead_iff)
    then show ?thesis by simp
  next
    case (Some e)
    then show ?thesis by (subst trim_left.simps) (simp add: 1[OF Some])
  qed
qed

lemma trim_right_clean: "no_trail_space (trim_right s)"
proof (induction s rule: trim_right.induct)
  case (1 s)
  show ?case
  proof (cases "find (\<lambda>e. has_suffix e s) space_runes")
    case None
    then have "trim_right s = s" "no_trail_space s" by (simp_all add: trim_right_id no_trail_iff)
    then show ?thesis by simp
  next
    case (Some e)
    then show ?thesis by (subst trim_right.simps) (simp add: 1[OF Some])
  qed
qed

lemma trim_right_prefix: "\<exists>r. s = trim_right s @ r"
proof (induction s rule: trim_right.induct)
  case (1 s)
  show ?case
  proof (cases "find (\<lambda>e. has_suffix e s) space_runes")
    case None
    then show ?thesis by (subst trim_right.simps) simp
  next
    case (Some e)
    from 1[OF Some] obtain r where "take (length s - length e) s = trim_right (take (length s - length e) s) @ r" by blast
    then have "s = trim_right (take (length s - length e) s) @ r @ drop (length s - length e) s"
      by (metis append.assoc append_take_drop_id)
    with Some show ?thesis by (subst trim_right.simps) auto
  qed
qed

lemma no_lead_prefix: "no_lead_space (a @ b) \<Longrightarrow> no_lead_space a"
  by (auto simp: no_lead_space_def has_prefix_iff)

lemma trim_space_clean: "no_lead_space (trim_space s) \<and> no_trail_space (trim_space s)"
proof -
  obtain r where "trim_left s = trim_space s @ r" using trim_right_prefix[of "trim_left s"] by (auto simp: trim_space_def)
  then show ?thesis using trim_left_clean[of s] no_lead_prefix trim_right_clean by (metis trim_space_def)
qed

lemma trim_space_idem [simp]: "trim_space (trim_space s) = trim_space s"
  using trim_space_clean[of s] by (simp add: trim_space_def[of "trim_space s"] trim_left_id trim_right_id)

end
