(* ===== verification/Tables.thy ===== *)
theory Tables
  imports Complex_Main Text
begin

text \<open>
  The database as the program sees it: one record per row type of \<open>internal/store/models.go\<close>, one
  list of rows per table, and the constraints, defaults and triggers of \<open>migrations/\<close> that the
  statements rely on. The rows of a table are in the order a scan returns them.

  A nullable column, a pointer and a nil slice are an option. A \<open>jsonb\<close> column is the JSON value
  it holds; a \<open>double precision\<close> is a rational. The generated \<open>search\<close> column is a function of
  title and body and is not stored. \<open>now()\<close> is the time of the transaction and
  \<open>gen_random_uuid()\<close> is the next element of a stream of identifiers; a repeated one violates the
  primary key, as in PostgreSQL.
\<close>

subsection \<open>JSON values\<close>

datatype json = JNull | JBool bool | JNum rat | JStr string | JArr "json list" | JObj "(string \<times> json) list"

subsection \<open>Rows\<close>

record project =
  p_id :: uuid
  p_slug :: string
  p_name :: string
  p_status :: string
  p_summary :: string
  p_repo_url :: "string option"
  p_site_url :: "string option"
  p_created_at :: gtime
  p_updated_at :: gtime
  p_instructions :: string
  p_item_seq :: int
  p_aliases :: "string list"
  p_parent :: "string option"

record item =
  i_id :: uuid
  i_project :: uuid
  i_type :: string
  i_title :: string
  i_body :: string
  i_status :: string
  i_priority :: string
  i_assignee :: "string option"
  i_position :: rat
  i_source :: string
  i_external_ref :: "string option"
  i_tags :: "string list"
  i_metadata :: json
  i_created_at :: gtime
  i_updated_at :: gtime
  i_closed_at :: "gtime option"
  i_deleted_at :: "gtime option"
  i_key :: "string option"
  i_criteria :: json
  i_seq :: int
  i_ref :: string
  i_version :: int
  i_embedding :: "rat list option"
  i_model :: string

record activity =
  a_id :: uuid
  a_project :: uuid
  a_item :: "uuid option"
  a_kind :: string
  a_actor :: string
  a_body :: string
  a_metadata :: json
  a_created_at :: gtime
  a_confidence :: string

record item_link =
  l_id :: uuid
  l_from :: uuid
  l_to :: uuid
  l_kind :: string
  l_created_at :: gtime

record item_ref =
  r_id :: uuid
  r_item :: uuid
  r_kind :: string
  r_ref :: string
  r_label :: string
  r_created_at :: gtime

record webhook =
  h_id :: uuid
  h_project :: "uuid option"
  h_url :: string
  h_secret :: string
  h_events :: "string list"
  h_active :: bool
  h_created_at :: gtime

text \<open>The data of an outbox event: the value marshalled under the key \<open>data\<close>.\<close>

datatype event_data =
    ItemData item
  | StatusData item string string
  | ActivityData activity
  | AttachmentData uuid uuid string string

record webhook_event =
  e_id :: uuid
  e_project :: "uuid option"
  e_event :: string
  e_payload :: event_data
  e_attempts :: int
  e_next :: gtime
  e_delivered_at :: "gtime option"
  e_last_error :: string
  e_created_at :: gtime
  e_hooks :: "uuid list"
  e_parked_at :: "gtime option"

record attachment =
  t_id :: uuid
  t_item :: uuid
  t_filename :: string
  t_content_type :: string
  t_size :: int
  t_object_key :: string
  t_actor :: string
  t_created_at :: gtime

record impact =
  c_id :: uuid
  c_recorded_at :: gtime
  c_actor :: string
  c_session :: string
  c_project :: string
  c_item :: "string option"
  c_effect :: string
  c_mechanism :: string
  c_refs :: "string list"
  c_evidence :: string
  c_delta :: "int option"
  c_key :: "string option"
  c_fingerprint :: string

record api_key =
  k_id :: uuid
  k_name :: string
  k_hash :: string
  k_scopes :: "string list"
  k_created_at :: gtime
  k_last_used :: "gtime option"
  k_revoked :: bool
  k_expires_at :: "gtime option"

record share =
  s_id :: uuid
  s_project :: uuid
  s_peer :: string
  s_url :: string
  s_send_mb :: string
  s_send_tok :: string
  s_recv_mb :: string
  s_recv_tok :: string
  s_secret :: string
  s_cert :: string
  s_ckey :: string
  s_ca :: string
  s_enabled :: bool
  s_last_send :: "gtime option"
  s_last_recv :: "gtime option"
  s_last_error :: string
  s_created_at :: gtime
  s_updated_at :: gtime

record share_state =
  ss_share :: uuid
  ss_kind :: string
  ss_entity :: uuid
  ss_sent :: string
  ss_base :: string
  ss_synced_at :: gtime

record setting =
  g_key :: string
  g_value :: json
  g_updated_at :: gtime

record tool_call =
  tc_called_at :: gtime
  tc_tool :: string
  tc_actor :: string
  tc_project :: string
  tc_ok :: bool
  tc_error :: string
  tc_duration_ms :: int
  tc_args :: json
  tc_result_bytes :: int
  tc_session :: string

record search_entry =
  sl_searched_at :: gtime
  sl_actor :: string
  sl_query :: string
  sl_fts :: int
  sl_semantic :: int
  sl_trigram :: int
  sl_activity :: int
  sl_returned :: int
  sl_session :: string
  sl_fts_any :: int
  sl_best :: "rat option"

record act_embedding =
  ae_activity :: uuid
  ae_vector :: "rat list option"
  ae_model :: string
  ae_created_at :: gtime

subsection \<open>The database\<close>

record db =
  db_now :: gtime
  db_rand :: "nat \<Rightarrow> uuid"
  db_drawn :: nat
  projects :: "project list"
  items :: "item list"
  activities :: "activity list"
  item_links :: "item_link list"
  item_refs :: "item_ref list"
  webhooks :: "webhook list"
  webhook_events :: "webhook_event list"
  attachments :: "attachment list"
  impacts :: "impact list"
  api_keys :: "api_key list"
  shares :: "share list"
  share_states :: "share_state list"
  settings :: "setting list"
  tool_calls :: "tool_call list"
  search_logs :: "search_entry list"
  act_embeddings :: "act_embedding list"

type_synonym 'a dbtx = "(db, 'a) tx"

text \<open>\<open>gen_random_uuid()\<close> and \<open>now()\<close>.\<close>

definition draw_uuid :: "uuid dbtx" where
  "draw_uuid s = Inr (db_rand s (db_drawn s), s\<lparr>db_drawn := db_drawn s + 1\<rparr>)"

definition get_now :: "gtime dbtx" where
  "get_now = tx_read (\<lambda>s. Inr (db_now s))"

text \<open>An empty database, whose random identifiers are the numbers from zero.\<close>

definition empty_db :: db where
  "empty_db = \<lparr>db_now = 0, db_rand = (\<lambda>n. n), db_drawn = 0, projects = [], items = [], activities = [],
     item_links = [], item_refs = [], webhooks = [], webhook_events = [], attachments = [], impacts = [],
     api_keys = [], shares = [], share_states = [], settings = [], tool_calls = [], search_logs = [],
     act_embeddings = []\<rparr>"

text \<open>A constraint: the statement fails with the given code when the condition is false.\<close>

definition require :: "bool \<Rightarrow> error \<Rightarrow> unit dbtx" where
  "require b e = (if b then tx_ret () else tx_fail e)"

definition not_null_violation :: error where "not_null_violation = PgError ''23502''"

text \<open>
  \<open>Store.WithTx\<close>: the transaction starts at \<open>now\<close>; an error rolls everything back. A statement
  outside a transaction is a transaction of its own.
\<close>

definition with_tx :: "gtime \<Rightarrow> 'a dbtx \<Rightarrow> db \<Rightarrow> (error + 'a) \<times> db" where
  "with_tx now m s = (case m (s\<lparr>db_now := now\<rparr>) of Inl e \<Rightarrow> (Inl e, s) | Inr (x, s') \<Rightarrow> (Inr x, s'))"

definition coalesce :: "'a option \<Rightarrow> 'a \<Rightarrow> 'a" where
  "coalesce x d = (case x of None \<Rightarrow> d | Some v \<Rightarrow> v)"

lemma coalesce_simps [simp]: "coalesce None d = d" "coalesce (Some v) d = v"
  by (simp_all add: coalesce_def)

text \<open>\<open>LIMIT\<close>: a null limit takes the default.\<close>

definition limit_rows :: "int option \<Rightarrow> nat \<Rightarrow> 'r list \<Rightarrow> 'r list" where
  "limit_rows n d rs = take (nat (coalesce n (int d))) rs"

text \<open>A filter whose null parameter matches every row.\<close>

definition null_match :: "'a option \<Rightarrow> 'a \<Rightarrow> bool" where
  "null_match x v = (case x of None \<Rightarrow> True | Some y \<Rightarrow> v = y)"

lemma null_match_simps [simp]: "null_match None v" "null_match (Some y) v \<longleftrightarrow> v = y"
  by (simp_all add: null_match_def)

subsection \<open>Enumerations (the CHECK constraints)\<close>

definition item_types :: "string list" where
  "item_types = [''task'', ''bug'', ''idea'', ''note'']"

definition item_statuses :: "string list" where
  "item_statuses = [''backlog'', ''todo'', ''in_progress'', ''blocked'', ''done'', ''wontfix'']"

definition item_priorities :: "string list" where
  "item_priorities = [''low'', ''med'', ''high'', ''urgent'']"

definition item_sources :: "string list" where
  "item_sources = [''manual'', ''agent'', ''bug_reporter'', ''api'', ''capture'']"

definition activity_kinds :: "string list" where
  "activity_kinds = [''decision'', ''progress'', ''status_change'', ''comment'', ''created'', ''rejected'']"

definition confidences :: "string list" where
  "confidences = [''unspecified'', ''inferred'', ''confirmed'']"

definition link_kinds :: "string list" where
  "link_kinds = [''blocks'', ''relates_to'', ''parent_of'']"

definition ref_kinds :: "string list" where
  "ref_kinds = [''commit'', ''file'', ''pr'', ''branch'', ''url'']"

definition project_statuses :: "string list" where
  "project_statuses = [''active'', ''paused'', ''done'', ''archived'']"

definition closed_statuses :: "string list" where
  "closed_statuses = [''done'', ''wontfix'']"

definition open_status :: "string \<Rightarrow> bool" where
  "open_status st = (st \<notin> set closed_statuses)"

definition item_checks :: "item \<Rightarrow> bool" where
  "item_checks i = (i_type i \<in> set item_types \<and> i_status i \<in> set item_statuses
     \<and> i_priority i \<in> set item_priorities \<and> i_source i \<in> set item_sources)"

definition activity_checks :: "activity \<Rightarrow> bool" where
  "activity_checks a = (a_kind a \<in> set activity_kinds \<and> a_confidence a \<in> set confidences)"

definition project_checks :: "project \<Rightarrow> bool" where
  "project_checks p = (p_status p \<in> set project_statuses \<and> p_parent p \<noteq> Some (p_slug p))"

subsection \<open>Looking rows up\<close>

definition find_project :: "uuid \<Rightarrow> db \<Rightarrow> error + project" where
  "find_project x s = row_find (\<lambda>p. p_id p = x) (projects s)"

definition find_slug :: "string \<Rightarrow> db \<Rightarrow> error + project" where
  "find_slug x s = row_find (\<lambda>p. p_slug p = x) (projects s)"

definition find_item :: "uuid \<Rightarrow> db \<Rightarrow> error + item" where
  "find_item x s = row_find (\<lambda>i. i_id i = x) (items s)"

definition live :: "item \<Rightarrow> bool" where
  "live i = (i_deleted_at i = None)"

definition has_row :: "('r \<Rightarrow> bool) \<Rightarrow> 'r list \<Rightarrow> bool" where
  "has_row p rs = list_ex p rs"

lemma has_row_iff [simp]: "has_row p rs \<longleftrightarrow> (\<exists>r \<in> set rs. p r)"
  by (simp add: has_row_def list_ex_iff)

subsection \<open>Lemmas on the primitives\<close>

lemma draw_uuid_Inr [tx_simps]:
  "draw_uuid s = Inr r \<longleftrightarrow> r = (db_rand s (db_drawn s), s\<lparr>db_drawn := db_drawn s + 1\<rparr>)"
  by (auto simp: draw_uuid_def)

lemma get_now_Inr [tx_simps]: "get_now s = Inr r \<longleftrightarrow> r = (db_now s, s)"
  by (auto simp: get_now_def tx_simps)

lemma require_Inr [tx_simps]: "require b e s = Inr r \<longleftrightarrow> b \<and> r = ((), s)"
  by (auto simp: require_def tx_simps)

lemma with_tx_Inr:
  "with_tx now m s = (Inr x, s') \<longleftrightarrow> m (s\<lparr>db_now := now\<rparr>) = Inr (x, s')"
  by (auto simp: with_tx_def split: sum.splits)

lemma with_tx_Inl:
  "with_tx now m s = (Inl e, s') \<longleftrightarrow> m (s\<lparr>db_now := now\<rparr>) = Inl e \<and> s' = s"
  by (auto simp: with_tx_def split: sum.splits)

lemma with_tx_keeps:
  assumes "tx_keeps I m" and "I (s\<lparr>db_now := now\<rparr>)" and "I s"
  shows "I (snd (with_tx now m s))"
  using assms by (auto simp: with_tx_def tx_keeps_def split: sum.splits)

end
