(* ===== verification/Item_Store.thy ===== *)
theory Item_Store
  imports Tables
begin

text \<open>
  The statements on items, activity, links and code references, from \<open>internal/store/\<close>
  (\<open>items.sql.go\<close>, \<open>activity.sql.go\<close>, \<open>links.sql.go\<close>, \<open>refs.sql.go\<close>), the trigger
  \<open>assign_item_ref\<close>, and the well-formedness of these tables that every statement keeps.

  Full-text matching and \<open>lower()\<close> are done by PostgreSQL and are arguments.
\<close>

subsection \<open>Inserting an item\<close>

text \<open>The BEFORE INSERT trigger: the next number of the project, and the ref made of it. It fires
  before conflicts are looked for, and it touches the project row.\<close>

definition item_ref_of :: "string \<Rightarrow> int \<Rightarrow> string" where
  "item_ref_of slug n = slug @ ''-'' @ dec_int n"

definition assign_item_ref :: "item \<Rightarrow> item dbtx" where
  "assign_item_ref i s =
     (case find_project (i_project i) s of
        Inl _ \<Rightarrow> Inl not_null_violation
      | Inr p \<Rightarrow>
         (let n = p_item_seq p + 1
          in Inr (i\<lparr>i_seq := n, i_ref := item_ref_of (p_slug p) n\<rparr>,
                  s\<lparr>projects := rows_update (\<lambda>q. p_id q = i_project i)
                      (\<lambda>q. q\<lparr>p_item_seq := n, p_updated_at := db_now s\<rparr>) (projects s)\<rparr>)))"

text \<open>The unique indexes of the table.\<close>

definition item_clash :: "item \<Rightarrow> item list \<Rightarrow> bool" where
  "item_clash i rs = has_row (\<lambda>r. i_id r = i_id i \<or> i_ref r = i_ref i
     \<or> (i_project r = i_project i \<and> (i_seq r = i_seq i \<or> (i_key i \<noteq> None \<and> i_key r = i_key i)))) rs"

definition append_item :: "item \<Rightarrow> item dbtx" where
  "append_item i s =
     (if \<not> item_checks i then Inl check_violation
      else if item_clash i (items s) then Inl unique_violation
      else Inr (i, s\<lparr>items := items s @ [i]\<rparr>))"

record create_params =
  cp_project :: uuid
  cp_type :: "string option"
  cp_title :: string
  cp_body :: "string option"
  cp_status :: "string option"
  cp_priority :: "string option"
  cp_assignee :: "string option"
  cp_position :: "rat option"
  cp_source :: "string option"
  cp_external_ref :: "string option"
  cp_tags :: "string list option"
  cp_metadata :: "json option"
  cp_key :: "string option"
  cp_criteria :: "json option"

definition new_item :: "create_params \<Rightarrow> uuid \<Rightarrow> gtime \<Rightarrow> item" where
  "new_item p u t =
     \<lparr>i_id = u, i_project = cp_project p,
      i_type = coalesce (cp_type p) ''task'', i_title = cp_title p, i_body = coalesce (cp_body p) [],
      i_status = coalesce (cp_status p) ''backlog'', i_priority = coalesce (cp_priority p) ''med'',
      i_assignee = cp_assignee p, i_position = coalesce (cp_position p) 0,
      i_source = coalesce (cp_source p) ''manual'', i_external_ref = cp_external_ref p,
      i_tags = coalesce (cp_tags p) [], i_metadata = coalesce (cp_metadata p) (JObj []),
      i_created_at = t, i_updated_at = t, i_closed_at = None, i_deleted_at = None,
      i_key = cp_key p, i_criteria = coalesce (cp_criteria p) (JArr []),
      i_seq = 0, i_ref = [], i_version = 1, i_embedding = None, i_model = []\<rparr>"

definition create_item_stmt :: "create_params \<Rightarrow> item dbtx" where
  "create_item_stmt p = tx_bind draw_uuid (\<lambda>u. tx_bind get_now (\<lambda>t.
     tx_bind (assign_item_ref (new_item p u t)) append_item))"

subsection \<open>Reading items\<close>

definition get_item :: "uuid \<Rightarrow> item dbtx" where
  "get_item x = tx_read (\<lambda>s. row_find (\<lambda>i. i_id i = x \<and> live i) (items s))"

definition get_item_by_ref :: "(string \<Rightarrow> string) \<Rightarrow> string \<Rightarrow> item dbtx" where
  "get_item_by_ref lower x = tx_read (\<lambda>s. row_find (\<lambda>i. lower (i_ref i) = lower x \<and> live i) (items s))"

definition get_item_by_key :: "uuid \<Rightarrow> string option \<Rightarrow> item dbtx" where
  "get_item_by_key pr k = tx_read (\<lambda>s. row_find (\<lambda>i. i_project i = pr \<and> k \<noteq> None \<and> i_key i = k \<and> live i) (items s))"

record list_params =
  lp_project :: "uuid option"
  lp_status :: "string option"
  lp_type :: "string option"
  lp_assignee :: "string option"
  lp_tag :: "string option"
  lp_since :: "gtime option"
  lp_q :: "string option"
  lp_off :: "int option"
  lp_lim :: "int option"

definition in_archived :: "db \<Rightarrow> uuid \<Rightarrow> bool" where
  "in_archived s pr = has_row (\<lambda>p. p_id p = pr \<and> p_status p = ''archived'') (projects s)"

definition list_items_match :: "(string \<Rightarrow> item \<Rightarrow> bool) \<Rightarrow> list_params \<Rightarrow> db \<Rightarrow> item \<Rightarrow> bool" where
  "list_items_match fts p s i =
     (live i \<and> (lp_project p \<noteq> None \<or> \<not> in_archived s (i_project i))
      \<and> null_match (lp_project p) (i_project i) \<and> null_match (lp_status p) (i_status i)
      \<and> null_match (lp_type p) (i_type i)
      \<and> (case lp_assignee p of None \<Rightarrow> True | Some a \<Rightarrow> i_assignee i = Some a)
      \<and> (case lp_tag p of None \<Rightarrow> True | Some t \<Rightarrow> t \<in> set (i_tags i))
      \<and> (case lp_since p of None \<Rightarrow> True | Some t \<Rightarrow> t \<le> i_updated_at i)
      \<and> (case lp_q p of None \<Rightarrow> True | Some q \<Rightarrow> fts q i))"

text \<open>\<open>ORDER BY position ASC, created_at DESC\<close>, as two stable sorts, the minor key first.\<close>

definition list_items_rows :: "(string \<Rightarrow> item \<Rightarrow> bool) \<Rightarrow> list_params \<Rightarrow> db \<Rightarrow> item list" where
  "list_items_rows fts p s =
     limit_rows (lp_lim p) 500 (drop (nat (coalesce (lp_off p) 0))
       (sort_key i_position (sort_key (\<lambda>i. - i_created_at i) (filter (list_items_match fts p s) (items s)))))"

definition priority_rank :: "string \<Rightarrow> nat" where
  "priority_rank p = (if p = ''urgent'' then 0 else if p = ''high'' then 1 else if p = ''med'' then 2 else 3)"

definition list_open_items :: "uuid \<Rightarrow> int \<Rightarrow> db \<Rightarrow> item list" where
  "list_open_items pr n s =
     take (nat n) (sort_key (\<lambda>i. priority_rank (i_priority i)) (sort_key i_position
       (filter (\<lambda>i. i_project i = pr \<and> live i \<and> open_status (i_status i)) (items s))))"

subsection \<open>Updating and deleting an item\<close>

text \<open>An \<open>UPDATE\<close> of at most one row that returns it, under the CHECK constraints.\<close>

definition update_item_where :: "(item \<Rightarrow> bool) \<Rightarrow> (item \<Rightarrow> item) \<Rightarrow> item dbtx" where
  "update_item_where c f s =
     (case row_find c (items s) of
        Inl e \<Rightarrow> Inl e
      | Inr i \<Rightarrow> (if item_checks (f i) then Inr (f i, s\<lparr>items := rows_update c f (items s)\<rparr>)
                  else Inl check_violation))"

definition soft_delete_item :: "uuid \<Rightarrow> item dbtx" where
  "soft_delete_item x = tx_bind get_now (\<lambda>t. update_item_where (\<lambda>i. i_id i = x \<and> live i)
     (\<lambda>i. i\<lparr>i_deleted_at := Some t, i_updated_at := t\<rparr>))"

record update_params =
  up_title :: "string option"
  up_body :: "string option"
  up_type :: "string option"
  up_status :: "string option"
  up_priority :: "string option"
  up_assignee :: "string option"
  up_position :: "rat option"
  up_tags :: "string list option"
  up_metadata :: "json option"
  up_criteria :: "json option"
  up_id :: uuid
  up_expected :: "int option"

definition updated_item :: "update_params \<Rightarrow> gtime \<Rightarrow> item \<Rightarrow> item" where
  "updated_item p t i = i\<lparr>
     i_title := coalesce (up_title p) (i_title i),
     i_body := coalesce (up_body p) (i_body i),
     i_type := coalesce (up_type p) (i_type i),
     i_status := coalesce (up_status p) (i_status i),
     i_priority := coalesce (up_priority p) (i_priority i),
     i_assignee := (case up_assignee p of Some a \<Rightarrow> Some a | None \<Rightarrow> i_assignee i),
     i_position := coalesce (up_position p) (i_position i),
     i_tags := coalesce (up_tags p) (i_tags i),
     i_metadata := coalesce (up_metadata p) (i_metadata i),
     i_criteria := coalesce (up_criteria p) (i_criteria i),
     i_closed_at := (if coalesce (up_status p) (i_status i) \<in> set closed_statuses
                     then Some (coalesce (i_closed_at i) t) else None),
     i_embedding := (if up_title p \<noteq> None \<or> up_body p \<noteq> None then None else i_embedding i),
     i_model := (if up_title p \<noteq> None \<or> up_body p \<noteq> None then [] else i_model i),
     i_version := i_version i + 1,
     i_updated_at := t\<rparr>"

definition update_item_stmt :: "update_params \<Rightarrow> item dbtx" where
  "update_item_stmt p = tx_bind get_now (\<lambda>t.
     update_item_where (\<lambda>i. i_id i = up_id p \<and> live i \<and> null_match (up_expected p) (i_version i))
       (updated_item p t))"

definition no_update :: "uuid \<Rightarrow> update_params" where
  "no_update x = \<lparr>up_title = None, up_body = None, up_type = None, up_status = None, up_priority = None,
     up_assignee = None, up_position = None, up_tags = None, up_metadata = None, up_criteria = None,
     up_id = x, up_expected = None\<rparr>"

subsection \<open>Activity\<close>

record activity_params =
  ap_project :: uuid
  ap_item :: "uuid option"
  ap_kind :: "string option"
  ap_actor :: "string option"
  ap_body :: "string option"
  ap_metadata :: "json option"
  ap_confidence :: "string option"

definition new_activity :: "activity_params \<Rightarrow> uuid \<Rightarrow> gtime \<Rightarrow> activity" where
  "new_activity p u t = \<lparr>a_id = u, a_project = ap_project p, a_item = ap_item p,
     a_kind = coalesce (ap_kind p) ''comment'', a_actor = coalesce (ap_actor p) [],
     a_body = coalesce (ap_body p) [], a_metadata = coalesce (ap_metadata p) (JObj []),
     a_created_at = t, a_confidence = coalesce (ap_confidence p) ''unspecified''\<rparr>"

text \<open>The foreign keys of an activity row.\<close>

definition activity_fk :: "db \<Rightarrow> activity \<Rightarrow> bool" where
  "activity_fk s a = (has_row (\<lambda>p. p_id p = a_project a) (projects s)
     \<and> (case a_item a of None \<Rightarrow> True | Some x \<Rightarrow> has_row (\<lambda>i. i_id i = x) (items s)))"

definition append_activity :: "activity \<Rightarrow> activity dbtx" where
  "append_activity a s =
     (if \<not> activity_checks a then Inl check_violation
      else if has_row (\<lambda>b. a_id b = a_id a) (activities s) then Inl unique_violation
      else if \<not> activity_fk s a then Inl fk_violation
      else Inr (a, s\<lparr>activities := activities s @ [a]\<rparr>))"

definition create_activity :: "activity_params \<Rightarrow> activity dbtx" where
  "create_activity p = tx_bind draw_uuid (\<lambda>u. tx_bind get_now (\<lambda>t. append_activity (new_activity p u t)))"

definition newest_first :: "activity list \<Rightarrow> activity list" where
  "newest_first as = sort_key (\<lambda>a. - a_created_at a) as"

definition list_activity :: "uuid option \<Rightarrow> uuid option \<Rightarrow> string option \<Rightarrow> gtime option \<Rightarrow> int option \<Rightarrow> db
    \<Rightarrow> activity list" where
  "list_activity pr it kind since n s = limit_rows n 200 (newest_first (filter (\<lambda>a.
     null_match pr (a_project a) \<and> (case it of None \<Rightarrow> True | Some x \<Rightarrow> a_item a = Some x)
     \<and> null_match kind (a_kind a) \<and> (case since of None \<Rightarrow> True | Some t \<Rightarrow> t \<le> a_created_at a)) (activities s)))"

definition list_recent_activity :: "uuid \<Rightarrow> int \<Rightarrow> db \<Rightarrow> activity list" where
  "list_recent_activity pr n s = take (nat n) (newest_first (filter (\<lambda>a. a_project a = pr) (activities s)))"

definition list_recent_decisions :: "uuid \<Rightarrow> int \<Rightarrow> db \<Rightarrow> activity list" where
  "list_recent_decisions pr n s = take (nat n) (newest_first
     (filter (\<lambda>a. a_project a = pr \<and> a_kind a \<in> {''decision'', ''status_change''}) (activities s)))"

definition list_rejected :: "uuid \<Rightarrow> int \<Rightarrow> db \<Rightarrow> activity list" where
  "list_rejected pr n s = take (nat n) (newest_first
     (filter (\<lambda>a. a_project a = pr \<and> a_kind a = ''rejected'') (activities s)))"

definition count_activity_since :: "uuid \<Rightarrow> gtime \<Rightarrow> db \<Rightarrow> nat" where
  "count_activity_since pr t s = length (filter (\<lambda>a. a_project a = pr \<and> t < a_created_at a) (activities s))"

subsection \<open>Links and code references\<close>

text \<open>Insert or, on the same triple, keep the row (the assignment of \<open>kind\<close> to itself).\<close>

definition create_item_link :: "uuid \<Rightarrow> uuid \<Rightarrow> string option \<Rightarrow> item_link dbtx" where
  "create_item_link f t k = tx_bind draw_uuid (\<lambda>u. tx_bind get_now (\<lambda>now. (\<lambda>s.
     (let kd = coalesce k ''relates_to'';
          l = \<lparr>l_id = u, l_from = f, l_to = t, l_kind = kd, l_created_at = now\<rparr>
      in if kd \<notin> set link_kinds \<or> f = t then Inl check_violation
         else (case row_find (\<lambda>r. l_from r = f \<and> l_to r = t \<and> l_kind r = kd) (item_links s) of
                 Inr r \<Rightarrow> Inr (r, s)
               | Inl _ \<Rightarrow>
                   (if has_row (\<lambda>r. l_id r = u) (item_links s) then Inl unique_violation
                    else if \<not> has_row (\<lambda>i. i_id i = f) (items s) \<or> \<not> has_row (\<lambda>i. i_id i = t) (items s)
                    then Inl fk_violation
                    else Inr (l, s\<lparr>item_links := item_links s @ [l]\<rparr>)))))))"

definition delete_item_link :: "uuid \<Rightarrow> unit dbtx" where
  "delete_item_link x s = Inr ((), s\<lparr>item_links := filter (\<lambda>l. l_id l \<noteq> x) (item_links s)\<rparr>)"

definition list_links_for_item :: "uuid \<Rightarrow> db \<Rightarrow> item_link list" where
  "list_links_for_item x s = sort_key l_created_at (filter (\<lambda>l. l_from l = x \<or> l_to l = x) (item_links s))"

definition create_item_ref :: "uuid \<Rightarrow> string option \<Rightarrow> string \<Rightarrow> string option \<Rightarrow> item_ref dbtx" where
  "create_item_ref x k rf label = tx_bind draw_uuid (\<lambda>u. tx_bind get_now (\<lambda>now. (\<lambda>s.
     (let r = \<lparr>r_id = u, r_item = x, r_kind = coalesce k ''url'', r_ref = rf,
               r_label = coalesce label [], r_created_at = now\<rparr>
      in if r_kind r \<notin> set ref_kinds then Inl check_violation
         else if has_row (\<lambda>q. r_id q = u) (item_refs s) then Inl unique_violation
         else if \<not> has_row (\<lambda>i. i_id i = x) (items s) then Inl fk_violation
         else Inr (r, s\<lparr>item_refs := item_refs s @ [r]\<rparr>)))))"

definition delete_item_ref :: "uuid \<Rightarrow> unit dbtx" where
  "delete_item_ref x s = Inr ((), s\<lparr>item_refs := filter (\<lambda>r. r_id r \<noteq> x) (item_refs s)\<rparr>)"

definition list_item_refs :: "uuid \<Rightarrow> db \<Rightarrow> item_ref list" where
  "list_item_refs x s = sort_key r_created_at (filter (\<lambda>r. r_item r = x) (item_refs s))"

text \<open>Blocking edges: a \<open>blocks\<close> link whose source is a live, open item.\<close>

definition open_blocker :: "db \<Rightarrow> item_link \<Rightarrow> bool" where
  "open_blocker s l = (l_kind l = ''blocks'' \<and>
     has_row (\<lambda>b. i_id b = l_from l \<and> live b \<and> open_status (i_status b)) (items s))"

definition blocked :: "db \<Rightarrow> uuid \<Rightarrow> bool" where
  "blocked s x = has_row (\<lambda>l. l_to l = x \<and> open_blocker s l) (item_links s)"

text \<open>The two listings of edges, the rows of which are the blocked item, the blocker, and the blocker's title
  and status.\<close>

definition blocking_edges :: "(item \<Rightarrow> bool) \<Rightarrow> db \<Rightarrow> (uuid \<times> uuid \<times> string \<times> string) list" where
  "blocking_edges c s = concat (map (\<lambda>l.
     concat (map (\<lambda>b. concat (map (\<lambda>d.
        if l_kind l = ''blocks'' \<and> i_id d = l_to l \<and> c d \<and> live d
           \<and> i_id b = l_from l \<and> live b \<and> open_status (i_status b)
        then [(l_to l, l_from l, i_title b, i_status b)] else []) (items s))) (items s))) (item_links s))"

definition list_blocking_edges_by_project :: "uuid \<Rightarrow> db \<Rightarrow> (uuid \<times> uuid \<times> string \<times> string) list" where
  "list_blocking_edges_by_project pr s = blocking_edges (\<lambda>d. i_project d = pr) s"

definition list_open_blocking_edges :: "db \<Rightarrow> (uuid \<times> uuid \<times> string) list" where
  "list_open_blocking_edges s = map (\<lambda>(d, b, t, _). (d, b, t)) (blocking_edges (\<lambda>_. True) s)"

definition status_rank :: "string \<Rightarrow> nat" where
  "status_rank st = (if st = ''in_progress'' then 0 else if st = ''todo'' then 1
     else if st = ''backlog'' then 2 else 3)"

definition ready_item :: "db \<Rightarrow> uuid option \<Rightarrow> item \<Rightarrow> bool" where
  "ready_item s pr i = (has_row (\<lambda>p. p_id p = i_project i \<and> p_status p = ''active'') (projects s)
     \<and> live i \<and> open_status (i_status i) \<and> null_match pr (i_project i) \<and> \<not> blocked s (i_id i))"

text \<open>A row is the item and the slug of its project.\<close>

definition slug_of :: "db \<Rightarrow> uuid \<Rightarrow> string" where
  "slug_of s pr = (case find_project pr s of Inr p \<Rightarrow> p_slug p | Inl _ \<Rightarrow> [])"

definition ready_ranked :: "uuid option \<Rightarrow> db \<Rightarrow> item list" where
  "ready_ranked pr s = sort_key (\<lambda>i. priority_rank (i_priority i)) (sort_key (\<lambda>i. status_rank (i_status i))
     (sort_key i_updated_at (filter (ready_item s pr) (items s))))"

definition list_ready_items :: "uuid option \<Rightarrow> int option \<Rightarrow> db \<Rightarrow> (item \<times> string) list" where
  "list_ready_items pr n s = map (\<lambda>i. (i, slug_of s (i_project i))) (limit_rows n 20 (ready_ranked pr s))"

end
