(* ===== verification/Item_Invariant.thy ===== *)
theory Item_Invariant
  imports Item_Store
begin

text \<open>
  Well-formedness of the project, item, activity and link tables, and its preservation by every
  statement of \<open>Item_Store\<close>. The invariant covers the primary keys, the unique indexes, the CHECK
  constraints, the foreign keys, and what no constraint states: the number and the ref of an item
  are those the trigger derives from its project.
\<close>

definition item_ok :: "db \<Rightarrow> item \<Rightarrow> bool" where
  "item_ok s i = (item_checks i \<and> 1 \<le> i_version i
     \<and> (\<exists>p \<in> set (projects s). p_id p = i_project i \<and> 1 \<le> i_seq i \<and> i_seq i \<le> p_item_seq p
          \<and> i_ref i = item_ref_of (p_slug p) (i_seq i)))"

definition item_sid :: "item \<Rightarrow> uuid \<times> int" where
  "item_sid i = (i_project i, i_seq i)"

definition keys_ok :: "item list \<Rightarrow> bool" where
  "keys_ok rs = (\<forall>i \<in> set rs. \<forall>j \<in> set rs. i_key i \<noteq> None \<and> i_key j = i_key i \<and> i_project j = i_project i \<longrightarrow> i = j)"

definition projects_ok :: "project list \<Rightarrow> bool" where
  "projects_ok ps = (distinct (map p_id ps) \<and> distinct (map p_slug ps)
     \<and> (\<forall>p \<in> set ps. project_checks p \<and> 0 \<le> p_item_seq p))"

definition items_ok :: "db \<Rightarrow> bool" where
  "items_ok s = (distinct (map i_id (items s)) \<and> distinct (map item_sid (items s))
     \<and> keys_ok (items s) \<and> (\<forall>i \<in> set (items s). item_ok s i))"

definition activities_ok :: "db \<Rightarrow> bool" where
  "activities_ok s = (distinct (map a_id (activities s))
     \<and> (\<forall>a \<in> set (activities s). activity_checks a \<and> activity_fk s a))"

definition link_ok :: "db \<Rightarrow> item_link \<Rightarrow> bool" where
  "link_ok s l = (l_kind l \<in> set link_kinds \<and> l_from l \<noteq> l_to l
     \<and> l_from l \<in> i_id ` set (items s) \<and> l_to l \<in> i_id ` set (items s))"

definition links_ok :: "db \<Rightarrow> bool" where
  "links_ok s = (distinct (map l_id (item_links s))
     \<and> distinct (map (\<lambda>l. (l_from l, l_to l, l_kind l)) (item_links s))
     \<and> (\<forall>l \<in> set (item_links s). link_ok s l)
     \<and> distinct (map r_id (item_refs s))
     \<and> (\<forall>r \<in> set (item_refs s). r_kind r \<in> set ref_kinds \<and> r_item r \<in> i_id ` set (items s)))"

definition db_ok :: "db \<Rightarrow> bool" where
  "db_ok s = (projects_ok (projects s) \<and> items_ok s \<and> activities_ok s \<and> links_ok s)"

subsection \<open>The invariant depends on five tables\<close>

text \<open>Statements on the other tables leave it alone.\<close>

definition same_core :: "db \<Rightarrow> db \<Rightarrow> bool" where
  "same_core s t = (projects t = projects s \<and> items t = items s \<and> activities t = activities s
     \<and> item_links t = item_links s \<and> item_refs t = item_refs s)"

lemma db_ok_same_core: "same_core s t \<Longrightarrow> db_ok t = db_ok s"
  by (simp add: same_core_def db_ok_def items_ok_def item_ok_def activities_ok_def activity_fk_def
      links_ok_def link_ok_def cong: option.case_cong)

lemma same_core_refl [simp]: "same_core s s"
  by (simp add: same_core_def)

lemma db_ok_now [simp]: "db_ok (s\<lparr>db_now := t\<rparr>) = db_ok s"
  by (rule db_ok_same_core) (simp add: same_core_def)

lemma db_ok_drawn [simp]: "db_ok (s\<lparr>db_drawn := n\<rparr>) = db_ok s"
  by (rule db_ok_same_core) (simp add: same_core_def)

lemma keeps_draw [tx_pres, intro]: "tx_keeps db_ok draw_uuid"
  by (rule tx_keepsI) (auto simp: draw_uuid_Inr)

lemma keeps_now [tx_pres, intro]: "tx_keeps db_ok get_now"
  by (simp add: get_now_def tx_keeps_read)

lemma keeps_require [tx_pres, intro]: "tx_keeps db_ok (require b e)"
  by (simp add: require_def tx_keeps_ret tx_keeps_fail)

lemma keeps_get_item [tx_pres, intro]: "tx_keeps db_ok (get_item x)"
  by (simp add: get_item_def tx_keeps_read)

lemma keeps_get_item_by_key [tx_pres, intro]: "tx_keeps db_ok (get_item_by_key p k)"
  by (simp add: get_item_by_key_def tx_keeps_read)

lemma with_tx_ok: "tx_keeps db_ok m \<Longrightarrow> db_ok s \<Longrightarrow> db_ok (snd (with_tx now m s))"
  by (rule with_tx_keeps) auto

subsection \<open>The number of a project\<close>

lemma find_project_Inr: "find_project x s = Inr p \<Longrightarrow> p \<in> set (projects s) \<and> p_id p = x"
  by (auto simp: find_project_def dest: row_find_Inr)

lemma project_unique:
  "projects_ok ps \<Longrightarrow> p \<in> set ps \<Longrightarrow> q \<in> set ps \<Longrightarrow> p_id p = p_id q \<Longrightarrow> p = q"
  by (auto simp: projects_ok_def distinct_map inj_on_def)

lemma slug_unique:
  "projects_ok ps \<Longrightarrow> p \<in> set ps \<Longrightarrow> q \<in> set ps \<Longrightarrow> p_slug p = p_slug q \<Longrightarrow> p = q"
  by (auto simp: projects_ok_def distinct_map inj_on_def)

lemma find_project_member:
  assumes "projects_ok (projects s)" and "p \<in> set (projects s)"
  shows "find_project (p_id p) s = Inr p"
  using assms row_find_key[of p_id "projects s" p] by (simp add: find_project_def projects_ok_def)

text \<open>What the trigger does to the project rows: same identifiers and slugs, numbers not smaller.\<close>

definition grows :: "project list \<Rightarrow> project list \<Rightarrow> bool" where
  "grows ps qs = (map p_id qs = map p_id ps \<and> map p_slug qs = map p_slug ps
     \<and> (\<forall>p \<in> set ps. \<exists>q \<in> set qs. p_id q = p_id p \<and> p_slug q = p_slug p \<and> p_item_seq p \<le> p_item_seq q)
     \<and> (\<forall>q \<in> set qs. project_checks q \<and> 0 \<le> p_item_seq q))"

lemma grows_projects_ok: "projects_ok ps \<Longrightarrow> grows ps qs \<Longrightarrow> projects_ok qs"
  by (simp add: grows_def projects_ok_def)

lemma grows_ids: "grows ps qs \<Longrightarrow> p_id ` set qs = p_id ` set ps"
  by (metis grows_def list.set_map)

lemma item_ok_grows:
  assumes "item_ok s i" and "grows (projects s) (projects t)"
  shows "item_ok t i"
proof -
  from assms(1) obtain p where p: "p \<in> set (projects s)" "p_id p = i_project i" "1 \<le> i_seq i"
    "i_seq i \<le> p_item_seq p" "i_ref i = item_ref_of (p_slug p) (i_seq i)"
    by (auto simp: item_ok_def)
  from assms(2) p(1) obtain q where "q \<in> set (projects t)" "p_id q = p_id p" "p_slug q = p_slug p"
    "p_item_seq p \<le> p_item_seq q" by (auto simp: grows_def)
  with p assms(1) show ?thesis by (force simp: item_ok_def)
qed

lemma image_row: "x \<in> f ` set rs \<longleftrightarrow> (\<exists>r \<in> set rs. f r = x)"
  by (auto simp: image_iff)

lemma activity_fk_iff:
  "activity_fk s a \<longleftrightarrow> a_project a \<in> p_id ` set (projects s)
     \<and> (\<forall>x. a_item a = Some x \<longrightarrow> x \<in> i_id ` set (items s))"
  by (auto simp: activity_fk_def image_row split: option.splits)

lemma activity_fk_mono:
  assumes "activity_fk s a" and "p_id ` set (projects s) \<subseteq> p_id ` set (projects t)"
    and "i_id ` set (items s) \<subseteq> i_id ` set (items t)"
  shows "activity_fk t a"
  using assms unfolding activity_fk_iff by blast

text \<open>A change of project numbers and of items that keeps identifiers keeps the dependent tables.\<close>

lemma dependents_ok:
  assumes "activities_ok s" and "links_ok s"
    and "p_id ` set (projects s) \<subseteq> p_id ` set (projects t)"
    and "i_id ` set (items s) \<subseteq> i_id ` set (items t)"
    and "activities t = activities s" and "item_links t = item_links s" and "item_refs t = item_refs s"
  shows "activities_ok t" and "links_ok t"
proof -
  show "activities_ok t"
    using assms(1,5) activity_fk_mono[OF _ assms(3,4)] by (auto simp: activities_ok_def)
  show "links_ok t"
    using assms(2,4,6,7) by (auto simp: links_ok_def link_ok_def)
qed

lemma bump_grows:
  assumes ok: "projects_ok ps" and p: "p \<in> set ps" "p_id p = x"
  shows "grows ps (rows_update (\<lambda>q. p_id q = x) (\<lambda>q. q\<lparr>p_item_seq := p_item_seq p + 1, p_updated_at := t\<rparr>) ps)"
proof -
  let ?f = "\<lambda>q. if p_id q = x then q\<lparr>p_item_seq := p_item_seq p + 1, p_updated_at := t\<rparr> else q"
  have upd: "rows_update (\<lambda>q. p_id q = x) (\<lambda>q. q\<lparr>p_item_seq := p_item_seq p + 1, p_updated_at := t\<rparr>) ps = map ?f ps"
    by (simp add: rows_update_def)
  have maps: "map p_id (map ?f ps) = map p_id ps" "map p_slug (map ?f ps) = map p_slug ps"
    by (simp_all add: comp_def)
  have "\<exists>q' \<in> set (map ?f ps). p_id q' = p_id q \<and> p_slug q' = p_slug q \<and> p_item_seq q \<le> p_item_seq q'"
    if q: "q \<in> set ps" for q
  proof (rule bexI)
    show "?f q \<in> set (map ?f ps)" using q by simp
    show "p_id (?f q) = p_id q \<and> p_slug (?f q) = p_slug q \<and> p_item_seq q \<le> p_item_seq (?f q)"
      using project_unique[OF ok q p(1)] p(2) by auto
  qed
  moreover have f: "project_checks (?f q) \<and> 0 \<le> p_item_seq (?f q)" if q: "q \<in> set ps" for q
    using ok q p by (auto simp: projects_ok_def project_checks_def)
  have "\<forall>q \<in> set (map ?f ps). project_checks q \<and> 0 \<le> p_item_seq q"
    unfolding set_map by (intro ballI) (use f in blast)
  ultimately show ?thesis unfolding grows_def upd maps by blast
qed

subsection \<open>Refs\<close>

lemma dec_int_inj: "0 \<le> m \<Longrightarrow> 0 \<le> n \<Longrightarrow> dec_int m = dec_int n \<longleftrightarrow> m = n"
  by (auto simp: dec_int_def dec_nat_inj)

lemma dec_int_digits: "0 \<le> n \<Longrightarrow> c \<in> set (dec_int n) \<Longrightarrow> is_digit_char c"
  by (auto simp: dec_int_def dec_nat_digits)

text \<open>The number of a ref is what follows its last dash, whatever dashes the slug contains.\<close>

lemma item_ref_inj:
  assumes "0 \<le> m" and "0 \<le> n" and "item_ref_of a m = item_ref_of b n"
  shows "a = b \<and> m = n"
proof -
  have tail: "takeWhile is_digit_char (rev (item_ref_of a k)) = rev (dec_int k)" if "0 \<le> k" for a k
    using that dec_int_digits[OF that] by (simp add: item_ref_of_def takeWhile_append takeWhile_eq_all_conv)
  from assms have "rev (dec_int m) = rev (dec_int n)" using tail by metis
  then have "m = n" using assms dec_int_inj by simp
  with assms(3) show ?thesis by (simp add: item_ref_of_def)
qed

lemma item_refs_unique:
  assumes "db_ok s" and "i \<in> set (items s)" and "j \<in> set (items s)" and "i_ref i = i_ref j"
  shows "i = j"
proof -
  have pok: "projects_ok (projects s)" and iok: "items_ok s" using assms(1) by (auto simp: db_ok_def)
  obtain p where p: "p \<in> set (projects s)" "p_id p = i_project i" "1 \<le> i_seq i"
      "i_ref i = item_ref_of (p_slug p) (i_seq i)"
    using iok assms(2) by (auto simp: items_ok_def item_ok_def)
  obtain q where q: "q \<in> set (projects s)" "p_id q = i_project j" "1 \<le> i_seq j"
      "i_ref j = item_ref_of (p_slug q) (i_seq j)"
    using iok assms(3) by (auto simp: items_ok_def item_ok_def)
  have "item_ref_of (p_slug p) (i_seq i) = item_ref_of (p_slug q) (i_seq j)" using p q assms(4) by simp
  then have "p_slug p = p_slug q \<and> i_seq i = i_seq j" using p q by (intro item_ref_inj) auto
  with slug_unique[OF pok p(1) q(1)] p q have "item_sid i = item_sid j" by (simp add: item_sid_def)
  with iok assms(2,3) show ?thesis by (simp add: items_ok_def distinct_map inj_on_def)
qed

subsection \<open>Statements keep the invariant\<close>

lemma assign_item_ref_Inr:
  assumes "assign_item_ref i s = Inr (i', s')"
  obtains p where "find_project (i_project i) s = Inr p"
    and "i' = i\<lparr>i_seq := p_item_seq p + 1, i_ref := item_ref_of (p_slug p) (p_item_seq p + 1)\<rparr>"
    and "s' = s\<lparr>projects := rows_update (\<lambda>q. p_id q = i_project i)
            (\<lambda>q. q\<lparr>p_item_seq := p_item_seq p + 1, p_updated_at := db_now s\<rparr>) (projects s)\<rparr>"
  using assms that by (auto simp: assign_item_ref_def Let_def split: sum.splits)

lemma assign_item_ref_props:
  assumes ok: "db_ok s" and a: "assign_item_ref i s = Inr (i', s')"
  shows "db_ok s'" and "grows (projects s) (projects s')" and "items s' = items s"
    and "\<exists>q \<in> set (projects s'). p_id q = i_project i' \<and> 1 \<le> i_seq i' \<and> i_seq i' \<le> p_item_seq q
           \<and> i_ref i' = item_ref_of (p_slug q) (i_seq i')"
    and "\<forall>j \<in> set (items s). i_project j = i_project i' \<longrightarrow> i_seq j < i_seq i'"
    and "i' = i\<lparr>i_seq := i_seq i', i_ref := i_ref i'\<rparr>"
proof -
  from a obtain p where p: "find_project (i_project i) s = Inr p"
    and i': "i' = i\<lparr>i_seq := p_item_seq p + 1, i_ref := item_ref_of (p_slug p) (p_item_seq p + 1)\<rparr>"
    and s': "s' = s\<lparr>projects := rows_update (\<lambda>q. p_id q = i_project i)
            (\<lambda>q. q\<lparr>p_item_seq := p_item_seq p + 1, p_updated_at := db_now s\<rparr>) (projects s)\<rparr>"
    by (rule assign_item_ref_Inr)
  from p have pm: "p \<in> set (projects s)" "p_id p = i_project i" by (auto dest: find_project_Inr)
  have pok: "projects_ok (projects s)" and iok: "items_ok s" and aok: "activities_ok s" and lok: "links_ok s"
    using ok by (auto simp: db_ok_def)
  show g: "grows (projects s) (projects s')" using bump_grows[OF pok pm] by (simp add: s')
  show it: "items s' = items s" by (simp add: s')
  have "items_ok s'" using iok item_ok_grows[OF _ g] by (auto simp: items_ok_def it)
  moreover have "p_id ` set (projects s) \<subseteq> p_id ` set (projects s')" using grows_ids[OF g] by simp
  then have "activities_ok s'" "links_ok s'"
    using dependents_ok[OF aok lok, of s'] by (simp_all add: s')
  ultimately show "db_ok s'" using grows_projects_ok[OF pok g] by (simp add: db_ok_def)
  let ?q = "p\<lparr>p_item_seq := p_item_seq p + 1, p_updated_at := db_now s\<rparr>"
  have "?q \<in> set (projects s')" using pm by (auto simp: s' rows_update_set)
  moreover have "0 \<le> p_item_seq p" using pok pm by (simp add: projects_ok_def)
  ultimately show "\<exists>q \<in> set (projects s'). p_id q = i_project i' \<and> 1 \<le> i_seq i' \<and> i_seq i' \<le> p_item_seq q
           \<and> i_ref i' = item_ref_of (p_slug q) (i_seq i')"
    using pm by (intro bexI[of _ ?q]) (simp_all add: i')
  show "\<forall>j \<in> set (items s). i_project j = i_project i' \<longrightarrow> i_seq j < i_seq i'"
  proof (intro ballI impI)
    fix j assume j: "j \<in> set (items s)" "i_project j = i_project i'"
    with iok obtain q where "q \<in> set (projects s)" "p_id q = i_project j" "i_seq j \<le> p_item_seq q"
      by (auto simp: items_ok_def item_ok_def)
    with project_unique[OF pok this(1) pm(1)] j pm show "i_seq j < i_seq i'" by (simp add: i')
  qed
  show "i' = i\<lparr>i_seq := i_seq i', i_ref := i_ref i'\<rparr>" by (simp add: i')
qed

lemma append_item_Inr:
  "append_item i s = Inr r \<longleftrightarrow> item_checks i \<and> \<not> item_clash i (items s) \<and> r = (i, s\<lparr>items := items s @ [i]\<rparr>)"
  by (auto simp: append_item_def)

lemma item_clash_iff:
  "item_clash i rs \<longleftrightarrow> (\<exists>r \<in> set rs. i_id r = i_id i \<or> i_ref r = i_ref i
     \<or> (i_project r = i_project i \<and> (i_seq r = i_seq i \<or> (i_key i \<noteq> None \<and> i_key r = i_key i))))"
  by (simp add: item_clash_def)

lemma append_item_ok:
  assumes ok: "db_ok s" and i: "item_ok s i" and c: "\<not> item_clash i (items s)"
  shows "db_ok (s\<lparr>items := items s @ [i]\<rparr>)"
proof -
  let ?t = "s\<lparr>items := items s @ [i]\<rparr>"
  have pok: "projects_ok (projects s)" and iok: "items_ok s" and aok: "activities_ok s" and lok: "links_ok s"
    using ok by (auto simp: db_ok_def)
  have io: "item_ok ?t j = item_ok s j" for j by (simp add: item_ok_def)
  have "keys_ok (items s @ [i])"
    using iok c by (auto simp: items_ok_def keys_ok_def item_clash_iff)
  moreover have "i_id i \<notin> i_id ` set (items s)" "item_sid i \<notin> item_sid ` set (items s)"
    using c by (auto simp: item_clash_iff item_sid_def)
  ultimately have "items_ok ?t" using iok i by (simp add: items_ok_def io)
  moreover have "activities_ok ?t" "links_ok ?t" by (rule dependents_ok[OF aok lok]; auto)+
  ultimately show ?thesis using pok by (simp add: db_ok_def)
qed

text \<open>A row that went through the trigger clashes on its identifier or its key only.\<close>

lemma assigned_clash:
  assumes ok: "db_ok s" and a: "assign_item_ref i s = Inr (i', s')"
  shows "item_clash i' (items s') \<longleftrightarrow> (\<exists>r \<in> set (items s). i_id r = i_id i
     \<or> (i_project r = i_project i \<and> i_key i \<noteq> None \<and> i_key r = i_key i))"
proof -
  note props = assign_item_ref_props[OF ok a]
  have same: "i_id i' = i_id i" "i_project i' = i_project i" "i_key i' = i_key i"
    by (subst props(6), simp)+
  have new: "i_ref r \<noteq> i_ref i'" if r: "r \<in> set (items s)" for r
  proof
    assume eq: "i_ref r = i_ref i'"
    obtain q where q: "q \<in> set (projects s')" "p_id q = i_project i'" "1 \<le> i_seq i'"
      "i_ref i' = item_ref_of (p_slug q) (i_seq i')" using props(4) by auto
    have "items_ok s'" using props(1) by (simp add: db_ok_def)
    then obtain p where p: "p \<in> set (projects s')" "p_id p = i_project r" "1 \<le> i_seq r"
      "i_ref r = item_ref_of (p_slug p) (i_seq r)"
      using r by (auto simp: items_ok_def item_ok_def props(3))
    have "item_ref_of (p_slug p) (i_seq r) = item_ref_of (p_slug q) (i_seq i')" using p q eq by simp
    then have e: "p_slug p = p_slug q \<and> i_seq r = i_seq i'" using p q by (intro item_ref_inj) auto
    have "projects_ok (projects s')" using props(1) by (simp add: db_ok_def)
    then have "p = q" using slug_unique p(1) q(1) e by metis
    with p q e props(5) r show False by auto
  qed
  have "\<forall>r \<in> set (items s). i_project r = i_project i' \<longrightarrow> i_seq r \<noteq> i_seq i'"
    using props(5) by auto
  with new show ?thesis unfolding item_clash_iff props(3) same by (auto simp: same)
qed

lemma insert_item_ok:
  assumes ok: "db_ok s" and v: "1 \<le> i_version i"
    and r: "tx_bind (assign_item_ref i) append_item s = Inr (i', s'')"
  shows "db_ok s''"
proof -
  from r obtain s' where a: "assign_item_ref i s = Inr (i', s')" and p: "append_item i' s' = Inr (i', s'')"
    by (auto simp: tx_simps append_item_Inr)
  note props = assign_item_ref_props[OF ok a]
  have "1 \<le> i_version i'" by (subst props(6)) (simp add: v)
  then have "item_ok s' i'" using p props(4) by (auto simp: item_ok_def append_item_Inr)
  with append_item_ok[OF props(1)] p show ?thesis by (auto simp: append_item_Inr)
qed

lemma keeps_create_item_stmt [tx_pres, intro]: "tx_keeps db_ok (create_item_stmt p)"
proof (rule tx_keepsI)
  fix s x s' assume ok: "db_ok s" and r: "create_item_stmt p s = Inr (x, s')"
  then have "tx_bind (assign_item_ref (new_item p (db_rand s (db_drawn s)) (db_now s))) append_item
      (s\<lparr>db_drawn := db_drawn s + 1\<rparr>) = Inr (x, s')"
    by (auto simp: create_item_stmt_def tx_simps)
  from insert_item_ok[OF _ _ this] ok show "db_ok s'" by (simp add: new_item_def)
qed

subsection \<open>Updates of items\<close>

text \<open>What an update of an item leaves alone: its identity, its number, its key, and that its version
  does not fall below one.\<close>

definition keeps_identity :: "(item \<Rightarrow> item) \<Rightarrow> bool" where
  "keeps_identity f \<longleftrightarrow> (\<forall>i. i_id (f i) = i_id i \<and> i_project (f i) = i_project i \<and> i_seq (f i) = i_seq i
     \<and> i_ref (f i) = i_ref i \<and> i_key (f i) = i_key i \<and> (1 \<le> i_version i \<longrightarrow> 1 \<le> i_version (f i)))"

lemma rows_update_cond:
  "rows_update c f rs = map (\<lambda>r. if c r then f r else r) rs"
  by (simp add: rows_update_def)

lemma distinct_map_image:
  assumes "distinct (map k rs)" and "\<And>r. k (g r) = k r"
  shows "distinct (map k (map g rs))"
  using assms by (simp add: comp_def)

lemma update_rows_ok:
  assumes ok: "db_ok s" and f: "keeps_identity f"
    and chk: "\<forall>i \<in> set (items s). c i \<longrightarrow> item_checks (f i)"
  shows "db_ok (s\<lparr>items := rows_update c f (items s)\<rparr>)"
proof -
  let ?g = "\<lambda>i. if c i then f i else i"
  let ?t = "s\<lparr>items := rows_update c f (items s)\<rparr>"
  have pok: "projects_ok (projects s)" and iok: "items_ok s" and aok: "activities_ok s" and lok: "links_ok s"
    using ok by (auto simp: db_ok_def)
  have g: "i_id (?g i) = i_id i" "item_sid (?g i) = item_sid i" "i_key (?g i) = i_key i"
    "i_project (?g i) = i_project i" for i
    using f by (auto simp: keeps_identity_def item_sid_def)
  have upd: "items ?t = map ?g (items s)" by (simp add: rows_update_cond)
  have d: "distinct (map i_id (map ?g (items s)))" "distinct (map item_sid (map ?g (items s)))"
    using iok g by (simp_all only: items_ok_def distinct_map_image)
  have "item_ok ?t (?g i)" if i: "i \<in> set (items s)" for i
    using iok f chk i by (auto simp: items_ok_def item_ok_def keeps_identity_def)
  then have "\<forall>j \<in> set (map ?g (items s)). item_ok ?t j" unfolding set_map by blast
  moreover have "keys_ok (map ?g (items s))"
    unfolding keys_ok_def set_map using iok g by (auto simp: items_ok_def keys_ok_def simp del: if_image_distrib)
  ultimately have "items_ok ?t" using d by (simp only: items_ok_def upd)
  moreover have "i_id ` set (items s) \<subseteq> i_id ` set (items ?t)"
    unfolding upd set_map image_image g by simp
  then have "activities_ok ?t" "links_ok ?t" by (rule dependents_ok[OF aok lok, rotated]; simp)+
  ultimately show ?thesis using pok by (simp add: db_ok_def)
qed

lemma update_item_where_Inr:
  assumes "update_item_where c f s = Inr (i', s')"
  obtains i where "row_find c (items s) = Inr i" "i \<in> set (items s)" "c i" "i' = f i" "item_checks (f i)"
    "s' = s\<lparr>items := rows_update c f (items s)\<rparr>"
  using assms that by (auto simp: update_item_where_def split: sum.splits if_splits dest: row_find_Inr)

lemma keeps_update_item_where:
  assumes f: "keeps_identity f"
    and one: "\<And>i j. c i \<Longrightarrow> c j \<Longrightarrow> i_id i = i_id j"
  shows "tx_keeps db_ok (update_item_where c f)"
proof (rule tx_keepsI)
  fix s x s' assume ok: "db_ok s" and r: "update_item_where c f s = Inr (x, s')"
  then obtain i where i: "i \<in> set (items s)" "c i" "item_checks (f i)"
    and s': "s' = s\<lparr>items := rows_update c f (items s)\<rparr>" by (metis update_item_where_Inr)
  have "j = i" if "j \<in> set (items s)" "c j" for j
    using ok i that one[OF i(2) that(2)] by (simp add: db_ok_def items_ok_def distinct_map inj_on_def)
  with i have "\<forall>j \<in> set (items s). c j \<longrightarrow> item_checks (f j)" by blast
  from update_rows_ok[OF ok f this] show "db_ok s'" by (simp add: s')
qed

lemma keeps_identity_updated [simp]: "keeps_identity (updated_item p t)"
  by (simp add: keeps_identity_def updated_item_def)

lemma keeps_update_item_stmt [tx_pres, intro]: "tx_keeps db_ok (update_item_stmt p)"
  unfolding update_item_stmt_def by (intro tx_keeps_bind keeps_now keeps_update_item_where) auto

lemma keeps_soft_delete_item [tx_pres, intro]: "tx_keeps db_ok (soft_delete_item x)"
  unfolding soft_delete_item_def
  by (intro tx_keeps_bind keeps_now keeps_update_item_where) (auto simp: keeps_identity_def)

subsection \<open>Activity, links and references\<close>

lemma append_activity_Inr:
  "append_activity a s = Inr r \<longleftrightarrow> activity_checks a \<and> (\<forall>b \<in> set (activities s). a_id b \<noteq> a_id a)
     \<and> activity_fk s a \<and> r = (a, s\<lparr>activities := activities s @ [a]\<rparr>)"
  by (auto simp: append_activity_def)

lemma keeps_append_activity [tx_pres, intro]: "tx_keeps db_ok (append_activity a)"
proof (rule tx_keepsI)
  fix s x s' assume ok: "db_ok s" and r: "append_activity a s = Inr (x, s')"
  then have s': "s' = s\<lparr>activities := activities s @ [a]\<rparr>" by (simp add: append_activity_Inr)
  have fk: "activity_fk s' b = activity_fk s b" for b by (simp add: activity_fk_iff s')
  have "items_ok s'" "links_ok s'" using ok by (auto simp: db_ok_def items_ok_def item_ok_def links_ok_def link_ok_def s')
  moreover have "activities_ok s'"
    using ok r unfolding activities_ok_def fk by (auto simp: db_ok_def activities_ok_def append_activity_Inr s')
  ultimately show "db_ok s'" using ok by (simp add: db_ok_def s')
qed

lemma keeps_create_activity [tx_pres, intro]: "tx_keeps db_ok (create_activity p)"
  unfolding create_activity_def by (intro tx_keeps_bind keeps_draw keeps_now keeps_append_activity)

lemma links_only_ok:
  assumes "db_ok s" and "links_ok (s\<lparr>item_links := ls, item_refs := rs\<rparr>)"
  shows "db_ok (s\<lparr>item_links := ls, item_refs := rs\<rparr>)"
proof -
  let ?t = "s\<lparr>item_links := ls, item_refs := rs\<rparr>"
  have "activity_fk ?t = activity_fk s" by (rule ext) (simp add: activity_fk_iff)
  then show ?thesis using assms by (auto simp: db_ok_def items_ok_def item_ok_def activities_ok_def)
qed

lemma keeps_create_item_link [tx_pres, intro]: "tx_keeps db_ok (create_item_link f t k)"
proof (rule tx_keepsI)
  fix s x s' assume ok: "db_ok s" and r: "create_item_link f t k s = Inr (x, s')"
  define s1 where "s1 = s\<lparr>db_drawn := db_drawn s + 1\<rparr>"
  have ok1: "db_ok s1" using ok by (simp add: s1_def)
  show "db_ok s'"
  proof (cases "row_find (\<lambda>r. l_from r = f \<and> l_to r = t \<and> l_kind r = coalesce k ''relates_to'') (item_links s)")
    case (Inr l)
    with r ok1 show ?thesis by (auto simp: create_item_link_def tx_simps Let_def s1_def split: if_splits)
  next
    case (Inl e)
    then have none: "\<forall>q \<in> set (item_links s). \<not> (l_from q = f \<and> l_to q = t \<and> l_kind q = coalesce k ''relates_to'')"
      by (simp add: row_find_Inl)
    define l where "l = \<lparr>l_id = db_rand s (db_drawn s), l_from = f, l_to = t,
      l_kind = coalesce k ''relates_to'', l_created_at = db_now s\<rparr>"
    have l: "l_kind l \<in> set link_kinds" "l_from l \<noteq> l_to l" "l_from l \<in> i_id ` set (items s)"
        "l_to l \<in> i_id ` set (items s)" "\<forall>q \<in> set (item_links s). l_id q \<noteq> l_id l"
      and s': "s' = s1\<lparr>item_links := item_links s @ [l]\<rparr>"
      using r by (auto simp: create_item_link_def tx_simps Let_def s1_def image_row Inl l_def split: if_splits)
    have "\<forall>q \<in> set (item_links s). (l_from q, l_to q, l_kind q) \<noteq> (l_from l, l_to l, l_kind l)"
      using none by (auto simp: l_def)
    have "links_ok (s1\<lparr>item_links := item_links s @ [l], item_refs := item_refs s1\<rparr>)"
      using ok1 l \<open>\<forall>q \<in> set (item_links s). (l_from q, l_to q, l_kind q) \<noteq> (l_from l, l_to l, l_kind l)\<close>
      by (auto simp: db_ok_def links_ok_def link_ok_def s1_def)
    from links_only_ok[OF ok1 this] show ?thesis by (simp add: s')
  qed
qed

lemma keeps_delete_item_link [tx_pres, intro]: "tx_keeps db_ok (delete_item_link x)"
proof (rule tx_keepsI)
  fix s y s' assume ok: "db_ok s" and r: "delete_item_link x s = Inr (y, s')"
  have "links_ok (s\<lparr>item_links := filter (\<lambda>l. l_id l \<noteq> x) (item_links s), item_refs := item_refs s\<rparr>)"
    using ok by (auto simp: db_ok_def links_ok_def link_ok_def distinct_map_filter)
  from links_only_ok[OF ok this] r show "db_ok s'" by (simp add: delete_item_link_def)
qed

lemma keeps_create_item_ref [tx_pres, intro]: "tx_keeps db_ok (create_item_ref x k rf lb)"
proof (rule tx_keepsI)
  fix s y s' assume ok: "db_ok s" and r: "create_item_ref x k rf lb s = Inr (y, s')"
  define s1 where "s1 = s\<lparr>db_drawn := db_drawn s + 1\<rparr>"
  have ok1: "db_ok s1" using ok by (simp add: s1_def)
  from r have y: "r_kind y \<in> set ref_kinds" "r_item y \<in> i_id ` set (items s)"
      "\<forall>q \<in> set (item_refs s). r_id q \<noteq> r_id y"
    and s': "s' = s1\<lparr>item_refs := item_refs s @ [y]\<rparr>"
    by (auto simp: create_item_ref_def tx_simps Let_def s1_def image_row split: if_splits)
  have "links_ok (s1\<lparr>item_links := item_links s1, item_refs := item_refs s @ [y]\<rparr>)"
    using ok1 y by (auto simp: db_ok_def links_ok_def link_ok_def s1_def)
  from links_only_ok[OF ok1 this] show "db_ok s'" by (simp add: s')
qed

lemma keeps_delete_item_ref [tx_pres, intro]: "tx_keeps db_ok (delete_item_ref x)"
proof (rule tx_keepsI)
  fix s y s' assume ok: "db_ok s" and r: "delete_item_ref x s = Inr (y, s')"
  have "links_ok (s\<lparr>item_links := item_links s, item_refs := filter (\<lambda>l. r_id l \<noteq> x) (item_refs s)\<rparr>)"
    using ok by (auto simp: db_ok_def links_ok_def link_ok_def distinct_map_filter)
  from links_only_ok[OF ok this] r show "db_ok s'" by (simp add: delete_item_ref_def)
qed

end
