(* ===== verification/Webhooks.thy ===== *)
theory Webhooks
  imports Item_Invariant
begin

text \<open>
  The transactional outbox: the statements of \<open>internal/store/webhooks.sql.go\<close>, \<open>enqueue\<close> and the
  delivery worker of \<open>internal/service/webhooks.go\<close>. The worker's state is the database and the
  list of the posts it made, each with its outcome; the network is a function from a request to a
  transport error or a status.
\<close>

subsection \<open>Statements\<close>

definition create_webhook :: "uuid option \<Rightarrow> string \<Rightarrow> string option \<Rightarrow> string list option \<Rightarrow> webhook dbtx" where
  "create_webhook pr url secret evs = tx_bind draw_uuid (\<lambda>u. tx_bind get_now (\<lambda>t. (\<lambda>s.
     (let h = \<lparr>h_id = u, h_project = pr, h_url = url, h_secret = coalesce secret [],
               h_events = coalesce evs [], h_active = True, h_created_at = t\<rparr>
      in if has_row (\<lambda>r. h_id r = u) (webhooks s) then Inl unique_violation
         else if \<not> (case pr of None \<Rightarrow> True | Some x \<Rightarrow> has_row (\<lambda>p. p_id p = x) (projects s))
         then Inl fk_violation
         else Inr (h, s\<lparr>webhooks := webhooks s @ [h]\<rparr>)))))"

definition delete_webhook :: "uuid \<Rightarrow> unit dbtx" where
  "delete_webhook x s = Inr ((), s\<lparr>webhooks := filter (\<lambda>h. h_id h \<noteq> x) (webhooks s)\<rparr>)"

definition list_webhooks :: "db \<Rightarrow> webhook list" where
  "list_webhooks s = sort_key (\<lambda>h. - h_created_at h) (webhooks s)"

definition enqueue_webhook_event :: "string \<Rightarrow> event_data \<Rightarrow> uuid option \<Rightarrow> webhook_event dbtx" where
  "enqueue_webhook_event ev payload pr = tx_bind draw_uuid (\<lambda>u. tx_bind get_now (\<lambda>t. (\<lambda>s.
     (let e = \<lparr>e_id = u, e_project = pr, e_event = ev, e_payload = payload, e_attempts = 0, e_next = t,
               e_delivered_at = None, e_last_error = [], e_created_at = t, e_hooks = [], e_parked_at = None\<rparr>
      in if has_row (\<lambda>r. e_id r = u) (webhook_events s) then Inl unique_violation
         else if \<not> (case pr of None \<Rightarrow> True | Some x \<Rightarrow> has_row (\<lambda>p. p_id p = x) (projects s))
         then Inl fk_violation
         else Inr (e, s\<lparr>webhook_events := webhook_events s @ [e]\<rparr>)))))"

definition pending_event :: "gtime \<Rightarrow> webhook_event \<Rightarrow> bool" where
  "pending_event now e = (e_delivered_at e = None \<and> e_parked_at e = None \<and> e_next e \<le> now)"

definition lease_webhook_events :: "int \<Rightarrow> webhook_event list dbtx" where
  "lease_webhook_events n s =
     (let ids = map e_id (take (nat n) (sort_key e_next (filter (pending_event (db_now s)) (webhook_events s))));
          f = (\<lambda>e. e\<lparr>e_next := db_now s + minute\<rparr>)
      in Inr (map f (filter (\<lambda>e. e_id e \<in> set ids) (webhook_events s)),
              s\<lparr>webhook_events := rows_update (\<lambda>e. e_id e \<in> set ids) f (webhook_events s)\<rparr>))"

definition hook_matches :: "uuid option \<Rightarrow> string \<Rightarrow> webhook \<Rightarrow> bool" where
  "hook_matches pr ev h = (h_active h \<and> (h_project h = None \<or> (pr \<noteq> None \<and> h_project h = pr))
     \<and> (h_events h = [] \<or> ev \<in> set (h_events h)))"

definition list_active_webhooks_for_event :: "uuid option \<Rightarrow> string \<Rightarrow> db \<Rightarrow> webhook list" where
  "list_active_webhooks_for_event pr ev s = sort_key h_created_at (filter (hook_matches pr ev) (webhooks s))"

definition list_failed_webhook_events :: "int \<Rightarrow> db \<Rightarrow> webhook_event list" where
  "list_failed_webhook_events n s =
     take (nat n) (sort_key (\<lambda>e. - e_created_at e) (filter (\<lambda>e. e_last_error e \<noteq> []) (webhook_events s)))"

definition update_event :: "uuid \<Rightarrow> (webhook_event \<Rightarrow> webhook_event) \<Rightarrow> db \<Rightarrow> db" where
  "update_event x f s = s\<lparr>webhook_events := rows_update (\<lambda>e. e_id e = x) f (webhook_events s)\<rparr>"

definition mark_webhook_event_delivered :: "uuid \<Rightarrow> string \<Rightarrow> db \<Rightarrow> db" where
  "mark_webhook_event_delivered x err s =
     update_event x (\<lambda>e. e\<lparr>e_delivered_at := Some (db_now s), e_last_error := err\<rparr>) s"

definition park_webhook_event :: "uuid \<Rightarrow> string \<Rightarrow> uuid list \<Rightarrow> db \<Rightarrow> db" where
  "park_webhook_event x err hooks s =
     update_event x (\<lambda>e. e\<lparr>e_parked_at := Some (db_now s), e_last_error := err, e_hooks := hooks\<rparr>) s"

definition reschedule_webhook_event :: "uuid \<Rightarrow> gtime \<Rightarrow> string \<Rightarrow> uuid list \<Rightarrow> db \<Rightarrow> db" where
  "reschedule_webhook_event x next err hooks s =
     update_event x (\<lambda>e. e\<lparr>e_attempts := e_attempts e + 1, e_next := next, e_last_error := err,
                          e_hooks := hooks\<rparr>) s"

definition purge_delivered_webhook_events :: "gtime \<Rightarrow> db \<Rightarrow> nat \<times> db" where
  "purge_delivered_webhook_events before s =
     (let gone = (\<lambda>e. case e_delivered_at e of None \<Rightarrow> False | Some t \<Rightarrow> t < before)
      in (length (filter gone (webhook_events s)),
          s\<lparr>webhook_events := filter (\<lambda>e. \<not> gone e) (webhook_events s)\<rparr>))"

definition purge_parked_webhook_events :: "gtime \<Rightarrow> db \<Rightarrow> nat \<times> db" where
  "purge_parked_webhook_events before s =
     (let gone = (\<lambda>e. case e_parked_at e of None \<Rightarrow> False | Some t \<Rightarrow> t < before)
      in (length (filter gone (webhook_events s)),
          s\<lparr>webhook_events := filter (\<lambda>e. \<not> gone e) (webhook_events s)\<rparr>))"

text \<open>\<open>enqueue\<close>, inside the caller's transaction. (Its broadcast to the hub is not a database effect.)\<close>

definition enqueue :: "uuid \<Rightarrow> string \<Rightarrow> event_data \<Rightarrow> unit dbtx" where
  "enqueue pr ev payload = tx_bind (enqueue_webhook_event ev payload (Some pr)) (\<lambda>_. tx_ret ())"

subsection \<open>The delivery worker\<close>

definition webhook_max_attempts :: int where "webhook_max_attempts = 8"
definition webhook_lease_batch :: int where "webhook_lease_batch = 50"

record hook_request =
  q_url :: string
  q_event :: string
  q_signature :: "string option"
  q_payload :: event_data

type_synonym network = "hook_request \<Rightarrow> string + nat"

definition deliver :: "(string \<Rightarrow> event_data \<Rightarrow> string) \<Rightarrow> network \<Rightarrow> webhook \<Rightarrow> webhook_event \<Rightarrow> string option" where
  "deliver hmac net h e =
     (case net \<lparr>q_url = h_url h, q_event = e_event e,
                q_signature = (if h_secret h \<noteq> [] then Some (''sha256='' @ hmac (h_secret h) (e_payload e)) else None),
                q_payload = e_payload e\<rparr> of
        Inl err \<Rightarrow> Some err
      | Inr status \<Rightarrow> if 300 \<le> status then Some (''status '' @ dec_nat status) else None)"

text \<open>The loop over the matching webhooks: the ones already served are skipped; the result is the list
  served now, whether all went well, the last error, and the posts made.\<close>

primrec fan_out :: "(webhook \<Rightarrow> string option) \<Rightarrow> uuid set \<Rightarrow> webhook list \<Rightarrow> uuid list \<Rightarrow> bool \<Rightarrow> string
    \<Rightarrow> (uuid \<times> bool) list \<Rightarrow> uuid list \<times> bool \<times> string \<times> (uuid \<times> bool) list" where
  "fan_out dl already [] delivered ok err posts = (delivered, ok, err, posts)"
| "fan_out dl already (h # hs) delivered ok err posts =
     (if h_id h \<in> already then fan_out dl already hs delivered ok err posts
      else (case dl h of
              Some e \<Rightarrow> fan_out dl already hs delivered False e (posts @ [(h_id h, False)])
            | None \<Rightarrow> fan_out dl already hs (delivered @ [h_id h]) ok err (posts @ [(h_id h, True)])))"

definition backoff :: "int \<Rightarrow> gtime" where
  "backoff attempts = (min (2 ^ nat attempts) 3600) * second"

record worker =
  wk_db :: db
  wk_log :: "(uuid \<times> uuid \<times> bool) list"

definition reschedule_event :: "webhook_event \<Rightarrow> gtime \<Rightarrow> string \<Rightarrow> uuid list \<Rightarrow> db \<Rightarrow> db" where
  "reschedule_event ev now err hooks = reschedule_webhook_event (e_id ev) (now + backoff (e_attempts ev)) err hooks"

text \<open>\<open>look\<close>: the error of the lookup of webhooks, if it fails.\<close>

definition deliver_event :: "(string \<Rightarrow> event_data \<Rightarrow> string) \<Rightarrow> network \<Rightarrow> string option \<Rightarrow> webhook_event
    \<Rightarrow> worker \<Rightarrow> worker" where
  "deliver_event hmac net look ev w =
     (let s = wk_db w; now = db_now s in
      case look of
        Some err \<Rightarrow> w\<lparr>wk_db := reschedule_event ev now (''lookup: '' @ err) (e_hooks ev) s\<rparr>
      | None \<Rightarrow>
          (let hooks = list_active_webhooks_for_event (e_project ev) (e_event ev) s;
               (delivered, ok, err, posts) =
                 fan_out (\<lambda>h. deliver hmac net h ev) (set (e_hooks ev)) hooks (e_hooks ev) True [] [];
               log' = wk_log w @ map (\<lambda>(h, a). (e_id ev, h, a)) posts
           in if ok then \<lparr>wk_db = mark_webhook_event_delivered (e_id ev) [] s, wk_log = log'\<rparr>
              else if webhook_max_attempts \<le> e_attempts ev + 1
              then \<lparr>wk_db = park_webhook_event (e_id ev) err delivered s, wk_log = log'\<rparr>
              else \<lparr>wk_db = reschedule_event ev now err delivered s, wk_log = log'\<rparr>))"

text \<open>One batch. The network and the outcome of the lookups may differ from event to event.\<close>

definition process_webhook_batch :: "(string \<Rightarrow> event_data \<Rightarrow> string) \<Rightarrow> (uuid \<Rightarrow> network) \<Rightarrow> (uuid \<Rightarrow> string option)
    \<Rightarrow> worker \<Rightarrow> worker" where
  "process_webhook_batch hmac net look w =
     (case lease_webhook_events webhook_lease_batch (wk_db w) of
        Inl _ \<Rightarrow> w
      | Inr (evs, s) \<Rightarrow> foldl (\<lambda>w ev. deliver_event hmac (net (e_id ev)) (look (e_id ev)) ev w) (w\<lparr>wk_db := s\<rparr>) evs)"

end
