(* ===== verification/Webhook_Delivery.thy ===== *)
theory Webhook_Delivery
  imports Webhooks
begin

text \<open>
  Delivery guarantees of the outbox over arbitrary histories: enqueues, batches, changes of the
  subscriptions, purges and the passing of time. Per subscriber an event is acknowledged at most
  once; a settled event is never posted again; retries follow the exponential schedule and end.
\<close>

subsection \<open>The outbox as a machine\<close>

datatype wevent =
    WEnqueue "uuid option" string event_data
  | WBatch "uuid \<Rightarrow> network" "uuid \<Rightarrow> string option"
  | WTick gtime
  | WHook "uuid option" string "string option" "string list option"
  | WUnhook uuid
  | WPurgeDelivered gtime
  | WPurgeParked gtime

definition commit :: "'a dbtx \<Rightarrow> db \<Rightarrow> db" where
  "commit m s = (case m s of Inl _ \<Rightarrow> s | Inr (_, s') \<Rightarrow> s')"

fun wstep :: "(string \<Rightarrow> event_data \<Rightarrow> string) \<Rightarrow> worker \<Rightarrow> wevent \<Rightarrow> worker" where
  "wstep hm w (WEnqueue pr ev d) = w\<lparr>wk_db := commit (enqueue_webhook_event ev d pr) (wk_db w)\<rparr>"
| "wstep hm w (WBatch net look) = process_webhook_batch hm net look w"
| "wstep hm w (WTick t) = w\<lparr>wk_db := (wk_db w)\<lparr>db_now := t\<rparr>\<rparr>"
| "wstep hm w (WHook pr url sec evs) = w\<lparr>wk_db := commit (create_webhook pr url sec evs) (wk_db w)\<rparr>"
| "wstep hm w (WUnhook x) = w\<lparr>wk_db := commit (delete_webhook x) (wk_db w)\<rparr>"
| "wstep hm w (WPurgeDelivered t) = w\<lparr>wk_db := snd (purge_delivered_webhook_events t (wk_db w))\<rparr>"
| "wstep hm w (WPurgeParked t) = w\<lparr>wk_db := snd (purge_parked_webhook_events t (wk_db w))\<rparr>"

definition acks :: "(uuid \<times> uuid \<times> bool) list \<Rightarrow> (uuid \<times> uuid) list" where
  "acks lg = map (\<lambda>(e, h, _). (e, h)) (filter (\<lambda>(_, _, a). a) lg)"

definition drawn_ids :: "db \<Rightarrow> uuid set" where
  "drawn_ids s = db_rand s ` {..<db_drawn s}"

text \<open>
  Identifiers are drawn from an injective stream; the rows and the log only mention drawn ones; an
  acknowledged post is remembered in its event's row, unless that event is delivered.
\<close>

definition events_ok :: "db \<Rightarrow> bool" where
  "events_ok s = (inj (db_rand s) \<and> distinct (map e_id (webhook_events s)) \<and> distinct (map h_id (webhooks s))
     \<and> e_id ` set (webhook_events s) \<subseteq> drawn_ids s)"

definition remembered :: "(uuid \<times> uuid \<times> bool) list \<Rightarrow> webhook_event \<Rightarrow> bool" where
  "remembered lg ev = (e_delivered_at ev \<noteq> None \<or> (\<forall>h. (e_id ev, h) \<in> set (acks lg) \<longrightarrow> h \<in> set (e_hooks ev)))"

definition wk_ok :: "worker \<Rightarrow> bool" where
  "wk_ok w = (events_ok (wk_db w) \<and> distinct (acks (wk_log w))
     \<and> fst ` set (wk_log w) \<subseteq> drawn_ids (wk_db w)
     \<and> (\<forall>ev \<in> set (webhook_events (wk_db w)). remembered (wk_log w) ev))"

lemma acks_append [simp]: "acks (l1 @ l2) = acks l1 @ acks l2"
  by (simp add: acks_def)

lemma acks_fst: "(e, h) \<in> set (acks l) \<Longrightarrow> e \<in> fst ` set l"
  by (force simp: acks_def)

subsection \<open>The fan-out\<close>

lemma fan_out_spec:
  assumes "fan_out dl already hs d0 ok0 err0 p0 = (d, ok, err, p)" and "distinct (map h_id hs)"
  shows "\<exists>q. p = p0 @ q \<and> d = d0 @ map fst (filter snd q) \<and> distinct (map fst q)
    \<and> set (map fst q) = {h_id h | h. h \<in> set hs \<and> h_id h \<notin> already}
    \<and> ok = (ok0 \<and> (\<forall>x \<in> set q. snd x))
    \<and> (\<forall>x \<in> set q. \<exists>h \<in> set hs. h_id h = fst x \<and> snd x = (dl h = None))"
  using assms
proof (induction hs arbitrary: d0 ok0 err0 p0)
  case Nil
  then show ?case by simp
next
  case (Cons h hs)
  have dh: "distinct (map h_id hs)" "h_id h \<notin> h_id ` set hs" using Cons.prems(2) by auto
  show ?case
  proof (cases "h_id h \<in> already")
    case True
    with Cons.prems(1) have "fan_out dl already hs d0 ok0 err0 p0 = (d, ok, err, p)" by simp
    from Cons.IH[OF this dh(1)] True show ?thesis by (elim exE) (rule exI, fastforce)
  next
    case False
    let ?a = "dl h = None"
    obtain d1 ok1 err1 where r: "fan_out dl already hs d1 ok1 err1 (p0 @ [(h_id h, ?a)]) = (d, ok, err, p)"
      and d1: "d1 = d0 @ (if ?a then [h_id h] else [])" and ok1: "ok1 = (ok0 \<and> ?a)"
      using Cons.prems(1) False by (cases "dl h") auto
    from Cons.IH[OF r dh(1)] obtain q where q: "p = (p0 @ [(h_id h, ?a)]) @ q" "d = d1 @ map fst (filter snd q)"
      "distinct (map fst q)" "set (map fst q) = {h_id h | h. h \<in> set hs \<and> h_id h \<notin> already}"
      "ok = (ok1 \<and> (\<forall>x \<in> set q. snd x))" "\<forall>x \<in> set q. \<exists>h \<in> set hs. h_id h = fst x \<and> snd x = (dl h = None)"
      by blast
    let ?q = "(h_id h, ?a) # q"
    have "h_id h \<notin> set (map fst q)" using q(4) dh(2) by auto
    then have "distinct (map fst ?q)" using q(3) by simp
    moreover have "set (map fst ?q) = {h_id g | g. g \<in> set (h # hs) \<and> h_id g \<notin> already}"
      using q(4) False by auto
    moreover have "d = d0 @ map fst (filter snd ?q)" "p = p0 @ ?q" "ok = (ok0 \<and> (\<forall>x \<in> set ?q. snd x))"
      using q d1 ok1 by auto
    moreover have "\<forall>x \<in> set ?q. \<exists>g \<in> set (h # hs). h_id g = fst x \<and> snd x = (dl g = None)" using q(6) by auto
    ultimately show ?thesis by blast
  qed
qed

lemma acks_Pair [simp]: "acks (map (Pair e) q) = map (Pair e) (map fst (filter snd q))"
  by (induction q) (auto simp: acks_def)

lemma pair_member: "(e, h) \<in> set (map (Pair e) A) \<longleftrightarrow> h \<in> set A"
  by auto

lemma acks_posts: "acks (map (\<lambda>(h, a). (e, h, a)) q) = map (Pair e) (map fst (filter snd q))"
  by simp

lemma hooks_distinct:
  "events_ok s \<Longrightarrow> distinct (map h_id (list_active_webhooks_for_event pr ev s))"
  by (simp add: events_ok_def list_active_webhooks_for_event_def distinct_map distinct_sort
      distinct_filter inj_on_def)

subsection \<open>One delivery\<close>

text \<open>What a delivery does: to the row of its event, some update of the outcome fields; to the log,
  posts of that event to webhooks not served before.\<close>

lemma deliver_event_shape:
  assumes ok: "events_ok (wk_db w)"
  shows "\<exists>f q. wk_db (deliver_event hm net look ev w) = update_event (e_id ev) f (wk_db w)
    \<and> (\<forall>e. e_id (f e) = e_id e)
    \<and> wk_log (deliver_event hm net look ev w) = wk_log w @ map (\<lambda>(h, a). (e_id ev, h, a)) q
    \<and> distinct (map fst q) \<and> set (map fst q) \<inter> set (e_hooks ev) = {}
    \<and> (\<forall>e. e_delivered_at (f e) \<noteq> None \<or> e_hooks (f e) = e_hooks ev @ map fst (filter snd q))"
proof (cases look)
  case (Some err)
  show ?thesis
    by (rule exI[of _ "\<lambda>e. e\<lparr>e_attempts := e_attempts e + 1, e_next := db_now (wk_db w) + backoff (e_attempts ev),
          e_last_error := ''lookup: '' @ err, e_hooks := e_hooks ev\<rparr>"], rule exI[of _ "[]"])
      (simp add: Some deliver_event_def Let_def reschedule_event_def reschedule_webhook_event_def)
next
  case None
  obtain d ok' err p where fo: "fan_out (\<lambda>h. deliver hm net h ev) (set (e_hooks ev))
      (list_active_webhooks_for_event (e_project ev) (e_event ev) (wk_db w)) (e_hooks ev) True [] [] = (d, ok', err, p)"
    by (metis prod_cases4)
  from fan_out_spec[OF fo hooks_distinct[OF ok]]
  have p: "d = e_hooks ev @ map fst (filter snd p)" "distinct (map fst p)" "set (map fst p) \<inter> set (e_hooks ev) = {}"
    by auto
  let ?now = "db_now (wk_db w)"
  define f :: "webhook_event \<Rightarrow> webhook_event" where "f = (if ok' then (\<lambda>e. e\<lparr>e_delivered_at := Some ?now, e_last_error := []\<rparr>)
     else if webhook_max_attempts \<le> e_attempts ev + 1
     then (\<lambda>e. e\<lparr>e_parked_at := Some ?now, e_last_error := err, e_hooks := d\<rparr>)
     else (\<lambda>e. e\<lparr>e_attempts := e_attempts e + 1, e_next := ?now + backoff (e_attempts ev),
            e_last_error := err, e_hooks := d\<rparr>))"
  show ?thesis
  proof (intro exI[of _ f] exI[of _ p] conjI)
    show "wk_db (deliver_event hm net look ev w) = update_event (e_id ev) f (wk_db w)"
      by (simp add: None deliver_event_def Let_def fo f_def mark_webhook_event_delivered_def
          park_webhook_event_def reschedule_event_def reschedule_webhook_event_def)
    show "wk_log (deliver_event hm net look ev w) = wk_log w @ map (\<lambda>(h, a). (e_id ev, h, a)) p"
      by (simp add: None deliver_event_def Let_def fo)
  qed (use p in \<open>auto simp: f_def\<close>)
qed

lemma update_event_rows:
  assumes "distinct (map e_id (webhook_events s))" and "\<And>e. e_id (f e) = e_id e"
  shows "map e_id (webhook_events (update_event x f s)) = map e_id (webhook_events s)"
    and "e \<in> set (webhook_events (update_event x f s)) \<Longrightarrow>
      (e \<in> set (webhook_events s) \<and> e_id e \<noteq> x) \<or> (\<exists>e0 \<in> set (webhook_events s). e_id e0 = x \<and> e = f e0)"
    and "e0 \<in> set (webhook_events s) \<Longrightarrow> e_id e0 \<noteq> x \<Longrightarrow> e0 \<in> set (webhook_events (update_event x f s))"
  using assms by (auto simp: update_event_def rows_update_set table_simps)

lemma deliver_event_ok:
  assumes ok: "wk_ok w" and ev: "ev \<in> set (webhook_events (wk_db w))" and open_: "e_delivered_at ev = None"
  shows "wk_ok (deliver_event hm net look ev w)"
    and "e \<in> set (webhook_events (wk_db w)) \<Longrightarrow> e_id e \<noteq> e_id ev \<Longrightarrow>
      e \<in> set (webhook_events (wk_db (deliver_event hm net look ev w)))"
proof -
  let ?w = "deliver_event hm net look ev w"
  have eok: "events_ok (wk_db w)" using ok by (simp add: wk_ok_def)
  from deliver_event_shape[OF eok] obtain f q where
    db: "wk_db ?w = update_event (e_id ev) f (wk_db w)" and fid: "\<And>e. e_id (f e) = e_id e"
    and log: "wk_log ?w = wk_log w @ map (\<lambda>(h, a). (e_id ev, h, a)) q"
    and q: "distinct (map fst q)" "set (map fst q) \<inter> set (e_hooks ev) = {}"
    and f: "\<And>e. e_delivered_at (f e) \<noteq> None \<or> e_hooks (f e) = e_hooks ev @ map fst (filter snd q)"
    by blast
  have d: "distinct (map e_id (webhook_events (wk_db w)))" using eok by (simp add: events_ok_def)
  note rows = update_event_rows[where x = "e_id ev" and f = f, OF d fid]
  show keep: "e \<in> set (webhook_events (wk_db w)) \<Longrightarrow> e_id e \<noteq> e_id ev \<Longrightarrow> e \<in> set (webhook_events (wk_db ?w))" for e
    using rows(3) by (simp add: db)
  have m: "map e_id (webhook_events (wk_db ?w)) = map e_id (webhook_events (wk_db w))" using rows(1) by (simp add: db)
  then have ids: "e_id ` set (webhook_events (wk_db ?w)) = e_id ` set (webhook_events (wk_db w))"
    by (metis list.set_map)
  have d': "distinct (map e_id (webhook_events (wk_db ?w)))" unfolding m by (rule d)
  have dr: "drawn_ids (wk_db ?w) = drawn_ids (wk_db w)" by (simp add: db drawn_ids_def update_event_def)
  have eok': "events_ok (wk_db ?w)"
    using eok ids d' by (simp add: events_ok_def drawn_ids_def db update_event_def)
  have rem: "remembered (wk_log w) ev" using ok ev by (simp add: wk_ok_def)
  then have mem: "(e_id ev, h) \<in> set (acks (wk_log w)) \<Longrightarrow> h \<in> set (e_hooks ev)" for h
    using open_ by (simp add: remembered_def)
  have new: "acks (map (\<lambda>(h, a). (e_id ev, h, a)) q) = map (Pair (e_id ev)) (map fst (filter snd q))"
    by (rule acks_posts)
  have dq: "distinct (map fst (filter snd q))" using q(1) by (simp add: distinct_map_filter)
  have sq: "set (map fst (filter snd q)) \<subseteq> set (map fst q)" by auto
  have "distinct (acks (wk_log ?w))"
  proof -
    have "distinct (map (Pair (e_id ev)) (map fst (filter snd q)))"
      using dq by (simp only: distinct_map[of "Pair (e_id ev)"]) (simp add: inj_on_def)
    moreover have "set (acks (wk_log w)) \<inter> set (map (Pair (e_id ev)) (map fst (filter snd q))) = {}"
      using mem q(2) sq by auto
    ultimately show ?thesis using ok by (simp only: wk_ok_def log acks_append new distinct_append)
  qed
  moreover have "fst ` set (wk_log ?w) \<subseteq> drawn_ids (wk_db ?w)"
  proof -
    have "e_id ev \<in> drawn_ids (wk_db w)" using eok ev by (auto simp: events_ok_def)
    then show ?thesis using ok by (auto simp: wk_ok_def log dr)
  qed
  moreover have "remembered (wk_log ?w) e" if e: "e \<in> set (webhook_events (wk_db ?w))" for e
  proof -
    from rows(2)[of e] e db consider "e \<in> set (webhook_events (wk_db w))" "e_id e \<noteq> e_id ev"
      | e0 where "e0 \<in> set (webhook_events (wk_db w))" "e_id e0 = e_id ev" "e = f e0" by auto
    then show ?thesis
    proof cases
      case 1
      then have "remembered (wk_log w) e" using ok by (simp add: wk_ok_def)
      then show ?thesis using 1 by (auto simp: remembered_def log new)
    next
      case 2
      then have id: "e_id e = e_id ev" using fid by simp
      have "h \<in> set (e_hooks ev @ map fst (filter snd q))" if "(e_id ev, h) \<in> set (acks (wk_log ?w))" for h
        using that mem[of h] pair_member unfolding log acks_append new set_append Un_iff by metis
      then show ?thesis using f[of e0] 2(3) id by (simp only: remembered_def) metis
    qed
  qed
  ultimately show "wk_ok ?w" using eok' by (simp add: wk_ok_def)
qed

subsection \<open>A batch, and the machine\<close>

lemma lease_spec:
  assumes "lease_webhook_events n s = Inr (evs, s')"
  defines "f \<equiv> \<lambda>e. e\<lparr>e_next := db_now s + minute\<rparr>"
  shows "\<exists>c. evs = map f (filter c (webhook_events s)) \<and> s' = s\<lparr>webhook_events := rows_update c f (webhook_events s)\<rparr>
    \<and> (\<forall>e \<in> set (webhook_events s). c e \<longrightarrow> (\<exists>e' \<in> set (webhook_events s). e_id e' = e_id e \<and> pending_event (db_now s) e'))"
proof -
  let ?top = "take (nat n) (sort_key e_next (filter (pending_event (db_now s)) (webhook_events s)))"
  have "e' \<in> set (webhook_events s) \<and> pending_event (db_now s) e'" if "e' \<in> set ?top" for e'
    using in_set_takeD[OF that] by simp
  then have "\<exists>e' \<in> set (webhook_events s). e_id e' = e_id e \<and> pending_event (db_now s) e'"
    if "e_id e \<in> set (map e_id ?top)" for e
  proof -
    from that obtain e' where "e' \<in> set ?top" "e_id e' = e_id e" by (auto simp only: set_map image_iff)
    with \<open>\<And>e'. e' \<in> set ?top \<Longrightarrow> e' \<in> set (webhook_events s) \<and> pending_event (db_now s) e'\<close> show ?thesis by blast
  qed
  moreover have "evs = map f (filter (\<lambda>e. e_id e \<in> set (map e_id ?top)) (webhook_events s))"
    "s' = s\<lparr>webhook_events := rows_update (\<lambda>e. e_id e \<in> set (map e_id ?top)) f (webhook_events s)\<rparr>"
    using assms by (simp_all add: lease_webhook_events_def Let_def)
  ultimately show ?thesis by blast
qed

lemma lease_ok:
  assumes ok: "wk_ok w" and l: "lease_webhook_events n (wk_db w) = Inr (evs, s')"
  shows "wk_ok (w\<lparr>wk_db := s'\<rparr>)" and "set evs \<subseteq> set (webhook_events s')" and "distinct (map e_id evs)"
    and "\<forall>e \<in> set evs. e_delivered_at e = None \<and> e_parked_at e = None"
proof -
  let ?s = "wk_db w" and ?f = "\<lambda>e. e\<lparr>e_next := db_now (wk_db w) + minute\<rparr>"
  from lease_spec[OF l] obtain c where evs: "evs = map ?f (filter c (webhook_events ?s))"
    and s': "s' = ?s\<lparr>webhook_events := rows_update c ?f (webhook_events ?s)\<rparr>"
    and c: "\<forall>e \<in> set (webhook_events ?s). c e \<longrightarrow> (\<exists>e' \<in> set (webhook_events ?s). e_id e' = e_id e \<and> pending_event (db_now ?s) e')"
    by blast
  have eok: "events_ok ?s" using ok by (simp add: wk_ok_def)
  have m: "map e_id (webhook_events s') = map e_id (webhook_events ?s)" by (simp add: s' table_simps)
  then have ids: "e_id ` set (webhook_events s') = e_id ` set (webhook_events ?s)" by (metis list.set_map)
  have "distinct (map e_id (webhook_events s'))" unfolding m using eok by (simp add: events_ok_def)
  then have "events_ok s'" using eok ids by (simp add: events_ok_def drawn_ids_def s')
  moreover have "remembered (wk_log w) e" if "e \<in> set (webhook_events s')" for e
    using ok that by (auto simp: wk_ok_def remembered_def s' rows_update_set)
  ultimately show "wk_ok (w\<lparr>wk_db := s'\<rparr>)" using ok by (auto simp: wk_ok_def drawn_ids_def s')
  show "set evs \<subseteq> set (webhook_events s')" by (auto simp: evs s' rows_update_set)
  show "distinct (map e_id evs)" using eok by (simp add: evs events_ok_def comp_def distinct_map_filter)
  show "\<forall>e \<in> set evs. e_delivered_at e = None \<and> e_parked_at e = None"
  proof
    fix e assume "e \<in> set evs"
    then obtain e0 where e0: "e0 \<in> set (webhook_events ?s)" "c e0" "e = ?f e0" by (auto simp: evs)
    then obtain e' where e': "e' \<in> set (webhook_events ?s)" "e_id e' = e_id e0" "pending_event (db_now ?s) e'"
      using c by blast
    with eok e0 have "e' = e0" by (auto simp: events_ok_def distinct_map inj_on_def)
    with e' e0 show "e_delivered_at e = None \<and> e_parked_at e = None" by (simp add: pending_event_def)
  qed
qed

text \<open>A property of workers that one delivery of an open event keeps is kept by the batch.\<close>

lemma deliveries_ind:
  assumes "wk_ok w" and "P w" and "set evs \<subseteq> set (webhook_events (wk_db w))" and "distinct (map e_id evs)"
    and "\<forall>e \<in> set evs. e_delivered_at e = None \<and> R e"
    and step: "\<And>w ev. wk_ok w \<Longrightarrow> P w \<Longrightarrow> ev \<in> set (webhook_events (wk_db w)) \<Longrightarrow> e_delivered_at ev = None \<Longrightarrow> R ev
      \<Longrightarrow> P (deliver_event hm (net (e_id ev)) (look (e_id ev)) ev w)"
  defines "g \<equiv> \<lambda>w ev. deliver_event hm (net (e_id ev)) (look (e_id ev)) ev w"
  shows "wk_ok (foldl g w evs) \<and> P (foldl g w evs)"
  using assms(1-5)
proof (induction evs arbitrary: w)
  case Nil
  then show ?case by simp
next
  case (Cons ev evs)
  have ev: "ev \<in> set (webhook_events (wk_db w))" "e_delivered_at ev = None" "R ev" using Cons.prems by auto
  note one = deliver_event_ok[where hm = hm and net = "net (e_id ev)" and look = "look (e_id ev)",
      OF Cons.prems(1) ev(1,2)]
  have "set evs \<subseteq> set (webhook_events (wk_db (g w ev)))"
  proof
    fix e assume e: "e \<in> set evs"
    then have "e_id e \<in> e_id ` set evs" by simp
    with Cons.prems(4) have "e_id e \<noteq> e_id ev" by auto
    with e Cons.prems(3) one(2) show "e \<in> set (webhook_events (wk_db (g w ev)))" by (auto simp: g_def)
  qed
  with Cons.IH[of "g w ev"] Cons.prems one(1) step[OF Cons.prems(1,2) ev] show ?case by (simp add: g_def)
qed

lemma batch_ind:
  assumes "wk_ok w"
    and "lease_webhook_events webhook_lease_batch (wk_db w) = Inr (evs, s')" and "P (w\<lparr>wk_db := s'\<rparr>)"
    and step: "\<And>w ev. wk_ok w \<Longrightarrow> P w \<Longrightarrow> ev \<in> set (webhook_events (wk_db w)) \<Longrightarrow> e_delivered_at ev = None
      \<Longrightarrow> e_parked_at ev = None \<Longrightarrow> P (deliver_event hm (net (e_id ev)) (look (e_id ev)) ev w)"
  shows "wk_ok (process_webhook_batch hm net look w) \<and> P (process_webhook_batch hm net look w)"
  using deliveries_ind[where R = "\<lambda>e. e_parked_at e = None" and P = P and w = "w\<lparr>wk_db := s'\<rparr>" and evs = evs
      and hm = hm and net = net and look = look] lease_ok[OF assms(1,2)] assms(2,3) step
  by (simp add: process_webhook_batch_def)

lemma drawn_mono: "db_rand t = db_rand s \<Longrightarrow> db_drawn s \<le> db_drawn t \<Longrightarrow> drawn_ids s \<subseteq> drawn_ids t"
  by (auto simp: drawn_ids_def)

lemma fresh_drawn: "inj (db_rand s) \<Longrightarrow> db_rand s (db_drawn s) \<notin> drawn_ids s"
  by (auto simp: drawn_ids_def inj_on_def)

lemma wk_ok_other:
  assumes "wk_ok w" and "db_rand t = db_rand (wk_db w)" and "db_drawn (wk_db w) \<le> db_drawn t"
    and "set (webhook_events t) \<subseteq> set (webhook_events (wk_db w))" and "distinct (map e_id (webhook_events t))"
    and "distinct (map h_id (webhooks t))"
  shows "wk_ok (w\<lparr>wk_db := t\<rparr>)"
proof -
  have "drawn_ids (wk_db w) \<subseteq> drawn_ids t" using assms(2,3) by (rule drawn_mono)
  then show ?thesis using assms by (auto simp: wk_ok_def events_ok_def)
qed

lemma enqueue_cases:
  assumes "enqueue_webhook_event ev d pr s = Inr (e, t)"
  shows "e_id e = db_rand s (db_drawn s)" and "t = s\<lparr>db_drawn := db_drawn s + 1, webhook_events := webhook_events s @ [e]\<rparr>"
    and "e_id e \<notin> e_id ` set (webhook_events s)"
  using assms by (auto simp: enqueue_webhook_event_def tx_simps Let_def split: if_splits)

lemma wk_ok_enqueue:
  assumes ok: "wk_ok w" and e: "enqueue_webhook_event ev d pr (wk_db w) = Inr (e, t)"
  shows "wk_ok (w\<lparr>wk_db := t\<rparr>)"
proof -
  note c = enqueue_cases[OF e]
  have sub: "drawn_ids (wk_db w) \<subseteq> drawn_ids t" by (rule drawn_mono) (simp_all add: c(2))
  have "e_id e \<notin> drawn_ids (wk_db w)" using fresh_drawn ok c(1) by (simp add: wk_ok_def events_ok_def)
  then have "remembered (wk_log w) e" using ok acks_fst by (fastforce simp: wk_ok_def remembered_def)
  moreover have "e_id e \<in> drawn_ids t" by (auto simp: drawn_ids_def c(1,2))
  ultimately show ?thesis using ok sub c(3) by (auto simp: wk_ok_def events_ok_def c(2))
qed

lemma create_webhook_cases:
  assumes "create_webhook pr url sec evs s = Inr (h, t)"
  shows "t = s\<lparr>db_drawn := db_drawn s + 1, webhooks := webhooks s @ [h]\<rparr>" and "h_id h \<notin> h_id ` set (webhooks s)"
proof -
  from assms show "t = s\<lparr>db_drawn := db_drawn s + 1, webhooks := webhooks s @ [h]\<rparr>"
    by (auto simp: create_webhook_def tx_simps Let_def split: if_splits)
  from assms have "h_id h = db_rand s (db_drawn s)" "\<forall>r \<in> set (webhooks s). h_id r \<noteq> db_rand s (db_drawn s)"
    by (auto simp: create_webhook_def tx_simps Let_def split: if_splits)
  then show "h_id h \<notin> h_id ` set (webhooks s)" by auto
qed

lemma wk_ok_hook:
  assumes ok: "wk_ok w" and e: "create_webhook pr url sec evs (wk_db w) = Inr (h, t)"
  shows "wk_ok (w\<lparr>wk_db := t\<rparr>)"
  using create_webhook_cases[OF e] ok by (intro wk_ok_other[OF ok]) (auto simp: wk_ok_def events_ok_def)

text \<open>The steps that only remove rows or move the clock.\<close>

definition shrinks :: "db \<Rightarrow> db \<Rightarrow> bool" where
  "shrinks s t = (db_rand t = db_rand s \<and> db_drawn t = db_drawn s
     \<and> (\<exists>c. webhook_events t = filter c (webhook_events s)) \<and> (\<exists>c. webhooks t = filter c (webhooks s)))"

lemma shrinksI:
  assumes "db_rand t = db_rand s" and "db_drawn t = db_drawn s"
    and "webhook_events t = filter c (webhook_events s)" and "webhooks t = filter d (webhooks s)"
  shows "shrinks s t"
  using assms by (auto simp: shrinks_def)

lemma filter_all: "rs = filter (\<lambda>_. True) rs"
  by simp

lemma shrinks_steps:
  "shrinks s (s\<lparr>db_now := t\<rparr>)" "shrinks s (commit (delete_webhook x) s)"
  "shrinks s (snd (purge_delivered_webhook_events t s))" "shrinks s (snd (purge_parked_webhook_events t s))"
  by (rule shrinksI; simp add: commit_def delete_webhook_def purge_delivered_webhook_events_def
      purge_parked_webhook_events_def Let_def; (rule filter_all)?)+

lemma wk_ok_shrinks: "wk_ok w \<Longrightarrow> shrinks (wk_db w) t \<Longrightarrow> wk_ok (w\<lparr>wk_db := t\<rparr>)"
  by (rule wk_ok_other) (auto simp: shrinks_def wk_ok_def events_ok_def distinct_map_filter)

lemma wstep_ok: "wk_ok w \<Longrightarrow> wk_ok (wstep hm w e)"
proof (cases e)
  case (WEnqueue pr ev d)
  assume "wk_ok w"
  then show ?thesis using wk_ok_enqueue by (auto simp: WEnqueue commit_def split: sum.splits)
next
  case (WBatch net look)
  assume ok: "wk_ok w"
  obtain evs s' where l: "lease_webhook_events webhook_lease_batch (wk_db w) = Inr (evs, s')"
    by (auto simp: lease_webhook_events_def Let_def)
  from batch_ind[where P = "\<lambda>_. True", OF ok l] show ?thesis by (simp add: WBatch)
next
  case (WHook pr url sec evs)
  assume "wk_ok w"
  then show ?thesis using wk_ok_hook by (auto simp: WHook commit_def split: sum.splits)
qed (simp_all add: wk_ok_shrinks shrinks_steps)

interpretation wk: machine "wstep hm" wk_ok for hm
  by unfold_locales (rule wstep_ok)

text \<open>The posts of one event.\<close>

definition posts_of :: "uuid \<Rightarrow> worker \<Rightarrow> (uuid \<times> uuid \<times> bool) list" where
  "posts_of x w = filter (\<lambda>(e, _, _). e = x) (wk_log w)"

definition settled :: "webhook_event \<Rightarrow> bool" where
  "settled e = (e_delivered_at e \<noteq> None \<or> e_parked_at e \<noteq> None)"

definition settled_in :: "uuid \<Rightarrow> (uuid \<times> uuid \<times> bool) list \<Rightarrow> worker \<Rightarrow> bool" where
  "settled_in x l w = (x \<in> drawn_ids (wk_db w) \<and> posts_of x w = l
     \<and> (\<forall>e \<in> set (webhook_events (wk_db w)). e_id e = x \<longrightarrow> settled e))"

lemma settled_deliver:
  assumes ok: "wk_ok w" and st: "settled_in x l w"
    and ev: "ev \<in> set (webhook_events (wk_db w))" "e_delivered_at ev = None" "e_parked_at ev = None"
  shows "settled_in x l (deliver_event hm net look ev w)"
proof -
  have eok: "events_ok (wk_db w)" using ok by (simp add: wk_ok_def)
  have ne: "e_id ev \<noteq> x" using st ev by (auto simp: settled_in_def settled_def)
  from deliver_event_shape[OF eok] obtain f q where
    db: "wk_db (deliver_event hm net look ev w) = update_event (e_id ev) f (wk_db w)" and fid: "\<And>e. e_id (f e) = e_id e"
    and lg: "wk_log (deliver_event hm net look ev w) = wk_log w @ map (\<lambda>(h, a). (e_id ev, h, a)) q"
    by blast
  have "posts_of x (deliver_event hm net look ev w) = posts_of x w"
    using ne by (auto simp: posts_of_def lg filter_empty_conv)
  moreover have "settled e" if "e \<in> set (webhook_events (update_event (e_id ev) f (wk_db w)))" "e_id e = x" for e
    using that st ne fid by (auto simp: settled_in_def update_event_def rows_update_set)
  ultimately show ?thesis using st by (auto simp: settled_in_def db drawn_ids_def update_event_def)
qed

lemma settled_other:
  assumes "settled_in x l w" and "db_rand t = db_rand (wk_db w)" and "db_drawn (wk_db w) \<le> db_drawn t"
    and "\<forall>e \<in> set (webhook_events t). e_id e = x \<longrightarrow> (\<exists>e' \<in> set (webhook_events (wk_db w)). e_id e' = x \<and> settled e = settled e')"
  shows "settled_in x l (w\<lparr>wk_db := t\<rparr>)"
  using assms drawn_mono[OF assms(2,3)] by (auto simp: settled_in_def posts_of_def)

lemma settled_shrinks: "settled_in x l w \<Longrightarrow> shrinks (wk_db w) t \<Longrightarrow> settled_in x l (w\<lparr>wk_db := t\<rparr>)"
  by (erule settled_other) (auto simp: shrinks_def)

lemma settled_step:
  assumes ok: "wk_ok w" and st: "settled_in x l w"
  shows "settled_in x l (wstep hm w e)"
proof (cases e)
  case (WEnqueue pr ev d)
  show ?thesis
  proof (cases "enqueue_webhook_event ev d pr (wk_db w)")
    case (Inl err)
    then show ?thesis using st by (simp add: WEnqueue commit_def)
  next
    case (Inr r)
    obtain e' t where r: "r = (e', t)" by (cases r)
    note c = enqueue_cases[OF Inr[unfolded r]]
    have "e_id e' \<notin> drawn_ids (wk_db w)" using fresh_drawn ok c(1) by (simp add: wk_ok_def events_ok_def)
    then have "e_id e' \<noteq> x" using st by (auto simp: settled_in_def)
    then have "settled_in x l (w\<lparr>wk_db := t\<rparr>)" by (intro settled_other[OF st]) (auto simp: c(2))
    then show ?thesis by (simp add: WEnqueue commit_def Inr r)
  qed
next
  case (WBatch net look)
  obtain evs s' where lse: "lease_webhook_events webhook_lease_batch (wk_db w) = Inr (evs, s')"
    by (auto simp: lease_webhook_events_def Let_def)
  from lease_spec[OF lse] obtain c where s': "s' = (wk_db w)\<lparr>webhook_events := rows_update c
      (\<lambda>e. e\<lparr>e_next := db_now (wk_db w) + minute\<rparr>) (webhook_events (wk_db w))\<rparr>" by blast
  have "\<exists>e' \<in> set (webhook_events (wk_db w)). e_id e' = x \<and> settled e = settled e'"
    if "e \<in> set (webhook_events s')" "e_id e = x" for e
  proof -
    from that(1) obtain e0 where e0: "e0 \<in> set (webhook_events (wk_db w))"
      "e = e0 \<or> e = e0\<lparr>e_next := db_now (wk_db w) + minute\<rparr>"
      by (auto simp: s' rows_update_set)
    then have "e_id e0 = e_id e \<and> settled e = settled e0" by (auto simp: settled_def)
    with e0(1) that(2) show ?thesis by auto
  qed
  then have rows: "\<forall>e \<in> set (webhook_events s'). e_id e = x \<longrightarrow>
      (\<exists>e' \<in> set (webhook_events (wk_db w)). e_id e' = x \<and> settled e = settled e')" by blast
  have "settled_in x l (w\<lparr>wk_db := s'\<rparr>)"
    by (rule settled_other[OF st _ _ rows]) (simp_all add: s')
  then have "wk_ok (process_webhook_batch hm net look w) \<and> settled_in x l (process_webhook_batch hm net look w)"
    by (rule batch_ind[where P = "settled_in x l", OF ok lse]) (rule settled_deliver)
  then show ?thesis by (simp add: WBatch)
next
  case (WHook pr url sec evs)
  show ?thesis
  proof (cases "create_webhook pr url sec evs (wk_db w)")
    case (Inl err)
    then show ?thesis using st by (simp add: WHook commit_def)
  next
    case (Inr r)
    obtain h t where r: "r = (h, t)" by (cases r)
    have "settled_in x l (w\<lparr>wk_db := t\<rparr>)"
      using create_webhook_cases(1)[OF Inr[unfolded r]] by (intro settled_other[OF st]) auto
    then show ?thesis by (simp add: WHook commit_def Inr r)
  qed
qed (simp_all add: settled_shrinks[OF st] shrinks_steps)

subsection \<open>Properties\<close>


text \<open>A settled event is final: once delivered or parked, no later history posts it to anyone.\<close>

theorem settled_event_never_posted:
  assumes "wk_ok w" and "ev \<in> set (webhook_events (wk_db w))" and "settled ev"
  shows "posts_of (e_id ev) (foldl (wstep hm) w es) = posts_of (e_id ev) w"
proof -
  have eok: "events_ok (wk_db w)" using assms(1) by (simp add: wk_ok_def)
  then have d: "distinct (map e_id (webhook_events (wk_db w)))" by (simp add: events_ok_def)
  have "settled e" if "e \<in> set (webhook_events (wk_db w))" "e_id e = e_id ev" for e
    using distinct_key[OF d that(1) assms(2) that(2)] assms(3) by simp
  moreover have "e_id ev \<in> drawn_ids (wk_db w)" using assms(2) eok by (auto simp: events_ok_def)
  ultimately have "settled_in (e_id ev) (posts_of (e_id ev) w) w" by (simp add: settled_in_def)
  then have "settled_in (e_id ev) (posts_of (e_id ev) w) (foldl (wstep hm) w es)"
    using wk.run_persist[where P = "settled_in (e_id ev) (posts_of (e_id ev) w)" and allowed = "\<lambda>_. True"]
      settled_step assms(1) by blast
  then show ?thesis by (simp add: settled_in_def)
qed

text \<open>One attempt, when the lookup works: every active webhook that matches the event and has not been
  served gets exactly one post, the served ones get none, and the event's row becomes delivered if all
  the posts succeed, parked at the eighth failed attempt, and otherwise is due again after
  min(2^n, 3600) seconds with one more attempt counted and the successful webhooks remembered.\<close>

theorem delivery_attempt:
  fixes w :: worker and ev :: webhook_event and hm :: "string \<Rightarrow> event_data \<Rightarrow> string" and net :: network
  assumes "events_ok (wk_db w)"
  defines "w' \<equiv> deliver_event hm net None ev w" and "s \<equiv> wk_db w"
    and "todo \<equiv> {h \<in> set (webhooks (wk_db w)). hook_matches (e_project ev) (e_event ev) h \<and> h_id h \<notin> set (e_hooks ev)}"
    and "fails \<equiv> (\<lambda>h. deliver hm net h ev \<noteq> None)"
  shows "\<exists>posts served err. wk_log w' = wk_log w @ map (\<lambda>(h, a). (e_id ev, h, a)) posts
    \<and> distinct (map fst posts) \<and> set (map fst posts) = h_id ` todo
    \<and> set served = set (e_hooks ev) \<union> h_id ` {h \<in> todo. \<not> fails h}
    \<and> wk_db w' =
        (if \<forall>h \<in> todo. \<not> fails h then mark_webhook_event_delivered (e_id ev) [] s
         else if 7 \<le> e_attempts ev then park_webhook_event (e_id ev) err served s
         else reschedule_webhook_event (e_id ev) (db_now s + min (2 ^ nat (e_attempts ev)) 3600 * second) err served s)"
proof -
  let ?hs = "list_active_webhooks_for_event (e_project ev) (e_event ev) (wk_db w)"
  obtain d ok err p where fo: "fan_out (\<lambda>h. deliver hm net h ev) (set (e_hooks ev)) ?hs (e_hooks ev) True [] []
      = (d, ok, err, p)"
    by (metis prod_cases4)
  from fan_out_spec[OF fo hooks_distinct[OF assms(1)]]
  have p: "d = e_hooks ev @ map fst (filter snd p)" "distinct (map fst p)"
    "set (map fst p) = {h_id h | h. h \<in> set ?hs \<and> h_id h \<notin> set (e_hooks ev)}"
    "ok = (\<forall>x \<in> set p. snd x)" "\<forall>x \<in> set p. \<exists>h \<in> set ?hs. h_id h = fst x \<and> snd x = (deliver hm net h ev = None)"
    by auto
  have hs: "set ?hs = {h \<in> set (webhooks (wk_db w)). hook_matches (e_project ev) (e_event ev) h}"
    by (simp add: list_active_webhooks_for_event_def)
  have keys: "set (map fst p) = h_id ` todo" using p(3) hs by (auto simp: todo_def)
  have dh: "distinct (map h_id ?hs)" by (rule hooks_distinct[OF assms(1)])
  have out: "(h_id h, \<not> fails h) \<in> set p" if h: "h \<in> todo" for h
  proof -
    from h keys have "h_id h \<in> set (map fst p)" by simp
    then obtain x where x: "x \<in> set p" "fst x = h_id h" by auto
    with p(5) obtain g where g: "g \<in> set ?hs" "h_id g = h_id h" "snd x = (deliver hm net g ev = None)" by metis
    have "h \<in> set ?hs" using h hs by (auto simp: todo_def)
    with distinct_key[OF dh g(1) _ g(2)] have "g = h" by blast
    with g x have "x = (h_id h, \<not> fails h)" by (simp add: fails_def prod_eq_iff)
    with x show ?thesis by simp
  qed
  have bk: "\<exists>h \<in> todo. x = (h_id h, \<not> fails h)" if x: "x \<in> set p" for x
  proof -
    have "fst x \<in> h_id ` todo" using x keys by (metis image_eqI list.set_map)
    then obtain h where h: "h \<in> todo" "fst x = h_id h" by auto
    have "(h_id h, \<not> fails h) = x"
      using distinct_key[OF p(2) out[OF h(1)] x] h by simp
    with h show ?thesis by auto
  qed
  have okeq: "ok = (\<forall>h \<in> todo. \<not> fails h)" using p(4) out bk by force
  have "set (map fst (filter snd p)) = h_id ` {h \<in> todo. \<not> fails h}" using out bk by force
  then have served: "set d = set (e_hooks ev) \<union> h_id ` {h \<in> todo. \<not> fails h}" by (simp add: p(1))
  have "wk_log w' = wk_log w @ map (\<lambda>(h, a). (e_id ev, h, a)) p"
    by (simp add: w'_def deliver_event_def Let_def fo)
  moreover have "wk_db w' =
        (if \<forall>h \<in> todo. \<not> fails h then mark_webhook_event_delivered (e_id ev) [] s
         else if 7 \<le> e_attempts ev then park_webhook_event (e_id ev) err d s
         else reschedule_webhook_event (e_id ev) (db_now s + min (2 ^ nat (e_attempts ev)) 3600 * second) err d s)"
    unfolding okeq[symmetric] by (simp add: w'_def s_def deliver_event_def Let_def fo webhook_max_attempts_def
        reschedule_event_def backoff_def)
  ultimately show ?thesis using p(2) keys served by blast
qed

subsection \<open>A concrete outbox\<close>

definition demo_activity :: activity where
  "demo_activity = \<lparr>a_id = 0, a_project = 1, a_item = None, a_kind = ''note'', a_actor = ''ann'', a_body = ''hi'',
     a_metadata = JObj [], a_created_at = 0, a_confidence = []\<rparr>"

definition demo_hook :: webhook where
  "demo_hook = \<lparr>h_id = 7, h_project = None, h_url = ''u'', h_secret = [], h_events = [], h_active = True, h_created_at = 0\<rparr>"

definition demo_event :: "gtime option \<Rightarrow> webhook_event" where
  "demo_event d = \<lparr>e_id = 1, e_project = None, e_event = ''activity.created'', e_payload = ActivityData demo_activity,
     e_attempts = 0, e_next = 0, e_delivered_at = d, e_last_error = [], e_created_at = 0, e_hooks = [], e_parked_at = None\<rparr>"

definition demo_outbox :: "gtime option \<Rightarrow> db" where
  "demo_outbox d = empty_db\<lparr>webhooks := [demo_hook], webhook_events := [demo_event d], db_drawn := 8\<rparr>"

lemma demo_outbox_ok: "events_ok (demo_outbox d)"
  by (simp add: events_ok_def demo_outbox_def empty_db_def drawn_ids_def demo_event_def)

definition demo_net :: network where "demo_net q = (if q_url q = ''u'' then Inr 200 else Inl ''refused'')"


lemma settled_event_never_posted_witness:
  "posts_of 1 (foldl (wstep (\<lambda>k _. k)) \<lparr>wk_db = demo_outbox (Some 3), wk_log = []\<rparr>
      [WTick 9, WBatch (\<lambda>_. demo_net) (\<lambda>_. None)]) = posts_of 1 \<lparr>wk_db = demo_outbox (Some 3), wk_log = []\<rparr>"
proof -
  have w: "wk_ok \<lparr>wk_db = demo_outbox (Some 3), wk_log = []\<rparr>"
    by (simp add: wk_ok_def demo_outbox_ok acks_def remembered_def)
  have e: "demo_event (Some 3) \<in> set (webhook_events (wk_db \<lparr>wk_db = demo_outbox (Some 3), wk_log = []\<rparr>))"
    by (simp add: demo_outbox_def)
  have st: "settled (demo_event (Some 3))" by (simp add: settled_def demo_event_def)
  have i: "e_id (demo_event (Some 3)) = 1" by (simp add: demo_event_def)
  show ?thesis using settled_event_never_posted[OF w e st] unfolding i .
qed

lemma delivery_attempt_witness:
  "h_id ` {h \<in> set (webhooks (demo_outbox None)). hook_matches None ''activity.created'' h \<and> h_id h \<notin> {}} = {7}
   \<and> (\<exists>posts. wk_log (deliver_event (\<lambda>k _. k) demo_net None (demo_event None) \<lparr>wk_db = demo_outbox None, wk_log = []\<rparr>)
          = map (\<lambda>(h, a). (1, h, a)) posts \<and> set (map fst posts) = {7})"
proof
  show h: "h_id ` {h \<in> set (webhooks (demo_outbox None)). hook_matches None ''activity.created'' h \<and> h_id h \<notin> {}} = {7}"
  proof -
    have "set (webhooks (demo_outbox None)) = {demo_hook}" by (simp add: demo_outbox_def)
    moreover have "hook_matches None ''activity.created'' demo_hook" by code_simp
    moreover have "h_id demo_hook = 7" by (simp add: demo_hook_def)
    ultimately show ?thesis by (simp cong: conj_cong)
  qed
  define w where "w = \<lparr>wk_db = demo_outbox None, wk_log = []\<rparr>"
  have ok: "events_ok (wk_db w)" by (simp add: demo_outbox_ok w_def)
  have ev: "e_id (demo_event None) = 1" "e_project (demo_event None) = None" "e_hooks (demo_event None) = []"
    "e_event (demo_event None) = ''activity.created''" by (simp_all add: demo_event_def)
  have w: "wk_db w = demo_outbox None" "wk_log w = []" by (simp_all add: w_def)
  show "\<exists>posts. wk_log (deliver_event (\<lambda>k _. k) demo_net None (demo_event None) \<lparr>wk_db = demo_outbox None, wk_log = []\<rparr>)
          = map (\<lambda>(h, a). (1, h, a)) posts \<and> set (map fst posts) = {7}"
    using delivery_attempt[OF ok, of "\<lambda>k _. k" demo_net "demo_event None"]
    unfolding ev w h[unfolded list.set, symmetric] w_def[symmetric] by (elim exE conjE, intro exI conjI) simp_all
qed

end
