(* ===== verification/Ratelimit.thy ===== *)
theory Ratelimit
  imports Complex_Main Text
begin

text \<open>
  The per-address token bucket of \<open>internal/ratelimit/ratelimit.go\<close>. Token counts are rationals (the code
  has \<open>float64\<close>); times are nanoseconds and come with each call, \<open>sweep\<close> is one round of the janitor.
\<close>

record visitor =
  v_tokens :: rat
  v_last :: gtime

record limiter =
  l_visitors :: "string \<Rightarrow> visitor option"
  l_rate :: rat
  l_burst :: rat

definition new_limiter :: "rat \<Rightarrow> nat \<Rightarrow> limiter" where
  "new_limiter rate burst = \<lparr>l_visitors = (\<lambda>_. None), l_rate = rate, l_burst = of_nat burst\<rparr>"

definition seconds :: "gtime \<Rightarrow> rat" where
  "seconds d = of_int d / of_int second"

definition idle_limit :: gtime where "idle_limit = 10 * minute"

definition sweep :: "gtime \<Rightarrow> limiter \<Rightarrow> limiter" where
  "sweep now l = l\<lparr>l_visitors := (\<lambda>ip. case l_visitors l ip of None \<Rightarrow> None
     | Some v \<Rightarrow> if idle_limit < now - v_last v then None else Some v)\<rparr>"

definition allow :: "string \<Rightarrow> gtime \<Rightarrow> limiter \<Rightarrow> bool \<times> limiter" where
  "allow ip now l =
     (case l_visitors l ip of
        None \<Rightarrow> (True, l\<lparr>l_visitors := (l_visitors l)(ip := Some \<lparr>v_tokens = l_burst l - 1, v_last = now\<rparr>)\<rparr>)
      | Some v \<Rightarrow>
         (let t = min (l_burst l) (v_tokens v + seconds (now - v_last v) * l_rate l)
          in if 1 \<le> t then (True, l\<lparr>l_visitors := (l_visitors l)(ip := Some \<lparr>v_tokens = t - 1, v_last = now\<rparr>)\<rparr>)
             else (False, l\<lparr>l_visitors := (l_visitors l)(ip := Some \<lparr>v_tokens = t, v_last = now\<rparr>)\<rparr>)))"

text \<open>The address a request counts against: the first hop of X-Forwarded-For, or the host of the
  connection. \<open>split\<close> is \<open>net.SplitHostPort\<close>.\<close>

definition client_ip :: "(string \<Rightarrow> string option) \<Rightarrow> string \<Rightarrow> string \<Rightarrow> string" where
  "client_ip split xff remote =
     (if xff \<noteq> [] then trim_space (takeWhile (\<lambda>c. c \<noteq> CHR '','') xff)
      else (case split remote of Some host \<Rightarrow> host | None \<Rightarrow> remote))"

definition limit_middleware :: "(string \<Rightarrow> string option) \<Rightarrow> (limiter \<Rightarrow> 'r \<times> limiter) \<Rightarrow> 'r \<Rightarrow> string \<Rightarrow> string \<Rightarrow> gtime \<Rightarrow> limiter
    \<Rightarrow> 'r \<times> limiter" where
  "limit_middleware split handler reject xff remote now l =
     (case allow (client_ip split xff remote) now l of
        (False, l') \<Rightarrow> (reject, l')
      | (True, l') \<Rightarrow> handler l')"

subsection \<open>Histories\<close>

datatype levent = Request string gtime | Sweep gtime

fun time_of :: "levent \<Rightarrow> gtime" where
  "time_of (Request ip t) = t"
| "time_of (Sweep t) = t"

fun lstep :: "limiter \<Rightarrow> levent \<Rightarrow> limiter" where
  "lstep l (Request ip t) = snd (allow ip t l)"
| "lstep l (Sweep t) = sweep t l"

fun admits :: "string \<Rightarrow> limiter \<Rightarrow> levent \<Rightarrow> bool" where
  "admits ip l (Request i t) = (i = ip \<and> fst (allow i t l))"
| "admits ip l (Sweep t) = False"

primrec admitted :: "string \<Rightarrow> levent list \<Rightarrow> limiter \<Rightarrow> nat" where
  "admitted ip [] l = 0"
| "admitted ip (e # es) l = (if admits ip l e then 1 else 0) + admitted ip es (lstep l e)"

text \<open>The tokens an address would have at a time.\<close>

definition level :: "string \<Rightarrow> gtime \<Rightarrow> limiter \<Rightarrow> rat" where
  "level ip t l = (case l_visitors l ip of None \<Rightarrow> l_burst l
     | Some v \<Rightarrow> min (l_burst l) (v_tokens v + seconds (t - v_last v) * l_rate l))"

text \<open>Sensible parameters, buckets that are neither negative nor above the burst, and stamps not in the
  future. A bucket that has been idle for ten minutes is full.\<close>

definition lim_ok :: "gtime \<Rightarrow> limiter \<Rightarrow> bool" where
  "lim_ok t l = (0 \<le> l_rate l \<and> 1 \<le> l_burst l \<and> l_burst l \<le> l_rate l * seconds idle_limit
     \<and> (\<forall>ip v. l_visitors l ip = Some v \<longrightarrow> 0 \<le> v_tokens v \<and> v_last v \<le> t))"

lemma level_set: "level i t (l\<lparr>l_visitors := vs\<rparr>) = (case vs i of None \<Rightarrow> l_burst l
     | Some v \<Rightarrow> min (l_burst l) (v_tokens v + seconds (t - v_last v) * l_rate l))"
  by (simp add: level_def split: option.split)

lemma seconds_mono: "a \<le> b \<Longrightarrow> seconds a \<le> seconds b"
  using second_pos by (simp add: seconds_def divide_right_mono del: second_pos)

lemma seconds_nonneg: "0 \<le> a \<Longrightarrow> 0 \<le> seconds a"
  using seconds_mono[of 0 a] by (simp add: seconds_def)

lemma seconds_add: "seconds (a + b) = seconds a + seconds b"
  by (simp add: seconds_def add_divide_distrib)

lemma lim_ok_later: "lim_ok t l \<Longrightarrow> t \<le> t' \<Longrightarrow> lim_ok t' l"
  by (auto simp: lim_ok_def) (meson order_trans)

lemma level_bounds: "lim_ok t l \<Longrightarrow> 0 \<le> level ip t l \<and> level ip t l \<le> l_burst l"
  by (auto simp: lim_ok_def level_def seconds_nonneg split: option.splits)

lemma level_later:
  assumes "lim_ok t l" and "t \<le> t'"
  shows "level ip t' l \<le> level ip t l + seconds (t' - t) * l_rate l"
proof -
  have r: "0 \<le> seconds (t' - t) * l_rate l" using assms seconds_nonneg by (simp add: lim_ok_def)
  show ?thesis
  proof (cases "l_visitors l ip")
    case None then show ?thesis using r by (simp add: level_def)
  next
    case (Some v)
    have "seconds (t' - v_last v) = seconds (t' - t) + seconds (t - v_last v)"
      using seconds_add[of "t' - t" "t - v_last v"] by simp
    then show ?thesis using r Some by (simp add: level_def algebra_simps min_def)
  qed
qed

lemma allow_parts:
  assumes "lim_ok t l"
  shows "lim_ok t (snd (allow ip t l))" and "l_rate (snd (allow ip t l)) = l_rate l"
    and "l_burst (snd (allow ip t l)) = l_burst l"
    and "level ip t (snd (allow ip t l)) = level ip t l - (if fst (allow ip t l) then 1 else 0)"
    and "i \<noteq> ip \<Longrightarrow> level i t (snd (allow ip t l)) = level i t l"
proof -
  have s0: "seconds 0 = 0" by (simp add: seconds_def)
  have b: "1 \<le> l_burst l" and lv: "0 \<le> level ip t l" "level ip t l \<le> l_burst l"
    using assms level_bounds[OF assms, of ip] by (simp_all add: lim_ok_def)
  have eq: "allow ip t l = (1 \<le> level ip t l,
     l\<lparr>l_visitors := (l_visitors l)(ip := Some \<lparr>v_tokens = level ip t l - (if 1 \<le> level ip t l then 1 else 0), v_last = t\<rparr>)\<rparr>)"
    using b by (auto simp: allow_def level_def Let_def split: option.splits)
  show "lim_ok t (snd (allow ip t l))" using assms lv unfolding eq lim_ok_def by (auto split: if_splits)
  show "l_rate (snd (allow ip t l)) = l_rate l" "l_burst (snd (allow ip t l)) = l_burst l" unfolding eq by simp_all
  show "level ip t (snd (allow ip t l)) = level ip t l - (if fst (allow ip t l) then 1 else 0)"
    unfolding eq snd_conv fst_conv level_set using lv by (simp add: s0)
  show "level i t (snd (allow ip t l)) = level i t l" if "i \<noteq> ip"
    unfolding eq snd_conv level_set using that by (simp add: level_def[of i])
qed

lemma sweep_parts:
  assumes "lim_ok t l"
  shows "lim_ok t (sweep t l)" and "l_rate (sweep t l) = l_rate l" and "l_burst (sweep t l) = l_burst l"
    and "level ip t (sweep t l) = level ip t l"
proof -
  show "lim_ok t (sweep t l)" using assms by (auto simp: lim_ok_def sweep_def split: option.splits if_splits)
  show "l_rate (sweep t l) = l_rate l" "l_burst (sweep t l) = l_burst l" by (simp_all add: sweep_def)
  show "level ip t (sweep t l) = level ip t l"
  proof (cases "l_visitors l ip")
    case None then show ?thesis by (simp add: level_def sweep_def)
  next
    case (Some v)
    have "level ip t l = l_burst l" if i: "idle_limit < t - v_last v"
    proof -
      have "l_rate l * seconds idle_limit \<le> l_rate l * seconds (t - v_last v)"
        using assms i by (intro mult_left_mono seconds_mono) (simp_all add: lim_ok_def)
      then have "l_burst l \<le> v_tokens v + seconds (t - v_last v) * l_rate l"
        using assms Some by (auto simp: lim_ok_def mult.commute) (metis add_increasing dual_order.trans)
      then show ?thesis using Some by (simp add: level_def)
    qed
    then show ?thesis unfolding sweep_def level_set using Some by (simp add: level_def)
  qed
qed

lemma lstep_parts:
  assumes "lim_ok (time_of e) l"
  shows "lim_ok (time_of e) (lstep l e) \<and> l_rate (lstep l e) = l_rate l \<and> l_burst (lstep l e) = l_burst l
    \<and> level ip (time_of e) (lstep l e) + (if admits ip l e then 1 else 0) = level ip (time_of e) l"
proof (cases e)
  case (Request i t)
  with assms have ok: "lim_ok t l" by simp
  show ?thesis
  proof (cases "i = ip")
    case True then show ?thesis using allow_parts(1-4)[OF ok, of i] Request by simp
  next
    case False then show ?thesis using allow_parts(1-3)[OF ok, of i] allow_parts(5)[OF ok, of ip i] Request by simp
  qed
next
  case (Sweep t)
  with assms sweep_parts[of t l] show ?thesis by simp
qed

text \<open>Tokens are conserved: what was admitted was either there at the start or has come in since.\<close>

lemma admitted_le:
  assumes "lim_ok t l" and "sorted (map time_of es)" and "\<forall>e \<in> set es. t \<le> time_of e \<and> time_of e \<le> u" and "t \<le> u"
  shows "of_nat (admitted ip es l) \<le> level ip t l + seconds (u - t) * l_rate l"
  using assms
proof (induction es arbitrary: t l)
  case Nil
  then show ?case using level_bounds[OF Nil(1), of ip] seconds_nonneg[of "u - t"] by (simp add: lim_ok_def)
next
  case (Cons e es)
  let ?v = "time_of e"
  have v: "t \<le> ?v" "?v \<le> u" using Cons.prems(3) by simp_all
  have ok: "lim_ok ?v l" by (rule lim_ok_later[OF Cons.prems(1) v(1)])
  note p = lstep_parts[OF ok, of ip]
  have ih: "of_nat (admitted ip es (lstep l e)) \<le> level ip ?v (lstep l e) + seconds (u - ?v) * l_rate l"
    using Cons.IH[of ?v "lstep l e"] p Cons.prems(2,3) v by auto
  have "seconds (u - ?v) + seconds (?v - t) = seconds (u - t)" using seconds_add[of "u - ?v" "?v - t"] by simp
  then have split: "seconds (u - t) * l_rate l = seconds (u - ?v) * l_rate l + seconds (?v - t) * l_rate l"
    by (metis distrib_right)
  show ?case using ih p level_later[OF Cons.prems(1) v(1), of ip] split by (auto split: if_splits)
qed

lemma run_lim_ok:
  "lim_ok t l \<Longrightarrow> sorted (map time_of es) \<Longrightarrow> \<forall>e \<in> set es. t \<le> time_of e \<and> time_of e \<le> u \<Longrightarrow> t \<le> u
    \<Longrightarrow> lim_ok u (foldl lstep l es) \<and> l_rate (foldl lstep l es) = l_rate l \<and> l_burst (foldl lstep l es) = l_burst l"
proof (induction es arbitrary: t l)
  case Nil
  then show ?case using lim_ok_later by simp
next
  case (Cons e es)
  have "lim_ok (time_of e) l" using Cons.prems(1,3) lim_ok_later by simp
  from lstep_parts[OF this] Cons.IH[of "time_of e" "lstep l e"] Cons.prems(2,3) show ?case by auto
qed

subsection \<open>Properties\<close>

text \<open>The limiter limits: after any history, one address gets at most \<open>burst + rate * T\<close> requests through
  in a window of \<open>T\<close> seconds, however the requests, those of other addresses and the rounds of the janitor
  fall in it, provided the rate refills a bucket within the ten minutes after which the janitor forgets it
  (here 10 tokens at one per second).\<close>

theorem window_is_bounded:
  assumes "0 \<le> rate" and "1 \<le> burst" and "of_nat burst \<le> rate * seconds idle_limit"
    and "sorted (map time_of (before @ window))" and "\<forall>e \<in> set before. time_of e \<le> t"
    and "\<forall>e \<in> set window. t \<le> time_of e \<and> time_of e \<le> u" and "t \<le> u"
  shows "of_nat (admitted ip window (foldl lstep (new_limiter rate burst) before)) \<le> of_nat burst + rate * seconds (u - t)"
proof -
  let ?l0 = "new_limiter rate burst"
  define a where "a = Min (insert t (time_of ` set before))"
  have a: "a \<le> t" "\<forall>e \<in> set before. a \<le> time_of e" by (auto simp: a_def)
  have "lim_ok a ?l0" using assms(1-3) by (simp add: lim_ok_def new_limiter_def)
  from run_lim_ok[OF this, of before t] assms(4,5) a
  have l: "lim_ok t (foldl lstep ?l0 before)" "l_rate (foldl lstep ?l0 before) = rate"
    "l_burst (foldl lstep ?l0 before) = of_nat burst" by (auto simp: sorted_append new_limiter_def)
  have "of_nat (admitted ip window (foldl lstep ?l0 before)) \<le> level ip t (foldl lstep ?l0 before) + seconds (u - t) * rate"
    using admitted_le[OF l(1) _ assms(6,7), of ip] assms(4) l(2) by (simp add: sorted_append)
  also have "level ip t (foldl lstep ?l0 before) \<le> of_nat burst" using level_bounds[OF l(1), of ip] l(3) by simp
  finally show ?thesis by (simp add: mult.commute)
qed

text \<open>The limit counts what the caller says its address is: a request whose X-Forwarded-For header names
  an address not seen before reaches the handler, however many requests of the same connection came before
  it, at any rate.\<close>

theorem forged_header_escapes:
  assumes "client_ip split x remote \<notin> (\<lambda>q. client_ip split (fst q) remote) ` set sent"
  shows "\<exists>l. limit_middleware split handler reject x remote now
      (foldl lstep (new_limiter rate burst) (map (\<lambda>q. Request (client_ip split (fst q) remote) (snd q)) sent)) = handler l"
proof -
  have seen: "l_visitors (foldl lstep l (map (\<lambda>q. Request (client_ip split (fst q) remote) (snd q)) qs)) ip = l_visitors l ip"
    if "ip \<notin> (\<lambda>q. client_ip split (fst q) remote) ` set qs" for ip qs l
    using that by (induction qs arbitrary: l) (auto simp: allow_def Let_def split: option.splits)
  have "l_visitors (new_limiter rate burst) (client_ip split x remote) = None" by (simp add: new_limiter_def)
  with seen[OF assms, of "new_limiter rate burst"]
  have "fst (allow (client_ip split x remote) now (foldl lstep (new_limiter rate burst)
      (map (\<lambda>q. Request (client_ip split (fst q) remote) (snd q)) sent)))" by (simp add: allow_def)
  then show ?thesis by (auto simp: limit_middleware_def split: prod.splits bool.splits)
qed

subsection \<open>Concrete runs\<close>

definition busy :: "levent list" where
  "busy = [Request ''a'' 0, Request ''a'' 1, Request ''b'' 2, Request ''a'' 3]"

lemma window_is_bounded_witness:
  "of_nat (admitted ''a'' busy (foldl lstep (new_limiter 1 10) [Request ''a'' 0])) \<le> of_nat 10 + 1 * seconds (second - 0)"
  by (rule window_is_bounded) (simp_all add: busy_def seconds_def idle_limit_def minute_def second_def)

lemma forged_header_escapes_witness:
  "\<exists>l. limit_middleware (\<lambda>_. None) (\<lambda>l. (200 :: nat, l)) 429 ''9.9.9.9'' ''h'' 0
      (foldl lstep (new_limiter 1 1) (map (\<lambda>q. Request (client_ip (\<lambda>_. None) (fst q) ''h'') (snd q)) [(''8.8.8.8'', 0)])) = (200, l)"
proof -
  have "client_ip (\<lambda>_. None) ''9.9.9.9'' ''h'' \<notin> (\<lambda>q. client_ip (\<lambda>_. None) (fst q) ''h'') ` set [(''8.8.8.8'', 0 :: gtime)]"
    by code_simp
  from forged_header_escapes[OF this, of "\<lambda>l. (200 :: nat, l)"] show ?thesis .
qed

end
