(* ===== verification/Keys.thy ===== *)
theory Keys
  imports Tables
begin

text \<open>
  API keys: the statements of \<open>internal/store/api_keys.sql.go\<close> and the authentication of
  \<open>internal/auth/auth.go\<close>. Keys are stored as hashes; the hash is a parameter (SHA-256 in the code).
  What a request presents is the header X-API-Key and, for event streams, the query parameter api_key.
\<close>

subsection \<open>Statements\<close>

definition count_active_api_keys :: "db \<Rightarrow> nat" where
  "count_active_api_keys s = length (filter (\<lambda>k. \<not> k_revoked k) (api_keys s))"

definition create_api_key :: "string \<Rightarrow> string \<Rightarrow> string list \<Rightarrow> gtime option \<Rightarrow> api_key dbtx" where
  "create_api_key name hash scopes expires = tx_bind draw_uuid (\<lambda>u. tx_bind get_now (\<lambda>t. (\<lambda>s.
     (let k = \<lparr>k_id = u, k_name = name, k_hash = hash, k_scopes = scopes, k_created_at = t, k_last_used = None,
               k_revoked = False, k_expires_at = expires\<rparr>
      in if has_row (\<lambda>r. k_id r = u \<or> k_hash r = hash) (api_keys s) then Inl unique_violation
         else Inr (k, s\<lparr>api_keys := api_keys s @ [k]\<rparr>)))))"

definition get_api_key_by_hash :: "string \<Rightarrow> db \<Rightarrow> error + api_key" where
  "get_api_key_by_hash h s = row_find (\<lambda>k. k_hash k = h \<and> \<not> k_revoked k
     \<and> (case k_expires_at k of None \<Rightarrow> True | Some e \<Rightarrow> db_now s < e)) (api_keys s)"

definition list_api_keys :: "db \<Rightarrow> api_key list" where
  "list_api_keys s = sort_key (\<lambda>k. - k_created_at k) (api_keys s)"

text \<open>An UPDATE of one key by its id, returning the row.\<close>

definition update_key :: "uuid \<Rightarrow> (gtime \<Rightarrow> api_key \<Rightarrow> api_key) \<Rightarrow> api_key dbtx" where
  "update_key x f s =
     (case row_find (\<lambda>k. k_id k = x) (api_keys s) of
        Inl e \<Rightarrow> Inl e
      | Inr k \<Rightarrow>
         (if has_row (\<lambda>r. k_id r \<noteq> x \<and> k_hash r = k_hash (f (db_now s) k)) (api_keys s) then Inl unique_violation
          else Inr (f (db_now s) k, s\<lparr>api_keys := rows_update (\<lambda>r. k_id r = x) (f (db_now s)) (api_keys s)\<rparr>)))"

definition revoke_api_key :: "uuid \<Rightarrow> api_key dbtx" where
  "revoke_api_key x = update_key x (\<lambda>_ k. k\<lparr>k_revoked := True\<rparr>)"

definition rotate_api_key :: "uuid \<Rightarrow> string \<Rightarrow> api_key dbtx" where
  "rotate_api_key x h = update_key x (\<lambda>_ k. k\<lparr>k_hash := h, k_revoked := False, k_expires_at := None, k_last_used := None\<rparr>)"

definition touch_api_key :: "uuid \<Rightarrow> unit dbtx" where
  "touch_api_key x s = Inr ((), s\<lparr>api_keys := rows_update (\<lambda>r. k_id r = x) (\<lambda>k. k\<lparr>k_last_used := Some (db_now s)\<rparr>) (api_keys s)\<rparr>)"

subsection \<open>Authentication\<close>

definition scope_read :: string where "scope_read = ''read''"
definition scope_write :: string where "scope_write = ''write''"
definition scope_ingest :: string where "scope_ingest = ''ingest''"

record identity =
  id_name :: string
  id_scopes :: "string list"

definition has_scope :: "identity \<Rightarrow> string \<Rightarrow> bool" where
  "has_scope i scope = list_ex (\<lambda>s. s = scope) (id_scopes i)"

text \<open>\<open>Actor\<close>: the name in the context, or a fallback.\<close>

definition actor_of :: "identity option \<Rightarrow> string" where
  "actor_of i = (case i of None \<Rightarrow> ''unknown'' | Some x \<Rightarrow> if id_name x \<noteq> [] then id_name x else ''unknown'')"

record credentials =
  cr_header :: string
  cr_query :: string

type_synonym refusal = "nat \<times> string"

definition presented :: "credentials \<Rightarrow> string" where
  "presented r = (if cr_header r = [] then cr_query r else cr_header r)"

text \<open>The usage stamp is written at most once a minute. \<open>now\<close> is the clock of the host, at which the
  statements run too.\<close>

definition authenticate :: "(string \<Rightarrow> string) \<Rightarrow> credentials \<Rightarrow> gtime \<Rightarrow> db \<Rightarrow> (refusal + identity) \<times> db" where
  "authenticate hash r now s =
     (let raw = presented r in
      if raw = [] then (Inl (401, ''missing X-API-Key''), s)
      else (case get_api_key_by_hash (hash raw) (s\<lparr>db_now := now\<rparr>) of
              Inl e \<Rightarrow> (Inl (if e = NoRows then (401, ''invalid API key'') else (500, ''auth lookup failed'')), s)
            | Inr k \<Rightarrow>
               (Inr \<lparr>id_name = k_name k, id_scopes = k_scopes k\<rparr>,
                if (case k_last_used k of None \<Rightarrow> True | Some t \<Rightarrow> minute < now - t)
                then snd (with_tx now (touch_api_key (k_id k)) s) else s)))"

definition key_middleware :: "(string \<Rightarrow> string) \<Rightarrow> string \<Rightarrow> (identity \<Rightarrow> db \<Rightarrow> 'r \<times> db) \<Rightarrow> credentials \<Rightarrow> gtime \<Rightarrow> db
    \<Rightarrow> (refusal + 'r) \<times> db" where
  "key_middleware hash scope handler r now s =
     (case authenticate hash r now s of
        (Inl e, s') \<Rightarrow> (Inl e, s')
      | (Inr i, s') \<Rightarrow>
         (if \<not> has_scope i scope then (Inl (403, ''key lacks scope: '' @ scope), s')
          else (case handler i s' of (x, s'') \<Rightarrow> (Inr x, s''))))"

text \<open>\<open>splitScopes\<close> of the key generator.\<close>

definition split_scopes :: "string \<Rightarrow> string list" where
  "split_scopes s = filter (\<lambda>p. p \<noteq> []) (map trim_space (split_on (CHR '','') s))"

subsection \<open>The table of keys as a machine\<close>

text \<open>Identifiers and hashes are unique.\<close>

definition keys_wf :: "db \<Rightarrow> bool" where
  "keys_wf s = (distinct (map k_id (api_keys s)) \<and> distinct (map k_hash (api_keys s)))"

datatype kevent =
    KCreate string string "string list" "gtime option" gtime
  | KRevoke uuid gtime
  | KRotate uuid string gtime
  | KTouch uuid gtime
  | KAuth "string \<Rightarrow> string" credentials gtime

fun kstep :: "db \<Rightarrow> kevent \<Rightarrow> db" where
  "kstep s (KCreate n h sc e t) = snd (with_tx t (create_api_key n h sc e) s)"
| "kstep s (KRevoke x t) = snd (with_tx t (revoke_api_key x) s)"
| "kstep s (KRotate x h t) = snd (with_tx t (rotate_api_key x h) s)"
| "kstep s (KTouch x t) = snd (with_tx t (touch_api_key x) s)"
| "kstep s (KAuth hash r t) = snd (authenticate hash r t s)"

lemma authenticate_state:
  "snd (authenticate hash r now s) = s \<or> (\<exists>x. snd (authenticate hash r now s) = kstep s (KTouch x now))"
  by (simp add: authenticate_def Let_def split: sum.split) blast

lemma create_key_Inr:
  "create_api_key n h sc e s = Inr (k, s') \<Longrightarrow>
     s' = s\<lparr>db_drawn := db_drawn s + 1, api_keys := api_keys s @ [k]\<rparr> \<and> k_hash k = h \<and> \<not> k_revoked k
     \<and> k_id k \<notin> k_id ` set (api_keys s) \<and> h \<notin> k_hash ` set (api_keys s)"
  by (auto simp: create_api_key_def tx_simps Let_def split: if_splits)

lemma update_key_Inr:
  assumes "update_key x f s = Inr (k, s')"
  obtains k0 where "row_find (\<lambda>k. k_id k = x) (api_keys s) = Inr k0" "k = f (db_now s) k0"
    "\<forall>r \<in> set (api_keys s). k_id r \<noteq> x \<longrightarrow> k_hash r \<noteq> k_hash k"
    "s' = s\<lparr>api_keys := rows_update (\<lambda>r. k_id r = x) (f (db_now s)) (api_keys s)\<rparr>"
  using assms by (auto simp: update_key_def split: sum.splits if_splits)

lemma update_key_wf:
  assumes id: "\<And>t k. k_id (f t k) = k_id k" and w: "keys_wf s" and r: "update_key x f s = Inr (k, s')"
  shows "keys_wf s'"
proof -
  obtain k0 where k0: "row_find (\<lambda>k. k_id k = x) (api_keys s) = Inr k0" "k = f (db_now s) k0"
    "\<forall>r \<in> set (api_keys s). k_id r \<noteq> x \<longrightarrow> k_hash r \<noteq> k_hash k"
    and s': "s' = s\<lparr>api_keys := rows_update (\<lambda>r. k_id r = x) (f (db_now s)) (api_keys s)\<rparr>"
    using r by (rule update_key_Inr)
  let ?g = "\<lambda>r. if k_id r = x then f (db_now s) r else r"
  have d: "distinct (map k_id (api_keys s))" "distinct (map k_hash (api_keys s))" using w by (simp_all add: keys_wf_def)
  have only: "r = k0" if "r \<in> set (api_keys s)" "k_id r = x" for r
    using distinct_key[OF d(1) that(1), of k0] row_find_Inr[OF k0(1)] that(2) by simp
  have inj: "inj_on (\<lambda>r. k_hash (?g r)) (set (api_keys s))"
  proof (rule inj_onI)
    fix a b assume ab: "a \<in> set (api_keys s)" "b \<in> set (api_keys s)" "k_hash (?g a) = k_hash (?g b)"
    show "a = b"
    proof (cases "k_id a = x"; cases "k_id b = x")
      assume "k_id a \<noteq> x" "k_id b \<noteq> x"
      with ab distinct_key[OF d(2)] show ?thesis by simp
    qed (use ab only k0(2,3) in auto)
  qed
  have "map k_hash (rows_update (\<lambda>r. k_id r = x) (f (db_now s)) (api_keys s)) = map (\<lambda>r. k_hash (?g r)) (api_keys s)"
    by (simp add: rows_update_def)
  moreover have "distinct (api_keys s)" using d(1) by (simp add: distinct_map)
  ultimately have "distinct (map k_hash (rows_update (\<lambda>r. k_id r = x) (f (db_now s)) (api_keys s)))"
    using inj by (simp add: distinct_map)
  moreover have "map k_id (rows_update (\<lambda>r. k_id r = x) (f (db_now s)) (api_keys s)) = map k_id (api_keys s)"
    by (rule rows_update_keys) (rule id)
  ultimately show ?thesis using d(1) by (simp add: keys_wf_def s')
qed

lemma revoke_wf: "keys_wf s \<Longrightarrow> revoke_api_key x s = Inr (k, s') \<Longrightarrow> keys_wf s'"
  unfolding revoke_api_key_def by (rule update_key_wf[where f = "\<lambda>_ k. k\<lparr>k_revoked := True\<rparr>"]) simp_all

lemma rotate_wf: "keys_wf s \<Longrightarrow> rotate_api_key x h s = Inr (k, s') \<Longrightarrow> keys_wf s'"
  unfolding rotate_api_key_def
  by (rule update_key_wf[where f = "\<lambda>_ k. k\<lparr>k_hash := h, k_revoked := False, k_expires_at := None, k_last_used := None\<rparr>"]) simp_all

lemma touch_wf: "keys_wf s \<Longrightarrow> touch_api_key x s = Inr (u, s') \<Longrightarrow> keys_wf s'"
  by (auto simp: touch_api_key_def keys_wf_def rows_update_keys)

lemma keys_wf_now [simp]: "keys_wf (s\<lparr>db_now := t\<rparr>) = keys_wf s"
  by (simp add: keys_wf_def)

lemma with_tx_wf: "(\<And>s u s'. keys_wf s \<Longrightarrow> m s = Inr (u, s') \<Longrightarrow> keys_wf s') \<Longrightarrow> keys_wf s \<Longrightarrow> keys_wf (snd (with_tx t m s))"
  by (intro with_tx_keeps[where I = keys_wf] tx_keepsI) auto

lemma kstep_wf: "keys_wf s \<Longrightarrow> keys_wf (kstep s e)"
proof (cases e)
  case (KCreate n h sc ex t)
  assume "keys_wf s"
  then show ?thesis unfolding KCreate kstep.simps
    by (intro with_tx_wf) (auto dest!: create_key_Inr simp: keys_wf_def)
next
  case (KRevoke x t)
  assume "keys_wf s"
  then show ?thesis unfolding KRevoke kstep.simps by (rule with_tx_wf[rotated]) (rule revoke_wf)
next
  case (KRotate x h t)
  assume "keys_wf s"
  then show ?thesis unfolding KRotate kstep.simps by (rule with_tx_wf[rotated]) (rule rotate_wf)
next
  case (KTouch x t)
  assume "keys_wf s"
  then show ?thesis unfolding KTouch kstep.simps by (rule with_tx_wf[rotated]) (rule touch_wf)
next
  case (KAuth hash r t)
  assume w: "keys_wf s"
  have "keys_wf (kstep s (KTouch x t))" for x
    using w unfolding kstep.simps by (rule with_tx_wf[rotated]) (rule touch_wf)
  then show ?thesis unfolding KAuth kstep.simps(5) using authenticate_state[of hash r t s] w by (elim disjE exE) simp_all
qed

interpretation keys: machine kstep keys_wf
  by unfold_locales (rule kstep_wf)

subsection \<open>Withdrawn keys\<close>

definition withdrawn :: "string \<Rightarrow> db \<Rightarrow> bool" where
  "withdrawn h s = (\<forall>k \<in> set (api_keys s). k_hash k = h \<longrightarrow> k_revoked k)"

text \<open>The events that make \<open>h\<close> the hash of a key.\<close>

fun installs :: "string \<Rightarrow> kevent \<Rightarrow> bool" where
  "installs h (KCreate n h' sc e t) = (h' = h)"
| "installs h (KRotate x h' t) = (h' = h)"
| "installs h _ = False"

lemma withdrawn_now [simp]: "withdrawn h (s\<lparr>db_now := t\<rparr>) = withdrawn h s"
  by (simp add: withdrawn_def)

lemma with_tx_withdrawn:
  "(\<And>s u s'. withdrawn h s \<Longrightarrow> m s = Inr (u, s') \<Longrightarrow> withdrawn h s') \<Longrightarrow> withdrawn h s \<Longrightarrow> withdrawn h (snd (with_tx t m s))"
  by (intro with_tx_keeps[where I = "withdrawn h"] tx_keepsI) auto

lemma touch_withdrawn: "withdrawn h s \<Longrightarrow> touch_api_key x s = Inr (u, s') \<Longrightarrow> withdrawn h s'"
  by (auto simp: touch_api_key_def withdrawn_def rows_update_def)

lemma update_key_withdrawn:
  assumes "\<And>t k. k_hash (f t k) = h \<Longrightarrow> k_revoked k \<or> k_hash k \<noteq> h \<Longrightarrow> k_revoked (f t k)"
    and "withdrawn h s" and "update_key x f s = Inr (k, s')"
  shows "withdrawn h s'"
  using assms(3) by (rule update_key_Inr) (use assms(1,2) in \<open>auto simp: withdrawn_def rows_update_def\<close>)

lemma revoke_withdrawn: "withdrawn h s \<Longrightarrow> revoke_api_key x s = Inr (k, s') \<Longrightarrow> withdrawn h s'"
  unfolding revoke_api_key_def by (rule update_key_withdrawn[where f = "\<lambda>_ k. k\<lparr>k_revoked := True\<rparr>"]) simp_all

lemma rotate_withdrawn: "h' \<noteq> h \<Longrightarrow> withdrawn h s \<Longrightarrow> rotate_api_key x h' s = Inr (k, s') \<Longrightarrow> withdrawn h s'"
  unfolding rotate_api_key_def
  by (rule update_key_withdrawn[where f = "\<lambda>_ k. k\<lparr>k_hash := h', k_revoked := False, k_expires_at := None, k_last_used := None\<rparr>"]) simp_all

lemma kstep_withdrawn:
  assumes "withdrawn h s" and "\<not> installs h e"
  shows "withdrawn h (kstep s e)"
proof (cases e)
  case (KCreate n h' sc ex t)
  then show ?thesis using assms unfolding KCreate kstep.simps
    by (intro with_tx_withdrawn) (auto dest!: create_key_Inr simp: withdrawn_def)
next
  case (KRevoke x t)
  show ?thesis using assms(1) unfolding KRevoke kstep.simps by (rule with_tx_withdrawn[rotated]) (rule revoke_withdrawn)
next
  case (KRotate x h' t)
  with assms(2) have "h' \<noteq> h" by simp
  show ?thesis using assms(1) unfolding KRotate kstep.simps
    by (rule with_tx_withdrawn[rotated]) (rule rotate_withdrawn[OF \<open>h' \<noteq> h\<close>])
next
  case (KTouch x t)
  show ?thesis using assms(1) unfolding KTouch kstep.simps by (rule with_tx_withdrawn[rotated]) (rule touch_withdrawn)
next
  case (KAuth hash r t)
  have "withdrawn h (kstep s (KTouch x t))" for x
    using assms(1) unfolding kstep.simps by (rule with_tx_withdrawn[rotated]) (rule touch_withdrawn)
  then show ?thesis unfolding KAuth kstep.simps(5) using authenticate_state[of hash r t s] assms(1) by (elim disjE exE) simp_all
qed

lemma withdrawn_refused:
  assumes "withdrawn (hash (presented r)) s" and "presented r \<noteq> []"
  shows "authenticate hash r now s = (Inl (401, ''invalid API key''), s)"
proof -
  have "get_api_key_by_hash (hash (presented r)) (s\<lparr>db_now := now\<rparr>) = Inl NoRows"
    using assms(1) by (auto simp: get_api_key_by_hash_def row_find_Inl withdrawn_def)
  then show ?thesis using assms(2) by (simp add: authenticate_def Let_def)
qed

lemma revoke_withdraws:
  assumes w: "keys_wf s" and k: "k \<in> set (api_keys s)"
  shows "withdrawn (k_hash k) (kstep s (KRevoke (k_id k) t))"
proof -
  have d: "distinct (map k_id (api_keys s))" "distinct (map k_hash (api_keys s))" using w by (simp_all add: keys_wf_def)
  have f: "row_find (\<lambda>r. k_id r = k_id k) (api_keys s) = Inr k" by (rule row_find_key[OF d(1) k])
  have o: "k_hash r \<noteq> k_hash k" if "r \<in> set (api_keys s)" "k_id r \<noteq> k_id k" for r
    using distinct_key[OF d(2) that(1) k] that(2) by blast
  then have "revoke_api_key (k_id k) (s\<lparr>db_now := t\<rparr>) = Inr (k\<lparr>k_revoked := True\<rparr>,
      s\<lparr>db_now := t, api_keys := rows_update (\<lambda>r. k_id r = k_id k) (\<lambda>k. k\<lparr>k_revoked := True\<rparr>) (api_keys s)\<rparr>)"
    using f by (auto simp: revoke_api_key_def update_key_def)
  then have "api_keys (kstep s (KRevoke (k_id k) t)) = rows_update (\<lambda>r. k_id r = k_id k) (\<lambda>k. k\<lparr>k_revoked := True\<rparr>) (api_keys s)"
    by (simp add: with_tx_def)
  then show ?thesis using o by (auto simp: withdrawn_def rows_update_set)
qed

lemma rotate_withdraws:
  assumes w: "keys_wf s" and k: "k \<in> set (api_keys s)" and h: "h \<notin> k_hash ` set (api_keys s)"
  shows "withdrawn (k_hash k) (kstep s (KRotate (k_id k) h t))"
proof -
  let ?f = "\<lambda>k. k\<lparr>k_hash := h, k_revoked := False, k_expires_at := None, k_last_used := None\<rparr>"
  have d: "distinct (map k_id (api_keys s))" "distinct (map k_hash (api_keys s))" using w by (simp_all add: keys_wf_def)
  have f: "row_find (\<lambda>r. k_id r = k_id k) (api_keys s) = Inr k" by (rule row_find_key[OF d(1) k])
  have o: "k_hash r \<noteq> k_hash k" if "r \<in> set (api_keys s)" "k_id r \<noteq> k_id k" for r
    using distinct_key[OF d(2) that(1) k] that(2) by blast
  have "rotate_api_key (k_id k) h (s\<lparr>db_now := t\<rparr>) = Inr (?f k,
      s\<lparr>db_now := t, api_keys := rows_update (\<lambda>r. k_id r = k_id k) ?f (api_keys s)\<rparr>)"
    using f h by (auto simp: rotate_api_key_def update_key_def)
  then have "api_keys (kstep s (KRotate (k_id k) h t)) = rows_update (\<lambda>r. k_id r = k_id k) ?f (api_keys s)"
    by (simp add: with_tx_def)
  moreover have "k_hash k \<noteq> h" using k h by blast
  ultimately show ?thesis using o by (auto simp: withdrawn_def rows_update_set)
qed

subsection \<open>Properties\<close>

text \<open>C36: A withdrawn key stays refused: after a key was revoked, or rotated to a new secret, its old
  secret is answered 401 and changes nothing, through every later history of key operations, unless some
  operation installs the very same secret again.\<close>

theorem withdrawn_key_stays_refused:
  assumes "keys_wf s" and "k \<in> set (api_keys s)"
    and "e = KRevoke (k_id k) t \<or> (\<exists>h. e = KRotate (k_id k) h t \<and> h \<notin> k_hash ` set (api_keys s))"
    and "\<forall>e' \<in> set es. \<not> installs (k_hash k) e'" and "hash (presented r) = k_hash k" and "presented r \<noteq> []"
  shows "authenticate hash r now (foldl kstep s (e # es)) = (Inl (401, ''invalid API key''), foldl kstep s (e # es))"
proof -
  have "withdrawn (k_hash k) (kstep s e)"
    using assms(3) revoke_withdraws[OF assms(1,2)] rotate_withdraws[OF assms(1,2)] by blast
  moreover have "keys_wf (kstep s e)" using assms(1) by (rule kstep_wf)
  ultimately have "withdrawn (k_hash k) (foldl kstep (kstep s e) es)"
    using keys.run_persist[where P = "withdrawn (k_hash k)" and allowed = "\<lambda>e. \<not> installs (k_hash k) e"] kstep_withdrawn assms(4)
    by blast
  then show ?thesis using assms(5,6) by (intro withdrawn_refused) simp_all
qed

text \<open>C15: A handler behind the key check runs only for a secret whose key exists, is not revoked, has not
  expired and holds the required scope; it gets the name and the scopes of that key. A refused request
  leaves everything as it was, but for the usage stamp of the key.\<close>

theorem handler_needs_live_key:
  "case key_middleware hash scope handler r now s of
     (Inr x, s') \<Rightarrow> (\<exists>k \<in> set (api_keys s). k_hash k = hash (presented r) \<and> presented r \<noteq> [] \<and> \<not> k_revoked k
        \<and> (k_expires_at k = None \<or> now < the (k_expires_at k)) \<and> scope \<in> set (k_scopes k)
        \<and> (\<exists>s1. (x, s') = handler \<lparr>id_name = k_name k, id_scopes = k_scopes k\<rparr> s1))
   | (Inl (code, _), s') \<Rightarrow> code \<in> {401, 403, 500}
        \<and> s' = s\<lparr>api_keys := api_keys s', db_now := db_now s'\<rparr>
        \<and> map (\<lambda>k. k\<lparr>k_last_used := None\<rparr>) (api_keys s') = map (\<lambda>k. k\<lparr>k_last_used := None\<rparr>) (api_keys s)"
proof (cases "presented r = []")
  case True
  then show ?thesis by (simp add: key_middleware_def authenticate_def Let_def)
next
  case False
  show ?thesis
  proof (cases "get_api_key_by_hash (hash (presented r)) (s\<lparr>db_now := now\<rparr>)")
    case (Inl e)
    with False show ?thesis by (simp add: key_middleware_def authenticate_def Let_def)
  next
    case (Inr k)
    then have k: "k \<in> set (api_keys s)" "k_hash k = hash (presented r)" "\<not> k_revoked k"
      "k_expires_at k = None \<or> now < the (k_expires_at k)"
      using row_find_Inr[OF Inr[unfolded get_api_key_by_hash_def]] by (auto split: option.splits)
    let ?id = "\<lparr>id_name = k_name k, id_scopes = k_scopes k\<rparr>"
    obtain s1 where a: "authenticate hash r now s = (Inr ?id, s1)"
      and s1: "s1 = s \<or> s1 = snd (with_tx now (touch_api_key (k_id k)) s)"
      using False Inr by (auto simp: authenticate_def Let_def)
    have frame: "s1 = s\<lparr>api_keys := api_keys s1, db_now := db_now s1\<rparr>
        \<and> map (\<lambda>k. k\<lparr>k_last_used := None\<rparr>) (api_keys s1) = map (\<lambda>k. k\<lparr>k_last_used := None\<rparr>) (api_keys s)"
      using s1 by (auto simp: with_tx_def touch_api_key_def rows_update_def)
    show ?thesis
    proof (cases "has_scope ?id scope")
      case True
      then have "scope \<in> set (k_scopes k)" by (simp add: has_scope_def list_ex_iff)
      with k False have "k_hash k = hash (presented r) \<and> presented r \<noteq> [] \<and> \<not> k_revoked k
        \<and> (k_expires_at k = None \<or> now < the (k_expires_at k)) \<and> scope \<in> set (k_scopes k)" by simp
      moreover obtain x s2 where "handler ?id s1 = (x, s2)" by (cases "handler ?id s1")
      moreover from this have "key_middleware hash scope handler r now s = (Inr x, s2)"
        using True a by (simp add: key_middleware_def)
      ultimately show ?thesis using k(1) by (simp, intro bexI[of _ k] conjI exI[of _ s1]) simp_all
    next
      case no: False
      with a frame show ?thesis by (simp add: key_middleware_def)
    qed
  qed
qed

subsection \<open>Concrete keys\<close>

definition demo_keys :: db where
  "demo_keys = snd (with_tx 5 (create_api_key ''agent'' ''h1'' [''read'', ''write''] None) empty_db)"

lemma demo_keys_eq: "api_keys demo_keys = [\<lparr>k_id = 0, k_name = ''agent'', k_hash = ''h1'', k_scopes = [''read'', ''write''],
    k_created_at = 5, k_last_used = None, k_revoked = False, k_expires_at = None\<rparr>]"
  by code_simp

lemma withdrawn_key_stays_refused_witness:
  "fst (authenticate (\<lambda>s. CHR ''h'' # s) \<lparr>cr_header = ''1'', cr_query = []\<rparr> 9
     (foldl kstep demo_keys [KRotate 0 ''h2'' 6, KCreate ''x'' ''h3'' [''read''] None 7])) = Inl (401, ''invalid API key'')"
proof -
  let ?k = "hd (api_keys demo_keys)"
  have k: "?k \<in> set (api_keys demo_keys)" "k_id ?k = 0" "k_hash ?k = ''h1''" by (simp_all add: demo_keys_eq)
  have w: "keys_wf demo_keys" by (simp add: keys_wf_def demo_keys_eq)
  have e: "KRotate 0 ''h2'' 6 = KRevoke (k_id ?k) 6 \<or> (\<exists>h. KRotate 0 ''h2'' 6 = KRotate (k_id ?k) h 6 \<and> h \<notin> k_hash ` set (api_keys demo_keys))"
    by (simp add: demo_keys_eq)
  from withdrawn_key_stays_refused[OF w k(1) e, of "[KCreate ''x'' ''h3'' [''read''] None 7]" "\<lambda>s. CHR ''h'' # s"
      "\<lparr>cr_header = ''1'', cr_query = []\<rparr>" 9]
  show ?thesis by (simp add: k(3) presented_def)
qed

end
