(* ===== verification/Settings.thy ===== *)
theory Settings
  imports Keys
begin

text \<open>
  The settings of an instance: the statements of \<open>internal/store/settings.sql.go\<close>, the snapshot of
  \<open>internal/service/settings.go\<close>, and first-run setup with the handlers of \<open>internal/api/setup.go\<close>. The
  state is the database, the snapshot (none before the first load), the key of the embedding client and
  whether it came from the environment (\<open>internal/embed/embed.go\<close>), the setup token and the cached answer
  that setup is done.
\<close>

subsection \<open>Statements\<close>

definition get_setting :: "string \<Rightarrow> db \<Rightarrow> error + setting" where
  "get_setting k s = row_find (\<lambda>r. g_key r = k) (settings s)"

text \<open>\<open>coll\<close> is the collation of the database.\<close>

definition list_settings :: "(string \<Rightarrow> nat) \<Rightarrow> db \<Rightarrow> setting list" where
  "list_settings coll s = sort_key (\<lambda>r. coll (g_key r)) (settings s)"

definition upsert_setting :: "string \<Rightarrow> json \<Rightarrow> unit dbtx" where
  "upsert_setting k v s =
     (if has_row (\<lambda>r. g_key r = k) (settings s)
      then Inr ((), s\<lparr>settings := rows_update (\<lambda>r. g_key r = k) (\<lambda>r. r\<lparr>g_value := v, g_updated_at := db_now s\<rparr>) (settings s)\<rparr>)
      else Inr ((), s\<lparr>settings := settings s @ [\<lparr>g_key = k, g_value = v, g_updated_at = db_now s\<rparr>]\<rparr>))"

subsection \<open>The snapshot\<close>

definition setting_instance_name :: string where "setting_instance_name = ''instance_name''"
definition setting_openai_key :: string where "setting_openai_key = ''openai_api_key''"
definition setting_flags :: string where "setting_flags = ''flags''"
definition setting_setup_complete :: string where "setting_setup_complete = ''setup_complete''"
definition flag_usage_analytics :: string where "flag_usage_analytics = ''usage_analytics''"
definition flag_bug_widget :: string where "flag_bug_widget = ''bug_widget''"

record snapshot =
  sn_name :: string
  sn_flags :: "string \<Rightarrow> bool option"

record server =
  sv_db :: db
  sv_snapshot :: "snapshot option"
  sv_embed_key :: string
  sv_env_key :: bool
  sv_setup_token :: string
  sv_setup_done :: bool

text \<open>A JSON null decodes into a string as the empty string.\<close>

definition setting_string :: "string \<Rightarrow> db \<Rightarrow> string option" where
  "setting_string k s =
     (case get_setting k s of
        Inl _ \<Rightarrow> None
      | Inr r \<Rightarrow> (case g_value r of JStr v \<Rightarrow> Some v | JNull \<Rightarrow> Some [] | _ \<Rightarrow> None))"

text \<open>Decoding into a map of booleans keeps going after a value of another type, which it stores as false;
  the error is ignored.\<close>

definition decode_flags :: "json \<Rightarrow> string \<Rightarrow> bool option" where
  "decode_flags v = (case v of JObj ps \<Rightarrow> foldl (\<lambda>m p. m(fst p \<mapsto> snd p = JBool True)) (\<lambda>_. None) ps | _ \<Rightarrow> (\<lambda>_. None))"

definition set_api_key :: "string \<Rightarrow> server \<Rightarrow> server" where
  "set_api_key k sv = (if sv_env_key sv then sv else sv\<lparr>sv_embed_key := k\<rparr>)"

definition reload_settings :: "server \<Rightarrow> server" where
  "reload_settings sv =
     (let snap = \<lparr>sn_name = coalesce (setting_string setting_instance_name (sv_db sv)) [],
                  sn_flags = (case get_setting setting_flags (sv_db sv) of Inl _ \<Rightarrow> (\<lambda>_. None) | Inr r \<Rightarrow> decode_flags (g_value r))\<rparr>;
          sv1 = (case setting_string setting_openai_key (sv_db sv) of None \<Rightarrow> sv | Some k \<Rightarrow> set_api_key k sv)
      in sv1\<lparr>sv_snapshot := Some snap\<rparr>)"

definition instance_name :: "server \<Rightarrow> string" where
  "instance_name sv = (case sv_snapshot sv of None \<Rightarrow> [] | Some n \<Rightarrow> sn_name n)"

definition flag :: "string \<Rightarrow> server \<Rightarrow> bool" where
  "flag name sv = (case sv_snapshot sv of None \<Rightarrow> True | Some n \<Rightarrow> coalesce (sn_flags n name) True)"

definition flags_snapshot :: "server \<Rightarrow> (string \<times> bool) list" where
  "flags_snapshot sv = [(flag_usage_analytics, flag flag_usage_analytics sv), (flag_bug_widget, flag flag_bug_widget sv)]"

definition embedding_enabled :: "server \<Rightarrow> bool" where
  "embedding_enabled sv = (sv_embed_key sv \<noteq> [])"

definition setup_complete :: "db \<Rightarrow> bool" where
  "setup_complete s =
     (case get_setting setting_setup_complete s of
        Inr r \<Rightarrow> g_value r = JBool True \<or> 0 < count_active_api_keys s
      | Inl _ \<Rightarrow> 0 < count_active_api_keys s)"

definition put_setting :: "string \<Rightarrow> json \<Rightarrow> gtime \<Rightarrow> server \<Rightarrow> (error + unit) \<times> server" where
  "put_setting k v now sv =
     (case with_tx now (upsert_setting k v) (sv_db sv) of
        (Inl e, s') \<Rightarrow> (Inl e, sv\<lparr>sv_db := s'\<rparr>)
      | (Inr _, s') \<Rightarrow> (Inr (), reload_settings (sv\<lparr>sv_db := s'\<rparr>)))"

subsection \<open>First-run setup\<close>

definition is_setup_complete :: "server \<Rightarrow> bool \<times> server" where
  "is_setup_complete sv =
     (if sv_setup_done sv then (True, sv)
      else if setup_complete (sv_db sv) then (True, sv\<lparr>sv_setup_done := True\<rparr>) else (False, sv))"

definition valid_scope :: "string \<Rightarrow> bool" where
  "valid_scope s = (s = scope_read \<or> s = scope_write \<or> s = scope_ingest)"

record setup_key =
  sk_name :: string
  sk_scopes :: "string list"

record setup_req =
  sr_name :: string
  sr_openai :: string
  sr_flags :: "(string \<times> bool) list option"
  sr_keys :: "setup_key list"

text \<open>What the environment decides: the random part of the n-th key, the hash, and whether the connection
  to the database fails on storing a setting or on the n-th key.\<close>

record setup_env =
  se_raw :: "nat \<Rightarrow> string"
  se_hash :: "string \<Rightarrow> string"
  se_put_fails :: "string \<Rightarrow> error option"
  se_key_fails :: "nat \<Rightarrow> error option"

definition flags_json :: "(string \<times> bool) list \<Rightarrow> json" where
  "flags_json fs = JObj (map (\<lambda>p. (fst p, JBool (snd p))) fs)"

definition store_setting :: "setup_env \<Rightarrow> gtime \<Rightarrow> string \<times> json \<Rightarrow> server \<Rightarrow> (error + unit) \<times> server" where
  "store_setting e now kv sv =
     (case se_put_fails e (fst kv) of Some er \<Rightarrow> (Inl er, sv) | None \<Rightarrow> put_setting (fst kv) (snd kv) now sv)"

primrec store_settings :: "setup_env \<Rightarrow> gtime \<Rightarrow> (string \<times> json) list \<Rightarrow> server \<Rightarrow> (error + unit) \<times> server" where
  "store_settings e now [] sv = (Inr (), sv)"
| "store_settings e now (kv # kvs) sv =
     (case store_setting e now kv sv of (Inl er, sv') \<Rightarrow> (Inl er, sv') | (Inr _, sv') \<Rightarrow> store_settings e now kvs sv')"

text \<open>\<open>NewRawKey("fd_")\<close>; the keys made so far are returned with the secrets, which are shown once.\<close>

definition raw_key :: "setup_env \<Rightarrow> nat \<Rightarrow> string" where
  "raw_key e n = ''fd_'' @ se_raw e n"

fun mint_keys :: "setup_env \<Rightarrow> gtime \<Rightarrow> nat \<Rightarrow> setup_key list \<Rightarrow> server \<Rightarrow> (error + (setup_key \<times> string) list) \<times> server" where
  "mint_keys e now n [] sv = (Inr [], sv)"
| "mint_keys e now n (k # ks) sv =
     (case (case se_key_fails e n of Some er \<Rightarrow> (Inl er, sv_db sv)
            | None \<Rightarrow> with_tx now (create_api_key (trim_space (sk_name k)) (se_hash e (raw_key e n)) (sk_scopes k) None) (sv_db sv)) of
        (Inl er, s') \<Rightarrow> (Inl er, sv\<lparr>sv_db := s'\<rparr>)
      | (Inr _, s') \<Rightarrow>
         (case mint_keys e now (Suc n) ks (sv\<lparr>sv_db := s'\<rparr>) of
            (Inl er, sv') \<Rightarrow> (Inl er, sv')
          | (Inr out, sv') \<Rightarrow> (Inr ((k, raw_key e n) # out), sv')))"

definition setup_settings :: "setup_req \<Rightarrow> (string \<times> json) list" where
  "setup_settings q = [(setting_instance_name, JStr (trim_space (sr_name q)))]
     @ (if sr_openai q \<noteq> [] then [(setting_openai_key, JStr (sr_openai q))] else [])
     @ (case sr_flags q of None \<Rightarrow> [] | Some fs \<Rightarrow> [(setting_flags, flags_json fs)])"

definition setup_bad :: "setup_req \<Rightarrow> bool" where
  "setup_bad q = (trim_space (sr_name q) = [] \<or> sr_keys q = []
     \<or> list_ex (\<lambda>k. trim_space (sk_name k) = [] \<or> sk_scopes k = [] \<or> list_ex (\<lambda>sc. \<not> valid_scope sc) (sk_scopes k)) (sr_keys q))"

text \<open>\<open>completeSetup\<close>; the answer is the status and, on success, the keys with their secrets. A database
  error is answered 500. The mutex of the code makes attempts run one after the other.\<close>

definition complete_setup :: "setup_env \<Rightarrow> string \<Rightarrow> setup_req option \<Rightarrow> gtime \<Rightarrow> server
    \<Rightarrow> (nat \<times> (setup_key \<times> string) list) \<times> server" where
  "complete_setup e token req now sv0 =
     (case is_setup_complete sv0 of (finished, sv) \<Rightarrow>
       if finished then ((410, []), sv)
       else if sv_setup_token sv = [] then ((503, []), sv)
       else if token \<noteq> sv_setup_token sv then ((401, []), sv)
       else (case req of
          None \<Rightarrow> ((400, []), sv)
        | Some q \<Rightarrow>
           (if setup_bad q then ((400, []), sv)
            else (case store_settings e now (setup_settings q) sv of
              (Inl _, sv1) \<Rightarrow> ((500, []), sv1)
            | (Inr _, sv1) \<Rightarrow>
               (case mint_keys e now 0 (sr_keys q) sv1 of
                  (Inl _, sv2) \<Rightarrow> ((500, []), sv2)
                | (Inr out, sv2) \<Rightarrow>
                   (case store_setting e now (setting_setup_complete, JBool True) sv2 of
                      (Inl _, sv3) \<Rightarrow> ((500, []), sv3)
                    | (Inr _, sv3) \<Rightarrow> ((200, out), sv3\<lparr>sv_setup_done := True\<rparr>)))))))"

text \<open>\<open>putSettings\<close>, behind the write scope: the given fields are stored in order.\<close>

definition put_settings :: "(string option \<times> string option \<times> (string \<times> bool) list option) option \<Rightarrow> gtime \<Rightarrow> server
    \<Rightarrow> nat \<times> server" where
  "put_settings req now sv =
     (case req of
        None \<Rightarrow> (400, sv)
      | Some (name, key, fs) \<Rightarrow>
         (if name \<noteq> None \<and> trim_space (the name) = [] then (400, sv)
          else (let put = (\<lambda>k v sv. snd (put_setting k v now sv));
                    sv1 = (case name of None \<Rightarrow> sv | Some n \<Rightarrow> put setting_instance_name (JStr (trim_space n)) sv);
                    sv2 = (case key of None \<Rightarrow> sv1 | Some k \<Rightarrow> put setting_openai_key (JStr k) sv1);
                    sv3 = (case fs of None \<Rightarrow> sv2 | Some f \<Rightarrow> put setting_flags (flags_json f) sv2)
                in (200, sv3))))"

subsection \<open>Lemmas\<close>

lemma reload_db [simp]: "sv_db (reload_settings sv) = sv_db sv" "sv_setup_done (reload_settings sv) = sv_setup_done sv"
    "sv_setup_token (reload_settings sv) = sv_setup_token sv"
  by (auto simp: reload_settings_def set_api_key_def Let_def split: option.splits)

lemma upsert_setting_total: "\<exists>s'. upsert_setting k v s = Inr ((), s')"
  by (simp add: upsert_setting_def)

lemma upsert_setting_frame: "upsert_setting k v s = Inr (u, s') \<Longrightarrow> api_keys s' = api_keys s"
  by (auto simp: upsert_setting_def split: if_splits)

lemma upsert_setting_get:
  "upsert_setting k v s = Inr (u, s') \<Longrightarrow> \<exists>r. get_setting k s' = Inr r \<and> g_value r = v"
proof -
  assume u: "upsert_setting k v s = Inr (u, s')"
  show ?thesis
  proof (cases "has_row (\<lambda>r. g_key r = k) (settings s)")
    case True
    then obtain r0 where "r0 \<in> set (settings s)" "g_key r0 = k" by auto
    then obtain r where "row_find (\<lambda>r. g_key r = k) (settings s) = Inr r"
      using row_find_ex[of r0 "settings s" "\<lambda>r. g_key r = k"] by blast
    with u True show ?thesis
      using row_find_rows_update[where k = g_key and a = k and f = "\<lambda>r. r\<lparr>g_value := v, g_updated_at := db_now s\<rparr>" and rs = "settings s"]
      by (auto simp: upsert_setting_def get_setting_def)
  next
    case False
    then have "row_find (\<lambda>r. g_key r = k) (settings s) = Inl NoRows" by (simp add: row_find_Inl)
    with u False show ?thesis by (auto simp: upsert_setting_def get_setting_def row_find_append)
  qed
qed

lemma put_setting_ok:
  "\<exists>sv'. put_setting k v now sv = (Inr (), sv') \<and> api_keys (sv_db sv') = api_keys (sv_db sv)
     \<and> (\<exists>r. get_setting k (sv_db sv') = Inr r \<and> g_value r = v)"
proof -
  obtain s' where s': "upsert_setting k v ((sv_db sv)\<lparr>db_now := now\<rparr>) = Inr ((), s')" using upsert_setting_total by blast
  then have "put_setting k v now sv = (Inr (), reload_settings (sv\<lparr>sv_db := s'\<rparr>))" by (simp add: put_setting_def with_tx_def)
  with upsert_setting_frame[OF s'] upsert_setting_get[OF s'] show ?thesis by simp
qed

lemma store_settings_keys:
  "store_settings e now kvs sv = (r, sv') \<Longrightarrow> api_keys (sv_db sv') = api_keys (sv_db sv)"
proof (induction kvs arbitrary: sv)
  case (Cons kv kvs)
  have "api_keys (sv_db (snd (store_setting e now kv sv))) = api_keys (sv_db sv)"
    using put_setting_ok[of "fst kv" "snd kv" now sv] by (auto simp: store_setting_def split: option.split)
  with Cons show ?case by (auto split: prod.splits sum.splits)
qed simp

lemma store_setting_Inr:
  assumes "store_setting e now (k, v) sv = (Inr u, sv')"
  shows "api_keys (sv_db sv') = api_keys (sv_db sv) \<and> (\<exists>r. get_setting k (sv_db sv') = Inr r \<and> g_value r = v)"
  using assms put_setting_ok[of k v now sv] by (auto simp: store_setting_def split: option.splits)

lemma store_settings_ok: "\<forall>k. se_put_fails e k = None \<Longrightarrow> \<exists>sv'. store_settings e now kvs sv = (Inr (), sv')"
proof (induction kvs arbitrary: sv)
  case (Cons kv kvs)
  then show ?case using put_setting_ok[of "fst kv" "snd kv" now sv] by (auto simp: store_setting_def)
qed simp

text \<open>A key row that authenticates as the identity asked for.\<close>

definition live_key :: "string \<Rightarrow> identity \<Rightarrow> db \<Rightarrow> bool" where
  "live_key h i s = (\<exists>k \<in> set (api_keys s). k_hash k = h \<and> \<not> k_revoked k \<and> k_expires_at k = None
     \<and> k_name k = id_name i \<and> k_scopes k = id_scopes i)"

lemma mint_keys_live:
  assumes "mint_keys e now n ks sv = (Inr out, sv')" and "keys_wf (sv_db sv)"
  shows "keys_wf (sv_db sv') \<and> set (api_keys (sv_db sv)) \<subseteq> set (api_keys (sv_db sv')) \<and> map fst out = ks
    \<and> (\<forall>p \<in> set out. live_key (se_hash e (snd p)) \<lparr>id_name = trim_space (sk_name (fst p)), id_scopes = sk_scopes (fst p)\<rparr> (sv_db sv'))"
  using assms
proof (induction ks arbitrary: n sv out)
  case (Cons k ks)
  let ?m = "create_api_key (trim_space (sk_name k)) (se_hash e (raw_key e n)) (sk_scopes k) None"
  obtain row s1 out' where c: "with_tx now ?m (sv_db sv) = (Inr row, s1)"
    and m: "mint_keys e now (Suc n) ks (sv\<lparr>sv_db := s1\<rparr>) = (Inr out', sv')" and out: "out = (k, raw_key e n) # out'"
    using Cons.prems(1) by (auto split: option.splits prod.splits sum.splits)
  from c have cr: "?m ((sv_db sv)\<lparr>db_now := now\<rparr>) = Inr (row, s1)" by (simp add: with_tx_Inr)
  have w1: "keys_wf s1" using kstep_wf[OF Cons.prems(2), of "KCreate (trim_space (sk_name k)) (se_hash e (raw_key e n)) (sk_scopes k) None now"] c
    by simp
  have "k_name row = trim_space (sk_name k)" "k_scopes row = sk_scopes k" "k_expires_at row = None"
    using cr by (auto simp: create_api_key_def tx_simps Let_def split: if_splits)
  then have live: "live_key (se_hash e (raw_key e n)) \<lparr>id_name = trim_space (sk_name k), id_scopes = sk_scopes k\<rparr> s1"
    and mono: "set (api_keys (sv_db sv)) \<subseteq> set (api_keys s1)"
    using create_key_Inr[OF cr] by (auto simp: live_key_def)
  from Cons.IH[OF m] w1 have ih: "keys_wf (sv_db sv')" "set (api_keys s1) \<subseteq> set (api_keys (sv_db sv'))" "map fst out' = ks"
    "\<forall>p \<in> set out'. live_key (se_hash e (snd p)) \<lparr>id_name = trim_space (sk_name (fst p)), id_scopes = sk_scopes (fst p)\<rparr> (sv_db sv')"
    by simp_all
  with live mono show ?case unfolding out live_key_def by fastforce
qed simp

lemma mint_keys_secrets: "mint_keys e now n ks sv = (Inr out, sv') \<Longrightarrow> p \<in> set out \<Longrightarrow> snd p \<noteq> []"
  by (induction e now n ks sv arbitrary: out rule: mint_keys.induct)
    (auto simp: raw_key_def split: option.splits prod.splits sum.splits)

lemma live_key_authenticates:
  assumes "keys_wf s" and "live_key (hash (presented r)) i s" and "presented r \<noteq> []"
  shows "fst (authenticate hash r now s) = Inr i"
proof -
  obtain k where k: "k \<in> set (api_keys s)" "k_hash k = hash (presented r)" "\<not> k_revoked k" "k_expires_at k = None"
    "k_name k = id_name i" "k_scopes k = id_scopes i" using assms(2) by (auto simp: live_key_def)
  let ?p = "\<lambda>k. k_hash k = hash (presented r) \<and> \<not> k_revoked k \<and> (case k_expires_at k of None \<Rightarrow> True | Some e \<Rightarrow> now < e)"
  obtain k' where k': "row_find ?p (api_keys s) = Inr k'" using row_find_ex[of k "api_keys s" ?p] k by auto
  have "distinct (map k_hash (api_keys s))" using assms(1) by (simp add: keys_wf_def)
  from distinct_key[OF this _ k(1)] row_find_Inr[OF k'] k(2) have "k' = k" by simp
  moreover have "get_api_key_by_hash (hash (presented r)) (s\<lparr>db_now := now\<rparr>) = row_find ?p (api_keys s)"
    unfolding get_api_key_by_hash_def by (intro arg_cong2[where f = row_find] ext) (simp_all split: option.split)
  ultimately show ?thesis using k' k assms(3) by (simp add: authenticate_def Let_def)
qed

lemma complete_setup_200:
  assumes "complete_setup e token req now sv = ((200, out), sv')"
  obtains q sv1 sv2 sv3 where "\<not> sv_setup_done sv" "\<not> setup_complete (sv_db sv)" "sv_setup_token sv \<noteq> []" "token = sv_setup_token sv"
    "req = Some q" "\<not> setup_bad q" "store_settings e now (setup_settings q) sv = (Inr (), sv1)"
    "mint_keys e now 0 (sr_keys q) sv1 = (Inr out, sv2)"
    "store_setting e now (setting_setup_complete, JBool True) sv2 = (Inr (), sv3)" "sv' = sv3\<lparr>sv_setup_done := True\<rparr>"
  using assms by (auto simp: complete_setup_def is_setup_complete_def split: if_splits option.splits prod.splits sum.splits)

subsection \<open>Properties\<close>

text \<open>C37: First-run setup needs the setup token, hands out keys that work, and runs once: an attempt that
  succeeds carried the token of an instance that was not set up; each secret it returns authenticates with the
  name and the scopes asked for; and every later attempt, also after a restart, with whatever token, is
  answered 410 and stores nothing, as long as the mark it left is there.\<close>

theorem setup_runs_once:
  assumes "complete_setup e token req now sv = ((200, out), sv')" and "keys_wf (sv_db sv)"
  shows "token = sv_setup_token sv \<and> token \<noteq> [] \<and> \<not> setup_complete (sv_db sv)
    \<and> (\<forall>p \<in> set out. fst (authenticate (se_hash e) \<lparr>cr_header = snd p, cr_query = []\<rparr> t (sv_db sv'))
         = Inr \<lparr>id_name = trim_space (sk_name (fst p)), id_scopes = sk_scopes (fst p)\<rparr>)
    \<and> (\<forall>later. get_setting setting_setup_complete (sv_db later) = get_setting setting_setup_complete (sv_db sv')
         \<longrightarrow> complete_setup e' token' req' now' later = ((410, []), later\<lparr>sv_setup_done := True\<rparr>))"
proof -
  obtain q sv1 sv2 sv3 where s: "\<not> setup_complete (sv_db sv)" "sv_setup_token sv \<noteq> []" "token = sv_setup_token sv"
    "store_settings e now (setup_settings q) sv = (Inr (), sv1)" "mint_keys e now 0 (sr_keys q) sv1 = (Inr out, sv2)"
    "store_setting e now (setting_setup_complete, JBool True) sv2 = (Inr (), sv3)" "sv' = sv3\<lparr>sv_setup_done := True\<rparr>"
    using complete_setup_200[OF assms(1)] by metis
  have "keys_wf (sv_db sv1)" using assms(2) store_settings_keys[OF s(4)] by (simp add: keys_wf_def)
  note m = mint_keys_live[OF s(5) this]
  note d = store_setting_Inr[OF s(6)]
  have w: "keys_wf (sv_db sv')" using m d by (simp add: keys_wf_def s(7))
  have auth: "fst (authenticate (se_hash e) \<lparr>cr_header = snd p, cr_query = []\<rparr> t (sv_db sv'))
         = Inr \<lparr>id_name = trim_space (sk_name (fst p)), id_scopes = sk_scopes (fst p)\<rparr>" if p: "p \<in> set out" for p
  proof (rule live_key_authenticates[OF w])
    have raw: "snd p \<noteq> []" using mint_keys_secrets[OF s(5) p] .
    show "presented \<lparr>cr_header = snd p, cr_query = []\<rparr> \<noteq> []" using raw by (simp add: presented_def)
    show "live_key (se_hash e (presented \<lparr>cr_header = snd p, cr_query = []\<rparr>))
        \<lparr>id_name = trim_space (sk_name (fst p)), id_scopes = sk_scopes (fst p)\<rparr> (sv_db sv')"
      using m d p raw by (simp add: live_key_def s(7) presented_def)
  qed
  have gone: "complete_setup e' token' req' now' later = ((410, []), later\<lparr>sv_setup_done := True\<rparr>)"
    if "get_setting setting_setup_complete (sv_db later) = get_setting setting_setup_complete (sv_db sv')" for later
  proof -
    have "setup_complete (sv_db later)" using that d by (auto simp: setup_complete_def s(7))
    then show ?thesis by (simp add: complete_setup_def is_setup_complete_def)
  qed
  show ?thesis using s(1-3) by (intro conjI ballI allI impI auth gone) simp_all
qed

text \<open>Setup that fails in the middle locks the instance: when the second key cannot be stored, the answer
  is 500 and no secret is returned, but the first key counts as set-up, so that every later attempt, also after
  a restart, is answered 410: no client holds a key and the wizard is closed.\<close>

theorem interrupted_setup_locks_out:
  assumes "api_keys (sv_db sv) = []" and "\<not> setup_complete (sv_db sv)" and "\<not> sv_setup_done sv"
    and "sv_setup_token sv = token" and "token \<noteq> []" and "\<not> setup_bad q" and "sr_keys q = k1 # k2 # ks"
    and "\<forall>k. se_put_fails e k = None" and "se_key_fails e 0 = None" and "se_key_fails e 1 = Some er"
  shows "\<exists>sv'. complete_setup e token (Some q) now sv = ((500, []), sv')
    \<and> (\<forall>later. sv_db later = sv_db sv'
         \<longrightarrow> complete_setup e' token' req' now' later = ((410, []), later\<lparr>sv_setup_done := True\<rparr>))"
proof -
  obtain sv1 where s1: "store_settings e now (setup_settings q) sv = (Inr (), sv1)" using store_settings_ok[OF assms(8)] by blast
  have none: "api_keys (sv_db sv1) = []" using store_settings_keys[OF s1] assms(1) by simp
  let ?m = "create_api_key (trim_space (sk_name k1)) (se_hash e (raw_key e 0)) (sk_scopes k1) None"
  have "\<exists>row s2. ?m ((sv_db sv1)\<lparr>db_now := now\<rparr>) = Inr (row, s2)"
    using none by (simp add: create_api_key_def tx_bind_def draw_uuid_def get_now_def tx_read_def Let_def)
  then obtain row s2 where c: "?m ((sv_db sv1)\<lparr>db_now := now\<rparr>) = Inr (row, s2)" by blast
  then have w: "with_tx now ?m (sv_db sv1) = (Inr row, s2)" by (simp add: with_tx_def)
  have row: "api_keys s2 = [row]" "\<not> k_revoked row" using create_key_Inr[OF c] none by simp_all
  have "mint_keys e now 0 (sr_keys q) sv1 = (Inl er, sv1\<lparr>sv_db := s2\<rparr>)"
    unfolding assms(7) using w assms(9,10) by simp
  then have run: "complete_setup e token (Some q) now sv = ((500, []), sv1\<lparr>sv_db := s2\<rparr>)"
    using assms s1 by (simp add: complete_setup_def is_setup_complete_def)
  have "complete_setup e' token' req' now' later = ((410, []), later\<lparr>sv_setup_done := True\<rparr>)" if l: "sv_db later = s2" for later
  proof -
    have "setup_complete (sv_db later)" using l row by (simp add: setup_complete_def count_active_api_keys_def split: sum.split)
    then show ?thesis by (simp add: complete_setup_def is_setup_complete_def)
  qed
  then have "sv_db later = sv_db (sv1\<lparr>sv_db := s2\<rparr>)
      \<Longrightarrow> complete_setup e' token' req' now' later = ((410, []), later\<lparr>sv_setup_done := True\<rparr>)" for later by simp
  with run show ?thesis by blast
qed

subsection \<open>A concrete setup\<close>

definition demo_server :: server where
  "demo_server = \<lparr>sv_db = empty_db, sv_snapshot = None, sv_embed_key = [], sv_env_key = False, sv_setup_token = ''tok'',
     sv_setup_done = False\<rparr>"

definition demo_setup :: setup_req where
  "demo_setup = \<lparr>sr_name = '' deck '', sr_openai = [], sr_flags = Some [(''bug_widget'', False)],
     sr_keys = [\<lparr>sk_name = ''agent'', sk_scopes = [''read'', ''write'']\<rparr>, \<lparr>sk_name = ''web'', sk_scopes = [''ingest'']\<rparr>]\<rparr>"

definition demo_setup_env :: "(nat \<Rightarrow> error option) \<Rightarrow> setup_env" where
  "demo_setup_env fails = \<lparr>se_raw = dec_nat, se_hash = (\<lambda>s. s), se_put_fails = (\<lambda>_. None), se_key_fails = fails\<rparr>"

definition demo_set_up :: "(nat \<times> (setup_key \<times> string) list) \<times> server" where
  "demo_set_up = complete_setup (demo_setup_env (\<lambda>_. None)) ''tok'' (Some demo_setup) 5 demo_server"

lemma demo_set_up_out:
  "fst demo_set_up = (200, [(\<lparr>sk_name = ''agent'', sk_scopes = [''read'', ''write'']\<rparr>, ''fd_0''),
     (\<lparr>sk_name = ''web'', sk_scopes = [''ingest'']\<rparr>, ''fd_1'')])"
  by code_simp

lemma setup_runs_once_witness:
  "complete_setup (demo_setup_env (\<lambda>_. None)) ''tok'' (Some demo_setup) 9 (demo_server\<lparr>sv_db := sv_db (snd demo_set_up)\<rparr>)
    = ((410, []), demo_server\<lparr>sv_db := sv_db (snd demo_set_up), sv_setup_done := True\<rparr>)"
proof -
  have run: "complete_setup (demo_setup_env (\<lambda>_. None)) ''tok'' (Some demo_setup) 5 demo_server
      = ((200, snd (fst demo_set_up)), snd demo_set_up)"
    using demo_set_up_out unfolding demo_set_up_def by (simp add: prod_eq_iff)
  have "keys_wf (sv_db demo_server)" by (simp add: keys_wf_def demo_server_def empty_db_def)
  from setup_runs_once[OF run this, THEN conjunct2, THEN conjunct2, THEN conjunct2, THEN conjunct2,
      THEN spec[of _ "demo_server\<lparr>sv_db := sv_db (snd demo_set_up)\<rparr>"]]
  show ?thesis by simp
qed

lemma interrupted_setup_locks_out_witness:
  "fst (complete_setup (demo_setup_env (\<lambda>n. if n = 1 then Some (ErrText ''down'') else None)) ''tok'' (Some demo_setup) 5 demo_server)
    = (500, [])"
proof -
  have "\<exists>sv'. complete_setup (demo_setup_env (\<lambda>n. if n = 1 then Some (ErrText ''down'') else None)) ''tok'' (Some demo_setup) 5 demo_server
      = ((500, []), sv') \<and> (\<forall>later. sv_db later = sv_db sv'
         \<longrightarrow> complete_setup (demo_setup_env (\<lambda>_. None)) ''tok'' (Some demo_setup) 9 later = ((410, []), later\<lparr>sv_setup_done := True\<rparr>))"
  proof (rule interrupted_setup_locks_out)
    show "\<not> setup_bad demo_setup" by code_simp
    show "sr_keys demo_setup = \<lparr>sk_name = ''agent'', sk_scopes = [''read'', ''write'']\<rparr> # \<lparr>sk_name = ''web'', sk_scopes = [''ingest'']\<rparr> # []"
      by (simp add: demo_setup_def)
  qed (simp_all add: demo_server_def empty_db_def setup_complete_def get_setting_def count_active_api_keys_def demo_setup_env_def)
  then show ?thesis by (metis fst_conv)
qed

end
