(* ===== verification/Mailbox.thy ===== *)
theory Mailbox
  imports Text
begin

text \<open>
  The rendezvous store of \<open>internal/mailbox/mailbox.go\<close>: mailboxes on disk, one directory each,
  holding the metadata file and one file per pending message, and the in-memory leases of messages
  handed out but not yet acknowledged. The operations are Create, Send, Receive, Ack and Delete of
  the type \<open>Store\<close>, plus the restart that empties the leases.

  The disk is the list of directory entries; a message file holds a decodable message, bytes that
  do not decode, or cannot be read. Where the code has a branch for a failing write, rename or
  remove, the operation takes the outcome of that call as an argument. Tokens and identifiers are
  drawn from \<open>crypto/rand\<close> by the code; here they are arguments of \<open>create\<close>.
\<close>

subsection \<open>Constants, records and names\<close>

definition max_message_bytes :: nat where "max_message_bytes = 8 * 1048576"
definition max_pending :: nat where "max_pending = 5000"
definition max_mailboxes :: nat where "max_mailboxes = 256"
definition lease_ttl :: gtime where "lease_ttl = 60 * second"
definition token_bytes :: nat where "token_bytes = 32"

record meta =
  meta_id :: string
  write_token_sha :: string
  read_token_sha :: string
  meta_created_at :: gtime
  next_seq :: int

record message =
  msg_seq :: int
  msg_sent_at :: gtime
  msg_body :: string

datatype msg_file = Msg message | Garbage | Unreadable

record box =
  box_meta :: meta
  box_files :: "(string \<times> msg_file) list"

record mstore =
  ms_boxes :: "(string \<times> box) list"
  ms_leases :: "string \<Rightarrow> int \<Rightarrow> gtime option"

definition new_store :: mstore where
  "new_store = \<lparr>ms_boxes = [], ms_leases = (\<lambda>_ _. None)\<rparr>"

text \<open>\<open>validID\<close>: exactly 64 lower-case hexadecimal digits.\<close>

definition hex_digits :: string where "hex_digits = ''0123456789abcdef''"

definition valid_id :: "string \<Rightarrow> bool" where
  "valid_id i = (length i = token_bytes * 2 \<and> list_all (\<lambda>r. r \<in> set hex_digits) i)"

text \<open>The file name of a message, \<open>fmt.Sprintf("%020d.msg", seq)\<close>: zero-padded to 20 columns,
  the sign first when there is one.\<close>

definition msg_suffix :: string where "msg_suffix = ''.msg''"

definition msg_name :: "int \<Rightarrow> string" where
  "msg_name q = (if q < 0 then CHR ''-'' # zero_pad 19 (dec_nat (nat (- q)))
                 else zero_pad 20 (dec_nat (nat q))) @ msg_suffix"

definition err_not_found :: error where "err_not_found = ErrText ''mailbox not found''"

definition load_meta :: "string \<Rightarrow> mstore \<Rightarrow> error + meta" where
  "load_meta i s =
     (if \<not> valid_id i then Inl err_not_found
      else case map_of (ms_boxes s) i of None \<Rightarrow> Inl err_not_found | Some b \<Rightarrow> Inr (box_meta b))"

definition put_box :: "string \<Rightarrow> box \<Rightarrow> mstore \<Rightarrow> mstore" where
  "put_box i b s = s\<lparr>ms_boxes := AList.update i b (ms_boxes s)\<rparr>"

definition box_of :: "string \<Rightarrow> mstore \<Rightarrow> box" where
  "box_of i s = (case map_of (ms_boxes s) i of Some b \<Rightarrow> b
     | None \<Rightarrow> \<lparr>box_meta = \<lparr>meta_id = i, write_token_sha = [], read_token_sha = [],
                 meta_created_at = 0, next_seq = 0\<rparr>, box_files = []\<rparr>)"

subsection \<open>Operations\<close>

definition create :: "(string \<Rightarrow> string) \<Rightarrow> string \<Rightarrow> string \<Rightarrow> string \<Rightarrow> gtime \<Rightarrow> mstore
    \<Rightarrow> (error + string \<times> string \<times> string) \<times> mstore" where
  "create hash_token i wt rt now s =
     (if max_mailboxes \<le> length (ms_boxes s)
      then (Inl (ErrText (''mailbox limit reached (256)'')), s)
      else (let m = \<lparr>meta_id = i, write_token_sha = hash_token wt, read_token_sha = hash_token rt,
                     meta_created_at = now, next_seq = 1\<rparr>;
                fs = (case map_of (ms_boxes s) i of None \<Rightarrow> [] | Some b \<Rightarrow> box_files b)
            in (Inr (i, wt, rt), put_box i \<lparr>box_meta = m, box_files = fs\<rparr> s)))"

text \<open>\<open>pendingSeqs\<close>: the numbers of the entries that end in \<open>.msg\<close> and start with a number,
  sorted.\<close>

definition file_seq :: "string \<Rightarrow> int option" where
  "file_seq name = (if has_suffix msg_suffix name then scan_d (trim_suffix msg_suffix name) else None)"

definition pending_seqs :: "box \<Rightarrow> int list" where
  "pending_seqs b = sort (List.map_filter (\<lambda>(name, _). file_seq name) (box_files b))"

text \<open>
  The outcome of the two writes of \<open>Send\<close>: both succeed, the message file is not written, or the
  message file is written and the metadata is not.
\<close>

datatype send_io = WritesOk | MsgWriteFails | MetaWriteFails

definition send :: "send_io \<Rightarrow> string \<Rightarrow> string \<Rightarrow> gtime \<Rightarrow> mstore \<Rightarrow> (error + int) \<times> mstore" where
  "send io i body now s =
     (case load_meta i s of Inl e \<Rightarrow> (Inl e, s)
      | Inr m \<Rightarrow>
         (let b = box_of i s in
          if max_pending \<le> length (pending_seqs b)
          then (Inl (ErrText ''mailbox full (5000 undelivered messages)''), s)
          else (let q = next_seq m;
                    env = \<lparr>msg_seq = q, msg_sent_at = now, msg_body = body\<rparr>;
                    b' = b\<lparr>box_files := AList.update (msg_name q) (Msg env) (box_files b)\<rparr>
                in (case io of
                      MsgWriteFails \<Rightarrow> (Inl (ErrText ''write''), s)
                    | MetaWriteFails \<Rightarrow> (Inl (ErrText ''save meta''), put_box i b' s)
                    | WritesOk \<Rightarrow> (Inr q, put_box i (b'\<lparr>box_meta := m\<lparr>next_seq := q + 1\<rparr>\<rparr>) s)))))"

text \<open>
  The loop of \<open>Receive\<close> over the pending numbers, with the files, the leases held and the output
  so far. An unreadable file ends it with an error; a file that does not decode is removed.
\<close>

fun recv_loop :: "gtime \<Rightarrow> nat \<Rightarrow> int list \<Rightarrow> (string \<times> msg_file) list \<Rightarrow> (int \<Rightarrow> gtime option)
    \<Rightarrow> message list \<Rightarrow> (error + message list) \<times> (string \<times> msg_file) list \<times> (int \<Rightarrow> gtime option)" where
  "recv_loop now limit [] files held out = (Inr out, files, held)"
| "recv_loop now limit (q # qs) files held out =
     (if limit \<le> length out then (Inr out, files, held)
      else if (case held q of Some ex \<Rightarrow> now < ex | None \<Rightarrow> False)
      then recv_loop now limit qs files held out
      else (case map_of files (msg_name q) of
              None \<Rightarrow> recv_loop now limit qs files held out
            | Some Unreadable \<Rightarrow> (Inl (ErrText ''read message''), files, held)
            | Some Garbage \<Rightarrow> recv_loop now limit qs (AList.delete (msg_name q) files) held out
            | Some (Msg m) \<Rightarrow> recv_loop now limit qs files (held(q := Some (now + lease_ttl))) (out @ [m])))"

definition receive :: "string \<Rightarrow> nat \<Rightarrow> gtime \<Rightarrow> mstore \<Rightarrow> (error + message list) \<times> mstore" where
  "receive i limit now s =
     (case load_meta i s of Inl e \<Rightarrow> (Inl e, s)
      | Inr _ \<Rightarrow>
         (let b = box_of i s;
              (r, files, held) = recv_loop now limit (pending_seqs b) (box_files b) (ms_leases s i) []
          in (r, (put_box i (b\<lparr>box_files := files\<rparr>) s)\<lparr>ms_leases := (ms_leases s)(i := held)\<rparr>)))"

text \<open>
  \<open>Ack\<close>. \<open>stuck\<close> are the files whose removal fails for a reason other than their absence.
\<close>

fun ack_loop :: "(int \<Rightarrow> bool) \<Rightarrow> int list \<Rightarrow> nat \<Rightarrow> (string \<times> msg_file) list \<Rightarrow> (int \<Rightarrow> gtime option)
    \<Rightarrow> (error + nat) \<times> (string \<times> msg_file) list \<times> (int \<Rightarrow> gtime option)" where
  "ack_loop stuck [] n files held = (Inr n, files, held)"
| "ack_loop stuck (q # qs) n files held =
     (case map_of files (msg_name q) of
        None \<Rightarrow> ack_loop stuck qs n files (held(q := None))
      | Some _ \<Rightarrow> (if stuck q then (Inl (ErrText ''remove''), files, held)
                   else ack_loop stuck qs (n + 1) (AList.delete (msg_name q) files) (held(q := None))))"

definition ack :: "(int \<Rightarrow> bool) \<Rightarrow> string \<Rightarrow> int list \<Rightarrow> mstore \<Rightarrow> (error + nat) \<times> mstore" where
  "ack stuck i seqs s =
     (case load_meta i s of Inl e \<Rightarrow> (Inl e, s)
      | Inr _ \<Rightarrow>
         (let b = box_of i s;
              (r, files, held) = ack_loop stuck seqs 0 (box_files b) (ms_leases s i)
          in (r, (put_box i (b\<lparr>box_files := files\<rparr>) s)\<lparr>ms_leases := (ms_leases s)(i := held)\<rparr>)))"

definition delete_box :: "string \<Rightarrow> mstore \<Rightarrow> (error + unit) \<times> mstore" where
  "delete_box i s =
     (case load_meta i s of Inl e \<Rightarrow> (Inl e, s)
      | Inr _ \<Rightarrow> (Inr (), s\<lparr>ms_boxes := AList.delete i (ms_boxes s),
                          ms_leases := (ms_leases s)(i := (\<lambda>_. None))\<rparr>))"

text \<open>A restart of the process: the disk stays, the leases are gone.\<close>

definition restart :: "mstore \<Rightarrow> mstore" where
  "restart s = s\<lparr>ms_leases := (\<lambda>_ _. None)\<rparr>"

subsection \<open>Names of message files\<close>

lemma msg_name_nonneg: "0 \<le> q \<Longrightarrow> msg_name q = zero_pad 20 (dec_nat (nat q)) @ msg_suffix"
  by (simp add: msg_name_def)

lemma file_seq_msg_name [simp]: "0 \<le> q \<Longrightarrow> file_seq (msg_name q) = Some q"
proof -
  assume q: "0 \<le> q"
  let ?ds = "zero_pad 20 (dec_nat (nat q))"
  have "scan_d ?ds = Some (int (digits_val ?ds))"
    by (rule scan_d_digits) (simp_all add: zero_pad_digits zero_pad_def)
  with q show ?thesis
    by (auto simp: file_seq_def msg_name_nonneg has_suffix_iff)
qed

lemma msg_name_inj: "0 \<le> p \<Longrightarrow> 0 \<le> q \<Longrightarrow> msg_name p = msg_name q \<longleftrightarrow> p = q"
  by (metis file_seq_msg_name option.inject)

lemma msg_name_sign: "q < 0 \<Longrightarrow> 0 \<le> p \<Longrightarrow> msg_name q \<noteq> msg_name p"
proof
  assume q: "q < 0" and p: "0 \<le> p" and eq: "msg_name q = msg_name p"
  have "hd (msg_name q) = CHR ''-''" using q by (simp add: msg_name_def)
  moreover have "hd (zero_pad 20 (dec_nat (nat p)) @ msg_suffix) \<in> set (zero_pad 20 (dec_nat (nat p)))"
    by (metis append_is_Nil_conv dec_nat_nonempty hd_append2 hd_in_set zero_pad_def)
  then have "is_digit_char (hd (msg_name p))"
    using p zero_pad_digits by (metis msg_name_nonneg)
  ultimately show False using eq by (metis not_digit_sign(1))
qed

subsection \<open>Well-formed mailboxes\<close>

text \<open>
  The files of a mailbox are message files with distinct names and numbers between one and the
  counter (the counter itself occurs when the metadata write of a send failed), a decodable file
  holds the message of its own number, and the number of files is within the bound.
\<close>

definition file_ok :: "int \<Rightarrow> string \<times> msg_file \<Rightarrow> bool" where
  "file_ok n e = (case e of (name, f) \<Rightarrow> \<exists>q. 1 \<le> q \<and> q \<le> n \<and> name = msg_name q
     \<and> (\<forall>m. f = Msg m \<longrightarrow> msg_seq m = q))"

definition box_ok :: "string \<Rightarrow> box \<Rightarrow> bool" where
  "box_ok i b = (meta_id (box_meta b) = i \<and> 1 \<le> next_seq (box_meta b)
     \<and> distinct (map fst (box_files b))
     \<and> (\<forall>e \<in> set (box_files b). file_ok (next_seq (box_meta b)) e)
     \<and> length (box_files b) \<le> max_pending)"

definition store_ok :: "mstore \<Rightarrow> bool" where
  "store_ok s = (distinct (map fst (ms_boxes s)) \<and> length (ms_boxes s) \<le> max_mailboxes
     \<and> (\<forall>(i, b) \<in> set (ms_boxes s). box_ok i b))"

definition pending :: "box \<Rightarrow> int \<Rightarrow> bool" where
  "pending b q = (1 \<le> q \<and> map_of (box_files b) (msg_name q) \<noteq> None)"

lemma store_ok_box: "store_ok s \<Longrightarrow> map_of (ms_boxes s) i = Some b \<Longrightarrow> box_ok i b"
  by (auto simp: store_ok_def dest: map_of_SomeD)

lemma box_ok_file:
  assumes "box_ok i b" and "map_of (box_files b) (msg_name q) = Some f" and "0 \<le> q"
  shows "1 \<le> q \<and> q \<le> next_seq (box_meta b) \<and> (\<forall>m. f = Msg m \<longrightarrow> msg_seq m = q)"
proof -
  from assms(2) have "(msg_name q, f) \<in> set (box_files b)" by (rule map_of_SomeD)
  with assms(1) have "file_ok (next_seq (box_meta b)) (msg_name q, f)" by (auto simp: box_ok_def)
  then obtain p where "1 \<le> p" "p \<le> next_seq (box_meta b)" "msg_name q = msg_name p"
      "\<forall>m. f = Msg m \<longrightarrow> msg_seq m = p"
    by (auto simp: file_ok_def)
  moreover from this have "q = p" using assms(3) msg_name_inj by simp
  ultimately show ?thesis by simp
qed

lemma file_seqs:
  assumes "\<forall>e \<in> set fs. file_ok n e"
  shows "map Some (List.map_filter (\<lambda>(name, _). file_seq name) fs) = map (file_seq \<circ> fst) fs"
    and "map msg_name (List.map_filter (\<lambda>(name, _). file_seq name) fs) = map fst fs"
  using assms
  by (induction fs) (auto simp: List.map_filter_def file_ok_def)

lemma pending_seqs_props:
  assumes "box_ok i b"
  shows "sorted (pending_seqs b)" and "distinct (pending_seqs b)"
    and "length (pending_seqs b) = length (box_files b)"
    and "q \<in> set (pending_seqs b) \<longleftrightarrow> pending b q"
proof -
  let ?qs = "List.map_filter (\<lambda>(name, _). file_seq name) (box_files b)"
  have ok: "\<forall>e \<in> set (box_files b). file_ok (next_seq (box_meta b)) e"
    and d: "distinct (map fst (box_files b))"
    using assms by (auto simp: box_ok_def)
  have names: "map msg_name ?qs = map fst (box_files b)" by (rule file_seqs(2)[OF ok])
  show "sorted (pending_seqs b)" by (simp add: pending_seqs_def)
  show "distinct (pending_seqs b)"
    using d names by (metis distinct_map distinct_sort pending_seqs_def)
  show "length (pending_seqs b) = length (box_files b)"
    using names by (metis length_map length_sort pending_seqs_def)
  have pos: "1 \<le> x" if "x \<in> set ?qs" for x
  proof -
    from that have "Some x \<in> set (map Some ?qs)" by simp
    then obtain e where "e \<in> set (box_files b)" "file_seq (fst e) = Some x"
      using file_seqs(1)[OF ok] by auto
    with ok show ?thesis by (fastforce simp: file_ok_def)
  qed
  show "q \<in> set (pending_seqs b) \<longleftrightarrow> pending b q"
  proof
    assume "q \<in> set (pending_seqs b)"
    then have q: "q \<in> set ?qs" by (simp add: pending_seqs_def)
    then have "msg_name q \<in> set (map fst (box_files b))" by (metis image_eqI list.set_map names)
    with pos[OF q] show "pending b q" by (simp add: pending_def map_of_eq_None_iff)
  next
    assume "pending b q"
    then have q: "1 \<le> q" "msg_name q \<in> set (map fst (box_files b))"
      by (auto simp: pending_def map_of_eq_None_iff)
    then obtain p where "p \<in> set ?qs" "msg_name p = msg_name q" by (metis (no_types, lifting) imageE list.set_map names)
    with pos[of p] q have "p = q" using msg_name_inj by simp
    with \<open>p \<in> set ?qs\<close> show "q \<in> set (pending_seqs b)" by (simp add: pending_seqs_def)
  qed
qed

subsection \<open>Every operation keeps the store well-formed\<close>

lemma alist_update_length:
  "length (AList.update k v al) = (if k \<in> fst ` set al then length al else Suc (length al))"
proof -
  have "length (map fst (AList.update k v al)) = length (if k \<in> set (map fst al) then map fst al else map fst al @ [k])"
    by (simp add: update_keys)
  then show ?thesis by auto
qed

lemma alist_update_set:
  "distinct (map fst al) \<Longrightarrow> e \<in> set (AList.update k v al) \<Longrightarrow> e = (k, v) \<or> (e \<in> set al \<and> fst e \<noteq> k)"
  by (induction al) (auto split: if_splits)

lemma alist_delete_set: "e \<in> set (AList.delete k al) \<longleftrightarrow> e \<in> set al \<and> fst e \<noteq> k"
  by (auto simp: AList.delete_eq)

lemma alist_delete_length: "length (AList.delete k al) \<le> length al"
  by (simp add: AList.delete_eq)

lemma store_ok_put:
  assumes "store_ok s" and "map_of (ms_boxes s) i \<noteq> None" and "box_ok i b"
  shows "store_ok (put_box i b s)"
proof -
  have d: "distinct (map fst (ms_boxes s))" using assms(1) by (simp add: store_ok_def)
  with assms show ?thesis
    by (auto simp: store_ok_def put_box_def distinct_update alist_update_length map_of_eq_None_iff
        dest!: alist_update_set[OF d])
qed

lemma store_ok_leases [simp]: "store_ok (s\<lparr>ms_leases := l\<rparr>) = store_ok s"
  by (simp add: store_ok_def)

lemma load_meta_Inr:
  "load_meta i s = Inr m \<longleftrightarrow> valid_id i \<and> (\<exists>b. map_of (ms_boxes s) i = Some b \<and> m = box_meta b)"
  by (auto simp: load_meta_def split: option.splits)

lemma load_meta_Inl: "load_meta i s = Inl e \<Longrightarrow> e = err_not_found"
  by (auto simp: load_meta_def split: option.splits if_splits)

lemma box_of_Some [simp]: "map_of (ms_boxes s) i = Some b \<Longrightarrow> box_of i s = b"
  by (simp add: box_of_def)

lemma box_ok_files:
  assumes "box_ok i b" and "set fs \<subseteq> set (box_files b)" and "distinct (map fst fs)"
    and "length fs \<le> length (box_files b)"
  shows "box_ok i (b\<lparr>box_files := fs\<rparr>)"
  using assms by (auto simp: box_ok_def)

lemma recv_loop_files:
  assumes "recv_loop now limit qs files held out = (r, files', held')" and "distinct (map fst files)"
  shows "set files' \<subseteq> set files \<and> distinct (map fst files') \<and> length files' \<le> length files"
  using assms
proof (induction now limit qs files held out rule: recv_loop.induct)
  case (2 now limit q qs files held out)
  have del: "distinct (map fst (AList.delete (msg_name q) files))" using "2.prems"(2) by (rule distinct_delete)
  show ?case
    using 2 del alist_delete_length[of "msg_name q" files]
    by (fastforce simp: alist_delete_set split: if_splits option.splits msg_file.splits)
qed auto

lemma ack_loop_files:
  assumes "ack_loop stuck qs n files held = (r, files', held')" and "distinct (map fst files)"
  shows "set files' \<subseteq> set files \<and> distinct (map fst files') \<and> length files' \<le> length files"
  using assms
proof (induction stuck qs n files held rule: ack_loop.induct)
  case (2 stuck q qs n files held)
  have del: "distinct (map fst (AList.delete (msg_name q) files))" using "2.prems"(2) by (rule distinct_delete)
  show ?case
    using 2 del alist_delete_length[of "msg_name q" files]
    by (fastforce simp: alist_delete_set split: if_splits option.splits)
qed auto

lemma create_ok:
  assumes "store_ok s" and "map_of (ms_boxes s) i = None"
  shows "store_ok (snd (create h i wt rt now s))"
proof (cases "max_mailboxes \<le> length (ms_boxes s)")
  case True
  with assms show ?thesis by (simp add: create_def)
next
  case False
  let ?b = "\<lparr>box_meta = \<lparr>meta_id = i, write_token_sha = h wt, read_token_sha = h rt,
               meta_created_at = now, next_seq = 1\<rparr>, box_files = []\<rparr>"
  have d: "distinct (map fst (ms_boxes s))" using assms(1) by (simp add: store_ok_def)
  have "box_ok i ?b" by (simp add: box_ok_def)
  with assms False have "store_ok (put_box i ?b s)"
    by (auto simp: store_ok_def put_box_def distinct_update alist_update_length
        dest!: alist_update_set[OF d])
  with False assms(2) show ?thesis by (simp add: create_def Let_def)
qed

lemma box_ok_add:
  assumes b: "box_ok i b" and room: "length (box_files b) < max_pending"
    and m: "msg_seq m = next_seq (box_meta b)" and n: "next_seq (box_meta b) \<le> n"
  shows "box_ok i (b\<lparr>box_files := AList.update (msg_name (msg_seq m)) (Msg m) (box_files b),
                     box_meta := (box_meta b)\<lparr>next_seq := n\<rparr>\<rparr>)"
proof -
  have "file_ok n e" if "e \<in> set (AList.update (msg_name (msg_seq m)) (Msg m) (box_files b))" for e
  proof -
    from that have "e = (msg_name (msg_seq m), Msg m) \<or> e \<in> set (box_files b)"
      using b alist_update_set by (fastforce simp: box_ok_def)
    then show ?thesis using b m n by (fastforce simp: box_ok_def file_ok_def)
  qed
  with b room n show ?thesis
    by (auto simp: box_ok_def distinct_update alist_update_length)
qed

lemma box_meta_next_id: "b\<lparr>box_files := fs, box_meta := (box_meta b)\<lparr>next_seq := next_seq (box_meta b)\<rparr>\<rparr> = b\<lparr>box_files := fs\<rparr>"
  by simp

lemma send_ok:
  assumes "store_ok s"
  shows "store_ok (snd (send io i body now s))"
proof (cases "load_meta i s")
  case (Inl e)
  with assms show ?thesis by (simp add: send_def)
next
  case (Inr m)
  then obtain b where b: "map_of (ms_boxes s) i = Some b" "m = box_meta b" by (auto simp: load_meta_Inr)
  then have ok: "box_ok i b" using assms store_ok_box by blast
  show ?thesis
  proof (cases "max_pending \<le> length (pending_seqs b)")
    case True
    with Inr b assms show ?thesis by (simp add: send_def)
  next
    case False
    then have room: "length (box_files b) < max_pending" using pending_seqs_props(3)[OF ok] by simp
    let ?e = "\<lparr>msg_seq = next_seq (box_meta b), msg_sent_at = now, msg_body = body\<rparr>"
    have 1: "box_ok i (b\<lparr>box_files := AList.update (msg_name (next_seq (box_meta b))) (Msg ?e) (box_files b)\<rparr>)"
      using box_ok_add[OF ok room, of ?e "next_seq (box_meta b)"] by simp
    have 2: "box_ok i (b\<lparr>box_files := AList.update (msg_name (next_seq (box_meta b))) (Msg ?e) (box_files b),
        box_meta := (box_meta b)\<lparr>next_seq := next_seq (box_meta b) + 1\<rparr>\<rparr>)"
      using box_ok_add[OF ok room, of ?e "next_seq (box_meta b) + 1"] by simp
    show ?thesis
      using False Inr b assms store_ok_put[OF assms, of i, OF _ 1] store_ok_put[OF assms, of i, OF _ 2]
      by (cases io) (simp_all add: send_def Let_def)
  qed
qed

lemma receive_ok:
  assumes "store_ok s"
  shows "store_ok (snd (receive i limit now s))"
proof (cases "load_meta i s")
  case (Inl e)
  with assms show ?thesis by (simp add: receive_def)
next
  case (Inr m)
  then obtain b where b: "map_of (ms_boxes s) i = Some b" by (auto simp: load_meta_Inr)
  then have ok: "box_ok i b" using assms store_ok_box by blast
  obtain r fs held where l: "recv_loop now limit (pending_seqs b) (box_files b) (ms_leases s i) [] = (r, fs, held)"
    by (metis prod_cases3)
  then have "box_ok i (b\<lparr>box_files := fs\<rparr>)"
    using recv_loop_files[OF l] ok by (intro box_ok_files) (auto simp: box_ok_def)
  with Inr b assms l show ?thesis by (simp add: receive_def store_ok_put)
qed

lemma ack_ok:
  assumes "store_ok s"
  shows "store_ok (snd (ack stuck i seqs s))"
proof (cases "load_meta i s")
  case (Inl e)
  with assms show ?thesis by (simp add: ack_def)
next
  case (Inr m)
  then obtain b where b: "map_of (ms_boxes s) i = Some b" by (auto simp: load_meta_Inr)
  then have ok: "box_ok i b" using assms store_ok_box by blast
  obtain r fs held where l: "ack_loop stuck seqs 0 (box_files b) (ms_leases s i) = (r, fs, held)"
    by (metis prod_cases3)
  then have "box_ok i (b\<lparr>box_files := fs\<rparr>)"
    using ack_loop_files[OF l] ok by (intro box_ok_files) (auto simp: box_ok_def)
  with Inr b assms l show ?thesis by (simp add: ack_def store_ok_put)
qed

lemma delete_box_ok:
  assumes "store_ok s"
  shows "store_ok (snd (delete_box i s))"
proof -
  have "length (AList.delete i (ms_boxes s)) \<le> max_mailboxes"
    using assms alist_delete_length[of i "ms_boxes s"] by (simp add: store_ok_def)
  with assms show ?thesis
    by (auto simp: delete_box_def store_ok_def distinct_delete alist_delete_set split: sum.splits)
qed

end
