(* ===== verification/Mailbox_Delivery.thy ===== *)
theory Mailbox_Delivery
  imports Mailbox
begin

text \<open>
  Delivery guarantees of the mailbox store over arbitrary histories of operations: the store as a
  machine whose events are the operations, restarts and damage to a file; what one Receive hands
  out; at-least-once delivery of an accepted message; exclusion while a lease runs.
\<close>

subsection \<open>The store as a machine\<close>

datatype mevent =
    EvCreate string string string gtime
  | EvSend send_io string string gtime
  | EvReceive string nat gtime
  | EvAck "int \<Rightarrow> bool" string "int list"
  | EvDelete string
  | EvRestart
  | EvDamage string string bool

text \<open>A file of a mailbox is damaged: it no longer decodes, or can no longer be read.\<close>

definition damage :: "string \<Rightarrow> string \<Rightarrow> bool \<Rightarrow> mstore \<Rightarrow> mstore" where
  "damage i name readable s =
     (case map_of (ms_boxes s) i of None \<Rightarrow> s
      | Some b \<Rightarrow> put_box i (b\<lparr>box_files := map (\<lambda>(n, f).
          (n, if n = name then (if readable then Garbage else Unreadable) else f)) (box_files b)\<rparr>) s)"

text \<open>Identifiers are fresh 256-bit random values: a creation that repeats one does not occur.\<close>

fun mstep :: "(string \<Rightarrow> string) \<Rightarrow> mstore \<Rightarrow> mevent \<Rightarrow> mstore" where
  "mstep h s (EvCreate i wt rt now) =
     (if map_of (ms_boxes s) i = None then snd (create h i wt rt now s) else s)"
| "mstep h s (EvSend io i body now) = snd (send io i body now s)"
| "mstep h s (EvReceive i limit now) = snd (receive i limit now s)"
| "mstep h s (EvAck stuck i seqs) = snd (ack stuck i seqs s)"
| "mstep h s (EvDelete i) = snd (delete_box i s)"
| "mstep h s EvRestart = restart s"
| "mstep h s (EvDamage i name readable) = damage i name readable s"

lemma damage_ok:
  assumes "store_ok s"
  shows "store_ok (damage i name readable s)"
proof (cases "map_of (ms_boxes s) i")
  case None
  with assms show ?thesis by (simp add: damage_def)
next
  case (Some b)
  with assms have ok: "box_ok i b" by (simp add: store_ok_box)
  let ?f = "\<lambda>(n, f). (n, if n = name then (if readable then Garbage else Unreadable) else f)"
  have keys: "map fst (map ?f (box_files b)) = map fst (box_files b)" by (simp add: case_prod_beta)
  have "file_ok n (?f e)" if "file_ok n e" for n e
    using that by (auto simp: file_ok_def split: if_splits)
  with ok have "\<forall>e \<in> set (map ?f (box_files b)). file_ok (next_seq (box_meta b)) e"
    by (simp add: box_ok_def)
  with ok keys have "box_ok i (b\<lparr>box_files := map ?f (box_files b)\<rparr>)"
    by (simp add: box_ok_def del: map_map)
  with Some assms show ?thesis by (simp add: damage_def store_ok_put)
qed

lemma mstep_ok: "store_ok s \<Longrightarrow> store_ok (mstep h s e)"
  by (cases e) (auto simp: create_ok send_ok receive_ok ack_ok delete_box_ok damage_ok restart_def)

interpretation mb: machine "mstep h" store_ok for h
  by unfold_locales (rule mstep_ok)

lemma new_store_ok [simp]: "store_ok new_store"
  by (simp add: new_store_def store_ok_def)

subsection \<open>The file of one number through one operation\<close>

text \<open>\<open>holds i q f s\<close>: the mailbox \<open>i\<close> has the file of number \<open>q\<close> with content \<open>f\<close>, and its
  counter has passed \<open>q\<close>.\<close>

definition holds :: "string \<Rightarrow> int \<Rightarrow> msg_file \<Rightarrow> mstore \<Rightarrow> bool" where
  "holds i q f s = (case map_of (ms_boxes s) i of None \<Rightarrow> False
     | Some b \<Rightarrow> q < next_seq (box_meta b) \<and> map_of (box_files b) (msg_name q) = Some f)"

lemma holdsI: "map_of (ms_boxes s) i = Some b \<Longrightarrow> q < next_seq (box_meta b) \<Longrightarrow>
    map_of (box_files b) (msg_name q) = Some f \<Longrightarrow> holds i q f s"
  by (simp add: holds_def)

lemma holdsE:
  assumes "holds i q f s"
  obtains b where "map_of (ms_boxes s) i = Some b" "q < next_seq (box_meta b)"
    "map_of (box_files b) (msg_name q) = Some f"
  using assms by (auto simp: holds_def split: option.splits)

lemma map_of_put_box: "map_of (ms_boxes (put_box i b s)) j = (if j = i then Some b else map_of (ms_boxes s) j)"
  by (simp add: put_box_def update_conv')

lemma ms_boxes_leases [simp]: "ms_boxes (s\<lparr>ms_leases := l\<rparr>) = ms_boxes s"
  by simp

lemma holds_leases [simp]: "holds i q f (s\<lparr>ms_leases := l\<rparr>) = holds i q f s"
  by (simp add: holds_def)

lemma holds_put_other: "i \<noteq> j \<Longrightarrow> holds i q f (put_box j b s) = holds i q f s"
  by (simp add: holds_def map_of_put_box)

lemma holds_put_same:
  "holds i q f (put_box i b s) \<longleftrightarrow> q < next_seq (box_meta b) \<and> map_of (box_files b) (msg_name q) = Some f"
  by (simp add: holds_def map_of_put_box)

lemma recv_loop_keeps:
  assumes "recv_loop now limit qs files held out = (r, files', held')"
    and "map_of files n = Some (Msg m)"
  shows "map_of files' n = Some (Msg m)"
  using assms
proof (induction qs arbitrary: files held out)
  case (Cons q qs)
  have del: "map_of files (msg_name q) = Some Garbage \<Longrightarrow>
      map_of (AList.delete (msg_name q) files) n = Some (Msg m)"
    using Cons.prems(2) by (auto simp: delete_conv')
  show ?case
    using Cons.prems del
    by (auto split: if_splits option.splits msg_file.splits intro: Cons.IH)
qed simp

lemma ack_loop_keeps:
  "n0 \<notin> msg_name ` set qs \<Longrightarrow> map_of (fst (snd (ack_loop stuck qs n files held))) n0 = map_of files n0"
  by (induction qs arbitrary: n files held) (auto simp: delete_conv' split: option.splits)

lemma msg_name_pos_eq: "1 \<le> q \<Longrightarrow> msg_name p = msg_name q \<Longrightarrow> p = q"
  by (metis int_one_le_iff_zero_less leI less_le_not_le msg_name_inj msg_name_sign order_less_le)

text \<open>The events that may destroy the message \<open>q\<close> of mailbox \<open>i\<close>.\<close>

fun destroys :: "string \<Rightarrow> int \<Rightarrow> mevent \<Rightarrow> bool" where
  "destroys i q (EvAck stuck j seqs) = (i = j \<and> q \<in> set seqs)"
| "destroys i q (EvDelete j) = (i = j)"
| "destroys i q (EvDamage j name readable) = (i = j \<and> name = msg_name q)"
| "destroys i q _ = False"

lemma holds_send:
  assumes "store_ok s" and h: "holds i q (Msg m) s" and q: "1 \<le> q"
  shows "holds i q (Msg m) (snd (send io j body now s))"
proof (cases "load_meta j s")
  case (Inl e)
  with h show ?thesis by (simp add: send_def)
next
  case (Inr mt)
  then obtain b where b: "map_of (ms_boxes s) j = Some b" "mt = box_meta b" by (auto simp: load_meta_Inr)
  show ?thesis
  proof (cases "i = j")
    case False
    with h Inr show ?thesis by (cases io) (simp_all add: send_def Let_def holds_put_other)
  next
    case True
    with h b have qn: "q < next_seq mt" "map_of (box_files b) (msg_name q) = Some (Msg m)"
      by (auto simp: holds_def)
    then have "msg_name (next_seq mt) \<noteq> msg_name q" using q msg_name_pos_eq by fastforce
    with True h Inr b qn show ?thesis
      by (cases io) (simp_all add: send_def Let_def holds_put_same update_conv')
  qed
qed

lemma holds_receive:
  assumes h: "holds i q (Msg m) s"
  shows "holds i q (Msg m) (snd (receive j limit now s))"
proof (cases "load_meta j s")
  case (Inl e)
  with h show ?thesis by (simp add: receive_def)
next
  case (Inr mt)
  then obtain b where b: "map_of (ms_boxes s) j = Some b" by (auto simp: load_meta_Inr)
  obtain r fs held where l: "recv_loop now limit (pending_seqs b) (box_files b) (ms_leases s j) [] = (r, fs, held)"
    by (metis prod_cases3)
  from h b have "i = j \<Longrightarrow> map_of fs (msg_name q) = Some (Msg m)"
    using recv_loop_keeps[OF l] by (auto simp: holds_def)
  with h b Inr l show ?thesis
    by (cases "i = j") (auto simp: receive_def holds_put_same holds_put_other, auto simp: holds_def)
qed

lemma holds_ack:
  assumes h: "holds i q f s" and q: "1 \<le> q" and "\<not> (i = j \<and> q \<in> set seqs)"
  shows "holds i q f (snd (ack stuck j seqs s))"
proof (cases "load_meta j s")
  case (Inl e)
  with h show ?thesis by (simp add: ack_def)
next
  case (Inr mt)
  then obtain b where b: "map_of (ms_boxes s) j = Some b" by (auto simp: load_meta_Inr)
  obtain r fs held where l: "ack_loop stuck seqs 0 (box_files b) (ms_leases s j) = (r, fs, held)"
    by (metis prod_cases3)
  have "i = j \<Longrightarrow> msg_name q \<notin> msg_name ` set seqs"
    using assms(3) q msg_name_pos_eq by (metis imageE)
  then have "i = j \<Longrightarrow> map_of fs (msg_name q) = map_of (box_files b) (msg_name q)"
    using ack_loop_keeps[of "msg_name q" seqs stuck 0 "box_files b" "ms_leases s j"] l by simp
  with h b Inr l show ?thesis
    by (cases "i = j") (auto simp: ack_def holds_put_same holds_put_other, auto simp: holds_def)
qed

lemma holds_create:
  assumes "holds i q f s" and "map_of (ms_boxes s) j = None"
  shows "holds i q f (snd (create h j wt rt now s))"
  using assms by (auto simp: create_def Let_def holds_def map_of_put_box split: option.splits)

lemma holds_delete: "holds i q f s \<Longrightarrow> i \<noteq> j \<Longrightarrow> holds i q f (snd (delete_box j s))"
  by (auto simp: delete_box_def holds_def delete_conv' split: sum.splits option.splits)

lemma map_of_map_keep:
  "k \<noteq> name \<Longrightarrow> map_of (map (\<lambda>(n, f). (n, if n = name then c else f)) xs) k = map_of xs k"
  by (induction xs) auto

lemma holds_damage:
  assumes "holds i q f s" and "\<not> (i = j \<and> name = msg_name q)"
  shows "holds i q f (damage j name readable s)"
  using assms
  by (cases "i = j") (auto simp: damage_def holds_def map_of_put_box map_of_map_keep
      split: option.splits)

lemma holds_step:
  assumes "store_ok s" and "holds i q (Msg m) s \<and> 1 \<le> q" and "\<not> destroys i q e"
  shows "holds i q (Msg m) (mstep h s e) \<and> 1 \<le> q"
  using assms
  by (cases e) (auto simp: holds_create holds_send holds_receive holds_ack holds_delete holds_damage
      restart_def)

lemma send_accepted:
  assumes "store_ok s" and "send io i body now s = (Inr q, s')"
  shows "holds i q (Msg \<lparr>msg_seq = q, msg_sent_at = now, msg_body = body\<rparr>) s'" and "1 \<le> q"
    and "io = WritesOk"
proof -
  obtain m where m: "load_meta i s = Inr m"
    using assms(2) by (cases "load_meta i s") (auto simp: send_def)
  then obtain b where b: "map_of (ms_boxes s) i = Some b" "m = box_meta b" by (auto simp: load_meta_Inr)
  then have ok: "box_ok i b" using assms(1) store_ok_box by blast
  from assms(2) m b have "q = next_seq m" and io: "io = WritesOk"
    and s': "s' = put_box i (b\<lparr>box_files := AList.update (msg_name q)
        (Msg \<lparr>msg_seq = q, msg_sent_at = now, msg_body = body\<rparr>) (box_files b),
        box_meta := m\<lparr>next_seq := q + 1\<rparr>\<rparr>) s"
    by (cases io; force simp: send_def Let_def split: if_splits)+
  then show "holds i q (Msg \<lparr>msg_seq = q, msg_sent_at = now, msg_body = body\<rparr>) s'"
    by (simp add: holds_put_same update_conv')
  show "1 \<le> q" using ok b \<open>q = next_seq m\<close> by (simp add: box_ok_def)
  show "io = WritesOk" by (rule io)
qed

lemma holds_run:
  assumes "store_ok s" and "holds i q (Msg m) s" and "1 \<le> q" and "\<forall>e \<in> set es. \<not> destroys i q e"
  shows "holds i q (Msg m) (foldl (mstep h) s es)"
proof -
  have "holds i q (Msg m) (foldl (mstep h) s es) \<and> 1 \<le> q"
    using mb.run_persist[where P = "\<lambda>s. holds i q (Msg m) s \<and> 1 \<le> q"
        and allowed = "\<lambda>e. \<not> destroys i q e" and h = h and es = es] holds_step assms
    by blast
  then show ?thesis by simp
qed

subsection \<open>What one Receive hands out\<close>

definition leased :: "gtime \<Rightarrow> (int \<Rightarrow> gtime option) \<Rightarrow> int \<Rightarrow> bool" where
  "leased now held q = (case held q of Some ex \<Rightarrow> now < ex | None \<Rightarrow> False)"

definition msg_at :: "(string \<times> msg_file) list \<Rightarrow> int \<Rightarrow> message option" where
  "msg_at files q = (case map_of files (msg_name q) of Some (Msg m) \<Rightarrow> Some m | _ \<Rightarrow> None)"

definition ready :: "gtime \<Rightarrow> (string \<times> msg_file) list \<Rightarrow> (int \<Rightarrow> gtime option) \<Rightarrow> int \<Rightarrow> bool" where
  "ready now files held q = (\<not> leased now held q \<and> msg_at files q \<noteq> None)"

lemma recv_loop_unfold:
  "recv_loop now limit (q # qs) files held out =
     (if limit \<le> length out then (Inr out, files, held)
      else if ready now files held q
      then recv_loop now limit qs files (held(q := Some (now + lease_ttl))) (out @ [the (msg_at files q)])
      else if leased now held q then recv_loop now limit qs files held out
      else (case map_of files (msg_name q) of
              Some Unreadable \<Rightarrow> (Inl (ErrText ''read message''), files, held)
            | Some Garbage \<Rightarrow> recv_loop now limit qs (AList.delete (msg_name q) files) held out
            | _ \<Rightarrow> recv_loop now limit qs files held out))"
  by (auto simp: ready_def leased_def msg_at_def split: option.splits msg_file.splits)

lemma recv_loop_spec:
  assumes "recv_loop now limit qs files held out = (Inr out', files', held')"
    and "distinct qs" and "\<forall>q \<in> set qs. 1 \<le> q" and "length out \<le> limit"
  defines "dq \<equiv> take (limit - length out) (filter (ready now files held) qs)"
  shows "out' = out @ map (\<lambda>q. the (msg_at files q)) dq
       \<and> held' = (\<lambda>q. if q \<in> set dq then Some (now + lease_ttl) else held q)"
  using assms(1-4) unfolding dq_def
proof (induction qs arbitrary: files held out)
  case Nil
  then show ?case by simp
next
  case (Cons q qs)
  have q: "q \<notin> set qs" "1 \<le> q" and pos: "\<forall>p \<in> set qs. 1 \<le> p" using Cons.prems by auto
  have names: "msg_name p \<noteq> msg_name q" if "p \<in> set qs" for p
    using that q pos msg_name_inj[of p q] by force
  consider "limit \<le> length out" | "length out < limit" "ready now files held q"
    | "length out < limit" "\<not> ready now files held q" by linarith
  then show ?case
  proof cases
    case 1
    with Cons.prems show ?thesis by simp
  next
    case 2
    let ?held = "held(q := Some (now + lease_ttl))"
    have same: "filter (ready now files ?held) qs = filter (ready now files held) qs"
      using q(1) by (intro filter_cong) (auto simp: ready_def leased_def)
    have r: "recv_loop now limit qs files ?held (out @ [the (msg_at files q)]) = (Inr out', files', held')"
      using Cons.prems(1) 2 unfolding recv_loop_unfold by simp
    show ?thesis
      using Cons.IH[OF r] Cons.prems 2 q(1) unfolding same
      by (auto simp: Suc_diff_le fun_eq_iff take_Cons' dest: in_set_takeD)
  next
    case 3
    show ?thesis
    proof (cases "\<not> leased now held q \<and> map_of files (msg_name q) = Some Garbage")
      case True
      let ?fs = "AList.delete (msg_name q) files"
      have at: "msg_at ?fs p = msg_at files p" if "p \<in> set qs" for p
        using names[OF that] by (simp add: msg_at_def delete_conv')
      then have same: "filter (ready now ?fs held) qs = filter (ready now files held) qs"
        by (intro filter_cong) (auto simp: ready_def)
      have r: "recv_loop now limit qs ?fs held out = (Inr out', files', held')"
        using Cons.prems(1) 3 True unfolding recv_loop_unfold by simp
      show ?thesis
        using Cons.IH[OF r] Cons.prems 3 at unfolding same
        by (auto dest: in_set_takeD)
    next
      case False
      have r: "recv_loop now limit qs files held out = (Inr out', files', held')"
        using Cons.prems(1) 3 False unfolding recv_loop_unfold
        by (auto simp: ready_def msg_at_def split: if_splits option.splits msg_file.splits)
      show ?thesis using Cons.IH[OF r] Cons.prems 3 by auto
    qed
  qed
qed

lemma recv_loop_returns:
  assumes "\<forall>q \<in> set qs. map_of files (msg_name q) \<noteq> Some Unreadable"
  shows "\<exists>o' f' h'. recv_loop now limit qs files held out = (Inr o', f', h')"
  using assms
proof (induction qs arbitrary: files held out)
  case Nil
  then show ?case by simp
next
  case (Cons q qs)
  have "\<forall>p \<in> set qs. map_of (AList.delete (msg_name q) files) (msg_name p) \<noteq> Some Unreadable"
    using Cons.prems by (auto simp: delete_conv')
  with Cons show ?case
    by (auto simp del: recv_loop.simps simp: recv_loop_unfold split: option.splits msg_file.splits)
qed

lemma receive_cases:
  assumes "store_ok s" and "receive i limit now s = (Inr out, s')"
  obtains b files held where "map_of (ms_boxes s) i = Some b" "box_ok i b" "valid_id i"
    "recv_loop now limit (pending_seqs b) (box_files b) (ms_leases s i) [] = (Inr out, files, held)"
    "s' = (put_box i (b\<lparr>box_files := files\<rparr>) s)\<lparr>ms_leases := (ms_leases s)(i := held)\<rparr>"
proof -
  obtain m where m: "load_meta i s = Inr m"
    using assms(2) by (cases "load_meta i s") (auto simp: receive_def)
  then obtain b where b: "map_of (ms_boxes s) i = Some b" "valid_id i" by (auto simp: load_meta_Inr)
  obtain r fs held where l: "recv_loop now limit (pending_seqs b) (box_files b) (ms_leases s i) [] = (r, fs, held)"
    by (metis prod_cases3)
  with m b assms(2) show ?thesis
    using that[OF b(1) store_ok_box[OF assms(1) b(1)] b(2)] by (auto simp: receive_def)
qed

lemma ready_pending: "q \<in> set (filter (ready now (box_files b) held) qs) \<Longrightarrow> \<exists>m. msg_at (box_files b) q = Some m"
  by (auto simp: ready_def)

lemma msg_at_seq: "box_ok i b \<Longrightarrow> 0 \<le> q \<Longrightarrow> msg_at (box_files b) q = Some m \<Longrightarrow> msg_seq m = q"
  by (auto simp: msg_at_def split: option.splits msg_file.splits dest: box_ok_file)

lemma receive_spec:
  assumes ok: "store_ok s" and r: "receive i limit now s = (Inr out, s')"
    and b: "map_of (ms_boxes s) i = Some b"
  defines "dq \<equiv> take limit (filter (ready now (box_files b) (ms_leases s i)) (pending_seqs b))"
  shows "out = map (\<lambda>q. the (msg_at (box_files b) q)) dq" and "map msg_seq out = dq"
    and "ms_leases s' i = (\<lambda>q. if q \<in> set dq then Some (now + lease_ttl) else ms_leases s i q)"
proof -
  obtain files held where l: "box_ok i b"
      "recv_loop now limit (pending_seqs b) (box_files b) (ms_leases s i) [] = (Inr out, files, held)"
      "s' = (put_box i (b\<lparr>box_files := files\<rparr>) s)\<lparr>ms_leases := (ms_leases s)(i := held)\<rparr>"
    using receive_cases[OF ok r] b by (metis option.inject)
  note props = pending_seqs_props[OF l(1)]
  have pos: "\<forall>q \<in> set (pending_seqs b). 1 \<le> q" using props(4) by (auto simp: pending_def)
  have spec: "out = map (\<lambda>q. the (msg_at (box_files b) q)) dq
      \<and> held = (\<lambda>q. if q \<in> set dq then Some (now + lease_ttl) else ms_leases s i q)"
    using recv_loop_spec[OF l(2) props(2) pos] by (simp add: dq_def)
  then show "out = map (\<lambda>q. the (msg_at (box_files b) q)) dq" by simp
  from spec l(3) show "ms_leases s' i = (\<lambda>q. if q \<in> set dq then Some (now + lease_ttl) else ms_leases s i q)"
    by simp
  have "msg_seq (the (msg_at (box_files b) q)) = q" if "q \<in> set dq" for q
  proof -
    from that have "q \<in> set (pending_seqs b)" "ready now (box_files b) (ms_leases s i) q"
      by (auto simp: dq_def dest: in_set_takeD)
    with pos msg_at_seq[OF l(1)] show ?thesis by (fastforce simp: ready_def)
  qed
  with spec show "map msg_seq out = dq" by (simp add: map_idI)
qed

subsection \<open>Leases over a history\<close>

definition lasts :: "gtime \<Rightarrow> gtime option \<Rightarrow> bool" where
  "lasts t x = (case x of None \<Rightarrow> False | Some ex \<Rightarrow> t \<le> ex)"

definition held_until :: "string \<Rightarrow> int \<Rightarrow> gtime \<Rightarrow> mstore \<Rightarrow> bool" where
  "held_until i q t s = lasts t (ms_leases s i q)"

fun releases :: "string \<Rightarrow> int \<Rightarrow> mevent \<Rightarrow> bool" where
  "releases i q (EvAck stuck j seqs) = (i = j \<and> q \<in> set seqs)"
| "releases i q (EvDelete j) = (i = j)"
| "releases i q EvRestart = True"
| "releases i q _ = False"

lemma lease_ttl_pos: "0 < lease_ttl"
  by (simp add: lease_ttl_def)

lemma recv_loop_held:
  assumes "lasts t (held q)"
  shows "lasts t (snd (snd (recv_loop now limit qs files held out)) q)"
  using assms
proof (induction qs arbitrary: files held out)
  case Nil
  then show ?case by simp
next
  case (Cons p qs)
  have "lasts t ((held(p := Some (now + lease_ttl))) q)" if "ready now files held p"
    using that Cons.prems lease_ttl_pos
    by (auto simp: ready_def leased_def lasts_def split: option.splits)
  with Cons show ?case
    by (simp del: recv_loop.simps add: recv_loop_unfold split: option.split msg_file.split)
qed

lemma ack_loop_held:
  "q \<notin> set qs \<Longrightarrow> snd (snd (ack_loop stuck qs n files held)) q = held q"
  by (induction qs arbitrary: n files held) (auto split: option.splits)

lemma put_box_leases [simp]: "ms_leases (put_box i b s) = ms_leases s"
  by (simp add: put_box_def)

lemma held_until_receive: "held_until i q t s \<Longrightarrow> held_until i q t (snd (receive j limit now s))"
proof (cases "load_meta j s")
  case (Inr m)
  assume h: "held_until i q t s"
  obtain r fs held where l: "recv_loop now limit (pending_seqs (box_of j s)) (box_files (box_of j s)) (ms_leases s j) [] = (r, fs, held)"
    by (metis prod_cases3)
  with h Inr recv_loop_held[where held = "ms_leases s j" and q = q and t = t and now = now and limit = limit
      and qs = "pending_seqs (box_of j s)" and files = "box_files (box_of j s)" and out = "[]"]
  show ?thesis by (auto simp: held_until_def receive_def split: if_splits)
qed (simp add: receive_def)

lemma held_until_ack:
  "held_until i q t s \<Longrightarrow> \<not> (i = j \<and> q \<in> set seqs) \<Longrightarrow> held_until i q t (snd (ack stuck j seqs s))"
proof (cases "load_meta j s")
  case (Inr m)
  assume h: "held_until i q t s" and a: "\<not> (i = j \<and> q \<in> set seqs)"
  obtain r fs held where l: "ack_loop stuck seqs 0 (box_files (box_of j s)) (ms_leases s j) = (r, fs, held)"
    by (metis prod_cases3)
  with h Inr a ack_loop_held[of q seqs stuck 0 "box_files (box_of j s)" "ms_leases s j"]
  show ?thesis by (auto simp: held_until_def ack_def)
qed (simp add: ack_def)

lemma send_leases [simp]: "ms_leases (snd (send io i body now s)) = ms_leases s"
  by (cases io) (auto simp: send_def Let_def split: sum.splits)

lemma create_leases [simp]: "ms_leases (snd (create h i wt rt now s)) = ms_leases s"
  by (auto simp: create_def Let_def)

lemma damage_leases [simp]: "ms_leases (damage i name r s) = ms_leases s"
  by (auto simp: damage_def split: option.splits)

lemma held_until_step: "held_until i q t s \<Longrightarrow> \<not> releases i q e \<Longrightarrow> held_until i q t (mstep h s e)"
proof (cases e)
  case (EvDelete j)
  assume "held_until i q t s" "\<not> releases i q e"
  with EvDelete show ?thesis by (auto simp: held_until_def delete_box_def split: sum.splits)
qed (auto simp: held_until_receive held_until_ack, auto simp: held_until_def)

lemma held_until_run:
  assumes "store_ok s" and "held_until i q t s" and "\<forall>e \<in> set es. \<not> releases i q e"
  shows "held_until i q t (foldl (mstep h) s es)"
  using mb.run_persist[where P = "held_until i q t" and allowed = "\<lambda>e. \<not> releases i q e"]
    held_until_step assms by blast

subsection \<open>Properties\<close>

text \<open>Whatever operations, restarts and disk faults happen, a mailbox store stays well-formed: at
  most 256 mailboxes, at most 5000 pending messages in each, every file named by a number between one
  and the mailbox's counter and holding the message of that number.\<close>

theorem mailbox_always_wellformed: "store_ok (foldl (mstep h) new_store es)"
  by (rule mb.run_inv) simp

text \<open>C4: At-least-once delivery, the storage half: a message whose Send reported success stays on
  disk, under the number reported and with its body, through every later history of sends,
  deliveries, restarts and failing writes, until an Ack names that number, the mailbox is deleted, or
  its own file is damaged.\<close>

theorem accepted_message_stays:
  assumes "send io i body now (foldl (mstep h) new_store es0) = (Inr q, s')"
    and "\<forall>e \<in> set es. \<not> destroys i q e"
  shows "holds i q (Msg \<lparr>msg_seq = q, msg_sent_at = now, msg_body = body\<rparr>) (foldl (mstep h) s' es)"
proof -
  have ok: "store_ok (foldl (mstep h) new_store es0)" by (rule mb.run_inv) simp
  have "store_ok s'" using send_ok[OF ok, of io i body now] assms(1) by simp
  from holds_run[OF this send_accepted(1,2)[OF ok assms(1)] assms(2)] show ?thesis .
qed

text \<open>What a successful Receive hands out is exactly the first \<open>limit\<close> pending, decodable
  messages that are not under a running lease, in increasing order of number, and exactly those are
  put under a lease of 60 seconds.\<close>

theorem receive_hands_out_oldest_unleased:
  assumes "store_ok s" and "receive i limit now s = (Inr out, s')"
    and "map_of (ms_boxes s) i = Some b"
  shows "map msg_seq out = take limit (filter (ready now (box_files b) (ms_leases s i)) (pending_seqs b))
    \<and> sorted (map msg_seq out) \<and> length out \<le> limit
    \<and> (\<forall>m \<in> set out. msg_at (box_files b) (msg_seq m) = Some m)
    \<and> (\<forall>q. ms_leases s' i q = (if q \<in> msg_seq ` set out then Some (now + lease_ttl) else ms_leases s i q))"
proof -
  let ?dq = "take limit (filter (ready now (box_files b) (ms_leases s i)) (pending_seqs b))"
  have ok: "box_ok i b" using assms(1,3) store_ok_box by blast
  note spec = receive_spec[OF assms]
  have keys: "msg_seq ` set out = set ?dq" using spec(2) by (metis list.set_map)
  have at: "msg_at (box_files b) (msg_seq m) = Some m" if m: "m \<in> set out" for m
  proof -
    from m spec(1) obtain q where q: "q \<in> set ?dq" "m = the (msg_at (box_files b) q)" by auto
    then have q': "q \<in> set (pending_seqs b)" "ready now (box_files b) (ms_leases s i) q"
      by (auto dest: in_set_takeD)
    then obtain m' where m': "msg_at (box_files b) q = Some m'" by (auto simp: ready_def)
    with q have "m = m'" by simp
    moreover have "1 \<le> q" using q'(1) pending_seqs_props(4)[OF ok] by (auto simp: pending_def)
    ultimately show ?thesis using m' msg_at_seq[OF ok _ m'] by simp
  qed
  have "sorted ?dq" by (intro sorted_wrt_take sorted_wrt_filter pending_seqs_props(1)[OF ok])
  moreover have "length out \<le> limit" using spec(2) by (metis length_map length_take min.cobounded2)
  ultimately show ?thesis using spec(2,3) keys at by simp
qed

text \<open>Redelivery: a stored message whose lease has run out (or was forgotten by a restart) is handed
  out again by the next Receive of its mailbox, which succeeds, provided no file there is unreadable and
  fewer than \<open>limit\<close> deliverable messages precede it. A crashed receiver sees it again.\<close>

theorem expired_lease_redelivered:
  assumes "store_ok s" and "valid_id i" and "holds i q (Msg m) s" and "1 \<le> q"
    and "case ms_leases s i q of None \<Rightarrow> True | Some ex \<Rightarrow> ex \<le> now"
    and "\<forall>e \<in> set (box_files (box_of i s)). snd e \<noteq> Unreadable"
    and "length (filter (\<lambda>p. p < q \<and> ready now (box_files (box_of i s)) (ms_leases s i) p)
           (pending_seqs (box_of i s))) < limit"
  shows "\<exists>out s'. receive i limit now s = (Inr out, s') \<and> m \<in> set out"
proof -
  obtain b where b: "map_of (ms_boxes s) i = Some b" "map_of (box_files b) (msg_name q) = Some (Msg m)"
    using assms(3) by (rule holdsE)
  have ok: "box_ok i b" using assms(1) b(1) by (rule store_ok_box)
  note props = pending_seqs_props[OF ok]
  have q: "q \<in> set (pending_seqs b)" using props(4) b(2) assms(4) by (simp add: pending_def)
  have rq: "ready now (box_files b) (ms_leases s i) q"
    using assms(5) b(2) by (auto simp: ready_def leased_def msg_at_def split: option.splits)
  have "\<forall>q \<in> set (pending_seqs b). map_of (box_files b) (msg_name q) \<noteq> Some Unreadable"
    using assms(6) b(1) by (metis box_of_Some map_of_SomeD snd_conv)
  from recv_loop_returns[OF this] obtain o' f' h' where
    "recv_loop now limit (pending_seqs b) (box_files b) (ms_leases s i) [] = (Inr o', f', h')" by blast
  then obtain s' where r: "receive i limit now s = (Inr o', s')"
    using b(1) assms(2) by (auto simp: receive_def load_meta_def)
  let ?fs = "filter (ready now (box_files b) (ms_leases s i)) (pending_seqs b)"
  have sorted: "sorted ?fs" "distinct ?fs" using props by (auto intro: sorted_wrt_filter)
  have "q \<in> set ?fs" using q rq by simp
  then obtain k where k: "k < length ?fs" "?fs ! k = q" unfolding in_set_conv_nth by blast
  have "set (take k ?fs) \<subseteq> {p \<in> set (pending_seqs b). p < q \<and> ready now (box_files b) (ms_leases s i) p}"
  proof
    fix p assume "p \<in> set (take k ?fs)"
    then obtain j where j: "j < k" "p = ?fs ! j" using k by (auto simp: in_set_conv_nth)
    have jl: "j < length ?fs" using j(1) k(1) by simp
    have "p \<in> set ?fs" unfolding j(2) using jl by (rule nth_mem)
    moreover have "p \<le> q" using sorted_nth_mono[OF sorted(1), of j k] j k by simp
    moreover have "p \<noteq> q" using nth_eq_iff_index_eq[OF sorted(2) jl k(1)] j k by simp
    ultimately show "p \<in> {p \<in> set (pending_seqs b). p < q \<and> ready now (box_files b) (ms_leases s i) p}" by auto
  qed
  moreover have "{p \<in> set (pending_seqs b). p < q \<and> ready now (box_files b) (ms_leases s i) p}
      = set (filter (\<lambda>p. p < q \<and> ready now (box_files b) (ms_leases s i) p) (pending_seqs b))"
    by auto
  ultimately have "card (set (take k ?fs))
      \<le> length (filter (\<lambda>p. p < q \<and> ready now (box_files b) (ms_leases s i) p) (pending_seqs b))"
    by (metis (no_types, lifting) List.finite_set card_length card_mono order_trans)
  moreover have "card (set (take k ?fs)) = k"
    using sorted(2) k(1) by (simp only: distinct_card[OF distinct_take] length_take)
  moreover have "box_of i s = b" using b(1) by (simp add: box_of_Some)
  ultimately have "k < limit" using assms(7) by simp
  with k have "q \<in> set (take limit ?fs)" by (auto simp: in_set_conv_nth intro!: exI[of _ k])
  with receive_spec(1)[OF assms(1) r b(1)] b(2) have "m \<in> set o'"
    by (force simp: msg_at_def)
  with r show ?thesis by blast
qed

text \<open>Lease exclusion: a message that was handed out is not handed out again within 60 seconds,
  whatever happens in between except an Ack of that message, the deletion of its mailbox or a
  restart.\<close>

theorem lease_excludes_second_delivery:
  assumes "store_ok s" and "receive i l1 t1 s = (Inr out1, s1)" and "m \<in> set out1"
    and "\<forall>e \<in> set es. \<not> releases i (msg_seq m) e"
    and "receive i l2 t2 (foldl (mstep h) s1 es) = (Inr out2, s2)" and "t2 < t1 + lease_ttl"
  shows "msg_seq m \<notin> msg_seq ` set out2"
proof -
  let ?s = "foldl (mstep h) s1 es"
  have ok1: "store_ok s1" using receive_ok[OF assms(1), of i l1 t1] assms(2) by simp
  then have ok: "store_ok ?s" by (rule mb.run_inv)
  obtain b1 where b1: "map_of (ms_boxes s) i = Some b1" using receive_cases[OF assms(1,2)] by metis
  have "msg_seq m \<in> set (map msg_seq out1)" using assms(3) by simp
  then have "ms_leases s1 i (msg_seq m) = Some (t1 + lease_ttl)"
    using receive_spec(2,3)[OF assms(1,2) b1] by simp
  then have "held_until i (msg_seq m) (t1 + lease_ttl) s1" by (simp add: held_until_def lasts_def)
  then have "held_until i (msg_seq m) (t1 + lease_ttl) ?s" by (rule held_until_run[OF ok1 _ assms(4)])
  then have l: "leased t2 (ms_leases ?s i) (msg_seq m)"
    using assms(6) by (auto simp: held_until_def lasts_def leased_def split: option.splits)
  obtain b2 where b2: "map_of (ms_boxes ?s) i = Some b2" using receive_cases[OF ok assms(5)] by metis
  show ?thesis
  proof
    assume "msg_seq m \<in> msg_seq ` set out2"
    then have "msg_seq m \<in> set (map msg_seq out2)" by simp
    then have "ready t2 (box_files b2) (ms_leases ?s i) (msg_seq m)"
      using receive_spec(2)[OF ok assms(5) b2] by (auto dest: in_set_takeD)
    with l show False by (simp add: ready_def)
  qed
qed

subsection \<open>A concrete history\<close>

definition demo_id :: string where "demo_id = replicate 64 (CHR ''0'')"

definition demo_meta :: meta where
  "demo_meta = \<lparr>meta_id = demo_id, write_token_sha = ''w'', read_token_sha = ''r'', meta_created_at = 0, next_seq = 1\<rparr>"

definition demo_store :: mstore where
  "demo_store = \<lparr>ms_boxes = [(demo_id, \<lparr>box_meta = demo_meta, box_files = []\<rparr>)], ms_leases = (\<lambda>_ _. None)\<rparr>"

lemma demo_valid [simp]: "valid_id demo_id"
  by (simp add: valid_id_def demo_id_def token_bytes_def hex_digits_def list_all_iff)

lemma demo_load: "load_meta demo_id demo_store = Inr demo_meta"
  by (simp add: load_meta_def demo_store_def)

lemma demo_created: "demo_store = foldl (mstep id) new_store [EvCreate demo_id ''w'' ''r'' 0]"
  by (simp add: demo_store_def new_store_def create_def demo_meta_def put_box_def max_mailboxes_def)

lemma demo_store_ok: "store_ok demo_store"
  unfolding demo_created by (rule mb.run_inv) simp

lemma demo_send:
  "send WritesOk demo_id b t demo_store = (Inr 1, \<lparr>ms_boxes = [(demo_id, \<lparr>box_meta = demo_meta\<lparr>next_seq := 2\<rparr>,
     box_files = [(msg_name 1, Msg \<lparr>msg_seq = 1, msg_sent_at = t, msg_body = b\<rparr>)]\<rparr>)], ms_leases = (\<lambda>_ _. None)\<rparr>)"
  by (simp add: send_def demo_load, simp add: demo_store_def pending_seqs_def List.map_filter_def
      max_pending_def demo_meta_def put_box_def)

lemma accepted_message_stays_witness:
  "holds demo_id 1 (Msg \<lparr>msg_seq = 1, msg_sent_at = 5, msg_body = ''x''\<rparr>)
    (foldl (mstep id) (snd (send WritesOk demo_id ''x'' 5 demo_store)) [EvReceive demo_id 100 7, EvRestart])"
  by (rule accepted_message_stays[where h = id and ?es0.0 = "[EvCreate demo_id ''w'' ''r'' 0]" and io = WritesOk])
    (simp_all only: demo_created[symmetric], simp_all add: demo_send)

definition demo_msg :: message where
  "demo_msg = \<lparr>msg_seq = 1, msg_sent_at = 5, msg_body = ''x''\<rparr>"

definition demo_sent :: mstore where
  "demo_sent = snd (send WritesOk demo_id ''x'' 5 demo_store)"

lemma demo_sent_eq:
  "demo_sent = \<lparr>ms_boxes = [(demo_id, \<lparr>box_meta = demo_meta\<lparr>next_seq := 2\<rparr>,
     box_files = [(msg_name 1, Msg demo_msg)]\<rparr>)], ms_leases = (\<lambda>_ _. None)\<rparr>"
  by (simp add: demo_sent_def demo_send demo_msg_def)

lemma demo_sent_ok: "store_ok demo_sent"
  using send_ok[OF demo_store_ok, of WritesOk demo_id "''x''" 5] by (simp add: demo_sent_def)

lemma demo_receive:
  "receive demo_id 100 7 demo_sent = (Inr [demo_msg], demo_sent\<lparr>ms_leases := (ms_leases demo_sent)
     (demo_id := (ms_leases demo_sent demo_id)(1 := Some (7 + lease_ttl)))\<rparr>)"
  by (simp add: receive_def load_meta_def demo_sent_eq pending_seqs_def List.map_filter_def put_box_def)

lemma receive_hands_out_oldest_unleased_witness:
  "map msg_seq [demo_msg] = take 100 (filter (ready 7 (box_files (box_of demo_id demo_sent)) (ms_leases demo_sent demo_id))
      (pending_seqs (box_of demo_id demo_sent)))"
  using receive_hands_out_oldest_unleased[OF demo_sent_ok demo_receive, of "box_of demo_id demo_sent"]
  by (simp add: box_of_def demo_sent_eq)

lemma expired_lease_redelivered_witness:
  "\<exists>out s'. receive demo_id 1 (7 + lease_ttl) (snd (receive demo_id 100 7 demo_sent)) = (Inr out, s')
     \<and> demo_msg \<in> set out"
proof (rule expired_lease_redelivered[where q = 1])
  show "store_ok (snd (receive demo_id 100 7 demo_sent))" by (rule receive_ok[OF demo_sent_ok])
qed (simp_all add: demo_receive, simp_all add: demo_sent_eq holds_def demo_meta_def pending_seqs_def List.map_filter_def)

lemma demo_receive2:
  "receive demo_id 100 8 (foldl (mstep id) (snd (receive demo_id 100 7 demo_sent)) [EvReceive demo_id 100 7])
     = (Inr [], snd (receive demo_id 100 7 demo_sent))"
  by (simp add: demo_receive lease_ttl_pos, simp add: demo_sent_eq receive_def load_meta_def pending_seqs_def
      List.map_filter_def lease_ttl_def second_def put_box_def)

lemma lease_excludes_second_delivery_witness:
  "msg_seq demo_msg \<notin> msg_seq ` set (projr (fst (receive demo_id 100 8
      (foldl (mstep id) (snd (receive demo_id 100 7 demo_sent)) [EvReceive demo_id 100 7]))))"
  using lease_excludes_second_delivery[OF demo_sent_ok demo_receive _ _
      demo_receive2[unfolded demo_receive snd_conv], of demo_msg]
  by (simp only: demo_receive2, simp add: lease_ttl_def second_def)

subsection \<open>A number used twice\<close>

text \<open>When the write of the metadata fails after the message file was written, the number is used
  again, although the first message may have been handed out already: the sender is told that its
  second message was accepted, the receiver acknowledges the first, and the second is destroyed
  without ever having been handed out. (The comment in \<open>Send\<close> calls the reuse harmless.)\<close>

theorem seq_reuse_loses_message:
  "let s1 = snd (send MetaWriteFails demo_id ''first'' 1 demo_store);
       (got, s2) = receive demo_id 100 2 s1;
       (accepted, s3) = send WritesOk demo_id ''second'' 3 s2;
       (acked, s4) = ack (\<lambda>_. False) demo_id [1] s3
   in got = Inr [\<lparr>msg_seq = 1, msg_sent_at = 1, msg_body = ''first''\<rparr>] \<and> accepted = Inr 1
      \<and> acked = Inr 1 \<and> pending_seqs (box_of demo_id s4) = []"
  by (simp add: send_def demo_store_def load_meta_def pending_seqs_def List.map_filter_def max_pending_def
      put_box_def receive_def demo_meta_def ack_def box_of_def)

end
