(* ===== verification/Mailbox_Http.thy ===== *)
theory Mailbox_Http
  imports Mailbox_Delivery
begin

text \<open>
  The HTTP surface of the rendezvous server, the handlers of type \<open>Server\<close> in
  \<open>internal/mailbox/mailbox.go\<close>: a request is the Authorization header, the path value \<open>id\<close> and
  the body; a response is the status and what is encoded into the body. Token hashing
  (\<open>hashToken\<close>, SHA-256) and JSON decoding of the acknowledgement are arguments.
\<close>

record request =
  req_auth :: string
  req_id :: string
  req_body :: "string option"

datatype resp_body =
    JError string
  | JCreated string string string
  | JSeq int
  | JMessages "message list"
  | JAcked nat
  | JText string
  | NoBody

type_synonym response = "nat \<times> resp_body"

datatype route = RHealth | RCreate | RDelete | RSend | RReceive | RAck

definition bearer :: "request \<Rightarrow> string" where
  "bearer r = (case cut_prefix ''Bearer '' (req_auth r) of Some after \<Rightarrow> after | None \<Rightarrow> [])"

definition token_matches :: "(string \<Rightarrow> string) \<Rightarrow> string \<Rightarrow> string \<Rightarrow> bool" where
  "token_matches hash_token presented want = (hash_token presented = want)"

definition write_err :: "nat \<Rightarrow> string \<Rightarrow> response" where
  "write_err code msg = (code, JError msg)"

definition err_message :: "error \<Rightarrow> string" where
  "err_message e = (case e of ErrText t \<Rightarrow> t | _ \<Rightarrow> [])"

text \<open>\<open>drawn\<close> and \<open>now\<close>: the identifier and tokens the creation draws, and the clock.\<close>

definition http_create :: "string \<Rightarrow> (string \<Rightarrow> string) \<Rightarrow> string \<times> string \<times> string \<Rightarrow> gtime \<Rightarrow> request
    \<Rightarrow> mstore \<Rightarrow> response \<times> mstore" where
  "http_create admin hash_token drawn now r s =
     (if admin = [] \<or> bearer r \<noteq> admin then (write_err 401 ''admin token required'', s)
      else (case drawn of (i, wt, rt) \<Rightarrow>
        (case create hash_token i wt rt now s of
           (Inl e, s') \<Rightarrow> (write_err 507 (err_message e), s')
         | (Inr (i', wt', rt'), s') \<Rightarrow> ((201, JCreated i' wt' rt'), s'))))"

text \<open>\<open>auth\<close>: the metadata, or the response already written.\<close>

definition http_auth :: "(string \<Rightarrow> string) \<Rightarrow> request \<Rightarrow> bool \<Rightarrow> mstore \<Rightarrow> response + meta" where
  "http_auth hash_token r wr s =
     (case load_meta (req_id r) s of
        Inl _ \<Rightarrow> Inl (write_err 404 ''mailbox not found'')
      | Inr m \<Rightarrow>
          (let want = (if wr then write_token_sha m else read_token_sha m)
           in if \<not> token_matches hash_token (bearer r) want
              then Inl (write_err 404 ''mailbox not found'') else Inr m))"

definition http_send :: "(string \<Rightarrow> string) \<Rightarrow> send_io \<Rightarrow> gtime \<Rightarrow> request \<Rightarrow> mstore \<Rightarrow> response \<times> mstore" where
  "http_send hash_token io now r s =
     (case http_auth hash_token r True s of
        Inl resp \<Rightarrow> (resp, s)
      | Inr m \<Rightarrow>
         (case req_body r of
            None \<Rightarrow> (write_err 400 ''read body'', s)
          | Some full \<Rightarrow>
             (let body = take (max_message_bytes + 1) full in
              if max_message_bytes < length body
              then (write_err 413 (''message exceeds '' @ dec_nat max_message_bytes @ '' bytes''), s)
              else if length body = 0 then (write_err 400 ''empty message'', s)
              else (case send io (meta_id m) body now s of
                      (Inl e, s') \<Rightarrow> (write_err 507 (err_message e), s')
                    | (Inr q, s') \<Rightarrow> ((202, JSeq q), s')))))"

definition http_receive :: "(string \<Rightarrow> string) \<Rightarrow> gtime \<Rightarrow> request \<Rightarrow> mstore \<Rightarrow> response \<times> mstore" where
  "http_receive hash_token now r s =
     (case http_auth hash_token r False s of
        Inl resp \<Rightarrow> (resp, s)
      | Inr m \<Rightarrow>
         (case receive (meta_id m) 100 now s of
            (Inl e, s') \<Rightarrow> (write_err 500 ''read messages'', s')
          | (Inr msgs, s') \<Rightarrow> ((200, JMessages msgs), s')))"

definition http_ack :: "(string \<Rightarrow> string) \<Rightarrow> (string \<Rightarrow> int list option) \<Rightarrow> (int \<Rightarrow> bool) \<Rightarrow> request \<Rightarrow> mstore
    \<Rightarrow> response \<times> mstore" where
  "http_ack hash_token decode stuck r s =
     (case http_auth hash_token r False s of
        Inl resp \<Rightarrow> (resp, s)
      | Inr m \<Rightarrow>
         (case Option.bind (req_body r) (\<lambda>b. decode (take 1048576 b)) of
            None \<Rightarrow> (write_err 400 ''decode ack'', s)
          | Some seqs \<Rightarrow>
             (case ack stuck (meta_id m) seqs s of
                (Inl e, s') \<Rightarrow> (write_err 500 ''ack'', s')
              | (Inr n, s') \<Rightarrow> ((200, JAcked n), s'))))"

definition http_del :: "(string \<Rightarrow> string) \<Rightarrow> request \<Rightarrow> mstore \<Rightarrow> response \<times> mstore" where
  "http_del hash_token r s =
     (case http_auth hash_token r True s of
        Inl resp \<Rightarrow> (resp, s)
      | Inr m \<Rightarrow>
         (case delete_box (meta_id m) s of
            (Inl e, s') \<Rightarrow> (write_err 500 ''delete mailbox'', s')
          | (Inr _, s') \<Rightarrow> ((204, NoBody), s')))"

text \<open>
  One request at the multiplexer, with everything the environment decides about it: the drawn
  tokens, the clock, the outcome of the disk writes, the decoder of the acknowledgement.
\<close>

record world =
  w_admin :: string
  w_hash :: "string \<Rightarrow> string"
  w_drawn :: "string \<times> string \<times> string"
  w_now :: gtime
  w_io :: send_io
  w_decode :: "string \<Rightarrow> int list option"
  w_stuck :: "int \<Rightarrow> bool"

definition handle :: "world \<Rightarrow> route \<Rightarrow> request \<Rightarrow> mstore \<Rightarrow> response \<times> mstore" where
  "handle w rt r s =
     (case rt of
        RHealth \<Rightarrow> ((200, JText ''ok''), s)
      | RCreate \<Rightarrow> http_create (w_admin w) (w_hash w) (w_drawn w) (w_now w) r s
      | RDelete \<Rightarrow> http_del (w_hash w) r s
      | RSend \<Rightarrow> http_send (w_hash w) (w_io w) (w_now w) r s
      | RReceive \<Rightarrow> http_receive (w_hash w) (w_now w) r s
      | RAck \<Rightarrow> http_ack (w_hash w) (w_decode w) (w_stuck w) r s)"

subsection \<open>Lemmas\<close>

text \<open>Whether a route asks for the write or the read capability of the mailbox in the path.\<close>

fun needs :: "route \<Rightarrow> bool option" where
  "needs RHealth = None" | "needs RCreate = None"
| "needs RDelete = Some True" | "needs RSend = Some True"
| "needs RReceive = Some False" | "needs RAck = Some False"

definition holds_token :: "(string \<Rightarrow> string) \<Rightarrow> request \<Rightarrow> bool \<Rightarrow> mstore \<Rightarrow> bool" where
  "holds_token h r wr s = (case load_meta (req_id r) s of Inl _ \<Rightarrow> False
     | Inr m \<Rightarrow> h (bearer r) = (if wr then write_token_sha m else read_token_sha m))"

lemma http_auth_Inl:
  "\<not> holds_token h r wr s \<Longrightarrow> http_auth h r wr s = Inl (write_err 404 ''mailbox not found'')"
  by (auto simp: http_auth_def holds_token_def token_matches_def split: sum.splits)

lemma http_auth_Inr:
  "http_auth h r wr s = Inr m \<Longrightarrow> load_meta (req_id r) s = Inr m \<and> holds_token h r wr s"
  by (auto simp: http_auth_def holds_token_def token_matches_def Let_def split: sum.splits if_splits)

lemma http_auth_meta_id:
  assumes "store_ok s" and "http_auth h r wr s = Inr m"
  shows "meta_id m = req_id r"
  using http_auth_Inr[OF assms(2)] store_ok_box[OF assms(1)]
  by (auto simp: load_meta_def box_ok_def split: if_splits option.splits)

text \<open>What a handler does to the store is one event of the store's machine, or nothing.\<close>

fun route_event :: "world \<Rightarrow> route \<Rightarrow> request \<Rightarrow> mevent set" where
  "route_event w RHealth r = {}"
| "route_event w RCreate r = (case w_drawn w of (i, wt, rt) \<Rightarrow> {EvCreate i wt rt (w_now w)})"
| "route_event w RDelete r = {EvDelete (req_id r)}"
| "route_event w RSend r = {EvSend (w_io w) (req_id r) b (w_now w) | b. 0 < length b \<and> length b \<le> max_message_bytes \<and> req_body r = Some b}"
| "route_event w RReceive r = {EvReceive (req_id r) 100 (w_now w)}"
| "route_event w RAck r = {EvAck (w_stuck w) (req_id r) seqs | seqs. True}"

lemma handle_event:
  assumes ok: "store_ok s" and fresh: "map_of (ms_boxes s) (fst (w_drawn w)) = None"
  shows "snd (handle w rt r s) = s \<or> (\<exists>e \<in> route_event w rt r. snd (handle w rt r s) = mstep (w_hash w) s e)"
proof (cases rt)
  case RCreate
  then show ?thesis using fresh
    by (cases "w_drawn w") (auto simp: handle_def http_create_def split: prod.splits sum.splits)
next
  case RDelete
  then show ?thesis
    by (auto simp: handle_def http_del_def http_auth_meta_id[OF ok] split: prod.splits sum.splits)
next
  case RSend
  have "snd (http_send (w_hash w) (w_io w) (w_now w) r s) = s \<or>
     (\<exists>b. 0 < length b \<and> length b \<le> max_message_bytes \<and> req_body r = Some b \<and>
        snd (http_send (w_hash w) (w_io w) (w_now w) r s) = snd (send (w_io w) (req_id r) b (w_now w) s))"
  proof (cases "http_auth (w_hash w) r True s")
    case (Inl e)
    then show ?thesis by (simp add: http_send_def)
  next
    case (Inr m)
    note id = http_auth_meta_id[OF ok Inr]
    show ?thesis
    proof (cases "req_body r")
      case None
      then show ?thesis using Inr by (simp add: http_send_def)
    next
      case (Some b)
      show ?thesis
      proof (cases "0 < length b \<and> length b \<le> max_message_bytes")
        case True
        then have "take (max_message_bytes + 1) b = b" by simp
        with True Some Inr id show ?thesis
          by (simp add: http_send_def Let_def split: prod.splits sum.splits)
      next
        case False
        then have "max_message_bytes < length (take (max_message_bytes + 1) b)
            \<or> length (take (max_message_bytes + 1) b) = 0" by auto
        with Some Inr show ?thesis by (auto simp: http_send_def Let_def split: prod.splits sum.splits)
      qed
    qed
  qed
  with RSend show ?thesis by (auto simp: handle_def)
next
  case RReceive
  then show ?thesis
    by (auto simp: handle_def http_receive_def http_auth_meta_id[OF ok] split: prod.splits sum.splits)
next
  case RAck
  have "snd (http_ack (w_hash w) (w_decode w) (w_stuck w) r s) = s \<or>
     (\<exists>seqs. snd (http_ack (w_hash w) (w_decode w) (w_stuck w) r s) = snd (ack (w_stuck w) (req_id r) seqs s))"
    by (simp add: http_ack_def http_auth_meta_id[OF ok] split: prod.split sum.split option.split) (metis snd_conv)
  with RAck show ?thesis by (auto simp: handle_def)
qed (simp add: handle_def)

lemma handle_ok:
  assumes "store_ok s" and "map_of (ms_boxes s) (fst (w_drawn w)) = None"
  shows "store_ok (snd (handle w rt r s))"
  using handle_event[OF assms] assms(1) mstep_ok by metis

subsection \<open>Properties\<close>

text \<open>C35: A caller without the token of the capability a route needs gets the answer of a mailbox that
  does not exist, and changes nothing: unknown identifiers and wrong tokens cannot be told apart.\<close>

theorem no_token_no_effect:
  assumes "needs rt = Some wr" and "\<not> holds_token (w_hash w) r wr s"
  shows "handle w rt r s = ((404, JError ''mailbox not found''), s)"
  using assms http_auth_Inl[OF assms(2)]
  by (cases rt) (auto simp: handle_def http_del_def http_send_def http_receive_def http_ack_def write_err_def)

text \<open>Messages enter a mailbox through a POST only with a body of 1 to 8388608 bytes, and the body is
  stored whole: the request is answered 202 with the number under which exactly these bytes are held.\<close>

theorem accepted_post_is_stored_whole:
  assumes "store_ok s" and "http_send h io now r s = ((202, x), s')"
  shows "\<exists>b q. req_body r = Some b \<and> 0 < length b \<and> length b \<le> max_message_bytes \<and> x = JSeq q
    \<and> holds_token h r True s
    \<and> holds (req_id r) q (Msg \<lparr>msg_seq = q, msg_sent_at = now, msg_body = b\<rparr>) s'"
proof -
  obtain m where m: "http_auth h r True s = Inr m"
    using assms(2) by (cases "http_auth h r True s") (auto simp: http_send_def http_auth_def write_err_def
        split: sum.splits if_splits)
  obtain b where b: "req_body r = Some b"
    using assms(2) m by (cases "req_body r") (auto simp: http_send_def write_err_def)
  let ?t = "take (max_message_bytes + 1) b"
  have "\<not> max_message_bytes < length ?t" "length ?t \<noteq> 0"
    using assms(2) m b by (auto simp: http_send_def write_err_def split: if_splits)
  then have len: "0 < length b" "length b \<le> max_message_bytes" and t: "?t = b"
    by (auto simp: max_message_bytes_def min_def split: if_splits)
  have "send io (req_id r) b now s = (Inr (case x of JSeq q \<Rightarrow> q), s') \<and> x = JSeq (case x of JSeq q \<Rightarrow> q)"
    using assms(2) m b len t http_auth_meta_id[OF assms(1) m]
    by (auto simp: http_send_def write_err_def Let_def split: prod.splits sum.splits)
  with b len http_auth_Inr[OF m] send_accepted(1)[OF assms(1)] show ?thesis by blast
qed

text \<open>The hypotheses occur: a mailbox of a running host, a wrong token, and a one-byte post.\<close>

definition demo_world :: world where
  "demo_world = \<lparr>w_admin = ''a'', w_hash = id, w_drawn = (demo_id, ''w'', ''r''), w_now = 0,
     w_io = WritesOk, w_decode = (\<lambda>_. None), w_stuck = (\<lambda>_. False)\<rparr>"

definition demo_req :: "string \<Rightarrow> request" where
  "demo_req a = \<lparr>req_auth = a, req_id = demo_id, req_body = Some ''x''\<rparr>"

lemma no_token_no_effect_witness:
  "handle demo_world RSend (demo_req ''Bearer r'') demo_store = ((404, JError ''mailbox not found''), demo_store)"
proof (rule no_token_no_effect)
  show "needs RSend = Some True" by simp
  show "\<not> holds_token (w_hash demo_world) (demo_req ''Bearer r'') True demo_store"
    by (simp add: holds_token_def demo_load demo_req_def demo_world_def bearer_def demo_meta_def)
qed

lemma demo_meta_id: "meta_id demo_meta = demo_id"
  by (simp add: demo_meta_def)

lemma accepted_post_is_stored_whole_witness:
  "\<exists>b q. req_body (demo_req ''Bearer w'') = Some b \<and> 0 < length b \<and> length b \<le> max_message_bytes
    \<and> JSeq 1 = JSeq q \<and> holds_token id (demo_req ''Bearer w'') True demo_store
    \<and> holds (req_id (demo_req ''Bearer w'')) q (Msg \<lparr>msg_seq = q, msg_sent_at = 5, msg_body = b\<rparr>)
        (snd (send WritesOk demo_id ''x'' 5 demo_store))"
proof (rule accepted_post_is_stored_whole[where io = WritesOk, OF demo_store_ok])
  have a: "http_auth id (demo_req ''Bearer w'') True demo_store = Inr (box_meta (box_of demo_id demo_store))"
    by (simp add: http_auth_def demo_load demo_req_def bearer_def token_matches_def demo_meta_def) (simp add: demo_store_def demo_meta_def)
  show "http_send id WritesOk 5 (demo_req ''Bearer w'') demo_store
      = ((202, JSeq 1), snd (send WritesOk demo_id ''x'' 5 demo_store))"
    using demo_send[of "''x''" 5] demo_meta_id
    by (simp add: http_send_def a, simp add: demo_req_def max_message_bytes_def demo_store_def)
qed

end
