(* ===== verification/Items.thy ===== *)
theory Items
  imports Webhooks
begin

text \<open>
  The item operations of \<open>internal/service/service.go\<close> and \<open>internal/service/features.go\<close>: creation
  with an idempotency key, optimistic update, completion, activity, links and references. Each
  operation runs its statements in one transaction, with the activity rows and the outbox events the
  code appends. The response cache, cleared after a write, is a component of its own.
\<close>

definition arrow :: string where
  "arrow = [CHR 0x20, CHR 0xE2, CHR 0x86, CHR 0x92, CHR 0x20]"

definition has_key :: "create_params \<Rightarrow> bool" where
  "has_key p = (cp_key p \<noteq> None \<and> cp_key p \<noteq> Some [])"

definition activity_of :: "uuid \<Rightarrow> uuid \<Rightarrow> string \<Rightarrow> string \<Rightarrow> string \<Rightarrow> activity_params" where
  "activity_of pr x kind actor body = \<lparr>ap_project = pr, ap_item = Some x, ap_kind = Some kind, ap_actor = Some actor,
     ap_body = Some body, ap_metadata = None, ap_confidence = None\<rparr>"

text \<open>The insert, the \<open>created\<close> activity and the outbox event.\<close>

definition insert_item_tx :: "create_params \<Rightarrow> string \<Rightarrow> item dbtx" where
  "insert_item_tx p actor = tx_bind (create_item_stmt p) (\<lambda>i.
     tx_bind (create_activity (activity_of (i_project i) (i_id i) ''created'' actor
       (''created '' @ i_type i @ '': '' @ i_title i))) (\<lambda>_.
     tx_bind (enqueue (i_project i) ''item.created'' (ItemData i)) (\<lambda>_. tx_ret i)))"

definition create_item_tx :: "create_params \<Rightarrow> string \<Rightarrow> item dbtx" where
  "create_item_tx p actor =
     (if has_key p then tx_or_else (get_item_by_key (cp_project p) (cp_key p)) (insert_item_tx p actor)
      else insert_item_tx p actor)"

text \<open>\<open>CreateItem\<close>. \<open>other\<close> is what other callers commit between the first lookup and the
  transaction.\<close>

definition create_item :: "(db \<Rightarrow> db) \<Rightarrow> create_params \<Rightarrow> string \<Rightarrow> gtime \<Rightarrow> db \<Rightarrow> (error + item) \<times> db" where
  "create_item other p actor now s =
     (let find = get_item_by_key (cp_project p) (cp_key p) in
      case (if has_key p then find s else Inl NoRows) of
        Inr (existing, _) \<Rightarrow> (Inr existing, s)
      | Inl e \<Rightarrow>
          (if e \<noteq> NoRows then (Inl e, s)
           else (case with_tx now (create_item_tx p actor) (other s) of
                   (Inr i, s') \<Rightarrow> (Inr i, s')
                 | (Inl e', s') \<Rightarrow>
                     (if has_key p \<and> e' = unique_violation
                      then (case find s' of Inr (existing, _) \<Rightarrow> (Inr existing, s') | Inl _ \<Rightarrow> (Inl e', s'))
                      else (Inl e', s')))))"

text \<open>The \<open>status_change\<close> activity and event of an item that moved from a status.\<close>

definition record_status_change :: "string \<Rightarrow> item \<Rightarrow> string \<Rightarrow> unit dbtx" where
  "record_status_change from i actor =
     tx_bind (create_activity (activity_of (i_project i) (i_id i) ''status_change'' actor
       (from @ arrow @ i_status i))) (\<lambda>_.
     enqueue (i_project i) ''item.status_changed'' (StatusData i from (i_status i)))"

definition tx_conflict :: "'a dbtx \<Rightarrow> 'a dbtx" where
  "tx_conflict m s = (case m s of Inl e \<Rightarrow> Inl (if e = NoRows then ErrConflict else e) | Inr r \<Rightarrow> Inr r)"

definition update_item_tx :: "update_params \<Rightarrow> string \<Rightarrow> item dbtx" where
  "update_item_tx p actor = tx_bind (get_item (up_id p)) (\<lambda>prev.
     tx_bind (tx_conflict (update_item_stmt p)) (\<lambda>i.
     tx_bind (tx_when (up_status p \<noteq> None \<and> up_status p \<noteq> Some (i_status prev))
                (record_status_change (i_status prev) i actor)) (\<lambda>_. tx_ret i)))"

definition update_item :: "update_params \<Rightarrow> string \<Rightarrow> gtime \<Rightarrow> db \<Rightarrow> (error + item) \<times> db" where
  "update_item p actor now = with_tx now (update_item_tx p actor)"

definition log_activity_tx :: "activity_params \<Rightarrow> activity dbtx" where
  "log_activity_tx p = tx_bind (create_activity p) (\<lambda>a.
     tx_bind (enqueue (a_project a) ''activity.logged'' (ActivityData a)) (\<lambda>_. tx_ret a))"

definition log_activity :: "activity_params \<Rightarrow> gtime \<Rightarrow> db \<Rightarrow> (error + activity) \<times> db" where
  "log_activity p now = with_tx now (log_activity_tx p)"

text \<open>\<open>UpdateProjectSummary\<close>, of \<open>projects.sql.go\<close>.\<close>

definition update_project_summary :: "string \<Rightarrow> string \<Rightarrow> project dbtx" where
  "update_project_summary slug summary s =
     (case find_slug slug s of
        Inl e \<Rightarrow> Inl e
      | Inr p \<Rightarrow>
          (let f = (\<lambda>q. q\<lparr>p_summary := summary, p_updated_at := db_now s\<rparr>)
           in Inr (f p, s\<lparr>projects := rows_update (\<lambda>q. p_slug q = slug) f (projects s)\<rparr>)))"

definition get_project_by_id :: "uuid \<Rightarrow> project dbtx" where
  "get_project_by_id x = tx_read (find_project x)"

definition get_project_by_slug :: "string \<Rightarrow> project dbtx" where
  "get_project_by_slug x = tx_read (find_slug x)"

definition complete_item_tx :: "uuid \<Rightarrow> string \<Rightarrow> string \<Rightarrow> string \<Rightarrow> item dbtx" where
  "complete_item_tx x why summary actor = tx_bind (get_item x) (\<lambda>prev.
     tx_bind (update_item_stmt ((no_update x)\<lparr>up_status := Some ''done''\<rparr>)) (\<lambda>i.
     tx_bind (tx_when (i_status prev \<noteq> i_status i) (record_status_change (i_status prev) i actor)) (\<lambda>_.
     tx_bind (tx_when (why \<noteq> [])
       (tx_bind (log_activity_tx (activity_of (i_project i) x ''decision'' actor why)) (\<lambda>_. tx_ret ()))) (\<lambda>_.
     tx_bind (tx_when (summary \<noteq> [])
       (tx_bind (get_project_by_id (i_project i)) (\<lambda>p.
        tx_bind (update_project_summary (p_slug p) summary) (\<lambda>_. tx_ret ())))) (\<lambda>_. tx_ret i)))))"

definition complete_item :: "uuid \<Rightarrow> string \<Rightarrow> string \<Rightarrow> string \<Rightarrow> gtime \<Rightarrow> db \<Rightarrow> (error + item) \<times> db" where
  "complete_item x why summary actor now = with_tx now (complete_item_tx x why summary actor)"

definition bulk_create_items :: "create_params list \<Rightarrow> string \<Rightarrow> gtime \<Rightarrow> db \<Rightarrow> (error + item list) \<times> db" where
  "bulk_create_items ps actor now = with_tx now (tx_map (\<lambda>p. create_item_tx p actor) ps)"

definition opt_str :: "string \<Rightarrow> string option" where
  "opt_str x = (if x = [] then None else Some x)"

definition link_items :: "uuid \<Rightarrow> uuid \<Rightarrow> string \<Rightarrow> gtime \<Rightarrow> db \<Rightarrow> (error + item_link) \<times> db" where
  "link_items f t kind now = with_tx now (create_item_link f t (opt_str kind))"

definition delete_link :: "uuid \<Rightarrow> gtime \<Rightarrow> db \<Rightarrow> (error + unit) \<times> db" where
  "delete_link x now = with_tx now (delete_item_link x)"

definition add_item_ref :: "uuid \<Rightarrow> string \<Rightarrow> string \<Rightarrow> string \<Rightarrow> gtime \<Rightarrow> db \<Rightarrow> (error + item_ref) \<times> db" where
  "add_item_ref x kind rf label now = with_tx now (create_item_ref x (opt_str kind) rf (opt_str label))"

definition remove_item_ref :: "uuid \<Rightarrow> gtime \<Rightarrow> db \<Rightarrow> (error + unit) \<times> db" where
  "remove_item_ref x now = with_tx now (delete_item_ref x)"

text \<open>\<open>NextAction\<close>: the ready items of one project, or of all active ones.\<close>

definition next_action :: "string \<Rightarrow> int \<Rightarrow> db \<Rightarrow> error + (item \<times> string) list" where
  "next_action slug limit s =
     (let n = (if 0 < limit then Some limit else None) in
      if slug = [] then Inr (list_ready_items None n s)
      else (case find_slug slug s of Inl e \<Rightarrow> Inl e | Inr p \<Rightarrow> Inr (list_ready_items (Some (p_id p)) n s)))"

subsection \<open>The operations keep the tables well-formed\<close>

lemma same_core_trans: "same_core s t \<Longrightarrow> same_core t u \<Longrightarrow> same_core s u"
  by (simp add: same_core_def)

lemma enqueue_Inr:
  assumes "enqueue pr ev d s = Inr (x, t)"
  obtains e where "t = s\<lparr>db_drawn := db_drawn s + 1, webhook_events := webhook_events s @ [e]\<rparr>"
    "e_event e = ev" "e_project e = Some pr" "e_payload e = d" "e_attempts e = 0" "e_hooks e = []"
    "e_delivered_at e = None" "e_parked_at e = None" "e_next e = db_now s"
  using assms that by (auto simp: enqueue_def enqueue_webhook_event_def tx_simps Let_def split: if_splits)

lemma enqueue_core: "enqueue pr ev d s = Inr (x, t) \<Longrightarrow> same_core s t"
  by (auto elim!: enqueue_Inr simp: same_core_def)

lemma keeps_enqueue [tx_pres, intro]: "tx_keeps db_ok (enqueue pr ev d)"
  by (rule tx_keepsI) (auto dest: enqueue_core db_ok_same_core)

lemma keeps_insert_item_tx [tx_pres, intro]: "tx_keeps db_ok (insert_item_tx p actor)"
  unfolding insert_item_tx_def
  by (intro tx_keeps_bind keeps_create_item_stmt keeps_create_activity keeps_enqueue tx_keeps_ret)

lemma keeps_create_item_tx [tx_pres, intro]: "tx_keeps db_ok (create_item_tx p actor)"
  unfolding create_item_tx_def
  by (intro tx_keeps_if tx_keeps_or_else keeps_get_item_by_key keeps_insert_item_tx)

lemma keeps_record_status_change [tx_pres, intro]: "tx_keeps db_ok (record_status_change from i actor)"
  unfolding record_status_change_def by (intro tx_keeps_bind keeps_create_activity keeps_enqueue)

lemma tx_conflict_Inr [tx_simps]: "tx_conflict m s = Inr r \<longleftrightarrow> m s = Inr r"
  by (auto simp: tx_conflict_def split: sum.splits)

lemma keeps_conflict [tx_pres, intro]: "tx_keeps I m \<Longrightarrow> tx_keeps I (tx_conflict m)"
  by (rule tx_keepsI) (auto simp: tx_simps dest: tx_keepsD)

lemma keeps_update_item_tx [tx_pres, intro]: "tx_keeps db_ok (update_item_tx p actor)"
  unfolding update_item_tx_def
  by (intro tx_keeps_bind keeps_get_item keeps_conflict keeps_update_item_stmt tx_keeps_when
      keeps_record_status_change tx_keeps_ret)

lemma keeps_log_activity_tx [tx_pres, intro]: "tx_keeps db_ok (log_activity_tx p)"
  unfolding log_activity_tx_def by (intro tx_keeps_bind keeps_create_activity keeps_enqueue tx_keeps_ret)

text \<open>An update of a project row that keeps its identity and its numbers.\<close>

lemma update_projects_ok:
  assumes ok: "db_ok s"
    and f: "\<And>p. p_id (f p) = p_id p \<and> p_slug (f p) = p_slug p \<and> p_item_seq (f p) = p_item_seq p"
    and chk: "\<forall>p \<in> set (projects s). c p \<longrightarrow> project_checks (f p)"
  shows "db_ok (s\<lparr>projects := rows_update c f (projects s)\<rparr>)"
proof -
  let ?t = "s\<lparr>projects := rows_update c f (projects s)\<rparr>"
  let ?g = "\<lambda>p. if c p then f p else p"
  have pok: "projects_ok (projects s)" and iok: "items_ok s" and aok: "activities_ok s" and lok: "links_ok s"
    using ok by (auto simp: db_ok_def)
  have upd: "projects ?t = map ?g (projects s)" by (simp add: rows_update_def)
  have g: "p_id (?g p) = p_id p" "p_slug (?g p) = p_slug p" "p_item_seq (?g p) = p_item_seq p" for p
    using f by auto
  have "grows (projects s) (projects ?t)"
    unfolding grows_def upd
  proof (intro conjI ballI)
    show "map p_id (map ?g (projects s)) = map p_id (projects s)" using g by simp
    show "map p_slug (map ?g (projects s)) = map p_slug (projects s)" using g by simp
  next
    fix p assume "p \<in> set (projects s)"
    then have "?g p \<in> set (map ?g (projects s))" unfolding set_map by (rule imageI)
    then show "\<exists>q \<in> set (map ?g (projects s)). p_id q = p_id p \<and> p_slug q = p_slug p \<and> p_item_seq p \<le> p_item_seq q"
      using g[of p] by (intro bexI[of _ "?g p"]) simp_all
  next
    fix q assume "q \<in> set (map ?g (projects s))"
    then obtain p where p: "p \<in> set (projects s)" "q = ?g p" unfolding set_map by blast
    with pok have "project_checks p" "0 \<le> p_item_seq p" by (auto simp: projects_ok_def)
    with p chk g show "project_checks q" "0 \<le> p_item_seq q" by auto
  qed
  note gr = this
  have "items_ok ?t" using iok item_ok_grows[OF _ gr] by (auto simp: items_ok_def)
  moreover have "activities_ok ?t" "links_ok ?t"
    using dependents_ok[OF aok lok, of ?t] grows_ids[OF gr] by auto
  ultimately show ?thesis using grows_projects_ok[OF pok gr] by (simp add: db_ok_def)
qed

lemma keeps_update_project_summary [tx_pres, intro]: "tx_keeps db_ok (update_project_summary slug summary)"
proof (rule tx_keepsI)
  fix s x s' assume ok: "db_ok s" and r: "update_project_summary slug summary s = Inr (x, s')"
  then have s': "s' = s\<lparr>projects := rows_update (\<lambda>q. p_slug q = slug)
      (\<lambda>q. q\<lparr>p_summary := summary, p_updated_at := db_now s\<rparr>) (projects s)\<rparr>"
    by (auto simp: update_project_summary_def Let_def split: sum.splits)
  show "db_ok s'" unfolding s'
    by (rule update_projects_ok[OF ok]) (use ok in \<open>auto simp: db_ok_def projects_ok_def project_checks_def\<close>)
qed

lemma keeps_complete_item_tx [tx_pres, intro]: "tx_keeps db_ok (complete_item_tx x why summary actor)"
  unfolding complete_item_tx_def get_project_by_id_def
  by (intro tx_keeps_bind tx_keeps_when keeps_get_item keeps_update_item_stmt keeps_record_status_change
      keeps_log_activity_tx keeps_update_project_summary tx_keeps_ret tx_keeps_read)

end
