(* ===== verification/Sync_Store.thy ===== *)
theory Sync_Store
  imports Items
begin

text \<open>
  The statements of \<open>internal/store/sharing.sql.go\<close>: shares, the per-entity state of a share (what
  was last sent, what was last agreed), and the upserts that apply a peer's rows.
\<close>

text \<open>A sequence of statements outside a transaction: what was done before an error stays done.\<close>

type_synonym 'a dbact = "db \<Rightarrow> (error + 'a) \<times> db"

definition stmt :: "'a dbtx \<Rightarrow> 'a dbact" where
  "stmt m s = (case m s of Inl e \<Rightarrow> (Inl e, s) | Inr (x, s') \<Rightarrow> (Inr x, s'))"

definition act_bind :: "'a dbact \<Rightarrow> ('a \<Rightarrow> 'b dbact) \<Rightarrow> 'b dbact" where
  "act_bind m k s = (case m s of (Inl e, s') \<Rightarrow> (Inl e, s') | (Inr x, s') \<Rightarrow> k x s')"

definition act_ret :: "'a \<Rightarrow> 'a dbact" where
  "act_ret x s = (Inr x, s)"

definition act_fail :: "error \<Rightarrow> 'a dbact" where
  "act_fail e s = (Inl e, s)"

subsection \<open>Shares\<close>

definition create_project_share :: "share \<Rightarrow> share dbtx" where
  "create_project_share p = tx_bind draw_uuid (\<lambda>u. tx_bind get_now (\<lambda>t. (\<lambda>s.
     (let r = p\<lparr>s_id := u, s_enabled := True, s_last_send := None, s_last_recv := None, s_last_error := [],
                s_created_at := t, s_updated_at := t\<rparr>
      in if has_row (\<lambda>q. s_id q = u \<or> (s_project q = s_project p \<and> s_send_mb q = s_send_mb p)) (shares s)
         then Inl unique_violation
         else if \<not> has_row (\<lambda>q. p_id q = s_project p) (projects s) then Inl fk_violation
         else Inr (r, s\<lparr>shares := shares s @ [r]\<rparr>)))))"

text \<open>Deleting a share deletes its state rows (\<open>ON DELETE CASCADE\<close>).\<close>

definition delete_project_share :: "uuid \<Rightarrow> unit dbtx" where
  "delete_project_share x s = Inr ((), s\<lparr>shares := filter (\<lambda>r. s_id r \<noteq> x) (shares s),
      share_states := filter (\<lambda>r. ss_share r \<noteq> x) (share_states s)\<rparr>)"

definition get_project_share :: "uuid \<Rightarrow> share dbtx" where
  "get_project_share x = tx_read (\<lambda>s. row_find (\<lambda>r. s_id r = x) (shares s))"

definition list_enabled_project_shares :: "db \<Rightarrow> share list" where
  "list_enabled_project_shares s = sort_key s_created_at (filter s_enabled (shares s))"

definition list_project_shares :: "db \<Rightarrow> share list" where
  "list_project_shares s = sort_key s_created_at (shares s)"

definition list_shares_for_project :: "uuid \<Rightarrow> db \<Rightarrow> share list" where
  "list_shares_for_project pr s = sort_key s_created_at (filter (\<lambda>r. s_project r = pr) (shares s))"

definition update_share :: "uuid \<Rightarrow> (gtime \<Rightarrow> share \<Rightarrow> share) \<Rightarrow> unit dbtx" where
  "update_share x f s = Inr ((), s\<lparr>shares := rows_update (\<lambda>r. s_id r = x) (f (db_now s)) (shares s)\<rparr>)"

definition record_share_error :: "uuid \<Rightarrow> string \<Rightarrow> unit dbtx" where
  "record_share_error x err = update_share x (\<lambda>t r. r\<lparr>s_last_error := err, s_updated_at := t\<rparr>)"

definition record_share_recv :: "uuid \<Rightarrow> unit dbtx" where
  "record_share_recv x = update_share x (\<lambda>t r. r\<lparr>s_last_recv := Some t, s_last_error := [], s_updated_at := t\<rparr>)"

definition record_share_send :: "uuid \<Rightarrow> unit dbtx" where
  "record_share_send x = update_share x (\<lambda>t r. r\<lparr>s_last_send := Some t, s_last_error := [], s_updated_at := t\<rparr>)"

definition set_share_enabled :: "uuid \<Rightarrow> bool \<Rightarrow> unit dbtx" where
  "set_share_enabled x b = update_share x (\<lambda>t r. r\<lparr>s_enabled := b, s_updated_at := t\<rparr>)"

subsection \<open>The state of a share\<close>

definition entity_kinds :: "string list" where
  "entity_kinds = [''project'', ''item'', ''activity'']"

type_synonym state_key = "uuid \<times> string \<times> uuid"

definition ss_key :: "share_state \<Rightarrow> state_key" where
  "ss_key r = (ss_share r, ss_kind r, ss_entity r)"

text \<open>Insert a state row, or on an existing key change it.\<close>

definition upsert_state :: "state_key \<Rightarrow> string \<Rightarrow> string \<Rightarrow> (share_state \<Rightarrow> share_state) \<Rightarrow> unit dbtx" where
  "upsert_state k sent base f s =
     (if fst (snd k) \<notin> set entity_kinds then Inl check_violation
      else if has_row (\<lambda>r. ss_key r = k) (share_states s)
      then Inr ((), s\<lparr>share_states := rows_update (\<lambda>r. ss_key r = k) (\<lambda>r. (f r)\<lparr>ss_synced_at := db_now s\<rparr>) (share_states s)\<rparr>)
      else if \<not> has_row (\<lambda>r. s_id r = fst k) (shares s) then Inl fk_violation
      else Inr ((), s\<lparr>share_states := share_states s @
             [\<lparr>ss_share = fst k, ss_kind = fst (snd k), ss_entity = snd (snd k), ss_sent = sent, ss_base = base,
               ss_synced_at = db_now s\<rparr>]\<rparr>))"

definition record_applied :: "state_key \<Rightarrow> string \<Rightarrow> unit dbtx" where
  "record_applied k h = upsert_state k h h (\<lambda>r. r\<lparr>ss_sent := h, ss_base := h\<rparr>)"

definition record_merged_base :: "state_key \<Rightarrow> string \<Rightarrow> unit dbtx" where
  "record_merged_base k h = upsert_state k [] h (\<lambda>r. r\<lparr>ss_base := h\<rparr>)"

definition record_sent :: "state_key \<Rightarrow> string \<Rightarrow> unit dbtx" where
  "record_sent k h = upsert_state k h [] (\<lambda>r. r\<lparr>ss_sent := h\<rparr>)"

definition get_share_state :: "state_key \<Rightarrow> db \<Rightarrow> error + share_state" where
  "get_share_state k s = row_find (\<lambda>r. ss_key r = k) (share_states s)"

definition list_share_state_hashes :: "uuid \<Rightarrow> db \<Rightarrow> (string \<times> uuid \<times> string \<times> string) list" where
  "list_share_state_hashes x s = map (\<lambda>r. (ss_kind r, ss_entity r, ss_sent r, ss_base r))
     (filter (\<lambda>r. ss_share r = x) (share_states s))"

subsection \<open>Rows of the project, and the upserts\<close>

text \<open>Not restricted to a project, nor to rows that are not deleted.\<close>

definition get_item_for_sync :: "uuid \<Rightarrow> db \<Rightarrow> error + item" where
  "get_item_for_sync x s = row_find (\<lambda>i. i_id i = x) (items s)"

definition list_items_for_sync :: "uuid \<Rightarrow> db \<Rightarrow> item list" where
  "list_items_for_sync pr s = filter (\<lambda>i. i_project i = pr) (items s)"

definition list_activity_for_sync :: "uuid \<Rightarrow> db \<Rightarrow> activity list" where
  "list_activity_for_sync pr s = sort_key a_created_at (filter (\<lambda>a. a_project a = pr) (activities s))"

definition synced_fields :: "item \<Rightarrow> gtime \<Rightarrow> item \<Rightarrow> item" where
  "synced_fields n t r = r\<lparr>i_type := i_type n, i_title := i_title n, i_body := i_body n, i_status := i_status n,
     i_priority := i_priority n, i_assignee := i_assignee n, i_external_ref := i_external_ref n, i_tags := i_tags n,
     i_metadata := i_metadata n, i_criteria := i_criteria n, i_updated_at := t, i_closed_at := i_closed_at n,
     i_deleted_at := i_deleted_at n, i_embedding := None, i_model := [], i_version := i_version r + 1\<rparr>"

text \<open>The row offered goes through the trigger and the CHECK constraints before a conflict on the
  identifier turns the insert into an update.\<close>

definition upsert_synced_item :: "item \<Rightarrow> item dbtx" where
  "upsert_synced_item n = tx_bind (assign_item_ref n) (\<lambda>n'. tx_bind (require (item_checks n') check_violation) (\<lambda>_.
     (\<lambda>s. if has_row (\<lambda>r. i_id r = i_id n) (items s)
          then update_item_where (\<lambda>r. i_id r = i_id n) (synced_fields n' (db_now s)) s
          else append_item n' s)))"

definition upsert_synced_activity :: "activity \<Rightarrow> unit dbtx" where
  "upsert_synced_activity a s =
     (if \<not> activity_checks a then Inl check_violation
      else if has_row (\<lambda>b. a_id b = a_id a) (activities s) then Inr ((), s)
      else (case append_activity a s of Inl e \<Rightarrow> Inl e | Inr (_, s') \<Rightarrow> Inr ((), s')))"

subsection \<open>Lemmas\<close>

definition states_ok :: "db \<Rightarrow> bool" where
  "states_ok s = distinct (map ss_key (share_states s))"

lemma upsert_state_find:
  assumes "upsert_state k h b f s = Inr (u, t)" and "\<And>r. ss_key (f r) = ss_key r"
  shows "get_share_state j t = (if j = k
      then (case get_share_state k s of Inr r \<Rightarrow> Inr ((f r)\<lparr>ss_synced_at := db_now s\<rparr>)
            | Inl _ \<Rightarrow> Inr \<lparr>ss_share = fst k, ss_kind = fst (snd k), ss_entity = snd (snd k), ss_sent = h,
                            ss_base = b, ss_synced_at = db_now s\<rparr>)
      else get_share_state j s)"
    and "t = s\<lparr>share_states := share_states t\<rparr>"
proof -
  let ?f = "\<lambda>r. (f r)\<lparr>ss_synced_at := db_now s\<rparr>"
  let ?n = "\<lparr>ss_share = fst k, ss_kind = fst (snd k), ss_entity = snd (snd k), ss_sent = h,
                            ss_base = b, ss_synced_at = db_now s\<rparr>"
  have fk: "ss_key (?f r) = ss_key r" for r using assms(2)[of r] by (simp add: ss_key_def)
  have nk: "ss_key ?n = k" by (simp add: ss_key_def)
  show "t = s\<lparr>share_states := share_states t\<rparr>" using assms(1) by (auto simp: upsert_state_def split: if_splits)
  show "get_share_state j t = (if j = k
      then (case get_share_state k s of Inr r \<Rightarrow> Inr (?f r) | Inl _ \<Rightarrow> Inr ?n) else get_share_state j s)"
  proof (cases "has_row (\<lambda>r. ss_key r = k) (share_states s)")
    case True
    then have t: "share_states t = rows_update (\<lambda>r. ss_key r = k) ?f (share_states s)"
      using assms(1) by (auto simp: upsert_state_def split: if_splits)
    from True obtain r where r: "get_share_state k s = Inr r"
      using row_find_ex[of _ "share_states s" "\<lambda>r. ss_key r = k"] by (auto simp: get_share_state_def)
    show ?thesis
      using row_find_rows_update[of ss_key ?f k "share_states s", OF fk]
        row_find_rows_update_other[of ss_key ?f k j "share_states s", OF fk] r
      by (auto simp: get_share_state_def t)
  next
    case False
    then have t: "share_states t = share_states s @ [?n]"
      using assms(1) by (auto simp: upsert_state_def split: if_splits)
    have none: "get_share_state k s = Inl NoRows" using False by (auto simp: get_share_state_def row_find_Inl)
    have other: "row_find (\<lambda>r. ss_key r = j) (share_states s @ [?n]) = row_find (\<lambda>r. ss_key r = j) (share_states s)" if "j \<noteq> k"
    proof (cases "row_find (\<lambda>r. ss_key r = j) (share_states s)")
      case (Inl e)
      then have "e = NoRows" by (simp add: row_find_Inl)
      with Inl that nk show ?thesis by (simp add: row_find_append)
    qed (simp add: row_find_append)
    show ?thesis
    proof (cases "j = k")
      case True
      with none nk show ?thesis by (simp add: get_share_state_def t row_find_append)
    next
      case False
      with other show ?thesis by (simp add: get_share_state_def t)
    qed
  qed
qed

lemma record_applied_find:
  assumes "record_applied k h s = Inr (u, t)"
  shows "\<exists>r. get_share_state k t = Inr r \<and> ss_sent r = h \<and> ss_base r = h"
    and "j \<noteq> k \<Longrightarrow> get_share_state j t = get_share_state j s" and "t = s\<lparr>share_states := share_states t\<rparr>"
  using upsert_state_find[OF assms[unfolded record_applied_def]]
  by (auto simp: ss_key_def split: sum.splits)

lemma record_merged_base_find:
  assumes "record_merged_base k h s = Inr (u, t)"
  shows "\<exists>r. get_share_state k t = Inr r \<and> ss_base r = h
      \<and> ss_sent r = (case get_share_state k s of Inr r0 \<Rightarrow> ss_sent r0 | Inl _ \<Rightarrow> [])"
    and "j \<noteq> k \<Longrightarrow> get_share_state j t = get_share_state j s" and "t = s\<lparr>share_states := share_states t\<rparr>"
  using upsert_state_find[OF assms[unfolded record_merged_base_def]]
  by (auto simp: ss_key_def split: sum.splits)

lemma record_sent_find:
  assumes "record_sent k h s = Inr (u, t)"
  shows "\<exists>r. get_share_state k t = Inr r \<and> ss_sent r = h
      \<and> ss_base r = (case get_share_state k s of Inr r0 \<Rightarrow> ss_base r0 | Inl _ \<Rightarrow> [])"
    and "j \<noteq> k \<Longrightarrow> get_share_state j t = get_share_state j s" and "t = s\<lparr>share_states := share_states t\<rparr>"
  using upsert_state_find[OF assms[unfolded record_sent_def]]
  by (auto simp: ss_key_def split: sum.splits)

lemma upsert_item_cases:
  assumes "upsert_synced_item n s = Inr (i, t)"
  obtains n' s1 where "assign_item_ref n s = Inr (n', s1)" "item_checks n'"
    "if has_row (\<lambda>r. i_id r = i_id n) (items s1)
     then update_item_where (\<lambda>r. i_id r = i_id n) (synced_fields n' (db_now s1)) s1 = Inr (i, t)
     else append_item n' s1 = Inr (i, t)"
proof -
  from assms obtain n' s1 s2 u where a: "assign_item_ref n s = Inr (n', s1)"
    and q: "require (item_checks n') check_violation s1 = Inr (u, s2)"
    and r: "(if has_row (\<lambda>r. i_id r = i_id n) (items s2)
          then update_item_where (\<lambda>r. i_id r = i_id n) (synced_fields n' (db_now s2)) s2
          else append_item n' s2) = Inr (i, t)"
    unfolding upsert_synced_item_def by (elim tx_bindE) (rule that)
  from q have "item_checks n'" "s2 = s1" by (auto simp: require_Inr)
  then show thesis using a r by (intro that[of n' s1]) (simp_all only: if_distribR if_distrib split: if_split)
qed

lemma keeps_identity_synced [simp]: "keeps_identity (synced_fields n t)"
  by (simp add: keeps_identity_def synced_fields_def)

lemma keeps_upsert_synced_item:
  assumes "1 \<le> i_version n"
  shows "tx_keeps db_ok (upsert_synced_item n)"
proof (rule tx_keepsI)
  fix s i t assume ok: "db_ok s" and r: "upsert_synced_item n s = Inr (i, t)"
  obtain n' s1 where a: "assign_item_ref n s = Inr (n', s1)"
    and b: "if has_row (\<lambda>r. i_id r = i_id n) (items s1)
     then update_item_where (\<lambda>r. i_id r = i_id n) (synced_fields n' (db_now s1)) s1 = Inr (i, t)
     else append_item n' s1 = Inr (i, t)"
    using r by (rule upsert_item_cases)
  have ok1: "db_ok s1" by (rule assign_item_ref_props(1)[OF ok a])
  show "db_ok t"
  proof (cases "has_row (\<lambda>r. i_id r = i_id n) (items s1)")
    case True
    then have u: "update_item_where (\<lambda>r. i_id r = i_id n) (synced_fields n' (db_now s1)) s1 = Inr (i, t)" using b by simp
    have "tx_keeps db_ok (update_item_where (\<lambda>r. i_id r = i_id n) (synced_fields n' (db_now s1)))"
      by (rule keeps_update_item_where) simp_all
    from tx_keepsD[OF this u ok1] show ?thesis .
  next
    case False
    then have "append_item n' s1 = Inr (i, t)" using b by (simp only: if_False)
    then have "tx_bind (assign_item_ref n) append_item s = Inr (i, t)" using a by (auto simp: tx_simps)
    from insert_item_ok[OF ok assms this] show ?thesis .
  qed
qed

lemma keeps_upsert_synced_activity: "tx_keeps db_ok (upsert_synced_activity a)"
proof (rule tx_keepsI)
  fix s u t assume ok: "db_ok s" and r: "upsert_synced_activity a s = Inr (u, t)"
  show "db_ok t"
  proof (cases "t = s")
    case False
    with r obtain b where "append_activity a s = Inr (b, t)"
      by (auto simp: upsert_synced_activity_def split: if_splits sum.splits)
    from tx_keepsD[OF keeps_append_activity this ok] show ?thesis .
  qed (use ok in simp)
qed

end
