(* ===== verification/Protocol.thy ===== *)
theory Protocol
  imports Sync_Store "HOL-Library.List_Lexorder" "HOL-Library.Char_ord"
begin

text \<open>
  The wire protocol of \<open>internal/sync/protocol.go\<close>: envelopes, payloads, content hashes, sealing and
  invites. The byte encodings themselves (\<open>encoding/json\<close>, SHA-256, XChaCha20-Poly1305, the
  printing and parsing of UUIDs and \<open>%q\<close>) are the functions of a \<open>codec\<close>, an argument; what a
  property needs of them (that decoding inverts encoding, that the cipher opens what it sealed) is a
  hypothesis on the values concerned. The base64 alphabet of an invite is written out.
\<close>

subsection \<open>Payloads\<close>

text \<open>
  An absent optional field is \<open>None\<close>; \<open>omitempty\<close> makes an empty list of tags and a nil one the
  same bytes.
\<close>

record item_payload =
  ip_id :: string
  ip_type :: string
  ip_title :: string
  ip_body :: string
  ip_status :: string
  ip_priority :: string
  ip_assignee :: "string option"
  ip_external_ref :: "string option"
  ip_tags :: "string list"
  ip_metadata :: "json option"
  ip_criteria :: "json option"
  ip_created_at :: gtime
  ip_closed_at :: "gtime option"
  ip_deleted_at :: "gtime option"

record activity_payload =
  yp_id :: string
  yp_item :: "string option"
  yp_kind :: string
  yp_actor :: string
  yp_body :: string
  yp_confidence :: "string option"
  yp_metadata :: "json option"
  yp_created_at :: gtime

record project_payload =
  jp_id :: string
  jp_name :: string
  jp_summary :: string
  jp_instructions :: string

record envelope =
  env_version :: int
  env_kind :: string
  env_origin :: string
  env_sent_at :: gtime
  env_payload :: string

record invite =
  iv_version :: int
  iv_peer :: string
  iv_slug :: string
  iv_name :: string
  iv_url :: string
  iv_send_mb :: string
  iv_send_tok :: string
  iv_recv_mb :: string
  iv_recv_tok :: string
  iv_secret :: string
  iv_cert :: string
  iv_key :: string
  iv_ca :: string

record codec =
  k_item :: "item_payload \<Rightarrow> string"
  k_unitem :: "string \<Rightarrow> item_payload option"
  k_act :: "activity_payload \<Rightarrow> string"
  k_unact :: "string \<Rightarrow> activity_payload option"
  k_proj :: "project_payload \<Rightarrow> string"
  k_unproj :: "string \<Rightarrow> project_payload option"
  k_env :: "envelope \<Rightarrow> string"
  k_unenv :: "string \<Rightarrow> envelope option"
  k_invite :: "invite \<Rightarrow> string"
  k_uninvite :: "string \<Rightarrow> invite option"
  k_sha :: "string \<Rightarrow> string"
  k_lock :: "string \<Rightarrow> string \<Rightarrow> string \<Rightarrow> string"
  k_unlock :: "string \<Rightarrow> string \<Rightarrow> string \<Rightarrow> string option"
  k_uuid :: "uuid \<Rightarrow> string"
  k_unuuid :: "string \<Rightarrow> uuid option"
  k_quote :: "string \<Rightarrow> string"

definition protocol_version :: int where "protocol_version = 1"
definition kind_item :: string where "kind_item = ''item''"
definition kind_activity :: string where "kind_activity = ''activity''"
definition kind_project :: string where "kind_project = ''project''"

text \<open>\<open>ContentHash\<close>, on the bytes of the marshalled payload.\<close>

definition content_hash :: "codec \<Rightarrow> string \<Rightarrow> string" where
  "content_hash c b = k_sha c b"

subsection \<open>Sealing\<close>

definition key_size :: nat where "key_size = 32"
definition nonce_size :: nat where "nonce_size = 24"

definition seal :: "codec \<Rightarrow> string \<Rightarrow> string \<Rightarrow> envelope \<Rightarrow> error + string" where
  "seal c key nonce env =
     (if length key \<noteq> key_size then Inl (ErrText ''cipher: bad key length'')
      else Inr (nonce @ k_lock c key nonce (k_env c env)))"

definition open_sealed :: "codec \<Rightarrow> string \<Rightarrow> string \<Rightarrow> error + envelope" where
  "open_sealed c key sealed =
     (if length key \<noteq> key_size then Inl (ErrText ''cipher: bad key length'')
      else if length sealed < nonce_size then Inl (ErrText ''message too short to contain a nonce'')
      else (case k_unlock c key (take nonce_size sealed) (drop nonce_size sealed) of
              None \<Rightarrow> Inl (ErrText ''decrypt'')
            | Some plaintext \<Rightarrow>
               (case k_unenv c plaintext of
                  None \<Rightarrow> Inl (ErrText ''decode envelope'')
                | Some env \<Rightarrow>
                   (if env_version env \<noteq> protocol_version then Inl (ErrText ''unsupported protocol version'')
                    else Inr env))))"

subsection \<open>base64.RawURLEncoding\<close>

definition b64_alphabet :: string where
  "b64_alphabet = ''ABCDEFGHIJKLMNOPQRSTUVWXYZabcdefghijklmnopqrstuvwxyz0123456789-_''"

definition b64_char :: "nat \<Rightarrow> char" where "b64_char n = b64_alphabet ! (n mod 64)"

definition byte :: "char \<Rightarrow> nat" where "byte ch = of_char ch"

fun b64_encode :: "string \<Rightarrow> string" where
  "b64_encode [] = []"
| "b64_encode [a] = [b64_char (byte a div 4), b64_char (byte a mod 4 * 16)]"
| "b64_encode [a, b] = [b64_char (byte a div 4), b64_char (byte a mod 4 * 16 + byte b div 16), b64_char (byte b mod 16 * 4)]"
| "b64_encode (a # b # d # cs) =
     b64_char (byte a div 4) # b64_char (byte a mod 4 * 16 + byte b div 16)
     # b64_char (byte b mod 16 * 4 + byte d div 64) # b64_char (byte d mod 64) # b64_encode cs"

primrec index_of :: "char \<Rightarrow> string \<Rightarrow> nat option" where
  "index_of x [] = None"
| "index_of x (y # ys) = (if x = y then Some 0 else map_option Suc (index_of x ys))"

definition b64_val :: "char \<Rightarrow> nat option" where "b64_val ch = index_of ch b64_alphabet"

text \<open>The decoder skips line breaks, takes four symbols for three bytes, and accepts a rest of two or
  three symbols, whose spare bits it ignores.\<close>

fun b64_quads :: "nat list \<Rightarrow> string option" where
  "b64_quads [] = Some []"
| "b64_quads [u] = None"
| "b64_quads [u, v] = Some [char_of (u * 4 + v div 16)]"
| "b64_quads [u, v, w] = Some [char_of (u * 4 + v div 16), char_of (v mod 16 * 16 + w div 4)]"
| "b64_quads (u # v # w # x # rest) =
     map_option (\<lambda>r. char_of (u * 4 + v div 16) # char_of (v mod 16 * 16 + w div 4) # char_of (w mod 4 * 64 + x) # r)
       (b64_quads rest)"

definition b64_decode :: "string \<Rightarrow> string option" where
  "b64_decode s = (case those (map b64_val (filter (\<lambda>ch. ch \<noteq> CHR 0x0A \<and> ch \<noteq> CHR 0x0D) s)) of
     None \<Rightarrow> None | Some vs \<Rightarrow> b64_quads vs)"

subsection \<open>Invites\<close>

definition invite_prefix :: string where "invite_prefix = ''fdshare_''"

definition encode_invite :: "codec \<Rightarrow> invite \<Rightarrow> string" where
  "encode_invite c i = invite_prefix @ b64_encode (k_invite c i)"

definition decode_invite :: "codec \<Rightarrow> string \<Rightarrow> error + invite" where
  "decode_invite c code =
     (if length code \<le> length invite_prefix \<or> take (length invite_prefix) code \<noteq> invite_prefix
      then Inl (ErrText ''not a flightdeck invite code (expected an fdshare_ prefix)'')
      else (case b64_decode (drop (length invite_prefix) code) of
              None \<Rightarrow> Inl (ErrText ''invite code is malformed'')
            | Some b \<Rightarrow>
               (case k_uninvite c b of
                  None \<Rightarrow> Inl (ErrText ''invite code is malformed'')
                | Some iv \<Rightarrow>
                   (if iv_version iv \<noteq> protocol_version then Inl (ErrText ''invite uses another protocol version'')
                    else if length (iv_secret iv) \<noteq> key_size then Inl (ErrText ''invite is missing its encryption key'')
                    else if iv_url iv = [] \<or> iv_send_mb iv = [] \<or> iv_recv_mb iv = []
                    then Inl (ErrText ''invite is missing mailbox details'')
                    else Inr iv))))"

subsection \<open>The encodings round-trip\<close>

lemma byte_bound [simp]: "byte a < 256" by (simp add: byte_def)

lemma char_of_byte [simp]: "char_of (byte a) = a" by (simp add: byte_def)

lemma b64_alphabet_distinct: "distinct b64_alphabet" by code_simp

lemma b64_alphabet_length: "length b64_alphabet = 64" by code_simp

lemma index_of_nth: "distinct xs \<Longrightarrow> i < length xs \<Longrightarrow> index_of (xs ! i) xs = Some i"
  by (induction xs arbitrary: i) (auto simp: nth_Cons split: nat.splits)

lemma b64_val_char [simp]: "n < 64 \<Longrightarrow> b64_val (b64_char n) = Some n"
  by (simp add: b64_val_def b64_char_def index_of_nth b64_alphabet_distinct b64_alphabet_length)

lemma b64_no_breaks: "CHR 0x0A \<notin> set b64_alphabet" "CHR 0x0D \<notin> set b64_alphabet"
  by code_simp+

lemma b64_char_mem: "b64_char n \<in> set b64_alphabet"
  by (simp add: b64_char_def b64_alphabet_length)

lemma b64_encode_alphabet: "set (b64_encode s) \<subseteq> set b64_alphabet"
  by (induction s rule: b64_encode.induct) (auto simp: b64_char_mem)

lemma b64_encode_no_breaks: "filter (\<lambda>ch. ch \<noteq> CHR 0x0A \<and> ch \<noteq> CHR 0x0D) (b64_encode s) = b64_encode s"
  using b64_encode_alphabet[of s] b64_no_breaks by (auto simp: filter_id_conv)

text \<open>The values of the symbols, as the decoder reads them.\<close>

fun b64_vals :: "string \<Rightarrow> nat list" where
  "b64_vals [] = []"
| "b64_vals [a] = [byte a div 4, byte a mod 4 * 16]"
| "b64_vals [a, b] = [byte a div 4, byte a mod 4 * 16 + byte b div 16, byte b mod 16 * 4]"
| "b64_vals (a # b # d # cs) =
     byte a div 4 # (byte a mod 4 * 16 + byte b div 16) # (byte b mod 16 * 4 + byte d div 64) # byte d mod 64
     # b64_vals cs"

lemma b64_ranges:
  "byte a div 4 < 64" "byte a mod 4 * 16 < 64" "byte a mod 4 * 16 + byte b div 16 < 64"
  "byte b mod 16 * 4 < 64" "byte b mod 16 * 4 + byte d div 64 < 64" "byte d mod 64 < 64"
  using byte_bound[of a] byte_bound[of b] byte_bound[of d] by linarith+

lemma b64_vals_encode: "map b64_val (b64_encode s) = map Some (b64_vals s)"
  by (induction s rule: b64_encode.induct) (simp_all add: b64_ranges)

lemma those_Some [simp]: "those (map Some xs) = Some xs"
  by (induction xs) simp_all

lemma b64_bytes:
  "byte a div 4 * 4 + (byte a mod 4 * 16 + k) div 16 = byte a" if "k < 16" for a k
proof -
  have "(byte a mod 4 * 16 + k) div 16 = byte a mod 4" using that by simp
  then show ?thesis by (simp add: div_mult_mod_eq)
qed

lemma b64_middle: "(byte a mod 4 * 16 + byte b div 16) mod 16 * 16 + (byte b mod 16 * 4 + k) div 4 = byte b"
  if "k < 4" for a b k
proof -
  have "byte b div 16 < 16" using byte_bound[of b] by linarith
  then have "(byte a mod 4 * 16 + byte b div 16) mod 16 = byte b div 16" by simp
  moreover have "(byte b mod 16 * 4 + k) div 4 = byte b mod 16" using that by simp
  ultimately show ?thesis by (simp add: div_mult_mod_eq)
qed

lemma b64_last: "(byte b mod 16 * 4 + byte d div 64) mod 4 * 64 + byte d mod 64 = byte d"
proof -
  have "byte d div 64 < 4" using byte_bound[of d] by linarith
  then have "(byte b mod 16 * 4 + byte d div 64) mod 4 = byte d div 64" by simp
  then show ?thesis by (simp add: div_mult_mod_eq)
qed

lemma b64_quads_vals: "b64_quads (b64_vals s) = Some s"
proof (induction s rule: b64_vals.induct)
  case (2 a)
  then show ?case using b64_bytes[of 0 a] by simp
next
  case (3 a b)
  have "byte b div 16 < 16" using byte_bound[of b] by linarith
  then show ?case using b64_bytes[of "byte b div 16" a] b64_middle[of 0 a b] by simp
next
  case (4 a b d cs)
  have "byte b div 16 < 16" "byte d div 64 < 4" using byte_bound[of b] byte_bound[of d] by linarith+
  then show ?case using 4 b64_bytes[of "byte b div 16" a] b64_middle[of "byte d div 64" a b] b64_last[of b d] by simp
qed simp

lemma b64_roundtrip: "b64_decode (b64_encode s) = Some s"
  by (simp add: b64_decode_def b64_encode_no_breaks b64_vals_encode b64_quads_vals)

text \<open>An invite survives the trip through the chat: decoding the code of a complete invite (this
  protocol version, a 32-byte key, the mailbox details) gives that invite back.\<close>

lemma invite_roundtrip:
  assumes "k_uninvite c (k_invite c i) = Some i" and "k_invite c i \<noteq> []"
    and "iv_version i = protocol_version" and "length (iv_secret i) = key_size"
    and "iv_url i \<noteq> []" and "iv_send_mb i \<noteq> []" and "iv_recv_mb i \<noteq> []"
  shows "decode_invite c (encode_invite c i) = Inr i"
proof -
  have "b64_encode (k_invite c i) \<noteq> []"
    using assms(2) by (cases "k_invite c i" rule: b64_encode.cases) simp_all
  then show ?thesis using assms by (simp add: decode_invite_def encode_invite_def b64_roundtrip)
qed

text \<open>What was sealed with the key of a share opens, under the same key, to the envelope that was
  sealed, when the cipher opens what it locked.\<close>

lemma seal_open:
  assumes "length nonce = nonce_size" and "seal c key nonce env = Inr sealed"
    and "k_unlock c key nonce (k_lock c key nonce (k_env c env)) = Some (k_env c env)"
    and "k_unenv c (k_env c env) = Some env" and "env_version env = protocol_version"
  shows "open_sealed c key sealed = Inr env"
  using assms by (auto simp: seal_def open_sealed_def split: if_splits)

lemma open_sealed_Inr:
  assumes "open_sealed c key m = Inr e"
  shows "env_version e = protocol_version \<and> length key = key_size
    \<and> (\<exists>p. k_unlock c key (take nonce_size m) (drop nonce_size m) = Some p \<and> k_unenv c p = Some e)"
  using assms by (auto simp: open_sealed_def split: if_splits option.splits)

subsection \<open>A concrete codec\<close>

definition demo_payload :: item_payload where
  "demo_payload = \<lparr>ip_id = ''5'', ip_type = ''task'', ip_title = ''remote'', ip_body = ''there'', ip_status = ''todo'',
     ip_priority = ''low'', ip_assignee = None, ip_external_ref = None, ip_tags = [], ip_metadata = Some (JObj []),
     ip_criteria = Some (JArr []), ip_created_at = 3, ip_closed_at = None, ip_deleted_at = None\<rparr>"

definition demo_note :: activity_payload where
  "demo_note = \<lparr>yp_id = ''8'', yp_item = Some ''77'', yp_kind = ''comment'', yp_actor = ''bob'', yp_body = ''hm'',
     yp_confidence = Some ''unspecified'', yp_metadata = None, yp_created_at = 4\<rparr>"

definition demo_invite :: invite where
  "demo_invite = \<lparr>iv_version = 1, iv_peer = ''bob'', iv_slug = ''fd'', iv_name = ''Deck'', iv_url = ''https://m'',
     iv_send_mb = ''s'', iv_send_tok = ''t'', iv_recv_mb = ''r'', iv_recv_tok = ''u'', iv_secret = replicate 32 (CHR ''k''),
     iv_cert = [], iv_key = [], iv_ca = []\<rparr>"

text \<open>An item payload is coded by its title, an envelope by the payload it carries.\<close>

definition demo_env :: "string \<Rightarrow> envelope" where
  "demo_env p = \<lparr>env_version = 1, env_kind = ''item'', env_origin = ''B'', env_sent_at = 0, env_payload = p\<rparr>"

definition demo_codec :: codec where
  "demo_codec = \<lparr>k_item = (\<lambda>p. ip_title p @ ''|'' @ ip_body p), k_unitem = (\<lambda>_. Some demo_payload), k_act = (\<lambda>p. yp_body p @ ''|'' @ coalesce (yp_item p) []),
     k_unact = (\<lambda>_. Some demo_note),
     k_proj = jp_name, k_unproj = (\<lambda>_. None), k_env = env_payload, k_unenv = (\<lambda>p. Some (demo_env p)),
     k_invite = iv_name, k_uninvite = (\<lambda>_. Some demo_invite), k_sha = (\<lambda>b. b), k_lock = (\<lambda>_ _ p. p),
     k_unlock = (\<lambda>_ _ p. Some p), k_uuid = (\<lambda>u. dec_nat u), k_unuuid = (\<lambda>s. Some (digits_val s)), k_quote = (\<lambda>s. s)\<rparr>"

lemma demo_invite_roundtrip: "decode_invite demo_codec (encode_invite demo_codec demo_invite) = Inr demo_invite"
  by (rule invite_roundtrip)
    (simp_all add: demo_codec_def demo_invite_def protocol_version_def key_size_def)

lemma demo_seal_open:
  "open_sealed demo_codec (replicate 32 (CHR ''k'')) (replicate 24 (CHR ''n'') @ ''hello'') = Inr (demo_env ''hello'')"
  by (rule seal_open[where nonce = "replicate 24 (CHR ''n'')"])
    (simp_all add: nonce_size_def seal_def key_size_def demo_codec_def demo_env_def protocol_version_def)

end
