(* ===== verification/Projects.thy ===== *)
theory Projects
  imports Items
begin

text \<open>
  Projects: the statements of \<open>internal/store/projects.sql.go\<close>, the tree of
  \<open>internal/service/hierarchy.go\<close>, and the two halves of deletion of
  \<open>internal/service/projects.go\<close>. The tree is kept as a parent slug per row; a request to change a
  parent is validated against the descendants of the project.
\<close>

subsection \<open>Statements\<close>

record project_params =
  pp_slug :: string
  pp_name :: string
  pp_status :: "string option"
  pp_summary :: "string option"
  pp_instructions :: "string option"
  pp_repo_url :: "string option"
  pp_site_url :: "string option"
  pp_aliases :: "string list option"
  pp_parent :: "string option"

definition parent_exists :: "string option \<Rightarrow> project list \<Rightarrow> bool" where
  "parent_exists pa ps = (case pa of None \<Rightarrow> True | Some x \<Rightarrow> has_row (\<lambda>p. p_slug p = x) ps)"

definition create_project :: "project_params \<Rightarrow> project dbtx" where
  "create_project a = tx_bind draw_uuid (\<lambda>u. tx_bind get_now (\<lambda>t. (\<lambda>s.
     (let p = \<lparr>p_id = u, p_slug = pp_slug a, p_name = pp_name a, p_status = coalesce (pp_status a) ''active'',
               p_summary = coalesce (pp_summary a) [], p_repo_url = pp_repo_url a, p_site_url = pp_site_url a,
               p_created_at = t, p_updated_at = t, p_instructions = coalesce (pp_instructions a) [],
               p_item_seq = 0, p_aliases = coalesce (pp_aliases a) [], p_parent = pp_parent a\<rparr>
      in if \<not> project_checks p then Inl check_violation
         else if has_row (\<lambda>q. p_id q = u \<or> p_slug q = p_slug p) (projects s) then Inl unique_violation
         else if \<not> parent_exists (p_parent p) (projects s @ [p]) then Inl fk_violation
         else Inr (p, s\<lparr>projects := projects s @ [p]\<rparr>)))))"

record project_patch =
  pq_name :: "string option"
  pq_status :: "string option"
  pq_summary :: "string option"
  pq_instructions :: "string option"
  pq_repo_url :: "string option"
  pq_site_url :: "string option"
  pq_aliases :: "string list option"
  pq_set_parent :: bool
  pq_parent :: "string option"
  pq_slug :: string

definition patched_project :: "project_patch \<Rightarrow> gtime \<Rightarrow> project \<Rightarrow> project" where
  "patched_project a t p = p\<lparr>p_name := coalesce (pq_name a) (p_name p),
     p_status := coalesce (pq_status a) (p_status p),
     p_summary := coalesce (pq_summary a) (p_summary p),
     p_instructions := coalesce (pq_instructions a) (p_instructions p),
     p_repo_url := (case pq_repo_url a of Some x \<Rightarrow> Some x | None \<Rightarrow> p_repo_url p),
     p_site_url := (case pq_site_url a of Some x \<Rightarrow> Some x | None \<Rightarrow> p_site_url p),
     p_aliases := coalesce (pq_aliases a) (p_aliases p),
     p_parent := (if pq_set_parent a then pq_parent a else p_parent p),
     p_updated_at := t\<rparr>"

definition update_project :: "project_patch \<Rightarrow> project dbtx" where
  "update_project a s =
     (case find_slug (pq_slug a) s of
        Inl e \<Rightarrow> Inl e
      | Inr p \<Rightarrow>
          (let p' = patched_project a (db_now s) p
           in if \<not> project_checks p' then Inl check_violation
              else if \<not> parent_exists (p_parent p') (projects s) then Inl fk_violation
              else Inr (p', s\<lparr>projects := rows_update (\<lambda>q. p_slug q = pq_slug a) (patched_project a (db_now s)) (projects s)\<rparr>)))"

definition no_patch :: "string \<Rightarrow> project_patch" where
  "no_patch slug = \<lparr>pq_name = None, pq_status = None, pq_summary = None, pq_instructions = None, pq_repo_url = None,
     pq_site_url = None, pq_aliases = None, pq_set_parent = False, pq_parent = None, pq_slug = slug\<rparr>"

definition set_project_instructions :: "string \<Rightarrow> string \<Rightarrow> project dbtx" where
  "set_project_instructions slug x s =
     (case find_slug slug s of
        Inl e \<Rightarrow> Inl e
      | Inr p \<Rightarrow>
          (let f = (\<lambda>q. q\<lparr>p_instructions := x, p_updated_at := db_now s\<rparr>)
           in Inr (f p, s\<lparr>projects := rows_update (\<lambda>q. p_slug q = slug) f (projects s)\<rparr>)))"

text \<open>\<open>DELETE FROM projects\<close>, with the foreign keys that cascade or reset.\<close>

definition delete_project :: "string \<Rightarrow> project dbtx" where
  "delete_project slug s =
     (case find_slug slug s of
        Inl e \<Rightarrow> Inl e
      | Inr p \<Rightarrow>
          (let pr = p_id p;
               gone = i_id ` set (filter (\<lambda>i. i_project i = pr) (items s));
               gact = a_id ` set (filter (\<lambda>a. a_project a = pr) (activities s));
               gsh = s_id ` set (filter (\<lambda>r. s_project r = pr) (shares s))
           in Inr (p, s\<lparr>
             projects := rows_update (\<lambda>q. p_parent q = Some slug) (\<lambda>q. q\<lparr>p_parent := None\<rparr>)
                           (filter (\<lambda>q. p_slug q \<noteq> slug) (projects s)),
             items := filter (\<lambda>i. i_project i \<noteq> pr) (items s),
             activities := rows_update (\<lambda>a. case a_item a of None \<Rightarrow> False | Some x \<Rightarrow> x \<in> gone) (\<lambda>a. a\<lparr>a_item := None\<rparr>)
                             (filter (\<lambda>a. a_project a \<noteq> pr) (activities s)),
             item_links := filter (\<lambda>l. l_from l \<notin> gone \<and> l_to l \<notin> gone) (item_links s),
             item_refs := filter (\<lambda>r. r_item r \<notin> gone) (item_refs s),
             attachments := filter (\<lambda>a. t_item a \<notin> gone) (attachments s),
             webhooks := filter (\<lambda>h. h_project h \<noteq> Some pr) (webhooks s),
             webhook_events := filter (\<lambda>e. e_project e \<noteq> Some pr) (webhook_events s),
             shares := filter (\<lambda>r. s_project r \<noteq> pr) (shares s),
             share_states := filter (\<lambda>r. ss_share r \<notin> gsh) (share_states s),
             act_embeddings := filter (\<lambda>e. ae_activity e \<notin> gact) (act_embeddings s)\<rparr>)))"

definition status_order :: "string \<Rightarrow> nat" where
  "status_order st = (if st = ''active'' then 0 else if st = ''paused'' then 1 else if st = ''done'' then 2 else 3)"

definition list_projects :: "string option \<Rightarrow> db \<Rightarrow> project list" where
  "list_projects st s = sort_key (\<lambda>p. status_order (p_status p)) (sort_key (\<lambda>p. - p_updated_at p)
     (filter (\<lambda>p. case st of None \<Rightarrow> p_status p \<noteq> ''archived'' | Some x \<Rightarrow> p_status p = x) (projects s)))"

text \<open>\<open>ORDER BY name\<close> uses the collation of the database, an argument.\<close>

definition list_child_projects :: "(string \<Rightarrow> rat) \<Rightarrow> string \<Rightarrow> db \<Rightarrow> (string \<times> string \<times> string \<times> string) list" where
  "list_child_projects coll slug s = map (\<lambda>p. (p_slug p, p_name p, p_status p, p_summary p))
     (sort_key (\<lambda>p. coll (p_name p)) (filter (\<lambda>p. p_parent p = Some slug) (projects s)))"

definition count_by :: "('r \<Rightarrow> 'k) \<Rightarrow> 'r list \<Rightarrow> ('k \<times> nat) list" where
  "count_by k rs = map (\<lambda>x. (x, length (filter (\<lambda>r. k r = x) rs))) (remdups (map k rs))"

definition count_items_by_status :: "db \<Rightarrow> ((uuid \<times> string) \<times> nat) list" where
  "count_items_by_status s = count_by (\<lambda>i. (i_project i, i_status i)) (filter live (items s))"

definition count_items_by_status_for_project :: "uuid \<Rightarrow> db \<Rightarrow> (string \<times> nat) list" where
  "count_items_by_status_for_project pr s = count_by i_status (filter (\<lambda>i. i_project i = pr \<and> live i) (items s))"

definition count_project_contents :: "uuid \<Rightarrow> db \<Rightarrow> nat \<times> nat" where
  "count_project_contents pr s =
     (length (filter (\<lambda>i. i_project i = pr) (items s)), length (filter (\<lambda>a. a_project a = pr) (activities s)))"

definition list_attachment_keys_for_project :: "uuid \<Rightarrow> db \<Rightarrow> string list" where
  "list_attachment_keys_for_project pr s = concat (map (\<lambda>a. map (\<lambda>_. t_object_key a)
     (filter (\<lambda>i. i_id i = t_item a \<and> i_project i = pr) (items s))) (attachments s))"

text \<open>
  The recursive query: the slugs reached from a root that exists, by parent edges. \<open>UNION\<close> drops
  slugs already found, and the walk ends when a round finds nothing new; as many rounds as there are
  projects are enough.
\<close>

definition step_down :: "project list \<Rightarrow> string list \<Rightarrow> string list" where
  "step_down ps xs = xs @ remdups (map p_slug (filter (\<lambda>p. p_slug p \<notin> set xs
     \<and> (case p_parent p of None \<Rightarrow> False | Some x \<Rightarrow> x \<in> set xs)) ps))"

primrec walk_down :: "nat \<Rightarrow> project list \<Rightarrow> string list \<Rightarrow> string list" where
  "walk_down 0 ps xs = xs"
| "walk_down (Suc n) ps xs = walk_down n ps (step_down ps xs)"

definition project_descendants :: "string \<Rightarrow> db \<Rightarrow> string list" where
  "project_descendants slug s =
     (if has_row (\<lambda>p. p_slug p = slug) (projects s) then walk_down (length (projects s)) (projects s) [slug] else [])"

subsection \<open>The service\<close>

definition validate_project_parent :: "string \<Rightarrow> string \<Rightarrow> db \<Rightarrow> error option" where
  "validate_project_parent slug parent s =
     (let pa = trim_space parent in
      if pa = [] then None
      else (case find_slug pa s of
              Inl e \<Rightarrow> Some e
            | Inr _ \<Rightarrow>
                if pa = slug then Some (ErrInvalidProjectParent ''project cannot be its own parent'')
                else if pa \<in> set (project_descendants slug s)
                then Some (ErrInvalidProjectParent ''this would create a cycle'') else None))"

text \<open>\<open>checkParent\<close>: the nullable form of a requested parent, after validation.\<close>

definition check_parent :: "string \<Rightarrow> string option \<Rightarrow> db \<Rightarrow> error + string option" where
  "check_parent slug req s =
     (case req of
        None \<Rightarrow> Inr None
      | Some pa \<Rightarrow>
          (case validate_project_parent slug pa s of
             Some e \<Rightarrow> Inl e
           | None \<Rightarrow> Inr (if trim_space pa \<noteq> [] then Some (trim_space pa) else None)))"

text \<open>The handlers that set a parent: \<open>createProject\<close> and \<open>patchProject\<close>, after decoding and the
  check of the status.\<close>

definition create_with_parent :: "project_params \<Rightarrow> string option \<Rightarrow> gtime \<Rightarrow> db \<Rightarrow> (error + project) \<times> db" where
  "create_with_parent a req now s =
     (case check_parent (pp_slug a) req s of
        Inl e \<Rightarrow> (Inl e, s)
      | Inr pa \<Rightarrow> with_tx now (create_project (a\<lparr>pp_parent := pa\<rparr>)) s)"

definition patch_with_parent :: "project_patch \<Rightarrow> string option \<Rightarrow> gtime \<Rightarrow> db \<Rightarrow> (error + project) \<times> db" where
  "patch_with_parent a req now s =
     (case check_parent (pq_slug a) req s of
        Inl e \<Rightarrow> (Inl e, s)
      | Inr pa \<Rightarrow> with_tx now (update_project (a\<lparr>pq_set_parent := req \<noteq> None, pq_parent := pa\<rparr>)) s)"

definition archive_project :: "string \<Rightarrow> gtime \<Rightarrow> db \<Rightarrow> (error + project) \<times> db" where
  "archive_project slug now = with_tx now (update_project ((no_patch slug)\<lparr>pq_status := Some ''archived''\<rparr>))"

text \<open>\<open>PurgeProject\<close>; the result is the counts and the blobs to delete once the rows are gone. Whether
  object storage is configured is an argument.\<close>

definition purge_project :: "bool \<Rightarrow> string \<Rightarrow> gtime \<Rightarrow> db \<Rightarrow> (error + (nat \<times> nat \<times> nat) \<times> string list) \<times> db" where
  "purge_project blobs slug now s =
     (case find_slug slug s of
        Inl e \<Rightarrow> (Inl e, s)
      | Inr p \<Rightarrow>
          (if p_status p \<noteq> ''archived'' then (Inl (ErrProjectNotEmpty ''archive it first''), s)
           else if filter (\<lambda>q. p_parent q = Some slug) (projects s) \<noteq> []
           then (Inl (ErrProjectNotEmpty ''re-parent or purge the child projects first''), s)
           else (let (ni, na) = count_project_contents (p_id p) s;
                     keys = (if blobs then list_attachment_keys_for_project (p_id p) s else [])
                 in (case with_tx now (delete_project slug) s of
                       (Inl e, s') \<Rightarrow> (Inl e, s')
                     | (Inr _, s') \<Rightarrow> (Inr ((ni, na, length keys), keys), s')))))"

end
