(* ===== verification/Sync.thy ===== *)
theory Sync
  imports Protocol Projects
begin

text \<open>
  The sync engine of \<open>internal/sync/engine.go\<close>: merging of concurrent edits, application of a peer's
  changes, the inbound pass with its acknowledgement, the outbound pass with its echo guard, and the
  loop over the shares. The mailbox host is a \<open>mail_client\<close>: what Receive returns, which error Ack
  returns, and which error the n-th Send returns. Statements run one by one; what was done before an
  error stays done. The clock of one pass does not move.
\<close>

definition conflict_separator :: string where
  "conflict_separator = [CHR 0x0A, CHR 0x0A] @ ''---'' @ [CHR 0x0A]
     @ ''_Edited on both instances; the other version:_'' @ [CHR 0x0A, CHR 0x0A]"

subsection \<open>Payloads of rows\<close>

definition or_empty_json :: "json option \<Rightarrow> json" where "or_empty_json b = coalesce b (JObj [])"
definition or_empty_json_array :: "json option \<Rightarrow> json" where "or_empty_json_array b = coalesce b (JArr [])"

definition item_payload_of :: "codec \<Rightarrow> item \<Rightarrow> item_payload" where
  "item_payload_of c i = \<lparr>ip_id = k_uuid c (i_id i), ip_type = i_type i, ip_title = i_title i, ip_body = i_body i,
     ip_status = i_status i, ip_priority = i_priority i, ip_assignee = i_assignee i, ip_external_ref = i_external_ref i,
     ip_tags = i_tags i, ip_metadata = Some (i_metadata i), ip_criteria = Some (i_criteria i),
     ip_created_at = i_created_at i, ip_closed_at = i_closed_at i, ip_deleted_at = i_deleted_at i\<rparr>"

definition activity_payload_of :: "codec \<Rightarrow> activity \<Rightarrow> activity_payload" where
  "activity_payload_of c a = \<lparr>yp_id = k_uuid c (a_id a), yp_item = map_option (k_uuid c) (a_item a), yp_kind = a_kind a,
     yp_actor = a_actor a, yp_body = a_body a, yp_confidence = (if a_confidence a \<noteq> [] then Some (a_confidence a) else None),
     yp_metadata = Some (a_metadata a), yp_created_at = a_created_at a\<rparr>"

definition project_payload_of :: "codec \<Rightarrow> project \<Rightarrow> project_payload" where
  "project_payload_of c p = \<lparr>jp_id = k_uuid c (p_id p), jp_name = p_name p, jp_summary = p_summary p,
     jp_instructions = p_instructions p\<rparr>"

definition item_hash :: "codec \<Rightarrow> item \<Rightarrow> string" where
  "item_hash c i = content_hash c (k_item c (item_payload_of c i))"

text \<open>\<open>upsertParams\<close>: the row offered to the upsert, with the defaults of the columns not named.\<close>

definition upsert_params :: "uuid \<Rightarrow> uuid \<Rightarrow> item_payload \<Rightarrow> item" where
  "upsert_params pr x p = \<lparr>i_id = x, i_project = pr, i_type = ip_type p, i_title = ip_title p, i_body = ip_body p,
     i_status = ip_status p, i_priority = ip_priority p, i_assignee = ip_assignee p, i_position = 0, i_source = ''api'',
     i_external_ref = ip_external_ref p, i_tags = ip_tags p, i_metadata = or_empty_json (ip_metadata p),
     i_created_at = ip_created_at p, i_updated_at = ip_created_at p, i_closed_at = ip_closed_at p,
     i_deleted_at = ip_deleted_at p, i_key = None, i_criteria = or_empty_json_array (ip_criteria p), i_seq = 0,
     i_ref = [], i_version = 1, i_embedding = None, i_model = []\<rparr>"

subsection \<open>Merging\<close>

definition merged_body :: "string \<Rightarrow> string \<Rightarrow> string \<Rightarrow> string \<Rightarrow> string" where
  "merged_body lid rid l r =
     (if l = r \<or> l = [] then r
      else if r = [] then l
      else if str_contains r l then r
      else if str_contains l r then l
      else if lid < rid then l @ conflict_separator @ r
      else r @ conflict_separator @ l)"

definition merge_conflict :: "string \<Rightarrow> string \<Rightarrow> item \<Rightarrow> item_payload \<Rightarrow> item_payload" where
  "merge_conflict lid rid l r0 =
     (let r1 = (if rid < lid
                then r0\<lparr>ip_title := i_title l, ip_status := i_status l, ip_priority := i_priority l,
                        ip_type := i_type l, ip_assignee := i_assignee l, ip_tags := i_tags l\<rparr> else r0);
          r2 = r1\<lparr>ip_body := merged_body lid rid (i_body l) (ip_body r1)\<rparr>;
          r3 = (if i_created_at l < ip_created_at r2 then r2\<lparr>ip_created_at := i_created_at l\<rparr> else r2)
      in if i_deleted_at l \<noteq> None \<and> ip_deleted_at r3 = None then r3\<lparr>ip_deleted_at := i_deleted_at l\<rparr> else r3)"

fun join_changes :: "string list \<Rightarrow> string" where
  "join_changes [x] = x"
| "join_changes [x, y] = x @ '' and '' @ y"
| "join_changes cs = join '', '' (butlast cs) @ '', and '' @ last cs"

definition conflict_changes :: "codec \<Rightarrow> item \<Rightarrow> item_payload \<Rightarrow> string list" where
  "conflict_changes c l r =
     (if i_status l \<noteq> ip_status r then [''status '' @ i_status l @ arrow @ ip_status r] else [])
   @ (if i_priority l \<noteq> ip_priority r then [''priority '' @ i_priority l @ arrow @ ip_priority r] else [])
   @ (if i_title l \<noteq> ip_title r then [''title '' @ k_quote c (i_title l) @ arrow @ k_quote c (ip_title r)] else [])"

definition log_conflict :: "codec \<Rightarrow> share \<Rightarrow> item \<Rightarrow> item_payload \<Rightarrow> unit dbtx" where
  "log_conflict c sh l r =
     (let cs = conflict_changes c l r;
          peer = (if s_peer sh = [] then ''the other instance'' else s_peer sh)
      in if cs = [] then tx_ret ()
         else tx_bind (create_activity (activity_of (i_project l) (i_id l) ''comment'' ''sync''
           (''Sync conflict: this item was edited here and on '' @ peer
            @ '' at the same time. Bodies were merged; '' @ join_changes cs
            @ ''. The previous local values are preserved in this note.''))) (\<lambda>_. tx_ret ()))"

subsection \<open>Applying a change of the peer\<close>

text \<open>\<open>shareState\<close>: an absent row is a state of empty hashes.\<close>

definition share_state_of :: "uuid \<Rightarrow> string \<Rightarrow> uuid \<Rightarrow> db \<Rightarrow> error + string \<times> string" where
  "share_state_of sid kind x s =
     (case get_share_state (sid, kind, x) s of
        Inl e \<Rightarrow> (if e = NoRows then Inr ([], []) else Inl e)
      | Inr r \<Rightarrow> Inr (ss_sent r, ss_base r))"

definition save_item :: "codec \<Rightarrow> share \<Rightarrow> uuid \<Rightarrow> bool \<Rightarrow> item_payload \<Rightarrow> unit dbact" where
  "save_item c sh x merged r =
     act_bind (stmt (upsert_synced_item (upsert_params (s_project sh) x r))) (\<lambda>saved.
       if merged then stmt (record_merged_base (s_id sh, kind_item, x) (item_hash c saved))
       else stmt (record_applied (s_id sh, kind_item, x) (item_hash c saved)))"

definition apply_item :: "codec \<Rightarrow> string \<Rightarrow> share \<Rightarrow> envelope \<Rightarrow> unit dbact" where
  "apply_item c inst sh env s =
     (case k_unitem c (env_payload env) of
        None \<Rightarrow> (Inl (ErrText ''decode item''), s)
      | Some remote \<Rightarrow>
         (case k_unuuid c (ip_id remote) of
            None \<Rightarrow> (Inl (ErrText ''item id''), s)
          | Some x \<Rightarrow>
             (case get_item_for_sync x s of
                Inl e \<Rightarrow> (if e = NoRows then save_item c sh x False remote s else (Inl e, s))
              | Inr l \<Rightarrow>
                 (case share_state_of (s_id sh) kind_item x s of
                    Inl e \<Rightarrow> (Inl e, s)
                  | Inr (_, base) \<Rightarrow>
                     (if item_hash c l = base then save_item c sh x False remote s
                      else (let m = merge_conflict inst (env_origin env) l remote
                            in act_bind (stmt (log_conflict c sh l m)) (\<lambda>_. save_item c sh x True m) s))))))"

definition record_applied_payload :: "codec \<Rightarrow> uuid \<Rightarrow> string \<Rightarrow> uuid \<Rightarrow> string \<Rightarrow> unit dbact" where
  "record_applied_payload c sid kind x bytes = stmt (record_applied (sid, kind, x) (content_hash c bytes))"

definition synced_activity :: "uuid \<Rightarrow> uuid \<Rightarrow> uuid option \<Rightarrow> activity_payload \<Rightarrow> activity" where
  "synced_activity x pr it r = \<lparr>a_id = x, a_project = pr, a_item = it, a_kind = yp_kind r, a_actor = yp_actor r,
     a_body = yp_body r, a_metadata = or_empty_json (yp_metadata r), a_created_at = yp_created_at r,
     a_confidence = coalesce (yp_confidence r) []\<rparr>"

definition attach_to :: "codec \<Rightarrow> activity_payload \<Rightarrow> db \<Rightarrow> uuid option" where
  "attach_to c r s =
     (case Option.bind (yp_item r) (k_unuuid c) of
        None \<Rightarrow> None
      | Some y \<Rightarrow> (case get_item_for_sync y s of Inl _ \<Rightarrow> None | Inr _ \<Rightarrow> Some y))"

definition apply_activity :: "codec \<Rightarrow> share \<Rightarrow> envelope \<Rightarrow> unit dbact" where
  "apply_activity c sh env s =
     (case k_unact c (env_payload env) of
        None \<Rightarrow> (Inl (ErrText ''decode activity''), s)
      | Some remote \<Rightarrow>
         (case k_unuuid c (yp_id remote) of
            None \<Rightarrow> (Inl (ErrText ''activity id''), s)
          | Some x \<Rightarrow>
             act_bind (stmt (upsert_synced_activity (synced_activity x (s_project sh) (attach_to c remote s) remote)))
               (\<lambda>_. record_applied_payload c (s_id sh) kind_activity x (k_act c remote)) s))"

definition project_slug :: "uuid \<Rightarrow> db \<Rightarrow> string" where
  "project_slug x s = (case find_project x s of Inl _ \<Rightarrow> [] | Inr p \<Rightarrow> p_slug p)"

definition apply_project :: "codec \<Rightarrow> share \<Rightarrow> envelope \<Rightarrow> unit dbact" where
  "apply_project c sh env s =
     (case k_unproj c (env_payload env) of
        None \<Rightarrow> (Inl (ErrText ''decode project''), s)
      | Some remote \<Rightarrow>
         act_bind (stmt (update_project ((no_patch (project_slug (s_project sh) s))\<lparr>pq_name := Some (jp_name remote),
             pq_summary := Some (jp_summary remote), pq_instructions := Some (jp_instructions remote)\<rparr>)))
           (\<lambda>saved. record_applied_payload c (s_id sh) kind_project (s_project sh) (k_proj c (project_payload_of c saved))) s)"

definition apply_change :: "codec \<Rightarrow> string \<Rightarrow> share \<Rightarrow> envelope \<Rightarrow> unit dbact" where
  "apply_change c inst sh env =
     (if env_kind env = kind_item then apply_item c inst sh env
      else if env_kind env = kind_activity then apply_activity c sh env
      else if env_kind env = kind_project then apply_project c sh env
      else act_ret ())"

subsection \<open>The inbound pass\<close>

record mail_message =
  mm_seq :: int
  mm_sent_at :: gtime
  mm_body :: string

record mail_client =
  mc_receive :: "error + mail_message list"
  mc_ack :: "int list \<Rightarrow> error option"
  mc_send :: "nat \<Rightarrow> string \<Rightarrow> error option"

text \<open>The loop over the messages: the numbers to acknowledge, and whether something was applied.\<close>

primrec pull_loop :: "codec \<Rightarrow> string \<Rightarrow> share \<Rightarrow> mail_message list \<Rightarrow> int list \<Rightarrow> bool \<Rightarrow> (int list \<times> bool) dbact" where
  "pull_loop c inst sh [] applied changed = act_ret (applied, changed)"
| "pull_loop c inst sh (m # ms) applied changed =
     (case open_sealed c (s_secret sh) (mm_body m) of
        Inl _ \<Rightarrow> pull_loop c inst sh ms (applied @ [mm_seq m]) changed
      | Inr env \<Rightarrow>
         (if env_origin env = inst then pull_loop c inst sh ms (applied @ [mm_seq m]) changed
          else act_bind (apply_change c inst sh env) (\<lambda>_. pull_loop c inst sh ms (applied @ [mm_seq m]) True)))"

text \<open>
  The state of a pass: the database, the acknowledgements the host has taken, the messages it has
  taken, and the projects \<open>OnChange\<close> was called for.
\<close>

record pass =
  ps_db :: db
  ps_acked :: "int list list"
  ps_sent :: "string list"
  ps_notified :: "uuid list"

definition client_ack :: "mail_client \<Rightarrow> int list \<Rightarrow> pass \<Rightarrow> (error + unit) \<times> pass" where
  "client_ack cl seqs w =
     (if seqs = [] then (Inr (), w)
      else (case mc_ack cl seqs of Some e \<Rightarrow> (Inl e, w) | None \<Rightarrow> (Inr (), w\<lparr>ps_acked := ps_acked w @ [seqs]\<rparr>)))"

definition pull_inbound :: "codec \<Rightarrow> string \<Rightarrow> mail_client \<Rightarrow> share \<Rightarrow> pass \<Rightarrow> (error + unit) \<times> pass" where
  "pull_inbound c inst cl sh w =
     (case mc_receive cl of
        Inl e \<Rightarrow> (Inl e, w)
      | Inr msgs \<Rightarrow>
         (if msgs = [] then (Inr (), w)
          else (case pull_loop c inst sh msgs [] False (ps_db w) of
                  (Inl e, s) \<Rightarrow> (Inl e, w\<lparr>ps_db := s\<rparr>)
                | (Inr (applied, changed), s) \<Rightarrow>
                   (case client_ack cl applied (w\<lparr>ps_db := s\<rparr>) of
                      (Inl e, w') \<Rightarrow> (Inl e, w')
                    | (Inr _, w') \<Rightarrow>
                       (Inr (), w'\<lparr>ps_db := snd (stmt (record_share_recv (s_id sh)) (ps_db w')),
                                   ps_notified := ps_notified w' @ (if changed then [s_project sh] else [])\<rparr>)))))"

subsection \<open>The outbound pass\<close>

definition sent_hashes :: "uuid \<Rightarrow> db \<Rightarrow> ((string \<times> uuid) \<times> string) list" where
  "sent_hashes sid s = map (\<lambda>(k, x, h, _). ((k, x), h)) (list_share_state_hashes sid s)"

text \<open>A missing key of the Go map reads as the empty string; a later row of a key wins.\<close>

definition sent_hash :: "((string \<times> uuid) \<times> string) list \<Rightarrow> string \<Rightarrow> uuid \<Rightarrow> string" where
  "sent_hash hs kind x = (case map_of (rev hs) (kind, x) of None \<Rightarrow> [] | Some h \<Rightarrow> h)"

definition send_entity :: "codec \<Rightarrow> string \<Rightarrow> (nat \<Rightarrow> string) \<Rightarrow> mail_client \<Rightarrow> share \<Rightarrow> ((string \<times> uuid) \<times> string) list
    \<Rightarrow> string \<times> uuid \<times> string \<Rightarrow> pass \<Rightarrow> (error + unit) \<times> pass" where
  "send_entity c inst nonces cl sh hs e w =
     (case e of (kind, x, raw) \<Rightarrow>
      let hash = content_hash c raw in
      if sent_hash hs kind x = hash then (Inr (), w)
      else (let n = length (ps_sent w) in
            case seal c (s_secret sh) (nonces n) \<lparr>env_version = protocol_version, env_kind = kind, env_origin = inst,
                   env_sent_at = db_now (ps_db w), env_payload = raw\<rparr> of
              Inl err \<Rightarrow> (Inl err, w)
            | Inr sealed \<Rightarrow>
               (case mc_send cl n sealed of
                  Some err \<Rightarrow> (Inl err, w)
                | None \<Rightarrow>
                   (case stmt (record_sent (s_id sh, kind, x) hash) (ps_db w) of
                      (r, s') \<Rightarrow> (r, w\<lparr>ps_db := s', ps_sent := ps_sent w @ [sealed]\<rparr>)))))"

primrec send_all :: "codec \<Rightarrow> string \<Rightarrow> (nat \<Rightarrow> string) \<Rightarrow> mail_client \<Rightarrow> share \<Rightarrow> ((string \<times> uuid) \<times> string) list
    \<Rightarrow> (string \<times> uuid \<times> string) list \<Rightarrow> pass \<Rightarrow> (error + unit) \<times> pass" where
  "send_all c inst nonces cl sh hs [] w = (Inr (), w)"
| "send_all c inst nonces cl sh hs (e # es) w =
     (case send_entity c inst nonces cl sh hs e w of
        (Inl err, w') \<Rightarrow> (Inl err, w')
      | (Inr _, w') \<Rightarrow> send_all c inst nonces cl sh hs es w')"

definition project_entity :: "codec \<Rightarrow> project \<Rightarrow> string \<times> uuid \<times> string" where
  "project_entity c p = (kind_project, p_id p, k_proj c (project_payload_of c p))"

definition item_entity :: "codec \<Rightarrow> item \<Rightarrow> string \<times> uuid \<times> string" where
  "item_entity c i = (kind_item, i_id i, k_item c (item_payload_of c i))"

definition activity_entity :: "codec \<Rightarrow> activity \<Rightarrow> string \<times> uuid \<times> string" where
  "activity_entity c a = (kind_activity, a_id a, k_act c (activity_payload_of c a))"

text \<open>The rows are read after the project was sent; the sends do not change them.\<close>

definition push_outbound :: "codec \<Rightarrow> string \<Rightarrow> (nat \<Rightarrow> string) \<Rightarrow> mail_client \<Rightarrow> share \<Rightarrow> pass \<Rightarrow> (error + unit) \<times> pass" where
  "push_outbound c inst nonces cl sh w0 =
     (let hs = sent_hashes (s_id sh) (ps_db w0) in
      case find_project (s_project sh) (ps_db w0) of
        Inl e \<Rightarrow> (Inl e, w0)
      | Inr p \<Rightarrow>
         (case send_entity c inst nonces cl sh hs (project_entity c p) w0 of
            (Inl e, w1) \<Rightarrow> (Inl e, w1)
          | (Inr _, w1) \<Rightarrow>
             (case send_all c inst nonces cl sh hs (map (item_entity c) (list_items_for_sync (s_project sh) (ps_db w1))) w1 of
                (Inl e, w2) \<Rightarrow> (Inl e, w2)
              | (Inr _, w2) \<Rightarrow>
                 (case send_all c inst nonces cl sh hs (map (activity_entity c) (list_activity_for_sync (s_project sh) (ps_db w2))) w2 of
                    (Inl e, w3) \<Rightarrow> (Inl e, w3)
                  | (Inr _, w3) \<Rightarrow>
                     (Inr (), if length (ps_sent w0) < length (ps_sent w3)
                              then w3\<lparr>ps_db := snd (stmt (record_share_send (s_id sh)) (ps_db w3))\<rparr> else w3)))))"

subsection \<open>A pass over the shares\<close>

definition sync_share :: "codec \<Rightarrow> string \<Rightarrow> (nat \<Rightarrow> string) \<Rightarrow> (share \<Rightarrow> error + mail_client) \<Rightarrow> share \<Rightarrow> pass
    \<Rightarrow> (error + unit) \<times> pass" where
  "sync_share c inst nonces connect sh w =
     (case connect sh of
        Inl e \<Rightarrow> (Inl e, w)
      | Inr cl \<Rightarrow>
         (case pull_inbound c inst cl sh w of
            (Inl e, w') \<Rightarrow> (Inl e, w')
          | (Inr _, w') \<Rightarrow> push_outbound c inst nonces cl sh w'))"

definition error_text :: "error \<Rightarrow> string" where
  "error_text e = (case e of ErrText t \<Rightarrow> t | PgError t \<Rightarrow> t
     | ErrMailboxGone \<Rightarrow> ''mailbox not found (share may have been revoked)'' | _ \<Rightarrow> ''error'')"

definition run_share :: "codec \<Rightarrow> string \<Rightarrow> (nat \<Rightarrow> string) \<Rightarrow> (share \<Rightarrow> error + mail_client) \<Rightarrow> pass \<Rightarrow> share \<Rightarrow> pass" where
  "run_share c inst nonces connect w sh =
     (case sync_share c inst nonces connect sh w of
        (Inr _, w') \<Rightarrow> w'
      | (Inl e, w') \<Rightarrow>
         (let s1 = snd (stmt (record_share_error (s_id sh) (error_text e)) (ps_db w'));
              s2 = (if e = ErrMailboxGone then snd (stmt (set_share_enabled (s_id sh) False) s1) else s1)
          in w'\<lparr>ps_db := s2\<rparr>))"

definition run_once :: "codec \<Rightarrow> string \<Rightarrow> (nat \<Rightarrow> string) \<Rightarrow> (share \<Rightarrow> error + mail_client) \<Rightarrow> pass \<Rightarrow> pass" where
  "run_once c inst nonces connect w = foldl (run_share c inst nonces connect) w (list_enabled_project_shares (ps_db w))"

end
