(* ===== verification/Sync_Merge.thy ===== *)
theory Sync_Merge
  imports Sync
begin

text \<open>
  What the merge of a two-sided edit guarantees. A field that is resolved the same way whichever
  instance does it is a \<open>replica_merge\<close>; the body, the scalars with a fixed winner, the creation time
  and the fact of deletion are instances. Four fields are not: the merge takes them from the other side,
  so that the two instances exchange them instead of agreeing.
\<close>

subsection \<open>Deterministic resolution of a field\<close>

text \<open>
  \<open>m a b x y\<close> is what the instance \<open>a\<close>, holding \<open>x\<close>, makes of the value \<open>y\<close> of the instance \<open>b\<close>.
\<close>

locale replica_merge =
  fixes m :: "string \<Rightarrow> string \<Rightarrow> 'a \<Rightarrow> 'a \<Rightarrow> 'a"
  assumes sym: "a \<noteq> b \<Longrightarrow> m a b x y = m b a y x"
    and idem: "m a b x x = x"
    and absorb: "a \<noteq> b \<Longrightarrow> m a b x (m b a y x) = m b a y x"
begin

text \<open>Merging a second time, with the merged value of the other side, changes nothing.\<close>

lemma settled: "a \<noteq> b \<Longrightarrow> m a b (m a b x y) (m b a y x) = m a b x y"
  using sym[of a b x y] by (simp add: idem)

text \<open>A peer that is itself in the middle of the conflict reaches the value it is sent.\<close>

lemma mid_conflict: "a \<noteq> b \<Longrightarrow> m a b x (m b a y x) = m a b x y"
  using absorb[of a b x y] sym[of a b x y] by simp

end

definition pick :: "string \<Rightarrow> string \<Rightarrow> 'a \<Rightarrow> 'a \<Rightarrow> 'a" where
  "pick lid rid l r = (if rid < lid then l else r)"

interpretation scalar: replica_merge pick
  by unfold_locales (auto simp: pick_def)

interpretation earliest: replica_merge "\<lambda>_ _ x y. min x (y :: gtime)"
  by unfold_locales (auto simp: min_def)

interpretation deletion: replica_merge "\<lambda>_ _ x y. x \<or> y"
  by unfold_locales auto

lemma str_contains_Nil [simp]: "str_contains [] x \<longleftrightarrow> x = []"
  by simp

lemma str_contains_joined [simp]:
  "str_contains (x @ z) x" "str_contains (z @ x) x" "str_contains (x @ z @ y) y"
  by (auto simp: str_contains_iff intro: exI[of _ "[]"] exI[of _ "x @ z"])

lemma merged_body_contains: "str_contains (merged_body a b x y) x" "str_contains (merged_body a b x y) y"
  by (auto simp: merged_body_def)

interpretation body: replica_merge merged_body
proof
  fix a b x y :: string
  show "merged_body a b x x = x" by (simp add: merged_body_def)
  assume ab: "a \<noteq> b"
  show "merged_body a b x y = merged_body b a y x"
    using ab str_contains_antisym[of x y] by (auto simp: merged_body_def)
  let ?v = "merged_body b a y x"
  have "str_contains ?v x" "str_contains ?v y" by (rule merged_body_contains)+
  then show "merged_body a b x ?v = ?v"
    by (cases "x = ?v \<or> x = []") (auto simp: merged_body_def[of a b x ?v])
qed

subsection \<open>The fields of a merge\<close>

lemma merge_fields:
  "ip_title (merge_conflict lid rid l r) = pick lid rid (i_title l) (ip_title r)"
  "ip_status (merge_conflict lid rid l r) = pick lid rid (i_status l) (ip_status r)"
  "ip_priority (merge_conflict lid rid l r) = pick lid rid (i_priority l) (ip_priority r)"
  "ip_type (merge_conflict lid rid l r) = pick lid rid (i_type l) (ip_type r)"
  "ip_assignee (merge_conflict lid rid l r) = pick lid rid (i_assignee l) (ip_assignee r)"
  "ip_tags (merge_conflict lid rid l r) = pick lid rid (i_tags l) (ip_tags r)"
  "ip_body (merge_conflict lid rid l r) = merged_body lid rid (i_body l) (ip_body r)"
  "ip_created_at (merge_conflict lid rid l r) = min (i_created_at l) (ip_created_at r)"
  "(ip_deleted_at (merge_conflict lid rid l r) \<noteq> None) = (i_deleted_at l \<noteq> None \<or> ip_deleted_at r \<noteq> None)"
  by (simp_all add: merge_conflict_def Let_def pick_def min_def)

lemma merge_taken_from_remote:
  "ip_id (merge_conflict lid rid l r) = ip_id r"
  "ip_metadata (merge_conflict lid rid l r) = ip_metadata r"
  "ip_criteria (merge_conflict lid rid l r) = ip_criteria r"
  "ip_external_ref (merge_conflict lid rid l r) = ip_external_ref r"
  "ip_closed_at (merge_conflict lid rid l r) = ip_closed_at r"
  by (simp_all add: merge_conflict_def Let_def)

lemma payload_fields [simp]:
  "ip_title (item_payload_of c i) = i_title i" "ip_status (item_payload_of c i) = i_status i"
  "ip_priority (item_payload_of c i) = i_priority i" "ip_type (item_payload_of c i) = i_type i"
  "ip_assignee (item_payload_of c i) = i_assignee i" "ip_tags (item_payload_of c i) = i_tags i"
  "ip_body (item_payload_of c i) = i_body i" "ip_created_at (item_payload_of c i) = i_created_at i"
  "ip_deleted_at (item_payload_of c i) = i_deleted_at i" "ip_metadata (item_payload_of c i) = Some (i_metadata i)"
  "ip_criteria (item_payload_of c i) = Some (i_criteria i)" "ip_external_ref (item_payload_of c i) = i_external_ref i"
  "ip_closed_at (item_payload_of c i) = i_closed_at i" "ip_id (item_payload_of c i) = k_uuid c (i_id i)"
  by (simp_all add: item_payload_of_def)

text \<open>C32: Determinism, for the fields it holds of: when two instances merge the same two versions of an
  item, each with its own version as the local one, they reach the same title, status, priority, type,
  assignee, tags, body and creation time, and agree on whether the item is deleted.\<close>

theorem merge_agrees:
  assumes "a \<noteq> b" and "mA = merge_conflict a b la (item_payload_of c lb)"
    and "mB = merge_conflict b a lb (item_payload_of c la)"
  shows "ip_title mA = ip_title mB \<and> ip_status mA = ip_status mB \<and> ip_priority mA = ip_priority mB
    \<and> ip_type mA = ip_type mB \<and> ip_assignee mA = ip_assignee mB \<and> ip_tags mA = ip_tags mB
    \<and> ip_body mA = ip_body mB \<and> ip_created_at mA = ip_created_at mB
    \<and> (ip_deleted_at mA = None \<longleftrightarrow> ip_deleted_at mB = None)"
proof -
  have "(ip_deleted_at mA \<noteq> None) = (ip_deleted_at mB \<noteq> None)" unfolding assms(2,3) merge_fields by auto
  then have "(ip_deleted_at mA = None) = (ip_deleted_at mB = None)" by blast
  moreover have "ip_title mA = ip_title mB \<and> ip_status mA = ip_status mB \<and> ip_priority mA = ip_priority mB
    \<and> ip_type mA = ip_type mB \<and> ip_assignee mA = ip_assignee mB \<and> ip_tags mA = ip_tags mB
    \<and> ip_body mA = ip_body mB \<and> ip_created_at mA = ip_created_at mB"
    unfolding assms(2,3) merge_fields payload_fields
    by (intro conjI scalar.sym[OF assms(1)] body.sym[OF assms(1)] min.commute)
  ultimately show ?thesis by simp
qed

text \<open>A merge destroys no prose and resurrects nothing: both bodies are contained in the merged one, an
  item deleted on either side is deleted, and merging once more, with the other side's merged version,
  leaves title and body as they are.\<close>

theorem merge_keeps_both:
  assumes "a \<noteq> b" and "mA = merge_conflict a b la rb" and "mB = merge_conflict b a lb ra"
    and "ip_title ra = i_title la" and "ip_body ra = i_body la" and "i_title lb = ip_title rb" and "i_body lb = ip_body rb"
  shows "str_contains (ip_body mA) (i_body la) \<and> str_contains (ip_body mA) (ip_body rb)
    \<and> (i_deleted_at la \<noteq> None \<or> ip_deleted_at rb \<noteq> None \<longleftrightarrow> ip_deleted_at mA \<noteq> None)
    \<and> ip_body (merge_conflict a b la mB) = ip_body mA \<and> ip_title (merge_conflict a b la mB) = ip_title mA"
  unfolding assms(2,3) merge_fields assms(4-7)
  by (intro conjI merged_body_contains refl body.mid_conflict[OF assms(1)] scalar.mid_conflict[OF assms(1)])

text \<open>Not everything is deterministic: each instance takes metadata, acceptance criteria, external
  reference and closing time from the other one, so when the two versions differ there, the two merges
  differ, and exchanging the merged versions only swaps them again. (The comment of \<open>mergeConflict\<close>
  demands byte-identical results.)\<close>

theorem merge_swaps_the_rest:
  assumes "mA = merge_conflict a b la (item_payload_of c lb)" and "mB = merge_conflict b a lb (item_payload_of c la)"
    and "i_metadata la \<noteq> i_metadata lb \<or> i_criteria la \<noteq> i_criteria lb
      \<or> i_external_ref la \<noteq> i_external_ref lb \<or> i_closed_at la \<noteq> i_closed_at lb"
  shows "mA \<noteq> mB \<and> ip_metadata mA = Some (i_metadata lb) \<and> ip_metadata mB = Some (i_metadata la)
    \<and> ip_criteria mA = Some (i_criteria lb) \<and> ip_criteria mB = Some (i_criteria la)
    \<and> ip_external_ref mA = i_external_ref lb \<and> ip_external_ref mB = i_external_ref la
    \<and> ip_closed_at mA = i_closed_at lb \<and> ip_closed_at mB = i_closed_at la"
proof -
  have f: "ip_metadata mA = Some (i_metadata lb)" "ip_metadata mB = Some (i_metadata la)"
    "ip_criteria mA = Some (i_criteria lb)" "ip_criteria mB = Some (i_criteria la)"
    "ip_external_ref mA = i_external_ref lb" "ip_external_ref mB = i_external_ref la"
    "ip_closed_at mA = i_closed_at lb" "ip_closed_at mB = i_closed_at la"
    unfolding assms(1,2) merge_taken_from_remote payload_fields by (rule refl)+
  have "mA \<noteq> mB"
  proof
    assume "mA = mB"
    with f have "i_metadata la = i_metadata lb \<and> i_criteria la = i_criteria lb
      \<and> i_external_ref la = i_external_ref lb \<and> i_closed_at la = i_closed_at lb" by simp
    with assms(3) show False by simp
  qed
  with f show ?thesis by simp
qed

subsection \<open>A concrete conflict\<close>

definition side_a :: item where
  "side_a = (upsert_params 1 5 demo_payload)\<lparr>i_title := ''mine'', i_body := ''ours'', i_metadata := JObj [(''k'', JNull)]\<rparr>"

definition side_b :: item where
  "side_b = upsert_params 1 5 demo_payload"

lemma merge_agrees_witness:
  "ip_title (merge_conflict ''A'' ''B'' side_a (item_payload_of demo_codec side_b))
      = ip_title (merge_conflict ''B'' ''A'' side_b (item_payload_of demo_codec side_a))
   \<and> ip_body (merge_conflict ''A'' ''B'' side_a (item_payload_of demo_codec side_b)) = ''ours'' @ conflict_separator @ ''there''"
proof
  show "ip_title (merge_conflict ''A'' ''B'' side_a (item_payload_of demo_codec side_b))
      = ip_title (merge_conflict ''B'' ''A'' side_b (item_payload_of demo_codec side_a))"
    using merge_agrees[of "''A''" "''B''", OF _ refl refl, of side_a demo_codec side_b] by simp
qed code_simp

lemma merge_keeps_both_witness:
  "str_contains (ip_body (merge_conflict ''A'' ''B'' side_a (item_payload_of demo_codec side_b))) ''ours''"
proof -
  have "i_body side_a = ''ours''" by code_simp
  then show ?thesis
    using merge_keeps_both[of "''A''" "''B''", OF _ refl refl, of "item_payload_of demo_codec side_a" side_a side_b
        "item_payload_of demo_codec side_b"] by simp
qed

lemma merge_swaps_the_rest_witness:
  "merge_conflict ''A'' ''B'' side_a (item_payload_of demo_codec side_b)
     \<noteq> merge_conflict ''B'' ''A'' side_b (item_payload_of demo_codec side_a)"
proof -
  have "i_metadata side_a \<noteq> i_metadata side_b" by code_simp
  then show ?thesis using merge_swaps_the_rest[OF refl refl, of side_a side_b] by blast
qed

end
