(* ===== verification/Project_Tree.thy ===== *)
theory Project_Tree
  imports Projects
begin

text \<open>
  The project tree: the recursive query computes exactly the descendants, validated parent changes
  keep the tree free of cycles over every history, archiving destroys nothing, and a purge removes one
  archived leaf and nothing that belongs to another project.
\<close>

subsection \<open>Descendants\<close>

definition edges :: "project list \<Rightarrow> (string \<times> string) set" where
  "edges ps = {(x, y). \<exists>p \<in> set ps. p_parent p = Some x \<and> p_slug p = y}"

lemma edges_image: "edges ps = (\<lambda>p. (the (p_parent p), p_slug p)) ` {p \<in> set ps. p_parent p \<noteq> None}"
  by (force simp: edges_def)

lemma finite_edges [simp]: "finite (edges ps)"
  by (simp add: edges_image)

lemma card_edges: "card (edges ps) \<le> length ps"
proof -
  have "card (edges ps) \<le> card {p \<in> set ps. p_parent p \<noteq> None}" unfolding edges_image by (rule card_image_le) simp
  also have "\<dots> \<le> card (set ps)" by (rule card_mono) auto
  also have "\<dots> \<le> length ps" by (rule card_length)
  finally show ?thesis .
qed

lemma step_down_set: "set (step_down ps xs) = set xs \<union> edges ps `` set xs"
  by (auto simp: step_down_def edges_def image_iff split: option.splits)

lemma UN_shift: "(\<Union>k \<le> n. A k \<union> A (Suc k)) = (\<Union>k \<le> Suc n. A k)" for n :: nat
  by (induction n) (auto simp: atMost_Suc)

lemma walk_down_set: "set (walk_down n ps xs) = (\<Union>k \<le> n. (edges ps ^^ k) `` set xs)"
proof (induction n arbitrary: xs)
  case 0
  then show ?case by simp
next
  case (Suc n)
  have "(edges ps ^^ k) `` set (step_down ps xs) = (edges ps ^^ k) `` set xs \<union> (edges ps ^^ Suc k) `` set xs" for k
    by (auto simp: step_down_set relpow_commute[symmetric] intro: relcompI)
  then have "set (walk_down (Suc n) ps xs)
      = (\<Union>k \<le> n. (edges ps ^^ k) `` set xs \<union> (edges ps ^^ Suc k) `` set xs)"
    using Suc.IH by simp
  also have "\<dots> = (\<Union>k \<le> Suc n. (edges ps ^^ k) `` set xs)"
    by (rule UN_shift[where A = "\<lambda>k. (edges ps ^^ k) `` set xs"])
  finally show ?case .
qed

lemma walk_down_all: "length ps \<le> n \<Longrightarrow> set (walk_down n ps [x]) = (edges ps)\<^sup>* `` {x}"
proof -
  assume n: "length ps \<le> n"
  have "(edges ps)\<^sup>* = (\<Union>k \<in> {k. k \<le> card (edges ps)}. edges ps ^^ k)"
    by (rule rtrancl_finite_eq_relpow) simp
  then have "(edges ps)\<^sup>* `` {x} \<subseteq> set (walk_down n ps [x])"
    using card_edges[of ps] n by (force simp: walk_down_set)
  moreover have "set (walk_down n ps [x]) \<subseteq> (edges ps)\<^sup>* `` {x}"
    by (auto simp: walk_down_set rtrancl_power)
  ultimately show ?thesis by blast
qed

lemma project_descendants_set:
  "set (project_descendants slug s)
    = (if \<exists>p \<in> set (projects s). p_slug p = slug then (edges (projects s))\<^sup>* `` {slug} else {})"
  by (auto simp: project_descendants_def walk_down_all)

subsection \<open>The tree invariant\<close>

definition tree_ok :: "db \<Rightarrow> bool" where
  "tree_ok s = (acyclic (edges (projects s)) \<and> (\<forall>p \<in> set (projects s). parent_exists (p_parent p) (projects s)))"

definition forest :: "db \<Rightarrow> bool" where
  "forest s = (db_ok s \<and> tree_ok s)"

lemma parent_exists_iff: "parent_exists pa ps \<longleftrightarrow> (\<forall>x. pa = Some x \<longrightarrow> x \<in> p_slug ` set ps)"
  by (auto simp: parent_exists_def image_row split: option.splits)

lemma find_slug_Inr: "find_slug x s = Inr p \<Longrightarrow> p \<in> set (projects s) \<and> p_slug p = x"
  by (auto simp: find_slug_def dest: row_find_Inr)

lemma find_slug_Inl: "find_slug x s = Inl e \<Longrightarrow> x \<notin> p_slug ` set (projects s)"
  by (auto simp: find_slug_def row_find_Inl)

text \<open>An update of one row that keeps slugs adds at most its new edge.\<close>

lemma slug_row_unique:
  assumes "db_ok s" and "p \<in> set (projects s)" and "q \<in> set (projects s)" and "p_slug p = p_slug q"
  shows "p = q"
  using assms by (auto simp: db_ok_def intro: slug_unique)

lemma tree_update_row:
  assumes ok: "db_ok s" and t: "tree_ok s" and p: "p \<in> set (projects s)" "p_slug p = slug"
    and f: "\<And>q. p_slug (f q) = p_slug q"
    and ex: "parent_exists (p_parent (f p)) (projects s)"
    and acyc: "acyclic (edges (projects s) \<union> {(x, slug) | x. p_parent (f p) = Some x})"
  shows "tree_ok (s\<lparr>projects := rows_update (\<lambda>q. p_slug q = slug) f (projects s)\<rparr>)"
proof -
  let ?ps = "projects s"
  let ?g = "\<lambda>q. if p_slug q = slug then f q else q"
  have upd: "rows_update (\<lambda>q. p_slug q = slug) f ?ps = map ?g ?ps" by (simp add: rows_update_def)
  have one: "q = p" if "q \<in> set ?ps" "p_slug q = slug" for q
    using slug_row_unique[OF ok that(1) p(1)] that(2) p(2) by simp
  have slugs: "p_slug ` set (map ?g ?ps) = p_slug ` set ?ps"
  proof -
    have "p_slug (?g q) = p_slug q" for q using f by simp
    then have "map p_slug (map ?g ?ps) = map p_slug ?ps" by simp
    then show ?thesis by (metis list.set_map)
  qed
  have sub: "edges (map ?g ?ps) \<subseteq> edges ?ps \<union> {(x, slug) | x. p_parent (f p) = Some x}"
  proof
    fix e assume "e \<in> edges (map ?g ?ps)"
    then obtain x y q where e: "e = (x, y)" "q \<in> set ?ps" "p_parent (?g q) = Some x" "p_slug (?g q) = y"
      by (cases e) (force simp: edges_def)
    show "e \<in> edges ?ps \<union> {(x, slug) | x. p_parent (f p) = Some x}"
    proof (cases "p_slug q = slug")
      case True
      with e one[of q] f[of p] p(2) show ?thesis by auto
    next
      case False
      with e show ?thesis by (auto simp: edges_def)
    qed
  qed
  have "acyclic (edges (map ?g ?ps))" using acyc sub acyclic_subset by blast
  moreover have "parent_exists (p_parent (?g q)) (map ?g ?ps)" if q: "q \<in> set ?ps" for q
  proof -
    have "parent_exists (p_parent (?g q)) ?ps"
      using one[OF q] ex t q by (auto simp: tree_ok_def)
    then show ?thesis unfolding parent_exists_iff slugs .
  qed
  then have "\<forall>r \<in> set (map ?g ?ps). parent_exists (p_parent r) (map ?g ?ps)" unfolding set_map by blast
  ultimately show ?thesis by (simp only: tree_ok_def db.select_convs db.update_convs upd) (simp add: upd)
qed

lemma update_project_Inr:
  assumes "update_project a s = Inr (p', t)"
  obtains p where "p \<in> set (projects s)" "p_slug p = pq_slug a" "p' = patched_project a (db_now s) p"
    "project_checks p'" "parent_exists (p_parent p') (projects s)"
    "t = s\<lparr>projects := rows_update (\<lambda>q. p_slug q = pq_slug a) (patched_project a (db_now s)) (projects s)\<rparr>"
proof -
  from assms obtain p where "find_slug (pq_slug a) s = Inr p"
    by (auto simp: update_project_def split: sum.splits)
  with assms find_slug_Inr[OF this] show thesis
    by (intro that[of p]) (auto simp: update_project_def Let_def split: if_splits)
qed

lemma keeps_update_project [tx_pres, intro]: "tx_keeps db_ok (update_project a)"
proof (rule tx_keepsI)
  fix s p' t assume ok: "db_ok s" and r: "update_project a s = Inr (p', t)"
  show "db_ok t"
  proof (rule update_project_Inr[OF r])
    fix p assume p: "p \<in> set (projects s)" "p_slug p = pq_slug a" "p' = patched_project a (db_now s) p" "project_checks p'"
      and t: "t = s\<lparr>projects := rows_update (\<lambda>q. p_slug q = pq_slug a) (patched_project a (db_now s)) (projects s)\<rparr>"
    show "db_ok t" unfolding t
    proof (rule update_projects_ok[OF ok])
      show "\<forall>q \<in> set (projects s). p_slug q = pq_slug a \<longrightarrow> project_checks (patched_project a (db_now s) q)"
        using slug_row_unique[OF ok _ p(1)] p by metis
    qed (simp add: patched_project_def)
  qed
qed

lemma update_tree:
  assumes f: "forest s" and r: "update_project a s = Inr (p', t)"
    and new: "\<And>x. pq_set_parent a \<Longrightarrow> pq_parent a = Some x \<Longrightarrow> (pq_slug a, x) \<notin> (edges (projects s))\<^sup>*"
  shows "forest t"
proof (rule update_project_Inr[OF r])
  fix p assume p: "p \<in> set (projects s)" "p_slug p = pq_slug a" "p' = patched_project a (db_now s) p"
      "parent_exists (p_parent p') (projects s)"
    and t: "t = s\<lparr>projects := rows_update (\<lambda>q. p_slug q = pq_slug a) (patched_project a (db_now s)) (projects s)\<rparr>"
  have ok: "db_ok s" and tr: "tree_ok s" using f by (auto simp: forest_def)
  have "db_ok t" using tx_keepsD[OF keeps_update_project r ok] .
  moreover have "tree_ok t" unfolding t
  proof (rule tree_update_row[OF ok tr p(1,2)])
    show "p_slug (patched_project a (db_now s) q) = p_slug q" for q by (simp add: patched_project_def)
    show "parent_exists (p_parent (patched_project a (db_now s) p)) (projects s)" using p(3,4) by simp
    let ?E = "edges (projects s)"
    show "acyclic (?E \<union> {(x, pq_slug a) | x. p_parent (patched_project a (db_now s) p) = Some x})"
    proof (cases "pq_set_parent a")
      case False
      then have "{(x, pq_slug a) | x. p_parent (patched_project a (db_now s) p) = Some x} \<subseteq> ?E"
        using p(1,2) by (auto simp: patched_project_def edges_def)
      then have "?E \<union> {(x, pq_slug a) | x. p_parent (patched_project a (db_now s) p) = Some x} = ?E" by blast
      then show ?thesis using tr by (simp add: tree_ok_def)
    next
      case True
      then have pa: "p_parent (patched_project a (db_now s) p) = pq_parent a" by (simp add: patched_project_def)
      show ?thesis
      proof (cases "pq_parent a")
        case None
        then show ?thesis using tr pa by (simp add: tree_ok_def)
      next
        case (Some y)
        have "p_parent p' = Some y" using pa Some p(3) by simp
        have "(pq_slug a, y) \<notin> ?E\<^sup>*" using new True Some by simp
        then have "acyclic (insert (y, pq_slug a) ?E)" using tr by (simp add: acyclic_insert tree_ok_def)
        moreover have "?E \<union> {(x, pq_slug a) | x. pq_parent a = Some x} = insert (y, pq_slug a) ?E" using Some by auto
        ultimately show ?thesis by (simp only: pa)
      qed
    qed
  qed
  ultimately show ?thesis by (simp add: forest_def)
qed

subsection \<open>Creating and deleting a project\<close>

lemma create_project_Inr:
  assumes "create_project a s = Inr (p, t)"
  shows "p_slug p = pp_slug a" and "p_parent p = pp_parent a" and "p_item_seq p = 0" and "project_checks p"
    and "\<forall>q \<in> set (projects s). p_id q \<noteq> p_id p \<and> p_slug q \<noteq> p_slug p"
    and "parent_exists (p_parent p) (projects s @ [p])"
    and "t = s\<lparr>db_drawn := db_drawn s + 1, projects := projects s @ [p]\<rparr>"
  using assms by (auto simp: create_project_def tx_simps Let_def split: if_splits)

lemma keeps_create_project [tx_pres, intro]: "tx_keeps db_ok (create_project a)"
proof (rule tx_keepsI)
  fix s p t assume ok: "db_ok s" and r: "create_project a s = Inr (p, t)"
  note c = create_project_Inr[OF r]
  have pok: "projects_ok (projects s)" and iok: "items_ok s" and aok: "activities_ok s" and lok: "links_ok s"
    using ok by (auto simp: db_ok_def)
  have t: "projects t = projects s @ [p]" "items t = items s" "activities t = activities s"
    "item_links t = item_links s" "item_refs t = item_refs s" by (simp_all add: c(7))
  have "projects_ok (projects t)" using pok c(3-5) by (auto simp: projects_ok_def t)
  moreover have "items_ok t" using iok by (fastforce simp: items_ok_def item_ok_def t)
  moreover have "activities_ok t" "links_ok t" using dependents_ok[OF aok lok, of t] by (auto simp: t)
  ultimately show "db_ok t" by (simp add: db_ok_def)
qed

lemma create_tree:
  assumes f: "forest s" and r: "create_project a s = Inr (p, t)" and ns: "pp_parent a \<noteq> Some (pp_slug a)"
  shows "forest t"
proof -
  note c = create_project_Inr[OF r]
  have ok: "db_ok s" and tr: "tree_ok s" using f by (auto simp: forest_def)
  have "db_ok t" using tx_keepsD[OF keeps_create_project r ok] .
  let ?E = "edges (projects s)"
  have new: "p_slug p \<notin> p_slug ` set (projects s)" using c(5) by auto
  then have "p_slug p \<notin> Domain ?E" using tr by (auto simp: tree_ok_def edges_def parent_exists_iff)
  then have reach: "(p_slug p, x) \<in> ?E\<^sup>* \<Longrightarrow> x = p_slug p" for x
    by (metis DomainI converse_rtranclE)
  have E: "edges (projects t) = ?E \<union> {(x, p_slug p) | x. p_parent p = Some x}"
    by (auto simp: c(7) edges_def)
  have "acyclic (edges (projects t))"
  proof (cases "p_parent p")
    case None
    then show ?thesis using tr by (simp add: E tree_ok_def)
  next
    case (Some y)
    then have "edges (projects t) = insert (y, p_slug p) ?E" using E by auto
    moreover have "(p_slug p, y) \<notin> ?E\<^sup>*" using reach Some c(1,2) ns by auto
    ultimately show ?thesis using tr by (simp add: acyclic_insert tree_ok_def)
  qed
  moreover have "\<forall>q \<in> set (projects t). parent_exists (p_parent q) (projects t)"
    using tr c(6) by (auto simp: c(7) tree_ok_def parent_exists_iff)
  ultimately show ?thesis using \<open>db_ok t\<close> by (simp add: forest_def tree_ok_def)
qed

lemma delete_project_Inr:
  assumes "delete_project slug s = Inr (p, t)"
  shows "p \<in> set (projects s)" and "p_slug p = slug"
    and "projects t = rows_update (\<lambda>q. p_parent q = Some slug) (\<lambda>q. q\<lparr>p_parent := None\<rparr>)
           (filter (\<lambda>q. p_slug q \<noteq> slug) (projects s))"
    and "items t = filter (\<lambda>i. i_project i \<noteq> p_id p) (items s)"
    and "activities t = rows_update (\<lambda>a. case a_item a of None \<Rightarrow> False | Some x \<Rightarrow> x \<in> i_id ` {i \<in> set (items s). i_project i = p_id p})
           (\<lambda>a. a\<lparr>a_item := None\<rparr>) (filter (\<lambda>a. a_project a \<noteq> p_id p) (activities s))"
    and "item_links t = filter (\<lambda>l. l_from l \<notin> i_id ` {i \<in> set (items s). i_project i = p_id p}
           \<and> l_to l \<notin> i_id ` {i \<in> set (items s). i_project i = p_id p}) (item_links s)"
    and "item_refs t = filter (\<lambda>r. r_item r \<notin> i_id ` {i \<in> set (items s). i_project i = p_id p}) (item_refs s)"
proof -
  from assms obtain q where q: "find_slug slug s = Inr q"
    by (auto simp: delete_project_def split: sum.splits)
  with assms have "q = p" by (auto simp: delete_project_def Let_def)
  with find_slug_Inr[OF q] show "p \<in> set (projects s)" "p_slug p = slug" by auto
  from assms q \<open>q = p\<close> show
    "projects t = rows_update (\<lambda>q. p_parent q = Some slug) (\<lambda>q. q\<lparr>p_parent := None\<rparr>)
           (filter (\<lambda>q. p_slug q \<noteq> slug) (projects s))"
    "items t = filter (\<lambda>i. i_project i \<noteq> p_id p) (items s)"
    "activities t = rows_update (\<lambda>a. case a_item a of None \<Rightarrow> False | Some x \<Rightarrow> x \<in> i_id ` {i \<in> set (items s). i_project i = p_id p})
           (\<lambda>a. a\<lparr>a_item := None\<rparr>) (filter (\<lambda>a. a_project a \<noteq> p_id p) (activities s))"
    "item_links t = filter (\<lambda>l. l_from l \<notin> i_id ` {i \<in> set (items s). i_project i = p_id p}
           \<and> l_to l \<notin> i_id ` {i \<in> set (items s). i_project i = p_id p}) (item_links s)"
    "item_refs t = filter (\<lambda>r. r_item r \<notin> i_id ` {i \<in> set (items s). i_project i = p_id p}) (item_refs s)"
    by (auto simp: delete_project_def Let_def)
qed

definition clear_parent :: "string \<Rightarrow> project \<Rightarrow> project" where
  "clear_parent slug q = (if p_parent q = Some slug then q\<lparr>p_parent := None\<rparr> else q)"

lemma clear_parent_simps [simp]:
  "p_id (clear_parent sl q) = p_id q" "p_slug (clear_parent sl q) = p_slug q"
  "p_item_seq (clear_parent sl q) = p_item_seq q" "p_status (clear_parent sl q) = p_status q"
  "p_parent (clear_parent sl q) = (if p_parent q = Some sl then None else p_parent q)"
  by (simp_all add: clear_parent_def)

lemma delete_forest:
  assumes f: "forest s" and r: "delete_project slug s = Inr (p, t)"
  shows "forest t"
proof -
  note d = delete_project_Inr[OF r]
  have ok: "db_ok s" and tr: "tree_ok s" using f by (auto simp: forest_def)
  have pok: "projects_ok (projects s)" and iok: "items_ok s" and aok: "activities_ok s" and lok: "links_ok s"
    using ok by (auto simp: db_ok_def)
  let ?ps = "filter (\<lambda>q. p_slug q \<noteq> slug) (projects s)"
  have pt: "projects t = map (clear_parent slug) ?ps"
    unfolding d(3) rows_update_def clear_parent_def[abs_def] by simp
  have ids: "p_id q \<noteq> p_id p \<longleftrightarrow> p_slug q \<noteq> slug" if "q \<in> set (projects s)" for q
    using project_unique[OF pok that d(1)] slug_unique[OF pok that d(1)] d(2) by auto
  have maps: "map p_id (projects t) = map p_id ?ps" "map p_slug (projects t) = map p_slug ?ps"
    by (simp_all add: pt comp_def)
  have "project_checks (clear_parent slug q)" if "project_checks q" for q
    using that by (auto simp: project_checks_def clear_parent_def)
  then have P: "projects_ok (projects t)"
    unfolding projects_ok_def maps using pok by (auto simp: projects_ok_def distinct_map_filter pt)
  have keep: "clear_parent slug q \<in> set (projects t)" if "q \<in> set (projects s)" "p_id q \<noteq> p_id p" for q
    using that ids[OF that(1)] by (auto simp: pt)
  have "item_ok t i" if i: "i \<in> set (items s)" "i_project i \<noteq> p_id p" for i
  proof -
    from iok i(1) have io: "item_ok s i" by (simp add: items_ok_def)
    then obtain q where q: "q \<in> set (projects s)" "p_id q = i_project i" "1 \<le> i_seq i" "i_seq i \<le> p_item_seq q"
        "i_ref i = item_ref_of (p_slug q) (i_seq i)" by (auto simp: item_ok_def)
    have "clear_parent slug q \<in> set (projects t)" using keep[OF q(1)] q(2) i(2) by simp
    then show ?thesis using io q by (auto simp: item_ok_def intro!: bexI[of _ "clear_parent slug q"])
  qed
  then have I: "items_ok t"
    using iok by (auto simp: items_ok_def d(4) distinct_map_filter keys_ok_def)
  have it: "i_id ` set (items t) = i_id ` set (items s) - i_id ` {i \<in> set (items s). i_project i = p_id p}"
  proof -
    have "inj_on i_id (set (items s))" using iok by (simp add: items_ok_def distinct_map)
    then show ?thesis by (auto simp: d(4) inj_on_def)
  qed
  have pj: "p_id ` set (projects t) = p_id ` set (projects s) - {p_id p}"
    using ids by (auto simp: pt image_iff)
  let ?g = "\<lambda>a. if (case a_item a of None \<Rightarrow> False | Some x \<Rightarrow> x \<in> i_id ` {i \<in> set (items s). i_project i = p_id p})
      then a\<lparr>a_item := None\<rparr> else a"
  have at: "activities t = map ?g (filter (\<lambda>a. a_project a \<noteq> p_id p) (activities s))"
    by (simp add: d(5) rows_update_def)
  have ga: "a_id (?g a) = a_id a" "activity_checks (?g a) = activity_checks a" "a_project (?g a) = a_project a" for a
    by (simp_all add: activity_checks_def)
  have A: "activities_ok t"
  proof -
    have m: "map a_id (activities t) = map a_id (filter (\<lambda>a. a_project a \<noteq> p_id p) (activities s))"
      unfolding at map_map by (rule map_cong[OF refl]) (simp only: comp_apply ga)
    have dm: "distinct (map a_id (filter (\<lambda>a. a_project a \<noteq> p_id p) (activities s)))"
      using aok by (simp add: activities_ok_def distinct_map_filter)
    have each: "activity_checks (?g a) \<and> activity_fk t (?g a)"
      if a: "a \<in> set (activities s)" "a_project a \<noteq> p_id p" for a
    proof -
      have ac: "activity_checks a" "activity_fk s a" using aok a(1) by (auto simp: activities_ok_def)
      then have "a_project (?g a) \<in> p_id ` set (projects t)" using a(2) by (simp add: ga pj activity_fk_iff)
      moreover have "x \<in> i_id ` set (items t)" if "a_item (?g a) = Some x" for x
        using that ac(2) by (auto simp: it activity_fk_iff split: if_splits)
      ultimately show ?thesis using ac(1) by (simp only: ga activity_fk_iff) blast
    qed
    have "\<forall>b \<in> set (activities t). activity_checks b \<and> activity_fk t b"
    proof
      fix b assume "b \<in> set (activities t)"
      then obtain a where a: "a \<in> set (filter (\<lambda>a. a_project a \<noteq> p_id p) (activities s))" "b = ?g a"
        unfolding at set_map by (rule imageE)
      from a(1) have "a \<in> set (activities s)" "a_project a \<noteq> p_id p" by simp_all
      then show "activity_checks b \<and> activity_fk t b" unfolding a(2) by (rule each)
    qed
    then show ?thesis unfolding activities_ok_def m using dm by (intro conjI)
  qed
  have L: "links_ok t"
    using lok by (auto simp: links_ok_def link_ok_def d(6,7) it distinct_map_filter)
  have "edges (projects t) \<subseteq> edges (projects s)" by (auto simp: edges_def pt split: if_splits)
  then have "acyclic (edges (projects t))" using tr acyclic_subset by (auto simp: tree_ok_def)
  moreover have "parent_exists (p_parent (clear_parent slug q)) (projects t)" if "q \<in> set ?ps" for q
  proof -
    have "parent_exists (p_parent q) (projects s)" using tr that by (simp add: tree_ok_def)
    moreover have "p_slug ` set (projects t) = p_slug ` set (projects s) - {slug}"
      by (auto simp: pt image_iff)
    ultimately show ?thesis by (auto simp: parent_exists_iff)
  qed
  then have "\<forall>q \<in> set (projects t). parent_exists (p_parent q) (projects t)" by (auto simp: pt)
  ultimately show ?thesis using P I A L by (simp add: forest_def db_ok_def tree_ok_def)
qed

subsection \<open>Histories of the tree\<close>

datatype pop =
    PCreate project_params "string option" gtime
  | PPatch project_patch "string option" gtime
  | PArchive string gtime
  | PPurge bool string gtime

fun pstep :: "db \<Rightarrow> pop \<Rightarrow> db" where
  "pstep s (PCreate a req t) = snd (create_with_parent a req t s)"
| "pstep s (PPatch a req t) = snd (patch_with_parent a req t s)"
| "pstep s (PArchive slug t) = snd (archive_project slug t s)"
| "pstep s (PPurge b slug t) = snd (purge_project b slug t s)"

lemma forest_now [simp]: "forest (s\<lparr>db_now := t\<rparr>) = forest s"
  by (simp add: forest_def tree_ok_def)

lemma with_tx_forest:
  assumes "forest s" and "\<And>x t. m (s\<lparr>db_now := now\<rparr>) = Inr (x, t) \<Longrightarrow> forest t"
  shows "forest (snd (with_tx now m s))"
  using assms by (auto simp: with_tx_def split: sum.splits)

lemma check_parent_Inr:
  assumes "check_parent slug req s = Inr (Some x)"
  shows "x \<noteq> slug" and "x \<notin> set (project_descendants slug s)" and "x \<in> p_slug ` set (projects s)"
proof -
  from assms obtain pa where pa: "req = Some pa" "validate_project_parent slug pa s = None" "trim_space pa = x" "x \<noteq> []"
    by (auto simp: check_parent_def split: option.splits if_splits)
  then obtain p where p: "find_slug x s = Inr p" and r: "x \<noteq> slug" "x \<notin> set (project_descendants slug s)"
    by (auto simp: validate_project_parent_def Let_def split: sum.splits if_splits)
  from r show "x \<noteq> slug" "x \<notin> set (project_descendants slug s)" by auto
  from find_slug_Inr[OF p] show "x \<in> p_slug ` set (projects s)" by auto
qed

lemma pstep_forest:
  assumes f: "forest s"
  shows "forest (pstep s e)"
proof (cases e)
  case (PCreate a req t)
  show ?thesis
  proof (cases "check_parent (pp_slug a) req s")
    case (Inl err)
    then show ?thesis using f by (simp add: PCreate create_with_parent_def)
  next
    case (Inr pa)
    have np: "pa \<noteq> Some (pp_slug a)" using check_parent_Inr(1)[of "pp_slug a" req s] Inr by auto
    have "forest (snd (with_tx t (create_project (a\<lparr>pp_parent := pa\<rparr>)) s))"
    proof (rule with_tx_forest[OF f])
      fix x u assume u: "create_project (a\<lparr>pp_parent := pa\<rparr>) (s\<lparr>db_now := t\<rparr>) = Inr (x, u)"
      show "forest u" by (rule create_tree[OF _ u]) (use f np in simp_all)
    qed
    then show ?thesis by (simp add: PCreate create_with_parent_def Inr)
  qed
next
  case (PPatch a req t)
  show ?thesis
  proof (cases "check_parent (pq_slug a) req s")
    case (Inl err)
    then show ?thesis using f by (simp add: PPatch patch_with_parent_def)
  next
    case (Inr pa)
    let ?a = "a\<lparr>pq_set_parent := req \<noteq> None, pq_parent := pa\<rparr>"
    have "forest (snd (with_tx t (update_project ?a) s))"
    proof (rule with_tx_forest[OF f])
      fix x u assume u: "update_project ?a (s\<lparr>db_now := t\<rparr>) = Inr (x, u)"
      have ex: "\<exists>p \<in> set (projects s). p_slug p = pq_slug a"
        by (rule update_project_Inr[OF u]) auto
      show "forest u"
      proof (rule update_tree[OF _ u])
        show "forest (s\<lparr>db_now := t\<rparr>)" using f by simp
        fix y assume "pq_parent ?a = Some y"
        then have "y \<notin> set (project_descendants (pq_slug a) s)" using check_parent_Inr(2) Inr by auto
        then show "(pq_slug ?a, y) \<notin> (edges (projects (s\<lparr>db_now := t\<rparr>)))\<^sup>*"
          using ex by (auto simp: project_descendants_set)
      qed
    qed
    then show ?thesis by (simp add: PPatch patch_with_parent_def Inr)
  qed
next
  case (PArchive slug t)
  have "forest (snd (archive_project slug t s))" unfolding archive_project_def
  proof (rule with_tx_forest[OF f])
    fix x u assume u: "update_project ((no_patch slug)\<lparr>pq_status := Some ''archived''\<rparr>) (s\<lparr>db_now := t\<rparr>) = Inr (x, u)"
    show "forest u" by (rule update_tree[OF _ u]) (use f in \<open>simp_all add: no_patch_def\<close>)
  qed
  then show ?thesis by (simp add: PArchive)
next
  case (PPurge b slug t)
  have "forest (snd (with_tx t (delete_project slug) s))"
  proof (rule with_tx_forest[OF f])
    fix x u assume u: "delete_project slug (s\<lparr>db_now := t\<rparr>) = Inr (x, u)"
    show "forest u" by (rule delete_forest[OF _ u]) (use f in simp)
  qed
  then show ?thesis using f
    by (auto simp: PPurge purge_project_def Let_def split: sum.splits prod.splits)
qed

interpretation tree: machine pstep forest
  by unfold_locales (rule pstep_forest)

subsection \<open>Properties\<close>

text \<open>The recursive query for descendants, with as many rounds as there are projects, yields exactly the
  slugs reachable from an existing root by parent edges (the root included), cycle or not.\<close>

theorem descendants_exact:
  "set (project_descendants slug s)
    = (if \<exists>p \<in> set (projects s). p_slug p = slug then (edges (projects s))\<^sup>* `` {slug} else {})"
  by (rule project_descendants_set)


text \<open>A purge is a second, deliberate act: it is refused without any effect unless the project is
  archived and has no children; then exactly the project, its items and its activity go, and every
  other project, with its place in the tree and its items, is left as it was.\<close>

theorem purge_guarded:
  assumes "purge_project blobs slug now s = (r, s')"
  shows "case r of Inl e \<Rightarrow> s' = s
    | Inr ((ni, na, nk), keys) \<Rightarrow> \<exists>p \<in> set (projects s). p_slug p = slug \<and> p_status p = ''archived''
        \<and> (\<forall>q \<in> set (projects s). p_parent q \<noteq> Some slug)
        \<and> projects s' = filter (\<lambda>q. p_slug q \<noteq> slug) (projects s)
        \<and> items s' = filter (\<lambda>i. i_project i \<noteq> p_id p) (items s)
        \<and> map a_id (activities s') = map a_id (filter (\<lambda>a. a_project a \<noteq> p_id p) (activities s))
        \<and> ni = length (filter (\<lambda>i. i_project i = p_id p) (items s))
        \<and> na = length (filter (\<lambda>a. a_project a = p_id p) (activities s)) \<and> nk = length keys"
proof (cases r)
  case (Inl e)
  then show ?thesis using assms
    by (auto simp: purge_project_def Let_def with_tx_def split: sum.splits if_splits prod.splits)
next
  case (Inr x)
  from assms Inr obtain p where p: "find_slug slug s = Inr p" by (auto simp: purge_project_def split: sum.splits)
  with assms Inr have st: "p_status p = ''archived''" and ch: "filter (\<lambda>q. p_parent q = Some slug) (projects s) = []"
    by (auto simp: purge_project_def split: if_splits)
  let ?k = "if blobs then list_attachment_keys_for_project (p_id p) s else []"
  from assms Inr p st ch obtain q where d: "delete_project slug (s\<lparr>db_now := now\<rparr>) = Inr (q, s')"
    and x: "x = ((fst (count_project_contents (p_id p) s), snd (count_project_contents (p_id p) s), length ?k), ?k)"
    by (auto simp: purge_project_def Let_def with_tx_def split: sum.splits prod.splits)
  note dd = delete_project_Inr[OF d]
  have "q = p" using d p by (auto simp: delete_project_def Let_def find_slug_def)
  have nc: "\<forall>c \<in> set (projects s). p_parent c \<noteq> Some slug" using ch by (simp add: filter_empty_conv)
  have "projects s' = filter (\<lambda>c. p_slug c \<noteq> slug) (projects s)"
    using dd(3) nc by (simp add: rows_update_none)
  moreover have "items s' = filter (\<lambda>i. i_project i \<noteq> p_id p) (items s)" using dd(4) \<open>q = p\<close> by simp
  moreover have "map a_id (activities s') = map a_id (filter (\<lambda>a. a_project a \<noteq> p_id p) (activities s))"
    using dd(5) \<open>q = p\<close> by (simp add: rows_update_keys)
  ultimately show ?thesis using find_slug_Inr[OF p] st nc x Inr
    by (simp add: count_project_contents_def) blast
qed

lemma parent_exists_rows_update:
  assumes "\<And>q. p_slug (f q) = p_slug q"
  shows "parent_exists pa (rows_update P f ps) = parent_exists pa ps"
proof -
  have "map p_slug (rows_update P f ps) = map p_slug ps" by (rule rows_update_keys) (simp add: assms)
  then have "p_slug ` set (rows_update P f ps) = p_slug ` set ps" by (metis set_map)
  then show ?thesis by (simp only: parent_exists_iff)
qed

lemma set_status_effect:
  assumes f: "find_slug slug s = Inr p" and pe: "parent_exists (p_parent p) (projects s)"
    and chk: "project_checks (p\<lparr>p_status := st, p_updated_at := t\<rparr>)"
  shows "with_tx t (update_project ((no_patch slug)\<lparr>pq_status := Some st\<rparr>)) s
    = (Inr (p\<lparr>p_status := st, p_updated_at := t\<rparr>),
       s\<lparr>db_now := t, projects := rows_update (\<lambda>q. p_slug q = slug) (\<lambda>q. q\<lparr>p_status := st, p_updated_at := t\<rparr>) (projects s)\<rparr>)"
proof -
  define a where "a = (no_patch slug)\<lparr>pq_status := Some st\<rparr>"
  have sl: "pq_slug a = slug" by (simp add: a_def no_patch_def)
  have pt: "patched_project a t = (\<lambda>q. q\<lparr>p_status := st, p_updated_at := t\<rparr>)"
    by (rule ext) (simp add: a_def patched_project_def no_patch_def)
  have fs: "find_slug slug (s\<lparr>db_now := t\<rparr>) = Inr p" using f by (simp add: find_slug_def)
  show ?thesis unfolding a_def[symmetric]
    using fs pe chk by (simp add: with_tx_def update_project_def Let_def sl pt)
qed

text \<open>Archiving destroys nothing and is reversible: it changes the status and the update time of one
  row, and setting the status back restores that row.\<close>

theorem archive_reversible:
  assumes "forest s" and "find_slug slug s = Inr p"
  shows "\<exists>p1 s1. archive_project slug t1 s = (Inr p1, s1) \<and> p_status p1 = ''archived''
    \<and> items s1 = items s \<and> activities s1 = activities s \<and> item_links s1 = item_links s \<and> attachments s1 = attachments s
    \<and> fst (with_tx t2 (update_project ((no_patch slug)\<lparr>pq_status := Some (p_status p)\<rparr>)) s1)
        = Inr (p\<lparr>p_updated_at := t2\<rparr>)"
proof -
  have pm: "p \<in> set (projects s)" "p_slug p = slug" using find_slug_Inr[OF assms(2)] by auto
  have ok: "db_ok s" and tr: "tree_ok s" using assms(1) by (auto simp: forest_def)
  have chk: "project_checks p" using ok pm by (simp add: db_ok_def projects_ok_def)
  have pe: "parent_exists (p_parent p) (projects s)" using tr pm by (simp add: tree_ok_def)
  define f :: "project \<Rightarrow> project" where "f = (\<lambda>q. q\<lparr>p_status := ''archived'', p_updated_at := t1\<rparr>)"
  define s1 where "s1 = s\<lparr>db_now := t1, projects := rows_update (\<lambda>q. p_slug q = slug) f (projects s)\<rparr>"
  have slugs: "p_slug (f q) = p_slug q" for q by (simp add: f_def)
  have a: "archive_project slug t1 s = (Inr (f p), s1)" unfolding archive_project_def s1_def f_def
    by (rule set_status_effect[OF assms(2) pe]) (use chk in \<open>simp add: project_checks_def project_statuses_def\<close>)
  have fs: "find_slug slug s1 = Inr (f p)"
    using row_find_rows_update[of p_slug f slug "projects s", OF slugs] assms(2) by (simp add: find_slug_def s1_def)
  have pe1: "parent_exists (p_parent (f p)) (projects s1)"
    using pe by (simp add: s1_def parent_exists_rows_update[OF slugs]) (simp add: f_def)
  have "fst (with_tx t2 (update_project ((no_patch slug)\<lparr>pq_status := Some (p_status p)\<rparr>)) s1)
      = Inr ((f p)\<lparr>p_status := p_status p, p_updated_at := t2\<rparr>)"
    by (subst set_status_effect[OF fs pe1]) (use chk in \<open>simp_all add: f_def project_checks_def\<close>)
  moreover have "(f p)\<lparr>p_status := p_status p, p_updated_at := t2\<rparr> = p\<lparr>p_updated_at := t2\<rparr>" by (simp add: f_def)
  ultimately show ?thesis by (intro exI[of _ "f p"] exI[of _ s1]) (simp add: a s1_def f_def)
qed

subsection \<open>A concrete forest\<close>

definition tree_project :: "uuid \<Rightarrow> string \<Rightarrow> string \<Rightarrow> string option \<Rightarrow> project" where
  "tree_project u slug st pa = \<lparr>p_id = u, p_slug = slug, p_name = slug, p_status = st, p_summary = [], p_repo_url = None,
     p_site_url = None, p_created_at = 0, p_updated_at = 0, p_instructions = [], p_item_seq = 0, p_aliases = [], p_parent = pa\<rparr>"

definition tree_db :: db where
  "tree_db = empty_db\<lparr>projects := [tree_project 1 ''a'' ''active'' None, tree_project 2 ''b'' ''archived'' (Some ''a'')], db_drawn := 10\<rparr>"

lemma tree_db_forest: "forest tree_db"
proof -
  have "edges (projects tree_db) = {(''a'', ''b'')}"
    by (auto simp: edges_def tree_db_def tree_project_def)
  then have "acyclic (edges (projects tree_db))" by (simp add: acyclic_def trancl_insert)
  moreover have "db_ok tree_db"
    by (simp add: db_ok_def tree_db_def empty_db_def projects_ok_def items_ok_def activities_ok_def links_ok_def keys_ok_def
        tree_project_def project_checks_def project_statuses_def)
  ultimately show ?thesis by (simp add: forest_def tree_ok_def) (simp add: tree_db_def tree_project_def parent_exists_def)
qed


lemma purge_guarded_witness:
  "items (snd (purge_project False ''b'' 6 tree_db)) = [] \<and> fst (purge_project False ''b'' 6 tree_db) = Inr ((0, 0, 0), [])"
proof -
  have r: "fst (purge_project False ''b'' 6 tree_db) = Inr ((0, 0, 0), [])" by code_simp
  have e: "items tree_db = []" by code_simp
  show ?thesis
    using purge_guarded[OF prod.collapse[symmetric], of False "''b''" 6 tree_db] unfolding r e by auto
qed

lemma archive_reversible_witness:
  "\<exists>p1 s1. archive_project ''a'' 5 tree_db = (Inr p1, s1) \<and> p_status p1 = ''archived''"
  using archive_reversible[OF tree_db_forest, of "''a''" "tree_project 1 ''a'' ''active'' None" 5 6]
  by (auto simp: find_slug_def tree_db_def tree_project_def)

end
