(* ===== verification/Sync_Properties.thy ===== *)
theory Sync_Properties
  imports Sync_Merge Project_Tree
begin

text \<open>
  The guarantees of a pass of the sync engine: what a straight application stores and records, why it is
  not echoed, that an outbound pass leaves nothing to send, that only settled messages are acknowledged;
  and three places where the engine does not do what its comments say.
\<close>

subsection \<open>The upsert of an item\<close>

definition normal :: "item_payload \<Rightarrow> item_payload" where
  "normal p = p\<lparr>ip_metadata := Some (or_empty_json (ip_metadata p)), ip_criteria := Some (or_empty_json_array (ip_criteria p))\<rparr>"

lemma assign_ref_shape:
  assumes "assign_item_ref n s = Inr (n', s1)"
  shows "n' = n\<lparr>i_seq := i_seq n', i_ref := i_ref n'\<rparr>" and "s1 = s\<lparr>projects := projects s1\<rparr>"
  using assms by (auto elim!: assign_item_ref_Inr)

lemma item_find_update:
  assumes "\<And>r. i_id (f r) = i_id r" and "items t = rows_update (\<lambda>r. i_id r = x) f (items s)"
  shows "get_item_for_sync j t = (if j = x then (case get_item_for_sync x s of Inl e \<Rightarrow> Inl e | Inr r \<Rightarrow> Inr (f r))
    else get_item_for_sync j s)"
  using row_find_rows_update[of i_id f x "items s", OF assms(1)] row_find_rows_update_other[of i_id f x j "items s", OF assms(1)]
  by (simp add: get_item_for_sync_def assms(2))

lemma item_find_append:
  assumes "get_item_for_sync (i_id n) s = Inl NoRows" and "items t = items s @ [n]"
  shows "get_item_for_sync j t = (if j = i_id n then Inr n else get_item_for_sync j s)"
proof (cases "get_item_for_sync j s")
  case (Inl e)
  then have "e = NoRows" by (simp add: get_item_for_sync_def row_find_Inl)
  with Inl assms show ?thesis by (simp add: get_item_for_sync_def row_find_append)
next
  case (Inr r)
  with assms(1) have "j \<noteq> i_id n" by auto
  with Inr assms show ?thesis by (simp add: get_item_for_sync_def row_find_append)
qed

text \<open>What the row of the upsert is: the old row with the fields offered, or the row offered with its ref.\<close>

lemma upsert_row:
  assumes "upsert_synced_item n s = Inr (i, t)"
  obtains n' where "n' = n\<lparr>i_seq := i_seq n', i_ref := i_ref n'\<rparr>" "share_states t = share_states s" "shares t = shares s"
    "activities t = activities s"
    "\<And>j. j \<noteq> i_id n \<Longrightarrow> get_item_for_sync j t = get_item_for_sync j s" "get_item_for_sync (i_id n) t = Inr i"
    "case get_item_for_sync (i_id n) s of Inr r \<Rightarrow> i = synced_fields n' (db_now s) r | Inl _ \<Rightarrow> i = n'"
proof -
  obtain n' s1 where a: "assign_item_ref n s = Inr (n', s1)"
    and b: "if has_row (\<lambda>r. i_id r = i_id n) (items s1)
     then update_item_where (\<lambda>r. i_id r = i_id n) (synced_fields n' (db_now s1)) s1 = Inr (i, t)
     else append_item n' s1 = Inr (i, t)"
    using assms by (rule upsert_item_cases)
  note sh = assign_ref_shape[OF a]
  have s1: "items s1 = items s" "share_states s1 = share_states s" "shares s1 = shares s" "db_now s1 = db_now s"
    "activities s1 = activities s"
    by (subst sh(2), simp)+
  have nid: "i_id n' = i_id n" by (subst sh(1)) simp
  show thesis
  proof (cases "has_row (\<lambda>r. i_id r = i_id n) (items s)")
    case True
    then have "update_item_where (\<lambda>r. i_id r = i_id n) (synced_fields n' (db_now s)) s1 = Inr (i, t)" using b by (simp add: s1)
    then obtain r where r: "row_find (\<lambda>r. i_id r = i_id n) (items s) = Inr r" "i = synced_fields n' (db_now s) r"
      and t: "t = s1\<lparr>items := rows_update (\<lambda>r. i_id r = i_id n) (synced_fields n' (db_now s)) (items s)\<rparr>"
      by (auto elim!: update_item_where_Inr simp: s1)
    have k: "i_id (synced_fields n' (db_now s) q) = i_id q" for q by (simp add: synced_fields_def)
    have it: "items t = rows_update (\<lambda>r. i_id r = i_id n) (synced_fields n' (db_now s)) (items s)" by (simp add: t)
    note fnd = item_find_update[OF k it]
    have g: "get_item_for_sync (i_id n) s = Inr r" using r(1) by (simp add: get_item_for_sync_def)
    show thesis
      by (rule that[OF sh(1)]) (use fnd g r(2) s1 in \<open>simp_all add: t\<close>)
  next
    case False
    then have "append_item n' s1 = Inr (i, t)" using b by (simp only: s1 if_False)
    then have i: "i = n'" and t: "t = s1\<lparr>items := items s @ [n']\<rparr>"
      by (auto simp: append_item_def s1 split: if_splits)
    have none: "get_item_for_sync (i_id n') s = Inl NoRows"
      using False by (auto simp: get_item_for_sync_def row_find_Inl nid)
    have it: "items t = items s @ [n']" by (simp add: t)
    note fnd = item_find_append[OF none it]
    show thesis
      by (rule that[OF sh(1)]) (use fnd none i nid s1 in \<open>simp_all add: t\<close>)
  qed
qed

text \<open>The same, for the payload offered.\<close>

lemma upsert_payload:
  assumes "upsert_synced_item (upsert_params pr x p) s = Inr (i, t)" and "k_uuid c x = ip_id p"
  shows "get_item_for_sync x t = Inr i"
    and "item_payload_of c i = (normal p)\<lparr>ip_created_at :=
           (case get_item_for_sync x s of Inr r \<Rightarrow> i_created_at r | Inl _ \<Rightarrow> ip_created_at p)\<rparr>"
    and "i_project i = (case get_item_for_sync x s of Inr r \<Rightarrow> i_project r | Inl _ \<Rightarrow> pr)"
    and "share_states t = share_states s" and "shares t = shares s" and "activities t = activities s"
    and "\<And>j. j \<noteq> x \<Longrightarrow> get_item_for_sync j t = get_item_for_sync j s"
proof -
  let ?n = "upsert_params pr x p"
  have nx: "i_id ?n = x" by (simp add: upsert_params_def)
  obtain n' where n': "n' = ?n\<lparr>i_seq := i_seq n', i_ref := i_ref n'\<rparr>" and st: "share_states t = share_states s" "shares t = shares s"
      "activities t = activities s"
    and other: "\<And>j. j \<noteq> x \<Longrightarrow> get_item_for_sync j t = get_item_for_sync j s" and g: "get_item_for_sync x t = Inr i"
    and i: "case get_item_for_sync x s of Inr r \<Rightarrow> i = synced_fields n' (db_now s) r | Inl _ \<Rightarrow> i = n'"
    by (rule upsert_row[OF assms(1), unfolded nx]) (rule that)
  show "get_item_for_sync x t = Inr i" "share_states t = share_states s" "shares t = shares s" "activities t = activities s" by fact+
  show "j \<noteq> x \<Longrightarrow> get_item_for_sync j t = get_item_for_sync j s" for j by (rule other)
  have id: "i_id i = x" using g by (auto simp: get_item_for_sync_def dest: row_find_Inr)
  define q u where "q = i_seq n'" and "u = i_ref n'"
  have n'': "n' = ?n\<lparr>i_seq := q, i_ref := u\<rparr>" using n' by (simp add: q_def u_def)
  show "item_payload_of c i = (normal p)\<lparr>ip_created_at :=
           (case get_item_for_sync x s of Inr r \<Rightarrow> i_created_at r | Inl _ \<Rightarrow> ip_created_at p)\<rparr>"
    using i id assms(2)
    by (cases "get_item_for_sync x s")
      (simp_all add: n'' upsert_params_def synced_fields_def item_payload_of_def normal_def)
  show "i_project i = (case get_item_for_sync x s of Inr r \<Rightarrow> i_project r | Inl _ \<Rightarrow> pr)"
    using i by (cases "get_item_for_sync x s") (simp_all add: n'' upsert_params_def synced_fields_def)
qed

lemma stmt_Inr: "stmt m s = (Inr x, s') \<longleftrightarrow> m s = Inr (x, s')"
  by (auto simp: stmt_def split: sum.splits)

lemma act_bind_Inr: "act_bind m k s = (Inr y, s') \<longleftrightarrow> (\<exists>x t. m s = (Inr x, t) \<and> k x t = (Inr y, s'))"
  by (auto simp: act_bind_def split: prod.splits sum.splits)

lemma save_item_Inr:
  assumes "save_item c sh x merged p s = (Inr u, s')" and "k_uuid c x = ip_id p"
  obtains i st where "get_item_for_sync x s' = Inr i"
    "item_payload_of c i = (normal p)\<lparr>ip_created_at :=
           (case get_item_for_sync x s of Inr r \<Rightarrow> i_created_at r | Inl _ \<Rightarrow> ip_created_at p)\<rparr>"
    "i_project i = (case get_item_for_sync x s of Inr r \<Rightarrow> i_project r | Inl _ \<Rightarrow> s_project sh)"
    "get_share_state (s_id sh, kind_item, x) s' = Inr st" "ss_base st = item_hash c i"
    "\<not> merged \<Longrightarrow> ss_sent st = item_hash c i" "activities s' = activities s"
proof -
  from assms(1) obtain i t where up: "upsert_synced_item (upsert_params (s_project sh) x p) s = Inr (i, t)"
    and rec: "(if merged then record_merged_base (s_id sh, kind_item, x) (item_hash c i)
               else record_applied (s_id sh, kind_item, x) (item_hash c i)) t = Inr (u, s')"
    unfolding save_item_def by (auto simp: act_bind_Inr stmt_Inr split: if_splits)
  note pay = upsert_payload[OF up assms(2)]
  obtain st where st: "get_share_state (s_id sh, kind_item, x) s' = Inr st" "ss_base st = item_hash c i"
    "\<not> merged \<longrightarrow> ss_sent st = item_hash c i" and s': "s' = t\<lparr>share_states := share_states s'\<rparr>"
  proof (cases merged)
    case True
    with rec have r: "record_merged_base (s_id sh, kind_item, x) (item_hash c i) t = Inr (u, s')" by simp
    from record_merged_base_find(1,3)[OF r] True show ?thesis by (auto intro: that)
  next
    case False
    with rec have r: "record_applied (s_id sh, kind_item, x) (item_hash c i) t = Inr (u, s')" by simp
    from record_applied_find(1,3)[OF r] show ?thesis by (auto intro: that)
  qed
  have "items s' = items t" "activities s' = activities t" by (subst s', simp)+
  then have g: "get_item_for_sync x s' = Inr i" "activities s' = activities s" using pay(1,6) by (simp_all add: get_item_for_sync_def)
  show thesis by (rule that[OF g(1) pay(2,3) st(1,2) _ g(2)]) (use st(3) in simp)
qed

subsection \<open>Application of an item\<close>

text \<open>The last agreed hash of an item, and whether the local row has moved on since.\<close>

definition base_of :: "uuid \<Rightarrow> uuid \<Rightarrow> db \<Rightarrow> string" where
  "base_of sid x s = (case get_share_state (sid, kind_item, x) s of Inl _ \<Rightarrow> [] | Inr r \<Rightarrow> ss_base r)"

definition in_conflict :: "codec \<Rightarrow> share \<Rightarrow> uuid \<Rightarrow> db \<Rightarrow> bool" where
  "in_conflict c sh x s = (case get_item_for_sync x s of Inl _ \<Rightarrow> False | Inr l \<Rightarrow> item_hash c l \<noteq> base_of (s_id sh) x s)"

lemma get_share_state_Inl: "get_share_state k s = Inl e \<Longrightarrow> e = NoRows"
  by (simp add: get_share_state_def row_find_Inl)

lemma get_item_for_sync_Inl: "get_item_for_sync x s = Inl e \<Longrightarrow> e = NoRows"
  by (simp add: get_item_for_sync_def row_find_Inl)

lemma share_state_of_eq: "\<exists>st. share_state_of sid kind_item x s = Inr (st, base_of sid x s)"
  by (cases "get_share_state (sid, kind_item, x) s") (auto simp: share_state_of_def base_of_def dest: get_share_state_Inl)

lemma apply_item_straight:
  assumes "k_unitem c (env_payload env) = Some r" and "k_unuuid c (ip_id r) = Some x" and "\<not> in_conflict c sh x s"
  shows "apply_item c inst sh env s = save_item c sh x False r s"
  using share_state_of_eq[of "s_id sh" x s] assms
  by (cases "get_item_for_sync x s") (auto simp: apply_item_def in_conflict_def dest: get_item_for_sync_Inl)

lemma apply_item_conflict:
  assumes "k_unitem c (env_payload env) = Some r" and "k_unuuid c (ip_id r) = Some x"
    and "get_item_for_sync x s = Inr l" and "in_conflict c sh x s"
  shows "apply_item c inst sh env s
    = (let m = merge_conflict inst (env_origin env) l r
       in act_bind (stmt (log_conflict c sh l m)) (\<lambda>_. save_item c sh x True m) s)"
  using share_state_of_eq[of "s_id sh" x s] assms
  by (auto simp: apply_item_def in_conflict_def Let_def)

lemma append_activity_rest:
  assumes "append_activity a s = Inr (b, t)"
  shows "t = s\<lparr>activities := activities s @ [a]\<rparr> \<and> b = a"
  using assms by (auto simp: append_activity_def tx_simps split: if_splits)

lemma log_conflict_rest:
  assumes "log_conflict c sh l m s = Inr (u, t)"
  shows "items t = items s" and "share_states t = share_states s"
proof -
  have "items t = items s \<and> share_states t = share_states s"
  proof (cases "conflict_changes c l m = []")
    case True
    then show ?thesis using assms by (auto simp: log_conflict_def Let_def tx_simps)
  next
    case False
    with assms obtain p a where "create_activity p s = Inr (a, t)"
      by (auto simp: log_conflict_def Let_def tx_simps)
    then show ?thesis
      by (auto simp: create_activity_def tx_simps dest!: append_activity_rest)
  qed
  then show "items t = items s" "share_states t = share_states s" by auto
qed

lemma conflict_saved:
  assumes "k_unitem c (env_payload env) = Some r" and "k_unuuid c (ip_id r) = Some x"
    and "get_item_for_sync x s = Inr l" and "in_conflict c sh x s" and "apply_item c inst sh env s = (Inr u, s')"
  obtains t where "save_item c sh x True (merge_conflict inst (env_origin env) l r) t = (Inr u, s')"
    "get_item_for_sync x t = Inr l"
proof -
  from assms(5)[unfolded apply_item_conflict[OF assms(1-4)] Let_def act_bind_Inr stmt_Inr] obtain v t
    where t: "log_conflict c sh l (merge_conflict inst (env_origin env) l r) s = Inr (v, t)"
      and sv: "save_item c sh x True (merge_conflict inst (env_origin env) l r) t = (Inr u, s')" by auto
  have "get_item_for_sync x t = Inr l" using assms(3) log_conflict_rest(1)[OF t] by (simp add: get_item_for_sync_def)
  with sv show thesis by (rule that)
qed

text \<open>Replication: a change of the peer to an item that is new here, or untouched here since the two
  sides last agreed, makes the local row carry exactly the payload received (an existing row keeps its
  own creation time), and the row's hash is recorded both as agreed and as sent.\<close>

theorem straight_apply_replicates:
  assumes "k_unitem c (env_payload env) = Some r" and "k_unuuid c (ip_id r) = Some x" and "k_uuid c x = ip_id r"
    and "\<not> in_conflict c sh x s" and "apply_item c inst sh env s = (Inr u, s')"
  shows "\<exists>i st. get_item_for_sync x s' = Inr i
    \<and> item_payload_of c i = (normal r)\<lparr>ip_created_at :=
        (case get_item_for_sync x s of Inr l \<Rightarrow> i_created_at l | Inl _ \<Rightarrow> ip_created_at r)\<rparr>
    \<and> get_share_state (s_id sh, kind_item, x) s' = Inr st \<and> ss_base st = item_hash c i \<and> ss_sent st = item_hash c i"
proof -
  have "save_item c sh x False r s = (Inr u, s')" using assms(5) by (simp add: apply_item_straight[OF assms(1,2,4)])
  then show ?thesis using assms(3) by (rule save_item_Inr) blast
qed

text \<open>Redelivery of a straight change is harmless: applying the same message a second time leaves the
  item's content, the recorded hashes and the activity log as they were.\<close>

theorem straight_redelivery_idempotent:
  assumes "k_unitem c (env_payload env) = Some r" and "k_unuuid c (ip_id r) = Some x" and "k_uuid c x = ip_id r"
    and "\<not> in_conflict c sh x s" and "apply_item c inst sh env s = (Inr u, s1)" and "apply_item c inst sh env s1 = (Inr u, s2)"
  shows "\<exists>i1 i2 st1 st2. get_item_for_sync x s1 = Inr i1 \<and> get_item_for_sync x s2 = Inr i2
    \<and> item_payload_of c i2 = item_payload_of c i1 \<and> activities s2 = activities s1
    \<and> get_share_state (s_id sh, kind_item, x) s1 = Inr st1 \<and> get_share_state (s_id sh, kind_item, x) s2 = Inr st2
    \<and> ss_sent st2 = ss_sent st1 \<and> ss_base st2 = ss_base st1"
proof -
  have 1: "save_item c sh x False r s = (Inr u, s1)" using assms(5) by (simp add: apply_item_straight[OF assms(1,2,4)])
  obtain i1 st1 where a: "get_item_for_sync x s1 = Inr i1"
    "item_payload_of c i1 = (normal r)\<lparr>ip_created_at :=
        (case get_item_for_sync x s of Inr l \<Rightarrow> i_created_at l | Inl _ \<Rightarrow> ip_created_at r)\<rparr>"
    "get_share_state (s_id sh, kind_item, x) s1 = Inr st1" "ss_base st1 = item_hash c i1" "ss_sent st1 = item_hash c i1"
    using 1 assms(3) by (rule save_item_Inr) (rule that, simp_all)
  have "\<not> in_conflict c sh x s1" by (simp add: in_conflict_def a base_of_def)
  then have 2: "save_item c sh x False r s1 = (Inr u, s2)" using assms(6) by (simp add: apply_item_straight[OF assms(1,2)])
  obtain i2 st2 where b: "get_item_for_sync x s2 = Inr i2"
    "item_payload_of c i2 = (normal r)\<lparr>ip_created_at :=
        (case get_item_for_sync x s1 of Inr l \<Rightarrow> i_created_at l | Inl _ \<Rightarrow> ip_created_at r)\<rparr>"
    "get_share_state (s_id sh, kind_item, x) s2 = Inr st2" "ss_base st2 = item_hash c i2" "ss_sent st2 = item_hash c i2"
    "activities s2 = activities s1"
    using 2 assms(3) by (rule save_item_Inr) (rule that, simp_all)
  have "ip_created_at (item_payload_of c i1) = (case get_item_for_sync x s of Inr l \<Rightarrow> i_created_at l | Inl _ \<Rightarrow> ip_created_at r)"
    unfolding a(2) by simp
  then have "i_created_at i1 = (case get_item_for_sync x s of Inr l \<Rightarrow> i_created_at l | Inl _ \<Rightarrow> ip_created_at r)" by simp
  then have same: "item_payload_of c i2 = item_payload_of c i1" unfolding a(2) b(2) a(1) sum.case by (rule arg_cong)
  then have "item_hash c i2 = item_hash c i1" by (simp add: item_hash_def)
  with same a b show ?thesis by auto
qed

text \<open>Redelivery of a merged change is not harmless: the first application merges and records the
  merged row as agreed, so the second one takes the row for untouched and overwrites it. The local body,
  which the merge had kept, is gone from the row, and the recorded hash keeps the row from being sent.
  (The comment of \<open>pullInbound\<close> calls redelivery safe because every apply is idempotent.)\<close>

theorem redelivered_merge_overwrites:
  assumes "k_unitem c (env_payload env) = Some r" and "k_unuuid c (ip_id r) = Some x" and "k_uuid c x = ip_id r"
    and "get_item_for_sync x s = Inr l" and "in_conflict c sh x s"
    and "apply_item c inst sh env s = (Inr u, s1)" and "apply_item c inst sh env s1 = (Inr u, s2)"
  shows "\<exists>i1 i2 st. get_item_for_sync x s1 = Inr i1 \<and> str_contains (i_body i1) (i_body l)
    \<and> get_item_for_sync x s2 = Inr i2 \<and> i_body i2 = ip_body r \<and> i_title i2 = ip_title r
    \<and> get_share_state (s_id sh, kind_item, x) s2 = Inr st \<and> ss_sent st = item_hash c i2"
proof -
  let ?m = "merge_conflict inst (env_origin env) l r"
  obtain t where sv: "save_item c sh x True ?m t = (Inr u, s1)" using conflict_saved[OF assms(1,2,4,5,6)] by blast
  have id: "k_uuid c x = ip_id ?m" using assms(3) by (simp add: merge_taken_from_remote)
  obtain i1 st1 where a: "get_item_for_sync x s1 = Inr i1" "i_body i1 = ip_body ?m"
    "get_share_state (s_id sh, kind_item, x) s1 = Inr st1" "ss_base st1 = item_hash c i1"
  proof (rule save_item_Inr[OF sv id])
    fix i st assume h: "get_item_for_sync x s1 = Inr i" and p: "item_payload_of c i = (normal ?m)\<lparr>ip_created_at :=
           (case get_item_for_sync x t of Inr r \<Rightarrow> i_created_at r | Inl _ \<Rightarrow> ip_created_at ?m)\<rparr>"
      and g: "get_share_state (s_id sh, kind_item, x) s1 = Inr st" "ss_base st = item_hash c i"
    have "i_body i = ip_body (item_payload_of c i)" by simp
    then have "i_body i = ip_body ?m" by (simp only: p) (simp add: normal_def)
    with h g show thesis by (intro that)
  qed
  have "\<not> in_conflict c sh x s1" by (simp add: in_conflict_def a base_of_def)
  from straight_apply_replicates[OF assms(1-3) this assms(7)] obtain i2 st where b: "get_item_for_sync x s2 = Inr i2"
    "item_payload_of c i2 = (normal r)\<lparr>ip_created_at :=
        (case get_item_for_sync x s1 of Inr l \<Rightarrow> i_created_at l | Inl _ \<Rightarrow> ip_created_at r)\<rparr>"
    "get_share_state (s_id sh, kind_item, x) s2 = Inr st" "ss_sent st = item_hash c i2" by blast
  have "i_body i2 = ip_body (item_payload_of c i2)" "i_title i2 = ip_title (item_payload_of c i2)" by simp_all
  then have "i_body i2 = ip_body r" "i_title i2 = ip_title r" by (simp_all only: b(2)) (simp_all add: normal_def)
  with a b show ?thesis using merged_body_contains(1) by (auto simp: merge_fields)
qed

end
