(* ===== verification/Sync_Pass.thy ===== *)
theory Sync_Pass
  imports Sync_Properties
begin

text \<open>
  Guarantees of whole passes: the echo guard, an outbound pass that leaves nothing to send, the
  acknowledgement only of settled messages; and two ways in which a peer's change reaches further than
  the share, or never settles.
\<close>

subsection \<open>The hashes last sent\<close>

definition sent_of :: "uuid \<Rightarrow> string \<times> uuid \<Rightarrow> db \<Rightarrow> string" where
  "sent_of sid k s = (case get_share_state (sid, fst k, snd k) s of Inl _ \<Rightarrow> [] | Inr r \<Rightarrow> ss_sent r)"

lemma map_of_rev: "distinct (map fst xs) \<Longrightarrow> map_of (rev xs) = map_of xs"
  by (rule map_of_eqI) (auto simp: rev_map[symmetric] map_of_eq_Some_iff)

lemma sent_hashes_eq:
  "sent_hashes sid s = map (\<lambda>r. ((ss_kind r, ss_entity r), ss_sent r)) (filter (\<lambda>r. ss_share r = sid) (share_states s))"
  by (simp add: sent_hashes_def list_share_state_hashes_def)

lemma sent_hashes_distinct: "states_ok s \<Longrightarrow> distinct (map fst (sent_hashes sid s))"
  by (auto simp: sent_hashes_eq states_ok_def distinct_map ss_key_def inj_on_def)

lemma sent_hash_of:
  assumes "states_ok s"
  shows "sent_hash (sent_hashes sid s) kind x = sent_of sid (kind, x) s"
proof (cases "get_share_state (sid, kind, x) s")
  case (Inl e)
  then have "\<forall>r \<in> set (share_states s). ss_key r \<noteq> (sid, kind, x)" by (simp add: get_share_state_def row_find_Inl)
  then have "map_of (sent_hashes sid s) (kind, x) = None"
    by (auto simp: map_of_eq_None_iff sent_hashes_eq ss_key_def)
  with Inl show ?thesis by (simp add: sent_hash_def sent_of_def map_of_rev sent_hashes_distinct[OF assms])
next
  case (Inr r)
  then have r: "r \<in> set (share_states s)" "ss_key r = (sid, kind, x)" by (auto simp: get_share_state_def dest: row_find_Inr)
  have "((kind, x), ss_sent r) = (\<lambda>r. ((ss_kind r, ss_entity r), ss_sent r)) r" using r(2) by (simp add: ss_key_def)
  moreover have "r \<in> set (filter (\<lambda>r. ss_share r = sid) (share_states s))" using r by (simp add: ss_key_def)
  ultimately have "((kind, x), ss_sent r) \<in> set (sent_hashes sid s)" unfolding sent_hashes_eq set_map by (rule image_eqI)
  then have "map_of (sent_hashes sid s) (kind, x) = Some (ss_sent r)" by (rule map_of_is_SomeI[OF sent_hashes_distinct[OF assms]])
  with Inr show ?thesis by (simp add: sent_hash_def sent_of_def map_of_rev sent_hashes_distinct[OF assms])
qed

lemma upsert_state_keeps_states:
  assumes "states_ok s" and "upsert_state k h b f s = Inr (u, t)" and "\<And>r. ss_key (f r) = ss_key r"
  shows "states_ok t"
proof -
  have "ss_key ((f r)\<lparr>ss_synced_at := db_now s\<rparr>) = ss_key r" for r using assms(3)[of r] by (simp add: ss_key_def)
  then have "map ss_key (rows_update p (\<lambda>r. (f r)\<lparr>ss_synced_at := db_now s\<rparr>) rs) = map ss_key rs" for p rs
    by (rule rows_update_keys)
  note keep = this
  show ?thesis
  proof (cases "has_row (\<lambda>r. ss_key r = k) (share_states s)")
    case True
    then have "share_states t = rows_update (\<lambda>r. ss_key r = k) (\<lambda>r. (f r)\<lparr>ss_synced_at := db_now s\<rparr>) (share_states s)"
      using assms(2) by (auto simp: upsert_state_def split: if_splits)
    then show ?thesis using assms(1) keep by (simp add: states_ok_def)
  next
    case False
    let ?n = "\<lparr>ss_share = fst k, ss_kind = fst (snd k), ss_entity = snd (snd k), ss_sent = h,
                            ss_base = b, ss_synced_at = db_now s\<rparr>"
    have n: "share_states t = share_states s @ [?n]"
      using assms(2) False by (auto simp: upsert_state_def split: if_splits)
    have "ss_key ?n = k" by (simp add: ss_key_def)
    have "k \<notin> set (map ss_key (share_states s))" using False by auto
    then show ?thesis using assms(1) n \<open>ss_key ?n = k\<close> by (simp add: states_ok_def)
  qed
qed

lemma record_keeps_states:
  "states_ok s \<Longrightarrow> record_applied k h s = Inr (u, t) \<Longrightarrow> states_ok t"
  "states_ok s \<Longrightarrow> record_merged_base k h s = Inr (u, t) \<Longrightarrow> states_ok t"
  "states_ok s \<Longrightarrow> record_sent k h s = Inr (u, t) \<Longrightarrow> states_ok t"
  unfolding record_applied_def record_merged_base_def record_sent_def
  by (erule upsert_state_keeps_states, assumption, simp add: ss_key_def)+

lemma save_item_keeps_states:
  assumes "states_ok s" and "save_item c sh x merged p s = (Inr u, s')" and "k_uuid c x = ip_id p"
  shows "states_ok s'"
proof -
  from assms(2) obtain i t where up: "upsert_synced_item (upsert_params (s_project sh) x p) s = Inr (i, t)"
    and rec: "(if merged then record_merged_base (s_id sh, kind_item, x) (item_hash c i)
               else record_applied (s_id sh, kind_item, x) (item_hash c i)) t = Inr (u, s')"
    unfolding save_item_def by (auto simp: act_bind_Inr stmt_Inr split: if_splits)
  have ok: "states_ok t" using assms(1) upsert_payload(4)[OF up assms(3)] by (simp add: states_ok_def)
  show ?thesis
  proof (cases merged)
    case True
    with rec show ?thesis by (simp add: record_keeps_states(2)[OF ok])
  next
    case False
    with rec show ?thesis by (simp add: record_keeps_states(1)[OF ok])
  qed
qed

text \<open>An entity whose hash is the one last sent is skipped.\<close>

lemma send_entity_skip:
  assumes "sent_hash hs kind x = content_hash c raw"
  shows "send_entity c inst nonces cl sh hs (kind, x, raw) w = (Inr (), w)"
  using assms by (simp add: send_entity_def Let_def)

text \<open>The echo guard: a change of the peer that was applied straight is not sent back. The outbound
  pass that starts from the database after the application skips that row, whatever the mailbox does.\<close>

theorem applied_item_not_echoed:
  assumes "states_ok s" and "k_unitem c (env_payload env) = Some r" and "k_unuuid c (ip_id r) = Some x"
    and "k_uuid c x = ip_id r" and "\<not> in_conflict c sh x s" and "apply_item c inst sh env s = (Inr u, s')"
  shows "\<exists>i. get_item_for_sync x s' = Inr i
    \<and> send_entity c inst nonces cl sh (sent_hashes (s_id sh) s') (item_entity c i) w = (Inr (), w)"
proof -
  obtain i st where i: "get_item_for_sync x s' = Inr i"
    and st: "get_share_state (s_id sh, kind_item, x) s' = Inr st" "ss_sent st = item_hash c i"
    using straight_apply_replicates[OF assms(2-6)] by blast
  have "save_item c sh x False r s = (Inr u, s')" using assms(6) by (simp add: apply_item_straight[OF assms(2,3,5)])
  then have ok: "states_ok s'" by (rule save_item_keeps_states[OF assms(1) _ assms(4)])
  have x: "i_id i = x" using i by (auto simp: get_item_for_sync_def dest: row_find_Inr)
  have "sent_hash (sent_hashes (s_id sh) s') kind_item x = content_hash c (k_item c (item_payload_of c i))"
    using st by (simp add: sent_hash_of[OF ok] sent_of_def item_hash_def)
  then show ?thesis using i x by (simp add: item_entity_def send_entity_skip)
qed

subsection \<open>An outbound pass leaves nothing to send\<close>

definition ekey :: "string \<times> uuid \<times> string \<Rightarrow> string \<times> uuid" where "ekey e = (fst e, fst (snd e))"
definition ehash :: "codec \<Rightarrow> string \<times> uuid \<times> string \<Rightarrow> string" where "ehash c e = content_hash c (snd (snd e))"

definition same_rows :: "db \<Rightarrow> db \<Rightarrow> bool" where
  "same_rows s t = (projects t = projects s \<and> items t = items s \<and> activities t = activities s)"

lemma send_entity_effect:
  assumes "send_entity c inst nonces cl sh hs e w = (Inr u, w')" and "states_ok (ps_db w)"
    and "sent_hash hs (fst (ekey e)) (snd (ekey e)) = sent_of (s_id sh) (ekey e) (ps_db w)"
  shows "states_ok (ps_db w') \<and> same_rows (ps_db w) (ps_db w') \<and> sent_of (s_id sh) (ekey e) (ps_db w') = ehash c e
    \<and> (\<forall>k. k \<noteq> ekey e \<longrightarrow> sent_of (s_id sh) k (ps_db w') = sent_of (s_id sh) k (ps_db w))"
proof (cases "sent_hash hs (fst (ekey e)) (snd (ekey e)) = ehash c e")
  case True
  then have "send_entity c inst nonces cl sh hs e w = (Inr (), w)"
    using send_entity_skip by (cases e) (simp add: ekey_def ehash_def)
  with assms True show ?thesis by (simp add: same_rows_def)
next
  case False
  then obtain t sealed where t: "record_sent (s_id sh, fst (ekey e), snd (ekey e)) (ehash c e) (ps_db w) = Inr (u, t)"
    and w': "w' = w\<lparr>ps_db := t, ps_sent := ps_sent w @ [sealed]\<rparr>"
    using assms(1)
    by (cases e) (auto simp: send_entity_def Let_def ekey_def ehash_def stmt_Inr split: sum.splits option.splits prod.splits)
  note f = record_sent_find[OF t]
  have "states_ok t" by (rule record_keeps_states(3)[OF assms(2) t])
  moreover have "same_rows (ps_db w) t" unfolding same_rows_def by (subst f(3), simp)+
  moreover have "sent_of (s_id sh) (ekey e) t = ehash c e" using f(1) by (auto simp: sent_of_def)
  moreover have "sent_of (s_id sh) k t = sent_of (s_id sh) k (ps_db w)" if "k \<noteq> ekey e" for k
  proof -
    have "(s_id sh, fst k, snd k) \<noteq> (s_id sh, fst (ekey e), snd (ekey e))" using that by (auto simp: prod_eq_iff)
    from f(2)[OF this] show ?thesis by (simp add: sent_of_def)
  qed
  ultimately show ?thesis by (simp add: w')
qed

lemma same_rows_trans: "same_rows s t \<Longrightarrow> same_rows t u \<Longrightarrow> same_rows s u"
  by (simp add: same_rows_def)

lemma send_all_effect:
  assumes "send_all c inst nonces cl sh hs es w = (Inr u, w')" and "states_ok (ps_db w)" and "distinct (map ekey es)"
    and "\<forall>e \<in> set es. sent_hash hs (fst (ekey e)) (snd (ekey e)) = sent_of (s_id sh) (ekey e) (ps_db w)"
  shows "states_ok (ps_db w') \<and> same_rows (ps_db w) (ps_db w')
    \<and> (\<forall>e \<in> set es. sent_of (s_id sh) (ekey e) (ps_db w') = ehash c e)
    \<and> (\<forall>k. k \<notin> ekey ` set es \<longrightarrow> sent_of (s_id sh) k (ps_db w') = sent_of (s_id sh) k (ps_db w))"
  using assms
proof (induction es arbitrary: w)
  case Nil
  then show ?case by (simp add: same_rows_def)
next
  case (Cons e es)
  then obtain v w1 where 1: "send_entity c inst nonces cl sh hs e w = (Inr v, w1)"
    and 2: "send_all c inst nonces cl sh hs es w1 = (Inr u, w')"
    by (auto split: prod.splits sum.splits)
  have e1: "states_ok (ps_db w1)" "same_rows (ps_db w) (ps_db w1)" "sent_of (s_id sh) (ekey e) (ps_db w1) = ehash c e"
    "\<And>k. k \<noteq> ekey e \<Longrightarrow> sent_of (s_id sh) k (ps_db w1) = sent_of (s_id sh) k (ps_db w)"
    using send_entity_effect[OF 1 Cons.prems(2)] Cons.prems(4) by auto
  have fresh: "ekey e \<notin> ekey ` set es" using Cons.prems(3) by simp
  have "\<forall>f \<in> set es. sent_hash hs (fst (ekey f)) (snd (ekey f)) = sent_of (s_id sh) (ekey f) (ps_db w1)"
  proof
    fix f assume f: "f \<in> set es"
    then have "ekey f \<noteq> ekey e" using fresh by (metis imageI)
    then show "sent_hash hs (fst (ekey f)) (snd (ekey f)) = sent_of (s_id sh) (ekey f) (ps_db w1)"
      using Cons.prems(4) f e1(4) by simp
  qed
  from Cons.IH[OF 2 e1(1) _ this] Cons.prems(3) have r: "states_ok (ps_db w')" "same_rows (ps_db w1) (ps_db w')"
    "\<forall>e \<in> set es. sent_of (s_id sh) (ekey e) (ps_db w') = ehash c e"
    "\<And>k. k \<notin> ekey ` set es \<Longrightarrow> sent_of (s_id sh) k (ps_db w') = sent_of (s_id sh) k (ps_db w1)" by auto
  have "sent_of (s_id sh) (ekey e) (ps_db w') = ehash c e" using r(4)[OF fresh] e1(3) by simp
  moreover have "sent_of (s_id sh) k (ps_db w') = sent_of (s_id sh) k (ps_db w)" if "k \<notin> ekey ` set (e # es)" for k
    using that r(4)[of k] e1(4)[of k] by simp
  ultimately show ?case using r(1,3) same_rows_trans[OF e1(2) r(2)] by auto
qed

lemma send_all_append:
  "send_all c inst nonces cl sh hs (xs @ ys) w =
     (case send_all c inst nonces cl sh hs xs w of (Inl e, w') \<Rightarrow> (Inl e, w') | (Inr _, w') \<Rightarrow> send_all c inst nonces cl sh hs ys w')"
  by (induction xs arbitrary: w) (auto split: prod.splits sum.splits)

lemma send_all_skip:
  assumes "\<forall>e \<in> set es. sent_hash hs (fst (ekey e)) (snd (ekey e)) = ehash c e"
  shows "send_all c inst nonces cl sh hs es w = (Inr (), w)"
  using assms
proof (induction es)
  case (Cons e es)
  then show ?case using send_entity_skip by (cases e) (auto simp: ekey_def ehash_def)
qed simp

text \<open>Everything a pass may send, and the pass as one loop over it.\<close>

definition outbound :: "codec \<Rightarrow> uuid \<Rightarrow> project \<Rightarrow> db \<Rightarrow> (string \<times> uuid \<times> string) list" where
  "outbound c pr p s = project_entity c p # map (item_entity c) (list_items_for_sync pr s)
     @ map (activity_entity c) (list_activity_for_sync pr s)"

lemma entity_keys [simp]:
  "ekey (project_entity c p) = (kind_project, p_id p)" "ekey (item_entity c i) = (kind_item, i_id i)"
  "ekey (activity_entity c a) = (kind_activity, a_id a)"
  by (simp_all add: ekey_def project_entity_def item_entity_def activity_entity_def)

lemma kinds_differ [simp]:
  "kind_item \<noteq> kind_project" "kind_project \<noteq> kind_item" "kind_activity \<noteq> kind_project" "kind_project \<noteq> kind_activity"
  "kind_item \<noteq> kind_activity" "kind_activity \<noteq> kind_item"
  by (simp_all add: kind_item_def kind_activity_def kind_project_def)

lemma outbound_keys:
  assumes "db_ok s"
  shows "distinct (map ekey (outbound c pr p s))"
proof -
  have i: "distinct (map (\<lambda>i. (kind_item, i_id i)) (list_items_for_sync pr s))"
    using assms by (auto simp: list_items_for_sync_def db_ok_def items_ok_def distinct_map inj_on_def)
  have "distinct (map a_id (activities s))" using assms by (simp add: db_ok_def activities_ok_def)
  then have "distinct (map (\<lambda>a. (kind_activity, a_id a)) (list_activity_for_sync pr s))"
    by (auto simp: list_activity_for_sync_def distinct_map inj_on_def)
  with i show ?thesis by (auto simp: outbound_def comp_def)
qed

lemma same_rows_lists:
  assumes "same_rows s t"
  shows "outbound c pr p t = outbound c pr p s" and "find_project pr t = find_project pr s"
    and "list_items_for_sync pr t = list_items_for_sync pr s" and "list_activity_for_sync pr t = list_activity_for_sync pr s"
  using assms by (simp_all add: same_rows_def outbound_def find_project_def list_items_for_sync_def list_activity_for_sync_def)

lemma push_outbound_Inr:
  assumes "push_outbound c inst nonces cl sh w = (Inr u, w1)" and "db_ok (ps_db w)" and "states_ok (ps_db w)"
  obtains p w3 where "find_project (s_project sh) (ps_db w) = Inr p"
    "send_all c inst nonces cl sh (sent_hashes (s_id sh) (ps_db w)) (outbound c (s_project sh) p (ps_db w)) w = (Inr (), w3)"
    "same_rows (ps_db w3) (ps_db w1)" "share_states (ps_db w1) = share_states (ps_db w3)"
proof -
  let ?hs = "sent_hashes (s_id sh) (ps_db w)" and ?pr = "s_project sh"
  from assms(1) obtain p u1 w1' u2 w2 u3 w3 where p: "find_project ?pr (ps_db w) = Inr p"
    and 1: "send_entity c inst nonces cl sh ?hs (project_entity c p) w = (Inr u1, w1')"
    and 2: "send_all c inst nonces cl sh ?hs (map (item_entity c) (list_items_for_sync ?pr (ps_db w1'))) w1' = (Inr u2, w2)"
    and 3: "send_all c inst nonces cl sh ?hs (map (activity_entity c) (list_activity_for_sync ?pr (ps_db w2))) w2 = (Inr u3, w3)"
    and fin: "w1 = (if length (ps_sent w) < length (ps_sent w3)
                then w3\<lparr>ps_db := snd (stmt (record_share_send (s_id sh)) (ps_db w3))\<rparr> else w3)"
    unfolding push_outbound_def Let_def by (auto split: sum.splits prod.splits)
  have hs: "\<forall>e \<in> set es. sent_hash ?hs (fst (ekey e)) (snd (ekey e)) = sent_of (s_id sh) (ekey e) (ps_db w)" for es
    by (simp add: sent_hash_of[OF assms(3)])
  have e1: "states_ok (ps_db w1')" "same_rows (ps_db w) (ps_db w1')"
    "\<And>k. k \<noteq> (kind_project, p_id p) \<Longrightarrow> sent_of (s_id sh) k (ps_db w1') = sent_of (s_id sh) k (ps_db w)"
    using send_entity_effect[OF 1 assms(3)] hs[of "[project_entity c p]"] by auto
  note l1 = same_rows_lists[OF e1(2)]
  have di: "distinct (map ekey (map (item_entity c) (list_items_for_sync ?pr (ps_db w1'))))"
    using outbound_keys[OF assms(2), of c ?pr p] by (simp add: outbound_def l1 comp_def)
  have e2: "same_rows (ps_db w1') (ps_db w2)"
    using send_all_effect[OF 2 e1(1) di] hs e1(3) by (auto simp: sent_hash_of[OF assms(3)])
  note l2 = same_rows_lists[OF same_rows_trans[OF e1(2) e2]]
  have "send_all c inst nonces cl sh ?hs (outbound c ?pr p (ps_db w)) w = (Inr (), w3)"
    using 1 2 3 by (simp add: outbound_def send_all_append l1 l2)
  moreover have "same_rows (ps_db w3) (ps_db w1)" "share_states (ps_db w1) = share_states (ps_db w3)"
    by (simp_all add: fin same_rows_def stmt_def record_share_send_def update_share_def)
  ultimately show thesis using p by (intro that)
qed

text \<open>C31: An outbound pass leaves nothing to send: right after a pass that succeeded, another one (any
  nonces, any mailbox) sends nothing and changes nothing.\<close>

theorem push_leaves_nothing:
  assumes "db_ok (ps_db w)" and "states_ok (ps_db w)" and "push_outbound c inst nonces cl sh w = (Inr u, w1)"
  shows "push_outbound c inst nonces' cl' sh w1 = (Inr (), w1)"
proof -
  let ?hs = "sent_hashes (s_id sh) (ps_db w)" and ?pr = "s_project sh"
  obtain p w3 where p: "find_project ?pr (ps_db w) = Inr p"
    and sa: "send_all c inst nonces cl sh ?hs (outbound c ?pr p (ps_db w)) w = (Inr (), w3)"
    and r31: "same_rows (ps_db w3) (ps_db w1)" and st: "share_states (ps_db w1) = share_states (ps_db w3)"
    using assms(3,1,2) by (rule push_outbound_Inr)
  have eff: "states_ok (ps_db w3)" "same_rows (ps_db w) (ps_db w3)"
    "\<forall>e \<in> set (outbound c ?pr p (ps_db w)). sent_of (s_id sh) (ekey e) (ps_db w3) = ehash c e"
    using send_all_effect[OF sa assms(2) outbound_keys[OF assms(1)]] by (simp_all add: sent_hash_of[OF assms(2)])
  have ok1: "states_ok (ps_db w1)" using eff(1) st by (simp add: states_ok_def)
  note l = same_rows_lists[OF same_rows_trans[OF eff(2) r31]]
  have so: "sent_of (s_id sh) k (ps_db w1) = sent_of (s_id sh) k (ps_db w3)" for k
    by (simp add: sent_of_def get_share_state_def st)
  let ?hs1 = "sent_hashes (s_id sh) (ps_db w1)"
  have done_: "\<forall>e \<in> set (outbound c ?pr p (ps_db w)). sent_hash ?hs1 (fst (ekey e)) (snd (ekey e)) = ehash c e"
    using eff(3) by (simp add: sent_hash_of[OF ok1] so)
  have d1: "sent_hash ?hs1 (fst (ekey (project_entity c p))) (snd (ekey (project_entity c p))) = ehash c (project_entity c p)"
    and d2: "\<forall>e \<in> set (map (item_entity c) (list_items_for_sync ?pr (ps_db w))). sent_hash ?hs1 (fst (ekey e)) (snd (ekey e)) = ehash c e"
    and d3: "\<forall>e \<in> set (map (activity_entity c) (list_activity_for_sync ?pr (ps_db w))). sent_hash ?hs1 (fst (ekey e)) (snd (ekey e)) = ehash c e"
    using done_ by (auto simp: outbound_def)
  have "send_entity c inst nonces' cl' sh ?hs1 (project_entity c p) w1 = (Inr (), w1)"
    using d1 send_entity_skip by (simp add: project_entity_def ekey_def ehash_def)
  then show ?thesis
    by (simp add: push_outbound_def Let_def l p send_all_skip[OF d2] send_all_skip[OF d3])
qed

subsection \<open>Acknowledgement\<close>

text \<open>
  The abstract inbound pass: a message is settled when it does not open, comes from this instance, or has
  been applied; and the messages are settled in their order.
\<close>

inductive settles :: "codec \<Rightarrow> string \<Rightarrow> share \<Rightarrow> db \<Rightarrow> mail_message list \<Rightarrow> db \<Rightarrow> bool" for c inst sh where
  none: "settles c inst sh s [] s"
| undecryptable: "open_sealed c (s_secret sh) (mm_body m) = Inl e \<Longrightarrow> settles c inst sh s ms t \<Longrightarrow> settles c inst sh s (m # ms) t"
| own: "open_sealed c (s_secret sh) (mm_body m) = Inr env \<Longrightarrow> env_origin env = inst \<Longrightarrow> settles c inst sh s ms t
    \<Longrightarrow> settles c inst sh s (m # ms) t"
| applied: "open_sealed c (s_secret sh) (mm_body m) = Inr env \<Longrightarrow> env_origin env \<noteq> inst
    \<Longrightarrow> apply_change c inst sh env s = (Inr u, s1) \<Longrightarrow> settles c inst sh s1 ms t \<Longrightarrow> settles c inst sh s (m # ms) t"

inductive_cases settles_NilE: "settles c inst sh s [] t"
inductive_cases settles_ConsE: "settles c inst sh s (m # ms) t"

lemma pull_loop_settles:
  assumes "pull_loop c inst sh ms ap ch s = (Inr (ap', ch'), t)"
  shows "settles c inst sh s ms t \<and> ap' = ap @ map mm_seq ms"
  using assms
proof (induction ms arbitrary: ap ch s)
  case Nil
  then show ?case by (simp add: act_ret_def settles.none)
next
  case (Cons m ms)
  show ?case
  proof (cases "open_sealed c (s_secret sh) (mm_body m)")
    case (Inl e)
    with Cons.prems Cons.IH[of "ap @ [mm_seq m]" ch s] show ?thesis by (auto intro: settles.undecryptable)
  next
    case (Inr env)
    show ?thesis
    proof (cases "env_origin env = inst")
      case True
      with Inr Cons.prems Cons.IH[of "ap @ [mm_seq m]" ch s] show ?thesis by (auto intro: settles.own)
    next
      case False
      with Inr Cons.prems obtain u s1 where "apply_change c inst sh env s = (Inr u, s1)"
        and "pull_loop c inst sh ms (ap @ [mm_seq m]) True s1 = (Inr (ap', ch'), t)"
        by (auto simp: act_bind_Inr)
      with Inr False Cons.IH[of "ap @ [mm_seq m]" True s1] show ?thesis by (auto intro: settles.applied)
    qed
  qed
qed

lemma settles_pull_loop:
  assumes "settles c inst sh s ms t"
  shows "\<exists>ch'. pull_loop c inst sh ms ap ch s = (Inr (ap @ map mm_seq ms, ch'), t)"
  using assms
proof (induction arbitrary: ap ch rule: settles.induct)
  case (applied m env s u s1 ms t)
  from applied.IH[of "ap @ [mm_seq m]" True] applied(1-3) show ?case by (auto simp: act_bind_def)
next
  case (undecryptable m e s ms t)
  from undecryptable.IH[of "ap @ [mm_seq m]" ch] undecryptable(1) show ?case by simp
next
  case (own m env s ms t)
  from own.IH[of "ap @ [mm_seq m]" ch] own(1,2) show ?case by simp
qed (simp add: act_ret_def)

text \<open>C8: Acknowledged means settled: the only acknowledgement an inbound pass sends names every message it
  received, and it is sent only when each of them did not open, was our own, or was applied without an
  error, in that order; whenever an application fails, nothing is acknowledged.\<close>

theorem acknowledged_means_settled:
  assumes "pull_inbound c inst cl sh w = (r, w')"
  shows "(\<exists>msgs t. mc_receive cl = Inr msgs \<and> settles c inst sh (ps_db w) msgs t
        \<and> ps_acked w' = ps_acked w @ [map mm_seq msgs] \<and> r = Inr () \<and> items (ps_db w') = items t)
    \<or> ps_acked w' = ps_acked w"
proof -
  consider e where "mc_receive cl = Inl e" | "mc_receive cl = Inr []"
    | msgs e s where "mc_receive cl = Inr msgs" "msgs \<noteq> []" "pull_loop c inst sh msgs [] False (ps_db w) = (Inl e, s)"
    | msgs ap ch s where "mc_receive cl = Inr msgs" "msgs \<noteq> []" "pull_loop c inst sh msgs [] False (ps_db w) = (Inr (ap, ch), s)"
    by (metis prod_cases3 sum.exhaust surj_pair)
  then show ?thesis
  proof cases
    case (4 msgs ap ch s)
    from pull_loop_settles[OF 4(3)] have st: "settles c inst sh (ps_db w) msgs s" and ap: "ap = map mm_seq msgs" by auto
    have ne: "ap \<noteq> []" using 4(2) ap by simp
    show ?thesis
    proof (cases "mc_ack cl ap")
      case None
      then have w': "r = Inr ()" "ps_acked w' = ps_acked w @ [ap]" "items (ps_db w') = items s"
        using assms 4 ne by (auto simp: pull_inbound_def client_ack_def stmt_def record_share_recv_def update_share_def)
      then show ?thesis using 4(1) st ap by auto
    next
      case (Some e)
      then show ?thesis using assms 4 ne by (auto simp: pull_inbound_def client_ack_def)
    qed
  qed (use assms in \<open>auto simp: pull_inbound_def\<close>)
qed

subsection \<open>Beyond the share, and without end\<close>

text \<open>A share reaches further than its project: the lookup and the upsert of an item go by its
  identifier alone, so a peer that names an item of another local project, one that was never shared with
  it, deletes that item.\<close>

theorem peer_deletes_unshared_item:
  assumes "k_unitem c (env_payload env) = Some r" and "k_unuuid c (ip_id r) = Some x" and "k_uuid c x = ip_id r"
    and "get_item_for_sync x s = Inr l" and "i_project l \<noteq> s_project sh" and "ip_deleted_at r \<noteq> None"
    and "apply_item c inst sh env s = (Inr u, s')"
  shows "\<exists>i. get_item_for_sync x s' = Inr i \<and> i_project i = i_project l \<and> i_deleted_at i \<noteq> None"
proof -
  obtain m merged t where sv: "save_item c sh x merged m t = (Inr u, s')" and m: "k_uuid c x = ip_id m" "ip_deleted_at m \<noteq> None"
    and g: "get_item_for_sync x t = Inr l"
  proof (cases "in_conflict c sh x s")
    case True
    from conflict_saved[OF assms(1,2,4) True assms(7)] obtain t
      where t: "save_item c sh x True (merge_conflict inst (env_origin env) l r) t = (Inr u, s')" "get_item_for_sync x t = Inr l" .
    have "k_uuid c x = ip_id (merge_conflict inst (env_origin env) l r)" using assms(3) by (simp add: merge_taken_from_remote)
    moreover have "ip_deleted_at (merge_conflict inst (env_origin env) l r) \<noteq> None" unfolding merge_fields using assms(6) by simp
    ultimately show thesis using t by (intro that)
  next
    case False
    then have "save_item c sh x False r s = (Inr u, s')" using assms(7) by (simp add: apply_item_straight[OF assms(1,2)])
    then show thesis using assms(3,6,4) by (intro that)
  qed
  show ?thesis
  proof (rule save_item_Inr[OF sv m(1)])
    fix i st assume i: "get_item_for_sync x s' = Inr i" and p: "item_payload_of c i = (normal m)\<lparr>ip_created_at :=
           (case get_item_for_sync x t of Inr r \<Rightarrow> i_created_at r | Inl _ \<Rightarrow> ip_created_at m)\<rparr>"
      and pr: "i_project i = (case get_item_for_sync x t of Inr r \<Rightarrow> i_project r | Inl _ \<Rightarrow> s_project sh)"
    have "i_deleted_at i = ip_deleted_at (item_payload_of c i)" by simp
    then have "i_deleted_at i = ip_deleted_at m" by (simp only: p) (simp add: normal_def)
    then show ?thesis using i pr g m(2) by auto
  qed
qed

text \<open>An activity whose item is not here yet never settles: it is stored without its item, but the hash
  recorded as sent is that of the payload received, so the next outbound pass sends the stored row back
  (and the peer, which has the item, does the same). (\<open>applyProject\<close> states the rule that is broken:
  record what was stored, not what arrived.)\<close>

theorem unattached_activity_bounces:
  assumes "k_unact c (env_payload env) = Some r" and "k_unuuid c (yp_id r) = Some x" and "states_ok s"
    and "attach_to c r s = None" and "x \<notin> a_id ` set (activities s)" and "apply_activity c sh env s = (Inr u, s')"
    and "a = synced_activity x (s_project sh) None r"
    and "content_hash c (k_act c (activity_payload_of c a)) \<noteq> content_hash c (k_act c r)"
    and "length (s_secret sh) = key_size" and "mc_send cl = (\<lambda>_ _. None)"
  shows "a \<in> set (activities s') \<and> sent_of (s_id sh) (kind_activity, x) s' = content_hash c (k_act c r)
    \<and> (\<exists>m. ps_sent (snd (send_entity c inst nonces cl sh (sent_hashes (s_id sh) s') (activity_entity c a) w)) = ps_sent w @ [m])"
proof -
  from assms(6) obtain v t where up: "upsert_synced_activity a s = Inr (v, t)"
    and rec: "record_applied (s_id sh, kind_activity, x) (content_hash c (k_act c r)) t = Inr (u, s')"
    by (auto simp: apply_activity_def assms(1,2,4,7) act_bind_Inr stmt_Inr record_applied_payload_def)
  have ax: "a_id a = x" by (simp add: assms(7) synced_activity_def)
  have "\<not> has_row (\<lambda>b. a_id b = a_id a) (activities s)" unfolding has_row_iff using assms(5) ax by (metis imageI)
  then obtain b where "append_activity a s = Inr (b, t)"
    using up by (auto simp: upsert_synced_activity_def split: if_splits sum.splits)
  then have t: "t = s\<lparr>activities := activities s @ [a]\<rparr>" by (simp add: append_activity_rest)
  have "activities s' = activities t" by (subst record_applied_find(3)[OF rec]) simp
  then have mem: "a \<in> set (activities s')" by (simp add: t)
  have ok: "states_ok s'" by (rule record_keeps_states(1)[OF _ rec]) (use assms(3) in \<open>simp add: t states_ok_def\<close>)
  have so: "sent_of (s_id sh) (kind_activity, x) s' = content_hash c (k_act c r)"
    using record_applied_find(1)[OF rec] by (auto simp: sent_of_def)
  have "sent_hash (sent_hashes (s_id sh) s') kind_activity x \<noteq> content_hash c (k_act c (activity_payload_of c a))"
    using assms(8) so by (simp add: sent_hash_of[OF ok])
  then have "\<exists>m. ps_sent (snd (send_entity c inst nonces cl sh (sent_hashes (s_id sh) s') (activity_entity c a) w)) = ps_sent w @ [m]"
    using assms(9,10) ax by (simp add: send_entity_def activity_entity_def Let_def seal_def split: prod.split)
  with mem so show ?thesis by simp
qed

subsection \<open>Concrete runs\<close>

definition demo_share :: share where
  "demo_share = \<lparr>s_id = 3, s_project = 1, s_peer = ''bob'', s_url = [], s_send_mb = ''s'', s_send_tok = [], s_recv_mb = ''r'',
     s_recv_tok = [], s_secret = replicate 32 (CHR ''k''), s_cert = [], s_ckey = [], s_ca = [], s_enabled = True,
     s_last_send = None, s_last_recv = None, s_last_error = [], s_created_at = 0, s_updated_at = 0\<rparr>"

definition sync_db :: "item list \<Rightarrow> db" where
  "sync_db its = empty_db\<lparr>projects := [tree_project 1 ''fd'' ''active'' None, tree_project 2 ''other'' ''active'' None],
     items := its, shares := [demo_share], db_drawn := 100\<rparr>"

definition demo_pass :: "item list \<Rightarrow> pass" where
  "demo_pass its = \<lparr>ps_db = sync_db its, ps_acked = [], ps_sent = [], ps_notified = []\<rparr>"

definition deleting_codec :: codec where
  "deleting_codec = demo_codec\<lparr>k_unitem := (\<lambda>_. Some (demo_payload\<lparr>ip_deleted_at := Some 9\<rparr>))\<rparr>"

definition demo_client :: mail_client where
  "demo_client = \<lparr>mc_receive = Inr [\<lparr>mm_seq = 4, mm_sent_at = 0, mm_body = replicate 24 (CHR ''n'') @ ''x''\<rparr>],
     mc_ack = (\<lambda>_. None), mc_send = (\<lambda>_ _. None)\<rparr>"

lemma ran: "fst p = Inr u \<Longrightarrow> p = (Inr u, snd p)"
  by (simp add: prod_eq_iff)

lemma demo_decodes:
  "k_unitem demo_codec (env_payload (demo_env [])) = Some demo_payload" "k_unuuid demo_codec (ip_id demo_payload) = Some 5"
  "k_uuid demo_codec 5 = ip_id demo_payload" "k_unact demo_codec (env_payload (demo_env [])) = Some demo_note"
  "k_unuuid demo_codec (yp_id demo_note) = Some 8"
  by code_simp+

lemma sync_db_states: "states_ok (sync_db its)"
  by (simp add: states_ok_def sync_db_def empty_db_def)

lemma new_item_quiet: "\<not> in_conflict demo_codec demo_share 5 (sync_db [])"
  by code_simp

lemma demo_first: "apply_item demo_codec ''A'' demo_share (demo_env []) (sync_db [])
    = (Inr (), snd (apply_item demo_codec ''A'' demo_share (demo_env []) (sync_db [])))"
  by (rule ran) code_simp

lemma straight_apply_replicates_witness:
  "\<exists>i. get_item_for_sync 5 (snd (apply_item demo_codec ''A'' demo_share (demo_env []) (sync_db []))) = Inr i
     \<and> ip_title (item_payload_of demo_codec i) = ''remote''"
proof -
  obtain i cr where g: "get_item_for_sync 5 (snd (apply_item demo_codec ''A'' demo_share (demo_env []) (sync_db []))) = Inr i"
    and p: "item_payload_of demo_codec i = (normal demo_payload)\<lparr>ip_created_at := cr\<rparr>"
    using straight_apply_replicates[OF demo_decodes(1-3) new_item_quiet demo_first] by blast
  have "ip_title (item_payload_of demo_codec i) = ''remote''" unfolding p by (simp add: normal_def demo_payload_def)
  with g show ?thesis by (intro exI conjI)
qed

lemma applied_item_not_echoed_witness:
  "\<exists>i. send_entity demo_codec ''A'' (\<lambda>_. []) demo_client demo_share
      (sent_hashes 3 (snd (apply_item demo_codec ''A'' demo_share (demo_env []) (sync_db [])))) (item_entity demo_codec i) (demo_pass [])
      = (Inr (), demo_pass [])"
proof -
  have "s_id demo_share = 3" by (simp add: demo_share_def)
  then show ?thesis
    using applied_item_not_echoed[OF sync_db_states demo_decodes(1-3) new_item_quiet demo_first] by metis
qed

lemma straight_redelivery_idempotent_witness:
  "activities (snd (apply_item demo_codec ''A'' demo_share (demo_env [])
      (snd (apply_item demo_codec ''A'' demo_share (demo_env []) (sync_db [])))))
    = activities (snd (apply_item demo_codec ''A'' demo_share (demo_env []) (sync_db [])))"
proof -
  have "fst (apply_item demo_codec ''A'' demo_share (demo_env [])
      (snd (apply_item demo_codec ''A'' demo_share (demo_env []) (sync_db [])))) = Inr ()" by code_simp
  from straight_redelivery_idempotent[OF demo_decodes(1-3) new_item_quiet demo_first ran[OF this]] show ?thesis by auto
qed

lemma redelivered_merge_overwrites_witness:
  "\<exists>(i1 :: item) i2. str_contains (i_body i1) ''ours'' \<and> i_body i2 = ''there''
     \<and> get_item_for_sync 5 (snd (apply_item demo_codec ''A'' demo_share (demo_env [])
          (snd (apply_item demo_codec ''A'' demo_share (demo_env []) (sync_db [side_a]))))) = Inr i2"
proof -
  have l: "get_item_for_sync 5 (sync_db [side_a]) = Inr side_a"
    by (simp add: get_item_for_sync_def sync_db_def side_a_def upsert_params_def)
  have c: "in_conflict demo_codec demo_share 5 (sync_db [side_a])" by code_simp
  have 1: "fst (apply_item demo_codec ''A'' demo_share (demo_env []) (sync_db [side_a])) = Inr ()" by code_simp
  have 2: "fst (apply_item demo_codec ''A'' demo_share (demo_env [])
      (snd (apply_item demo_codec ''A'' demo_share (demo_env []) (sync_db [side_a])))) = Inr ()" by code_simp
  have b: "i_body side_a = ''ours''" "ip_body demo_payload = ''there''" by code_simp+
  from redelivered_merge_overwrites[OF demo_decodes(1-3) l c ran[OF 1] ran[OF 2]] show ?thesis
    unfolding b by (elim exE conjE) (rule exI, rule exI, intro conjI)
qed

lemma sync_db_ok: "db_ok (sync_db [])"
  by (simp add: db_ok_def sync_db_def empty_db_def projects_ok_def items_ok_def activities_ok_def links_ok_def keys_ok_def
      tree_project_def project_checks_def project_statuses_def)

lemma push_leaves_nothing_witness:
  "length (ps_sent (snd (push_outbound demo_codec ''A'' (\<lambda>_. replicate 24 (CHR ''n'')) demo_client demo_share (demo_pass [])))) = 1
   \<and> fst (push_outbound demo_codec ''A'' (\<lambda>_. []) demo_client demo_share
       (snd (push_outbound demo_codec ''A'' (\<lambda>_. replicate 24 (CHR ''n'')) demo_client demo_share (demo_pass [])))) = Inr ()"
proof
  let ?r = "push_outbound demo_codec ''A'' (\<lambda>_. replicate 24 (CHR ''n'')) demo_client demo_share (demo_pass [])"
  show "length (ps_sent (snd ?r)) = 1" by code_simp
  have r: "fst ?r = Inr ()" by code_simp
  have ok: "db_ok (ps_db (demo_pass []))" "states_ok (ps_db (demo_pass []))"
    by (simp_all add: demo_pass_def sync_db_ok sync_db_states)
  show "fst (push_outbound demo_codec ''A'' (\<lambda>_. []) demo_client demo_share (snd ?r)) = Inr ()"
    by (simp add: push_leaves_nothing[OF ok ran[OF r]])
qed

lemma acknowledged_means_settled_witness:
  "ps_acked (snd (pull_inbound demo_codec ''A'' demo_client demo_share (demo_pass []))) = [[4]]
   \<and> (\<exists>msgs t. mc_receive demo_client = Inr msgs \<and> settles demo_codec ''A'' demo_share (sync_db []) msgs t)"
proof
  let ?r = "pull_inbound demo_codec ''A'' demo_client demo_share (demo_pass [])"
  show a: "ps_acked (snd ?r) = [[4]]" by code_simp
  have "ps_acked (demo_pass []) = []" "ps_db (demo_pass []) = sync_db []" by (simp_all add: demo_pass_def)
  with acknowledged_means_settled[OF prod.collapse[symmetric], of demo_client demo_codec "''A''" demo_share "demo_pass []"] a
  show "\<exists>msgs t. mc_receive demo_client = Inr msgs \<and> settles demo_codec ''A'' demo_share (sync_db []) msgs t" by auto
qed

lemma peer_deletes_unshared_item_witness:
  "\<exists>i. get_item_for_sync 5 (snd (apply_item deleting_codec ''A'' demo_share (demo_env []) (sync_db [side_b\<lparr>i_project := 2\<rparr>]))) = Inr i
     \<and> i_project i = 2 \<and> i_deleted_at i \<noteq> None"
proof -
  let ?s = "sync_db [side_b\<lparr>i_project := 2\<rparr>]"
  have l: "get_item_for_sync 5 ?s = Inr (side_b\<lparr>i_project := 2\<rparr>)"
    by (simp add: get_item_for_sync_def sync_db_def side_b_def upsert_params_def)
  have d: "k_unitem deleting_codec (env_payload (demo_env [])) = Some (demo_payload\<lparr>ip_deleted_at := Some 9\<rparr>)"
    "k_unuuid deleting_codec (ip_id (demo_payload\<lparr>ip_deleted_at := Some 9\<rparr>)) = Some 5"
    "k_uuid deleting_codec 5 = ip_id (demo_payload\<lparr>ip_deleted_at := Some 9\<rparr>)" by code_simp+
  have r: "fst (apply_item deleting_codec ''A'' demo_share (demo_env []) ?s) = Inr ()" by code_simp
  have p: "i_project (side_b\<lparr>i_project := 2\<rparr>) \<noteq> s_project demo_share" "ip_deleted_at (demo_payload\<lparr>ip_deleted_at := Some 9\<rparr>) \<noteq> None"
    by (simp_all add: demo_share_def)
  from peer_deletes_unshared_item[OF d l p ran[OF r]] show ?thesis by simp
qed

lemma unattached_activity_bounces_witness:
  "sent_of 3 (kind_activity, 8) (snd (apply_activity demo_codec demo_share (demo_env []) (sync_db []))) = ''hm|77''"
proof -
  have h: "attach_to demo_codec demo_note (sync_db []) = None" "8 \<notin> a_id ` set (activities (sync_db []))"
    "content_hash demo_codec (k_act demo_codec (activity_payload_of demo_codec (synced_activity 8 (s_project demo_share) None demo_note)))
      \<noteq> content_hash demo_codec (k_act demo_codec demo_note)" "length (s_secret demo_share) = key_size" by code_simp+
  have r: "fst (apply_activity demo_codec demo_share (demo_env []) (sync_db [])) = Inr ()" by code_simp
  have c: "mc_send demo_client = (\<lambda>_ _. None)" by (simp add: demo_client_def)
  have v: "content_hash demo_codec (k_act demo_codec demo_note) = ''hm|77''" "s_id demo_share = 3" by code_simp+
  show ?thesis
    using unattached_activity_bounces[OF demo_decodes(4,5) sync_db_states h(1,2) ran[OF r] refl h(3,4) c] unfolding v by blast
qed

end
