(* ===== verification/Mail_Client.thy ===== *)
theory Mail_Client
  imports Mailbox_Http Sync_Pass
begin

text \<open>
  The HTTP client of \<open>internal/sync/client.go\<close>, over any transport, and the transport that is the
  rendezvous server itself (\<open>host_net\<close>). A transport answers a request on a route with an error of its
  own or a response, and moves the state of what is behind it. Statuses as text, the size of an encoded
  body and the encoding of an acknowledgement are in \<open>http_env\<close>. The certificates of \<open>NewClient\<close> belong
  to the transport. Mailbox identifiers are taken to be path segments.
\<close>

type_synonym 'h transport = "route \<Rightarrow> request \<Rightarrow> 'h \<Rightarrow> (error + response) \<times> 'h"

record http_env =
  he_status :: "nat \<Rightarrow> string"
  he_size :: "resp_body \<Rightarrow> nat"
  he_seqs :: "int list \<Rightarrow> string"

definition client_do :: "'h transport \<Rightarrow> route \<Rightarrow> string \<Rightarrow> string \<Rightarrow> string option \<Rightarrow> 'h \<Rightarrow> (error + response) \<times> 'h" where
  "client_do net rt mailbox token body =
     net rt \<lparr>req_auth = ''Bearer '' @ token, req_id = mailbox, req_body = body\<rparr>"

definition status_detail :: "http_env \<Rightarrow> response \<Rightarrow> string" where
  "status_detail e r =
     (case snd r of
        JError m \<Rightarrow> if he_size e (snd r) \<le> 4096 \<and> m \<noteq> [] then he_status e (fst r) @ '': '' @ m else he_status e (fst r)
      | _ \<Rightarrow> he_status e (fst r))"

definition client_send :: "http_env \<Rightarrow> 'h transport \<Rightarrow> string \<Rightarrow> string \<Rightarrow> string \<Rightarrow> 'h \<Rightarrow> (error + unit) \<times> 'h" where
  "client_send e net mailbox token sealed h =
     (case client_do net RSend mailbox token (Some sealed) h of
        (Inl er, h') \<Rightarrow> (Inl er, h')
      | (Inr r, h') \<Rightarrow>
         (if fst r = 404 then Inl ErrMailboxGone
          else if fst r \<noteq> 202 then Inl (ErrText (''send: '' @ status_detail e r))
          else Inr (), h'))"

definition mail_of :: "message \<Rightarrow> mail_message" where
  "mail_of m = \<lparr>mm_seq = msg_seq m, mm_sent_at = msg_sent_at m, mm_body = msg_body m\<rparr>"

text \<open>Decoding of the body, of which at most 64 MiB are read. An object without a \<open>messages\<close> field
  decodes to no messages.\<close>

definition max_response :: nat where "max_response = 64 * 1048576"

definition decode_messages :: "http_env \<Rightarrow> resp_body \<Rightarrow> mail_message list option" where
  "decode_messages e body =
     (if max_response < he_size e body then None
      else (case body of
              JMessages ms \<Rightarrow> Some (map mail_of ms)
            | JText _ \<Rightarrow> None
            | NoBody \<Rightarrow> None
            | _ \<Rightarrow> Some []))"

definition client_receive :: "http_env \<Rightarrow> 'h transport \<Rightarrow> string \<Rightarrow> string \<Rightarrow> 'h \<Rightarrow> (error + mail_message list) \<times> 'h" where
  "client_receive e net mailbox token h =
     (case client_do net RReceive mailbox token None h of
        (Inl er, h') \<Rightarrow> (Inl er, h')
      | (Inr r, h') \<Rightarrow>
         (if fst r = 404 then Inl ErrMailboxGone
          else if fst r \<noteq> 200 then Inl (ErrText (''receive: '' @ status_detail e r))
          else (case decode_messages e (snd r) of
                  None \<Rightarrow> Inl (ErrText ''decode messages'')
                | Some ms \<Rightarrow> Inr ms), h'))"

definition client_ack_call :: "http_env \<Rightarrow> 'h transport \<Rightarrow> string \<Rightarrow> string \<Rightarrow> int list \<Rightarrow> 'h \<Rightarrow> (error + unit) \<times> 'h" where
  "client_ack_call e net mailbox token seqs h =
     (if seqs = [] then (Inr (), h)
      else (case client_do net RAck mailbox token (Some (he_seqs e seqs)) h of
              (Inl er, h') \<Rightarrow> (Inl er, h')
            | (Inr r, h') \<Rightarrow>
               (if fst r \<noteq> 200 then Inl (ErrText (''ack: '' @ status_detail e r)) else Inr (), h')))"

definition create_mailbox :: "http_env \<Rightarrow> 'h transport \<Rightarrow> string \<Rightarrow> 'h \<Rightarrow> (error + string \<times> string \<times> string) \<times> 'h" where
  "create_mailbox e net admin h =
     (case client_do net RCreate [] admin None h of
        (Inl er, h') \<Rightarrow> (Inl er, h')
      | (Inr r, h') \<Rightarrow>
         (if fst r \<noteq> 201 then Inl (ErrText (''create mailbox: '' @ status_detail e r))
          else if 1048576 < he_size e (snd r) then Inl (ErrText ''unexpected EOF'')
          else (case snd r of
                  JCreated i wt rt \<Rightarrow> Inr (i, wt, rt)
                | JText _ \<Rightarrow> Inl (ErrText ''decode'')
                | NoBody \<Rightarrow> Inl (ErrText ''EOF'')
                | _ \<Rightarrow> Inr ([], [], [])), h'))"

text \<open>The rendezvous server as a transport.\<close>

definition host_net :: "world \<Rightarrow> mstore transport" where
  "host_net w rt r s = (case handle w rt r s of (resp, s') \<Rightarrow> (Inr resp, s'))"

subsection \<open>The client against the host\<close>

lemma bearer_of_token [simp]: "bearer \<lparr>req_auth = ''Bearer '' @ t, req_id = i, req_body = b\<rparr> = t"
  using cut_prefix_append[of "''Bearer ''" t] by (simp add: bearer_def)

lemma client_send_accepted:
  assumes ok: "store_ok s" and r: "client_send e (host_net w) mb tok sealed s = (Inr u, s')"
  shows "\<exists>q. 1 \<le> q \<and> holds mb q (Msg \<lparr>msg_seq = q, msg_sent_at = w_now w, msg_body = sealed\<rparr>) s' \<and> store_ok s'"
proof -
  let ?q = "\<lparr>req_auth = ''Bearer '' @ tok, req_id = mb, req_body = Some sealed\<rparr>"
  obtain resp where h: "http_send (w_hash w) (w_io w) (w_now w) ?q s = (resp, s')" and c: "fst resp = 202"
    using r by (cases "http_send (w_hash w) (w_io w) (w_now w) ?q s")
      (auto simp: client_send_def client_do_def host_net_def handle_def split: prod.splits if_splits)
  obtain m where m: "http_auth (w_hash w) ?q True s = Inr m"
    using h c by (cases "http_auth (w_hash w) ?q True s") (auto simp: http_send_def http_auth_def write_err_def
        split: sum.splits if_splits)
  let ?t = "take (max_message_bytes + 1) sealed"
  have len: "\<not> max_message_bytes < length ?t" "length ?t \<noteq> 0"
    using h c m by (auto simp: http_send_def write_err_def split: if_splits)
  then have t: "?t = sealed" by (auto simp: max_message_bytes_def min_def split: if_splits)
  obtain q where s: "send (w_io w) mb sealed (w_now w) s = (Inr q, s')"
    using h c m len t http_auth_meta_id[OF ok m]
    by (cases "send (w_io w) mb sealed (w_now w) s") (auto simp: http_send_def write_err_def Let_def split: sum.splits)
  show ?thesis using send_accepted(1,2)[OF ok s] send_ok[OF ok, of "w_io w" mb sealed "w_now w"] s by auto
qed

lemma client_receive_host:
  assumes ok: "store_ok s" and r: "client_receive e (host_net w) mb tok s = (Inr ms, s')"
  obtains out where "receive mb 100 (w_now w) s = (Inr out, s')" and "ms = map mail_of out"
proof -
  let ?q = "\<lparr>req_auth = ''Bearer '' @ tok, req_id = mb, req_body = None\<rparr>"
  obtain resp where h: "http_receive (w_hash w) (w_now w) ?q s = (resp, s')" and c: "fst resp = 200"
    and d: "decode_messages e (snd resp) = Some ms"
    using r by (cases "http_receive (w_hash w) (w_now w) ?q s")
      (auto simp: client_receive_def client_do_def host_net_def handle_def split: prod.splits if_splits option.splits)
  obtain m where m: "http_auth (w_hash w) ?q False s = Inr m"
    using h c by (cases "http_auth (w_hash w) ?q False s") (auto simp: http_receive_def http_auth_def write_err_def
        split: sum.splits if_splits)
  obtain res t where g: "receive mb 100 (w_now w) s = (res, t)" by (cases "receive mb 100 (w_now w) s")
  then obtain out where "res = Inr out"
    using h c m http_auth_meta_id[OF ok m] by (cases res) (auto simp: http_receive_def write_err_def)
  with g h m http_auth_meta_id[OF ok m] have *: "receive mb 100 (w_now w) s = (Inr out, s')" "resp = (200, JMessages out)"
    by (auto simp: http_receive_def)
  with d have "ms = map mail_of out" by (auto simp: decode_messages_def split: if_splits)
  with *(1) show ?thesis by (rule that)
qed

lemma client_receive_gone:
  assumes "load_meta mb s = Inl er"
  shows "client_receive e (host_net w) mb tok s = (Inl ErrMailboxGone, s)"
    and "client_send e (host_net w) mb tok b s = (Inl ErrMailboxGone, s)"
  using assms by (simp_all add: client_receive_def client_send_def client_do_def host_net_def handle_def http_receive_def
      http_send_def http_auth_def write_err_def)

lemma holds_in_ready:
  assumes ok: "store_ok s" and h: "holds mb q (Msg m) s" and q: "1 \<le> q"
    and b: "map_of (ms_boxes s) mb = Some b" and free: "\<not> leased now (ms_leases s mb) q"
    and few: "length (pending_seqs b) \<le> 100" and r: "receive mb 100 now s = (Inr out, s')"
  shows "m \<in> set out"
proof -
  have f: "map_of (box_files b) (msg_name q) = Some (Msg m)" using h b by (auto elim: holdsE)
  have "q \<in> set (pending_seqs b)"
    using pending_seqs_props(4)[OF store_ok_box[OF ok b]] q f by (simp add: pending_def)
  moreover have "length (filter (ready now (box_files b) (ms_leases s mb)) (pending_seqs b)) \<le> 100"
    using few length_filter_le le_trans by blast
  ultimately have "q \<in> set (take 100 (filter (ready now (box_files b) (ms_leases s mb)) (pending_seqs b)))"
    using free f by (simp add: ready_def msg_at_def)
  moreover have "the (msg_at (box_files b) q) = m" using f by (simp add: msg_at_def)
  ultimately show ?thesis unfolding receive_spec(1)[OF ok r b] by force
qed

subsection \<open>Properties\<close>


text \<open>Rewriting the rows with one id.\<close>

lemma keyed_rewrite:
  assumes "\<And>r. key (f r) = key r" and "set rs' = (\<lambda>r. if key r = x then f r else r) ` set rs"
  shows "{r \<in> set rs'. key r \<noteq> x} = {r \<in> set rs. key r \<noteq> x}"
    and "r \<in> set rs' \<Longrightarrow> key r = x \<Longrightarrow> \<exists>r0 \<in> set rs. r = f r0"
  using assms by (auto split: if_splits)

text \<open>Revocation takes effect: once the peer has deleted the mailbox a share drains, the next pass over
  the share finds it gone and disables the share; the pass sends nothing, acknowledges nothing, and leaves
  items, activity and every other share as they were.\<close>

theorem revoked_share_is_disabled:
  assumes "load_meta (s_recv_mb sh) st = Inl er" and "connect sh = Inr cl"
    and "mc_receive cl = fst (client_receive e (host_net w) (s_recv_mb sh) (s_recv_tok sh) st)"
  shows "let p' = run_share c inst nonces connect p sh in
    s_id sh \<notin> s_id ` set (list_enabled_project_shares (ps_db p'))
    \<and> ps_sent p' = ps_sent p \<and> ps_acked p' = ps_acked p
    \<and> items (ps_db p') = items (ps_db p) \<and> activities (ps_db p') = activities (ps_db p)
    \<and> {r \<in> set (shares (ps_db p')). s_id r \<noteq> s_id sh} = {r \<in> set (shares (ps_db p)). s_id r \<noteq> s_id sh}"
proof -
  have "mc_receive cl = Inl ErrMailboxGone" using assms(3) by (simp add: client_receive_gone[OF assms(1)])
  then have run: "sync_share c inst nonces connect sh p = (Inl ErrMailboxGone, p)"
    using assms(2) by (simp add: sync_share_def pull_inbound_def)
  let ?up = "\<lambda>f s. rows_update (\<lambda>r. s_id r = s_id sh) f (shares s)"
  let ?err = "\<lambda>r. r\<lparr>s_last_error := error_text ErrMailboxGone, s_updated_at := db_now (ps_db p)\<rparr>"
  let ?off = "\<lambda>r. r\<lparr>s_enabled := False, s_updated_at := db_now (ps_db p)\<rparr>"
  let ?rows = "rows_update (\<lambda>r. s_id r = s_id sh) ?off (rows_update (\<lambda>r. s_id r = s_id sh) ?err (shares (ps_db p)))"
  have p': "run_share c inst nonces connect p sh = p\<lparr>ps_db := (ps_db p)\<lparr>shares := ?rows\<rparr>\<rparr>"
    by (simp add: run_share_def run Let_def record_share_error_def set_share_enabled_def update_share_def stmt_def)
  have rows: "set ?rows = (\<lambda>r. if s_id r = s_id sh then ?off (?err r) else r) ` set (shares (ps_db p))"
    unfolding rows_update_def set_map image_image by (intro image_cong) simp_all
  have id: "\<And>r. s_id (?off (?err r)) = s_id r" by simp
  note rewrite = keyed_rewrite[where key = s_id and f = "\<lambda>r. ?off (?err r)", OF id rows]
  have off: "s_id sh \<notin> s_id ` set (filter s_enabled ?rows)"
  proof
    assume "s_id sh \<in> s_id ` set (filter s_enabled ?rows)"
    then obtain r where r: "r \<in> set ?rows" "s_enabled r" "s_id r = s_id sh" by auto
    from rewrite(2)[OF r(1,3)] obtain r0 where "r = ?off (?err r0)" by (rule bexE)
    then have "s_enabled r = False" by simp
    with r(2) show False by simp
  qed
  show ?thesis unfolding p' Let_def
    by (intro conjI) (use off rewrite(1) in \<open>simp_all add: list_enabled_project_shares_def\<close>)
qed

subsection \<open>A batch the client cannot read\<close>

text \<open>The results of successive polls of one mailbox, each at the time of its own request.\<close>

primrec polls :: "http_env \<Rightarrow> string \<Rightarrow> string \<Rightarrow> world list \<Rightarrow> mstore \<Rightarrow> (error + mail_message list) list" where
  "polls e mb tok [] s = []"
| "polls e mb tok (w # ws) s =
     (case client_receive e (host_net w) mb tok s of (r, s') \<Rightarrow> r # polls e mb tok ws s')"

text \<open>The messages of a mailbox in order, and the states in which they are all free or all leased until
  the same time.\<close>

definition box_messages :: "box \<Rightarrow> message list" where
  "box_messages b = map (\<lambda>q. the (msg_at (box_files b) q)) (pending_seqs b)"

definition uniform :: "string \<Rightarrow> box \<Rightarrow> mstore \<Rightarrow> bool" where
  "uniform mb b s = (store_ok s \<and> map_of (ms_boxes s) mb = Some b
     \<and> (\<exists>v. \<forall>q \<in> set (pending_seqs b). ms_leases s mb q = v))"

lemma recv_loop_keeps_files:
  "\<forall>q \<in> set qs. msg_at files q \<noteq> None \<Longrightarrow> fst (snd (recv_loop now limit qs files held out)) = files"
  by (induction qs arbitrary: held out)
    (simp_all del: recv_loop.simps(2) add: recv_loop_unfold ready_def split: option.splits)

lemma receive_uniform:
  assumes u: "uniform mb b s" and d: "\<forall>q \<in> set (pending_seqs b). msg_at (box_files b) q \<noteq> None"
    and few: "length (pending_seqs b) \<le> 100" and r: "receive mb 100 now s = (Inr out, s')"
  shows "uniform mb b s' \<and> (out = [] \<or> out = box_messages b)"
proof -
  have ok: "store_ok s" and b: "map_of (ms_boxes s) mb = Some b" using u by (simp_all add: uniform_def)
  obtain v where v: "\<forall>q \<in> set (pending_seqs b). ms_leases s mb q = v" using u by (auto simp: uniform_def)
  obtain files held where l: "recv_loop now 100 (pending_seqs b) (box_files b) (ms_leases s mb) [] = (Inr out, files, held)"
    and s': "s' = (put_box mb (b\<lparr>box_files := files\<rparr>) s)\<lparr>ms_leases := (ms_leases s)(mb := held)\<rparr>"
    using receive_cases[OF ok r] b by (metis option.inject)
  have "files = box_files b" using recv_loop_keeps_files[OF d, of now 100 "ms_leases s mb" "[]"] l by simp
  then have b': "map_of (ms_boxes s') mb = Some b" unfolding s' by (simp add: map_of_put_box)
  have ok': "store_ok s'" using receive_ok[OF ok, of mb 100 now] r by simp
  let ?dq = "take 100 (filter (ready now (box_files b) (ms_leases s mb)) (pending_seqs b))"
  note spec = receive_spec[OF ok r b]
  have rd: "ready now (box_files b) (ms_leases s mb) q \<longleftrightarrow> \<not> leased now (\<lambda>_. v) q" if "q \<in> set (pending_seqs b)" for q
    using that v d by (simp add: ready_def leased_def)
  show ?thesis
  proof (cases "leased now (\<lambda>_. v) 0")
    case True
    then have "filter (ready now (box_files b) (ms_leases s mb)) (pending_seqs b) = []"
      using rd by (auto simp: filter_empty_conv leased_def)
    with spec v b' ok' show ?thesis by (auto simp: uniform_def)
  next
    case False
    then have "filter (ready now (box_files b) (ms_leases s mb)) (pending_seqs b) = pending_seqs b"
      using rd by (auto simp: filter_id_conv leased_def)
    then have "?dq = pending_seqs b" using few by simp
    with spec b' ok' show ?thesis by (auto simp: uniform_def box_messages_def)
  qed
qed

lemma receive_returns:
  assumes "uniform mb b s" and d: "\<forall>q \<in> set (pending_seqs b). msg_at (box_files b) q \<noteq> None" and "valid_id mb"
  obtains out s' where "receive mb 100 now s = (Inr out, s')"
proof -
  have b: "map_of (ms_boxes s) mb = Some b" using assms(1) by (simp add: uniform_def)
  have "\<forall>q \<in> set (pending_seqs b). map_of (box_files b) (msg_name q) \<noteq> Some Unreadable"
    using d by (auto simp: msg_at_def)
  from recv_loop_returns[OF this, of now 100 "ms_leases s mb" "[]"]
  obtain o' f' h' where "recv_loop now 100 (pending_seqs b) (box_files b) (ms_leases s mb) [] = (Inr o', f', h')" by blast
  then have "\<exists>out s'. receive mb 100 now s = (Inr out, s')"
    using b assms(3) by (simp add: receive_def load_meta_def box_of_def)
  then show ?thesis using that by blast
qed

lemma client_poll_uniform:
  assumes u: "uniform mb b s" and d: "\<forall>q \<in> set (pending_seqs b). msg_at (box_files b) q \<noteq> None"
    and few: "length (pending_seqs b) \<le> 100" and big: "max_response < he_size e (JMessages (box_messages b))"
    and r: "client_receive e (host_net w) mb tok s = (r, s')"
  shows "uniform mb b s' \<and> (r = Inr [] \<or> (\<exists>er. r = Inl er))"
proof -
  let ?q = "\<lparr>req_auth = ''Bearer '' @ tok, req_id = mb, req_body = None\<rparr>"
  have ok: "store_ok s" using u by (simp add: uniform_def)
  show ?thesis
  proof (cases "http_auth (w_hash w) ?q False s")
    case (Inl resp)
    then have "resp = (404, JError ''mailbox not found'')" by (auto simp: http_auth_def write_err_def split: sum.splits if_splits)
    with Inl r u show ?thesis
      by (auto simp: client_receive_def client_do_def host_net_def handle_def http_receive_def)
  next
    case (Inr m)
    have "valid_id mb" using http_auth_Inr[OF Inr] by (auto simp: load_meta_def split: if_splits)
    then obtain out t where g: "receive mb 100 (w_now w) s = (Inr out, t)" by (rule receive_returns[OF u d])
    have "handle w RReceive ?q s = ((200, JMessages out), t)"
      using g Inr http_auth_meta_id[OF ok Inr] by (simp add: handle_def http_receive_def)
    then have "s' = t" "r = (case decode_messages e (JMessages out) of None \<Rightarrow> Inl (ErrText ''decode messages'') | Some ms \<Rightarrow> Inr ms)"
      using r by (simp_all add: client_receive_def client_do_def host_net_def)
    with receive_uniform[OF u d few g] big show ?thesis by (auto simp: decode_messages_def split: option.splits)
  qed
qed

text \<open>A mailbox can hold more than its owner can read in one answer, and then it never drains: when the
  messages of a mailbox (at most 100, no lease running) together encode to more than the 64 MiB the client
  reads, no poll, whenever it is made, returns any of them, so that none is ever acknowledged. (One message
  may have 8 MiB, and Receive hands out up to 100 of them at once.)\<close>

theorem oversized_mailbox_never_drains:
  assumes "store_ok s" and "map_of (ms_boxes s) mb = Some b" and "length (pending_seqs b) \<le> 100"
    and "\<forall>q \<in> set (pending_seqs b). msg_at (box_files b) q \<noteq> None \<and> ms_leases s mb q = None"
    and "max_response < he_size e (JMessages (box_messages b))"
  shows "\<forall>r \<in> set (polls e mb tok ws s). r = Inr [] \<or> (\<exists>er. r = Inl er)"
proof -
  have d: "\<forall>q \<in> set (pending_seqs b). msg_at (box_files b) q \<noteq> None" using assms(4) by blast
  have "uniform mb b s" using assms(1,2,4) by (auto simp: uniform_def)
  then show ?thesis
  proof (induction ws arbitrary: s)
    case (Cons w ws)
    obtain r s' where r: "client_receive e (host_net w) mb tok s = (r, s')" by fastforce
    have ok: "store_ok s" using Cons.prems by (simp add: uniform_def)
    have "uniform mb b s' \<and> (r = Inr [] \<or> (\<exists>er. r = Inl er))"
      using client_poll_uniform[OF Cons.prems d assms(3,5) r] .
    with Cons.IH[of s'] r show ?case by auto
  qed simp
qed

subsection \<open>Concrete runs\<close>

text \<open>A body encodes to at least the bytes of its messages.\<close>

definition demo_http :: http_env where
  "demo_http = \<lparr>he_status = dec_nat,
     he_size = (\<lambda>b. case b of JMessages ms \<Rightarrow> 16 + sum_list (map (\<lambda>m. length (msg_body m)) ms) | _ \<Rightarrow> 16),
     he_seqs = (\<lambda>_. [])\<rparr>"

definition demo_sealed :: string where
  "demo_sealed = replicate 24 (CHR ''n'') @ ''hello''"

lemma demo_client_send:
  "client_send demo_http (host_net demo_world) demo_id ''w'' demo_sealed demo_store
    = (Inr (), snd (send WritesOk demo_id demo_sealed 0 demo_store))"
proof -
  let ?q = "\<lparr>req_auth = ''Bearer '' @ ''w'', req_id = demo_id, req_body = Some demo_sealed\<rparr>"
  have "http_auth id ?q True demo_store = Inr demo_meta"
    unfolding http_auth_def bearer_of_token by (simp add: demo_load token_matches_def demo_meta_def)
  moreover have "length demo_sealed = 29" by (simp add: demo_sealed_def)
  ultimately have "handle demo_world RSend ?q demo_store = ((202, JSeq 1), snd (send WritesOk demo_id demo_sealed 0 demo_store))"
    unfolding handle_def http_send_def
    by (simp add: demo_world_def max_message_bytes_def demo_meta_id demo_send)
  then show ?thesis unfolding client_send_def client_do_def host_net_def by simp
qed

definition demo_mailed :: mstore where
  "demo_mailed = \<lparr>ms_boxes = [(demo_id, \<lparr>box_meta = demo_meta\<lparr>next_seq := 2\<rparr>,
     box_files = [(msg_name 1, Msg \<lparr>msg_seq = 1, msg_sent_at = 0, msg_body = demo_sealed\<rparr>)]\<rparr>)], ms_leases = (\<lambda>_ _. None)\<rparr>"

lemma demo_mailed_run: "demo_mailed = foldl (mstep id) (snd (send WritesOk demo_id demo_sealed 0 demo_store)) [EvRestart]"
  by (simp add: demo_send demo_mailed_def restart_def)

lemma demo_client_receive:
  "fst (client_receive demo_http (host_net demo_world) demo_id ''r'' demo_mailed)
    = Inr [\<lparr>mm_seq = 1, mm_sent_at = 0, mm_body = demo_sealed\<rparr>]"
proof -
  let ?q = "\<lparr>req_auth = ''Bearer '' @ ''r'', req_id = demo_id, req_body = None\<rparr>"
  have "http_auth id ?q False demo_mailed = Inr (demo_meta\<lparr>next_seq := 2\<rparr>)"
    unfolding http_auth_def bearer_of_token by (simp add: load_meta_def demo_mailed_def token_matches_def demo_meta_def)
  moreover have "fst (receive demo_id 100 0 demo_mailed) = Inr [\<lparr>msg_seq = 1, msg_sent_at = 0, msg_body = demo_sealed\<rparr>]"
    by (simp add: receive_def load_meta_def demo_mailed_def pending_seqs_def List.map_filter_def Let_def)
  ultimately have "fst (handle demo_world RReceive ?q demo_mailed)
      = (200, JMessages [\<lparr>msg_seq = 1, msg_sent_at = 0, msg_body = demo_sealed\<rparr>])"
    unfolding handle_def http_receive_def by (auto simp: demo_world_def demo_meta_def split: prod.splits)
  moreover have "length demo_sealed = 29" by (simp add: demo_sealed_def)
  ultimately show ?thesis unfolding client_receive_def client_do_def host_net_def
    by (auto simp: decode_messages_def demo_http_def max_response_def mail_of_def split: prod.splits)
qed


definition gone_client :: mail_client where
  "gone_client = demo_client\<lparr>mc_receive := fst (client_receive demo_http (host_net demo_world) ''r'' [] demo_store)\<rparr>"

lemma revoked_share_is_disabled_witness:
  "s_id demo_share \<notin> s_id ` set (list_enabled_project_shares (ps_db
     (run_share demo_codec ''A'' (\<lambda>_. []) (\<lambda>_. Inr gone_client) (demo_pass []) demo_share)))"
proof -
  have gone: "load_meta (s_recv_mb demo_share) demo_store = Inl err_not_found"
    by (simp add: load_meta_def demo_share_def demo_store_def valid_id_def token_bytes_def)
  have "mc_receive gone_client
      = fst (client_receive demo_http (host_net demo_world) (s_recv_mb demo_share) (s_recv_tok demo_share) demo_store)"
    by (simp add: gone_client_def demo_share_def)
  from revoked_share_is_disabled[OF gone refl this, of demo_codec "''A''" "\<lambda>_. []" "demo_pass []"]
  show ?thesis unfolding Let_def by (rule conjunct1)
qed

definition big_message :: "int \<Rightarrow> message" where
  "big_message q = \<lparr>msg_seq = q, msg_sent_at = 0, msg_body = replicate max_message_bytes (CHR ''x'')\<rparr>"

definition big_box :: box where
  "big_box = \<lparr>box_meta = demo_meta\<lparr>next_seq := 10\<rparr>, box_files = map (\<lambda>q. (msg_name q, Msg (big_message q))) [1, 2, 3, 4, 5, 6, 7, 8, 9]\<rparr>"

definition big_store :: mstore where
  "big_store = \<lparr>ms_boxes = [(demo_id, big_box)], ms_leases = (\<lambda>_ _. None)\<rparr>"

lemma big_pending: "pending_seqs big_box = [1, 2, 3, 4, 5, 6, 7, 8, 9]"
  by (simp add: pending_seqs_def big_box_def List.map_filter_def)

lemma big_store_ok: "store_ok big_store"
proof -
  have "\<forall>e \<in> set (box_files big_box). file_ok 10 e"
    unfolding big_box_def file_ok_def by (auto simp: big_message_def intro: exI)
  moreover have "distinct (map fst (box_files big_box))" by (simp add: big_box_def msg_name_inj)
  ultimately show ?thesis
    by (simp add: store_ok_def big_store_def box_ok_def max_mailboxes_def) (simp add: big_box_def demo_meta_def max_pending_def)
qed

lemma big_msg_at: "q \<in> {1, 2, 3, 4, 5, 6, 7, 8, 9} \<Longrightarrow> msg_at (box_files big_box) q = Some (big_message q)"
  by (auto simp: big_box_def msg_at_def msg_name_inj)

lemma oversized_mailbox_never_drains_witness:
  "set (polls demo_http demo_id ''r'' [demo_world, demo_world] big_store) \<inter> {Inr (map mail_of (box_messages big_box))} = {}"
proof -
  have msgs: "box_messages big_box = map big_message [1, 2, 3, 4, 5, 6, 7, 8, 9]"
    unfolding box_messages_def big_pending by (simp add: big_msg_at)
  have "max_response < he_size demo_http (JMessages (box_messages big_box))"
    by (simp add: msgs demo_http_def max_response_def big_message_def max_message_bytes_def)
  from oversized_mailbox_never_drains[OF big_store_ok _ _ _ this, of demo_id "''r''" "[demo_world, demo_world]"]
  have "\<forall>r \<in> set (polls demo_http demo_id ''r'' [demo_world, demo_world] big_store). r = Inr [] \<or> (\<exists>er. r = Inl er)"
    by (simp add: big_pending big_msg_at) (simp add: big_store_def)
  then show ?thesis by (auto simp: msgs)
qed

end
