(* ===== verification/Sharing.thy ===== *)
theory Sharing
  imports Settings Mail_Client
begin

text \<open>
  Setting up a share: \<open>internal/service/sharing.go\<close> and the handlers of \<open>internal/api/sharing.go\<close>. The
  mailbox host is reached over one transport per call; the parsing of certificates, the drawn key and the
  answer of the certificate endpoint are arguments.
\<close>

subsection \<open>Configuration\<close>

definition setting_mailbox_url :: string where "setting_mailbox_url = ''mailbox_url''"
definition setting_mailbox_admin :: string where "setting_mailbox_admin = ''mailbox_admin_token''"
definition setting_mailbox_cert :: string where "setting_mailbox_cert = ''mailbox_client_cert''"
definition setting_mailbox_key :: string where "setting_mailbox_key = ''mailbox_client_key''"
definition setting_mailbox_ca :: string where "setting_mailbox_ca = ''mailbox_ca_pem''"
definition setting_instance_id :: string where "setting_instance_id = ''instance_id''"

record mailbox_config =
  mb_url :: string
  mb_admin :: string
  mb_cert :: string
  mb_key :: string
  mb_ca :: string
  mb_bundle_cert :: string
  mb_bundle_key :: string
  mb_bundle_name :: string
  mb_bundle_print :: string

definition trim_slashes :: "string \<Rightarrow> string" where
  "trim_slashes s = rev (dropWhile (\<lambda>c. c = CHR ''/'') (rev s))"

definition normalize_config :: "mailbox_config \<Rightarrow> mailbox_config" where
  "normalize_config c = c\<lparr>mb_cert := (if mb_cert c = [] then mb_bundle_cert c else mb_cert c),
     mb_key := (if mb_key c = [] then mb_bundle_key c else mb_key c),
     mb_bundle_cert := [], mb_bundle_key := [], mb_bundle_name := [], mb_bundle_print := [],
     mb_url := trim_slashes (trim_space (mb_url c))\<rparr>"

definition validate_config :: "(string \<Rightarrow> string \<Rightarrow> bool) \<Rightarrow> (string \<Rightarrow> bool) \<Rightarrow> mailbox_config \<Rightarrow> string option" where
  "validate_config pair_ok ca_ok c =
     (if mb_url c = [] then Some ''mailbox url is required (e.g. https://198.51.100.10)''
      else if \<not> has_prefix ''https://'' (mb_url c) then Some ''mailbox url must be https''
      else if mb_cert c = [] then Some ''client certificate is missing (cert_pem from the bundle)''
      else if mb_key c = [] then Some ''client key is missing (key_pem from the bundle)''
      else if mb_ca c = [] then Some ''CA certificate is missing (ca_pem from the bundle)''
      else if \<not> pair_ok (mb_cert c) (mb_key c) then Some ''certificate and key do not form a valid pair''
      else if \<not> ca_ok (mb_ca c) then Some ''ca_pem is not a valid certificate'' else None)"

definition configured :: "mailbox_config \<Rightarrow> bool" where
  "configured c = (mb_url c \<noteq> [] \<and> mb_cert c \<noteq> [] \<and> mb_key c \<noteq> [] \<and> mb_ca c \<noteq> [])"

definition read_mailbox_config :: "server \<Rightarrow> mailbox_config" where
  "read_mailbox_config sv =
     (let get = (\<lambda>k. coalesce (setting_string k (sv_db sv)) []) in
      \<lparr>mb_url = trim_slashes (get setting_mailbox_url), mb_admin = get setting_mailbox_admin,
       mb_cert = get setting_mailbox_cert, mb_key = get setting_mailbox_key, mb_ca = get setting_mailbox_ca,
       mb_bundle_cert = [], mb_bundle_key = [], mb_bundle_name = [], mb_bundle_print = []\<rparr>)"

text \<open>The settings are stored one by one, in the order the iteration over the map takes them, here the
  order of the source; the first failure ends it.\<close>

primrec put_all :: "gtime \<Rightarrow> (string \<times> string) list \<Rightarrow> server \<Rightarrow> (error + unit) \<times> server" where
  "put_all now [] sv = (Inr (), sv)"
| "put_all now (kv # kvs) sv =
     (case put_setting (fst kv) (JStr (snd kv)) now sv of (Inl e, sv') \<Rightarrow> (Inl e, sv') | (Inr _, sv') \<Rightarrow> put_all now kvs sv')"

definition set_mailbox_config :: "mailbox_config \<Rightarrow> gtime \<Rightarrow> server \<Rightarrow> (error + unit) \<times> server" where
  "set_mailbox_config c now = put_all now [(setting_mailbox_url, trim_slashes (mb_url c)), (setting_mailbox_admin, mb_admin c),
     (setting_mailbox_cert, mb_cert c), (setting_mailbox_key, mb_key c), (setting_mailbox_ca, mb_ca c)]"

text \<open>\<open>fresh\<close> is the identifier drawn when there is none yet.\<close>

definition instance_id :: "string \<Rightarrow> gtime \<Rightarrow> server \<Rightarrow> (error + string) \<times> server" where
  "instance_id fresh now sv =
     (let v = coalesce (setting_string setting_instance_id (sv_db sv)) [] in
      if v \<noteq> [] then (Inr v, sv)
      else (case put_setting setting_instance_id (JStr fresh) now sv of
              (Inl e, sv') \<Rightarrow> (Inl e, sv')
            | (Inr _, sv') \<Rightarrow> (Inr fresh, sv')))"

subsection \<open>Sharing a project\<close>

record cert_bundle =
  bu_cert :: string
  bu_key :: string
  bu_ca :: string

text \<open>
  What a call meets outside: \<open>NewClient\<close> on the configuration, the transport of each of the two creations,
  the answer of \<open>POST /v1/clients\<close> to the name (an error of the transport, or a status with what the body
  decodes to), and the key drawn.
\<close>

record 'h share_env =
  sh_client :: "mailbox_config \<Rightarrow> error option"
  sh_first :: "'h transport"
  sh_second :: "'h transport"
  sh_issue :: "string \<Rightarrow> error + nat \<times> (error + cert_bundle)"
  sh_key :: "error + string"

definition issue_peer_bundle :: "'h share_env \<Rightarrow> mailbox_config \<Rightarrow> string \<Rightarrow> error + cert_bundle" where
  "issue_peer_bundle e cfg name =
     (case sh_client e cfg of
        Some er \<Rightarrow> Inl er
      | None \<Rightarrow>
         (case sh_issue e (if name = [] then ''peer'' else name) of
            Inl er \<Rightarrow> Inl er
          | Inr (status, body) \<Rightarrow>
             (if status \<noteq> 201 then Inl (ErrText ''mailbox host refused to issue a certificate'') else body)))"

text \<open>The columns of a new share row; identifier, stamps and \<open>enabled\<close> are set by the statement.\<close>

definition new_share :: "uuid \<Rightarrow> string \<Rightarrow> string \<Rightarrow> string \<times> string \<Rightarrow> string \<times> string \<Rightarrow> string \<Rightarrow> cert_bundle \<Rightarrow> share" where
  "new_share pr peer url snd_box rcv_box secret b = \<lparr>s_id = 0, s_project = pr, s_peer = peer, s_url = url,
     s_send_mb = fst snd_box, s_send_tok = snd snd_box, s_recv_mb = fst rcv_box, s_recv_tok = snd rcv_box,
     s_secret = secret, s_cert = bu_cert b, s_ckey = bu_key b, s_ca = bu_ca b, s_enabled = True, s_last_send = None,
     s_last_recv = None, s_last_error = [], s_created_at = 0, s_updated_at = 0\<rparr>"

definition share_invite :: "string \<Rightarrow> project \<Rightarrow> string \<Rightarrow> string \<times> string \<Rightarrow> string \<times> string \<Rightarrow> string \<Rightarrow> cert_bundle \<Rightarrow> invite" where
  "share_invite peer p url snd_box rcv_box secret b = \<lparr>iv_version = protocol_version, iv_peer = peer, iv_slug = p_slug p,
     iv_name = p_name p, iv_url = url, iv_send_mb = fst snd_box, iv_send_tok = snd snd_box, iv_recv_mb = fst rcv_box,
     iv_recv_tok = snd rcv_box, iv_secret = secret, iv_cert = bu_cert b, iv_key = bu_key b, iv_ca = bu_ca b\<rparr>"

definition own_bundle :: "mailbox_config \<Rightarrow> cert_bundle" where
  "own_bundle cfg = \<lparr>bu_cert = mb_cert cfg, bu_key = mb_key cfg, bu_ca = mb_ca cfg\<rparr>"

text \<open>The statement and the code, once mailboxes, key and certificate are there.\<close>

definition finish_share :: "codec \<Rightarrow> mailbox_config \<Rightarrow> project \<Rightarrow> string \<Rightarrow> string \<times> string \<times> string \<Rightarrow> string \<times> string \<times> string
    \<Rightarrow> string \<Rightarrow> cert_bundle \<Rightarrow> gtime \<Rightarrow> server \<Rightarrow> (error + string) \<times> server" where
  "finish_share c cfg p peer ours theirs secret b now sv =
     (case ours of (oid, owrite, oread) \<Rightarrow> case theirs of (tid, twrite, tread) \<Rightarrow>
      case with_tx now (create_project_share (new_share (p_id p) peer (mb_url cfg) (tid, twrite) (oid, oread) secret (own_bundle cfg)))
             (sv_db sv) of
        (Inl er, s') \<Rightarrow> (Inl er, sv\<lparr>sv_db := s'\<rparr>)
      | (Inr _, s') \<Rightarrow>
         (Inr (encode_invite c (share_invite peer p (mb_url cfg) (oid, owrite) (tid, tread) secret b)), sv\<lparr>sv_db := s'\<rparr>))"

definition share_project :: "codec \<Rightarrow> http_env \<Rightarrow> 'h share_env \<Rightarrow> string \<Rightarrow> string \<Rightarrow> gtime \<Rightarrow> server \<Rightarrow> 'h
    \<Rightarrow> (error + string) \<times> server \<times> 'h" where
  "share_project c he e slug peer now sv h =
     (let cfg = read_mailbox_config sv in
      if \<not> configured cfg then (Inl ErrSharingNotConfigured, sv, h)
      else if mb_admin cfg = [] then (Inl (ErrText ''creating a share needs the mailbox admin token''), sv, h)
      else (case find_slug slug (sv_db sv) of
        Inl er \<Rightarrow> (Inl er, sv, h)
      | Inr p \<Rightarrow>
      (case sh_client e cfg of
        Some er \<Rightarrow> (Inl er, sv, h)
      | None \<Rightarrow>
      (case create_mailbox he (sh_first e) (mb_admin cfg) h of
        (Inl er, h1) \<Rightarrow> (Inl er, sv, h1)
      | (Inr ours, h1) \<Rightarrow>
      (case create_mailbox he (sh_second e) (mb_admin cfg) h1 of
        (Inl er, h2) \<Rightarrow> (Inl er, sv, h2)
      | (Inr theirs, h2) \<Rightarrow>
      (case sh_key e of
        Inl er \<Rightarrow> (Inl er, sv, h2)
      | Inr secret \<Rightarrow>
      (case issue_peer_bundle e cfg peer of
        Inl er \<Rightarrow> (Inl er, sv, h2)
      | Inr b \<Rightarrow>
         (case finish_share c cfg p peer ours theirs secret b now sv of (r, sv') \<Rightarrow> (r, sv', h2)))))))))"

text \<open>\<open>AcceptInvite\<close>: the project is the one with the slug, or a new one.\<close>

definition local_project :: "string \<Rightarrow> invite \<Rightarrow> gtime \<Rightarrow> db \<Rightarrow> (error + project) \<times> db" where
  "local_project local_slug iv now s =
     (let slug = (if local_slug = [] then iv_slug iv else local_slug);
          name = (if iv_name iv = [] then slug else iv_name iv)
      in case find_slug slug s of
           Inr p \<Rightarrow> (Inr p, s)
         | Inl _ \<Rightarrow> with_tx now (create_project \<lparr>pp_slug = slug, pp_name = name, pp_status = None, pp_summary = None,
             pp_instructions = None, pp_repo_url = None, pp_site_url = None, pp_aliases = None, pp_parent = None\<rparr>) s)"

definition invited_share :: "uuid \<Rightarrow> invite \<Rightarrow> share" where
  "invited_share pr iv = new_share pr (iv_peer iv) (iv_url iv) (iv_send_mb iv, iv_send_tok iv) (iv_recv_mb iv, iv_recv_tok iv)
     (iv_secret iv) \<lparr>bu_cert = iv_cert iv, bu_key = iv_key iv, bu_ca = iv_ca iv\<rparr>"

definition accept_invite :: "codec \<Rightarrow> string \<Rightarrow> string \<Rightarrow> gtime \<Rightarrow> server \<Rightarrow> (error + uuid) \<times> server" where
  "accept_invite c code local_slug now sv =
     (case decode_invite c (trim_space code) of
        Inl er \<Rightarrow> (Inl er, sv)
      | Inr iv \<Rightarrow>
         (case local_project local_slug iv now (sv_db sv) of
            (Inl er, s1) \<Rightarrow> (Inl er, sv\<lparr>sv_db := s1\<rparr>)
          | (Inr p, s1) \<Rightarrow>
             (case with_tx now (create_project_share (invited_share (p_id p) iv)) s1 of
                (Inl er, s2) \<Rightarrow> (Inl er, sv\<lparr>sv_db := s2\<rparr>)
              | (Inr _, s2) \<Rightarrow> (Inr (p_id p), sv\<lparr>sv_db := s2\<rparr>))))"

subsection \<open>Handlers\<close>

definition share_status :: "error + string \<Rightarrow> nat" where
  "share_status r = (case r of
     Inr _ \<Rightarrow> 201
   | Inl er \<Rightarrow> if er = ErrSharingNotConfigured then 412
       else if er = NoRows then 404 else if er = ErrConflict \<or> er = ErrIdempotencyConflict then 409 else 500)"

definition share_handler :: "codec \<Rightarrow> http_env \<Rightarrow> 'h share_env \<Rightarrow> (string \<times> string) option \<Rightarrow> gtime \<Rightarrow> server \<Rightarrow> 'h
    \<Rightarrow> (nat \<times> string option) \<times> server \<times> 'h" where
  "share_handler c he e req now sv h =
     (case req of
        None \<Rightarrow> ((400, None), sv, h)
      | Some (slug, peer) \<Rightarrow>
         (if slug = [] then ((400, None), sv, h)
          else (case share_project c he e slug peer now sv h of
                  (r, rest) \<Rightarrow> ((share_status r, case r of Inr code \<Rightarrow> Some code | Inl _ \<Rightarrow> None), rest))))"

definition accept_handler :: "codec \<Rightarrow> (string \<times> string) option \<Rightarrow> gtime \<Rightarrow> server \<Rightarrow> (nat \<times> uuid option) \<times> server" where
  "accept_handler c req now sv =
     (case req of
        None \<Rightarrow> ((400, None), sv)
      | Some (code, slug) \<Rightarrow>
         (if code = [] then ((400, None), sv)
          else (case accept_invite c code slug now sv of
                  (Inl _, sv') \<Rightarrow> ((400, None), sv')
                | (Inr x, sv') \<Rightarrow> ((201, Some x), sv'))))"

text \<open>What a share shows: no token, no key. \<open>listShares\<close>, and the view of the configuration.\<close>

record share_view =
  sw_id :: uuid
  sw_project :: uuid
  sw_peer :: string
  sw_url :: string
  sw_enabled :: bool
  sw_last_send :: "gtime option"
  sw_last_recv :: "gtime option"
  sw_last_error :: string
  sw_created_at :: gtime

definition view_share :: "share \<Rightarrow> share_view" where
  "view_share r = \<lparr>sw_id = s_id r, sw_project = s_project r, sw_peer = s_peer r, sw_url = s_url r, sw_enabled = s_enabled r,
     sw_last_send = s_last_send r, sw_last_recv = s_last_recv r, sw_last_error = s_last_error r, sw_created_at = s_created_at r\<rparr>"

definition list_shares :: "server \<Rightarrow> share_view list" where
  "list_shares sv = map view_share (list_project_shares (sv_db sv))"

definition delete_share_handler :: "uuid option \<Rightarrow> gtime \<Rightarrow> server \<Rightarrow> nat \<times> server" where
  "delete_share_handler x now sv =
     (case x of
        None \<Rightarrow> (400, sv)
      | Some u \<Rightarrow> (case with_tx now (delete_project_share u) (sv_db sv) of
                    (Inl er, s') \<Rightarrow> (500, sv\<lparr>sv_db := s'\<rparr>)
                  | (Inr _, s') \<Rightarrow> (204, sv\<lparr>sv_db := s'\<rparr>)))"

definition get_config_view :: "server \<Rightarrow> string \<times> bool \<times> bool \<times> bool" where
  "get_config_view sv = (let c = read_mailbox_config sv in
     (mb_url c, mb_url c \<noteq> [] \<and> mb_cert c \<noteq> [], mb_admin c \<noteq> [], mb_cert c \<noteq> []))"

definition put_config_handler :: "(string \<Rightarrow> string \<Rightarrow> bool) \<Rightarrow> (string \<Rightarrow> bool) \<Rightarrow> mailbox_config option \<Rightarrow> gtime \<Rightarrow> server
    \<Rightarrow> nat \<times> server" where
  "put_config_handler pair_ok ca_ok req now sv =
     (case req of
        None \<Rightarrow> (400, sv)
      | Some c0 \<Rightarrow>
         (let c = normalize_config c0 in
          if validate_config pair_ok ca_ok c \<noteq> None then (400, sv)
          else (case set_mailbox_config c now sv of (Inl _, sv') \<Rightarrow> (500, sv') | (Inr _, sv') \<Rightarrow> (204, sv'))))"

subsection \<open>Lemmas\<close>

text \<open>An invite code has no white space at its ends.\<close>

lemma code_no_space:
  assumes "s \<noteq> []" and "set s \<subseteq> set (CHR ''f'' # b64_alphabet)"
  shows "trim_space s = s"
proof -
  have h: "\<forall>e \<in> set space_runes. hd e \<notin> set (CHR ''f'' # b64_alphabet) \<and> last e \<notin> set (CHR ''f'' # b64_alphabet)"
    by code_simp
  have "no_lead_space s"
    unfolding no_lead_space_def
  proof
    fix e assume e: "e \<in> set space_runes"
    show "\<not> has_prefix e s"
    proof
      assume "has_prefix e s"
      then obtain r where "s = e @ r" by (auto simp: has_prefix_iff)
      with space_runes_nonempty[OF e] have "hd e \<in> set s" by simp
      with e h assms(2) show False by blast
    qed
  qed
  moreover have "no_trail_space s"
    unfolding no_trail_space_def
  proof
    fix e assume e: "e \<in> set space_runes"
    show "\<not> has_suffix e s"
    proof
      assume "has_suffix e s"
      then obtain r where "s = r @ e" by (auto simp: has_suffix_iff)
      with space_runes_nonempty[OF e] have "last e \<in> set s" by simp
      with e h assms(2) show False by blast
    qed
  qed
  ultimately show ?thesis by (simp add: trim_space_def trim_left_id trim_right_id)
qed

lemma trim_invite_code: "trim_space (encode_invite c i) = encode_invite c i"
proof (rule code_no_space)
  have "set invite_prefix \<subseteq> set (CHR ''f'' # b64_alphabet)" by code_simp
  then show "set (encode_invite c i) \<subseteq> set (CHR ''f'' # b64_alphabet)"
    using b64_encode_alphabet[of "k_invite c i"] by (auto simp: encode_invite_def)
qed (simp add: encode_invite_def invite_prefix_def)

lemma create_mailbox_host:
  assumes "create_mailbox he (host_net w) admin s = (Inr (i, wt, rt), s')" and "valid_id (fst (w_drawn w))"
  shows "(i, wt, rt) = w_drawn w"
    and "\<exists>m. load_meta i s' = Inr m \<and> write_token_sha m = w_hash w wt \<and> read_token_sha m = w_hash w rt"
    and "j \<noteq> i \<Longrightarrow> load_meta j s' = load_meta j s"
proof -
  let ?q = "\<lparr>req_auth = ''Bearer '' @ admin, req_id = [], req_body = None\<rparr>"
  obtain resp where h: "http_create (w_admin w) (w_hash w) (w_drawn w) (w_now w) ?q s = (resp, s')" and c: "fst resp = 201"
    and b: "(case snd resp of JCreated i wt rt \<Rightarrow> Inr (i, wt, rt) | JText _ \<Rightarrow> Inl (ErrText ''decode'')
              | NoBody \<Rightarrow> Inl (ErrText ''EOF'') | _ \<Rightarrow> Inr ([], [], [])) = (Inr (i, wt, rt) :: error + string \<times> string \<times> string)"
    using assms(1) by (cases "http_create (w_admin w) (w_hash w) (w_drawn w) (w_now w) ?q s")
      (auto simp: create_mailbox_def client_do_def host_net_def handle_def split: prod.splits if_splits)
  obtain i0 w0 r0 where d: "w_drawn w = (i0, w0, r0)" by (cases "w_drawn w")
  have ok: "create (w_hash w) i0 w0 r0 (w_now w) s = (Inr (i0, w0, r0), s')" and resp: "resp = (201, JCreated i0 w0 r0)"
    using h c d by (auto simp: http_create_def write_err_def create_def split: if_splits)
  have eq: "(i, wt, rt) = (i0, w0, r0)" using b resp by simp
  then show "(i, wt, rt) = w_drawn w" by (simp add: d)
  have s': "\<exists>fs. s' = put_box i0 \<lparr>box_meta = \<lparr>meta_id = i0, write_token_sha = w_hash w w0, read_token_sha = w_hash w r0,
      meta_created_at = w_now w, next_seq = 1\<rparr>, box_files = fs\<rparr> s"
    using ok by (auto simp: create_def Let_def split: if_splits)
  then show "\<exists>m. load_meta i s' = Inr m \<and> write_token_sha m = w_hash w wt \<and> read_token_sha m = w_hash w rt"
    using assms(2) d eq by (auto simp: load_meta_def map_of_put_box)
  show "j \<noteq> i \<Longrightarrow> load_meta j s' = load_meta j s" using s' eq by (auto simp: load_meta_def map_of_put_box)
qed

lemma create_share_Inr:
  assumes "with_tx now (create_project_share p) s = (Inr r, s')"
  shows "r \<in> set (shares s') \<and> s_project r = s_project p \<and> s_peer r = s_peer p \<and> s_url r = s_url p
    \<and> s_send_mb r = s_send_mb p \<and> s_send_tok r = s_send_tok p \<and> s_recv_mb r = s_recv_mb p \<and> s_recv_tok r = s_recv_tok p
    \<and> s_secret r = s_secret p \<and> s_enabled r"
  using assms by (auto simp: with_tx_Inr create_project_share_def tx_simps Let_def split: if_splits)

lemma accept_invite_Inr:
  assumes "accept_invite c code local now sv = (Inr pid, sv')" and "decode_invite c (trim_space code) = Inr iv"
  shows "\<exists>r \<in> set (shares (sv_db sv')). s_project r = pid \<and> s_url r = iv_url iv \<and> s_send_mb r = iv_send_mb iv
    \<and> s_send_tok r = iv_send_tok iv \<and> s_recv_mb r = iv_recv_mb iv \<and> s_recv_tok r = iv_recv_tok iv
    \<and> s_secret r = iv_secret iv \<and> s_enabled r"
proof -
  obtain p :: project and s1 r s2 where r: "with_tx now (create_project_share (invited_share (p_id p) iv)) s1 = (Inr r, s2)"
    and p: "pid = p_id p" "sv' = sv\<lparr>sv_db := s2\<rparr>"
  proof -
    obtain res s1 where l: "local_project local iv now (sv_db sv) = (res, s1)" by (cases "local_project local iv now (sv_db sv)")
    then obtain p where p: "res = Inr p" using assms by (cases res) (simp_all add: accept_invite_def)
    obtain res2 s2 where w: "with_tx now (create_project_share (invited_share (p_id p) iv)) s1 = (res2, s2)"
      by (cases "with_tx now (create_project_share (invited_share (p_id p) iv)) s1")
    then obtain r where "res2 = Inr r" using assms l p by (cases res2) (simp_all add: accept_invite_def)
    with w l p assms show thesis by (intro that[of p s1 r s2]) (simp_all add: accept_invite_def)
  qed
  from create_share_Inr[OF r] show ?thesis by (intro bexI[of _ r]) (simp_all add: invited_share_def new_share_def p)
qed

subsection \<open>Properties\<close>

text \<open>C16: Sharing links two instances back to back: when one instance shares a project and another accepts the
  code it got, both end up with an enabled share of their project over the same key, each sends into the
  mailbox the other drains, and on the mailbox host the token each of them holds is the one its direction
  needs.\<close>

theorem accepted_invite_links_both:
  assumes "share_project c he e slug peer now sva st = (Inr code, sva', st')"
    and "accept_invite c code local_slug now' svb = (Inr pid, svb')"
    and "sh_first e = host_net w1" and "sh_second e = host_net w2" and "w_hash w2 = w_hash w1"
    and "valid_id (fst (w_drawn w1))" and "valid_id (fst (w_drawn w2))" and "fst (w_drawn w1) \<noteq> fst (w_drawn w2)"
    and "\<And>i. iv_version i = protocol_version \<Longrightarrow> k_uninvite c (k_invite c i) = Some i" and "\<And>i. k_invite c i \<noteq> []"
    and "\<And>k. sh_key e = Inr k \<Longrightarrow> length k = key_size"
  shows "\<exists>a \<in> set (shares (sv_db sva')). \<exists>b \<in> set (shares (sv_db svb')). \<exists>(p :: project) ma mb.
    find_slug slug (sv_db sva) = Inr p \<and> s_project a = p_id p \<and> s_project b = pid \<and> s_enabled a \<and> s_enabled b
    \<and> s_secret b = s_secret a \<and> length (s_secret a) = key_size \<and> s_url b = s_url a
    \<and> s_recv_mb b = s_send_mb a \<and> s_send_mb b = s_recv_mb a
    \<and> load_meta (s_send_mb a) st' = Inr mb \<and> write_token_sha mb = w_hash w1 (s_send_tok a) \<and> read_token_sha mb = w_hash w1 (s_recv_tok b)
    \<and> load_meta (s_recv_mb a) st' = Inr ma \<and> write_token_sha ma = w_hash w1 (s_send_tok b) \<and> read_token_sha ma = w_hash w1 (s_recv_tok a)"
proof -
  let ?cfg = "read_mailbox_config sva"
  obtain p ours theirs h1 secret b where steps: "configured ?cfg" "find_slug slug (sv_db sva) = Inr p"
    "create_mailbox he (host_net w1) (mb_admin ?cfg) st = (Inr ours, h1)"
    "create_mailbox he (host_net w2) (mb_admin ?cfg) h1 = (Inr theirs, st')"
    "sh_key e = Inr secret" "finish_share c ?cfg p peer ours theirs secret b now sva = (Inr code, sva')"
    using assms(1,3,4) by (auto simp: share_project_def Let_def split: if_splits sum.splits option.splits prod.splits)
  obtain oi ow orr where o: "ours = (oi, ow, orr)" by (cases ours)
  obtain ti tw tr where t: "theirs = (ti, tw, tr)" by (cases theirs)
  note m1 = create_mailbox_host[OF steps(3)[unfolded o] assms(6)]
  note m2 = create_mailbox_host[OF steps(4)[unfolded t] assms(7)]
  have ids: "oi = fst (w_drawn w1)" "ti = fst (w_drawn w2)" using m1(1) m2(1) by (metis fst_conv)+
  have ne: "oi \<noteq> []" "ti \<noteq> []" using assms(6,7) ids by (auto simp: valid_id_def token_bytes_def)
  define iv where "iv = share_invite peer p (mb_url ?cfg) (oi, ow) (ti, tr) secret b"
  let ?new = "new_share (p_id p) peer (mb_url ?cfg) (ti, tw) (oi, orr) secret (own_bundle ?cfg)"
  obtain a s' where a: "with_tx now (create_project_share ?new) (sv_db sva) = (Inr a, s')" "sva' = sva\<lparr>sv_db := s'\<rparr>"
    "code = encode_invite c iv"
    using steps(6) by (auto simp: finish_share_def o t iv_def split: prod.splits sum.splits)
  have "decode_invite c (trim_space code) = Inr iv"
    unfolding a(3) trim_invite_code
    by (rule invite_roundtrip) (use assms(9,10) assms(11)[OF steps(5)] steps(1) ne in \<open>simp_all add: iv_def share_invite_def configured_def\<close>)
  from accept_invite_Inr[OF assms(2) this] obtain r where r: "r \<in> set (shares (sv_db svb'))"
    "s_project r = pid" "s_url r = mb_url ?cfg" "s_send_mb r = oi" "s_send_tok r = ow" "s_recv_mb r = ti" "s_recv_tok r = tr"
    "s_secret r = secret" "s_enabled r" by (auto simp: iv_def share_invite_def)
  have a': "a \<in> set (shares (sv_db sva'))" "s_project a = p_id p" "s_url a = mb_url ?cfg" "s_send_mb a = ti" "s_send_tok a = tw"
    "s_recv_mb a = oi" "s_recv_tok a = orr" "s_secret a = secret" "s_enabled a"
    using create_share_Inr[OF a(1)] by (simp_all add: a(2) new_share_def)
  obtain ma mb where metas: "load_meta oi h1 = Inr ma" "write_token_sha ma = w_hash w1 ow" "read_token_sha ma = w_hash w1 orr"
    "load_meta ti st' = Inr mb" "write_token_sha mb = w_hash w1 tw" "read_token_sha mb = w_hash w1 tr"
    using m1(2) m2(2) assms(5) by auto
  have "load_meta oi st' = Inr ma" using m2(3)[of oi] metas(1) ids assms(8) by simp
  with metas a' r steps(2) assms(11)[OF steps(5)] show ?thesis
    by (intro bexI[OF _ a'(1)] bexI[OF _ r(1)] exI[of _ p] exI[of _ ma] exI[of _ mb] conjI) simp_all
qed

subsection \<open>A concrete link\<close>

text \<open>An encoding of invites: every byte after a mark, every field closed by a dot.\<close>

definition esc :: "string \<Rightarrow> string" where
  "esc s = concat (map (\<lambda>ch. [CHR ''x'', ch]) s) @ ''.''"

fun unescs :: "string \<Rightarrow> string \<Rightarrow> string list" where
  "unescs cur [] = []"
| "unescs cur (a # r) = (if a = CHR ''.'' then rev cur # unescs [] r else (case r of [] \<Rightarrow> [] | ch # r' \<Rightarrow> unescs (ch # cur) r'))"

lemma unescs_esc: "unescs cur (esc s @ r) = (rev cur @ s) # unescs [] r"
  by (induction s arbitrary: cur) (simp_all add: esc_def)

definition invite_fields :: "invite \<Rightarrow> string list" where
  "invite_fields i = [iv_peer i, iv_slug i, iv_name i, iv_url i, iv_send_mb i, iv_send_tok i, iv_recv_mb i, iv_recv_tok i,
     iv_secret i, iv_cert i, iv_key i, iv_ca i]"

definition fields_invite :: "string list \<Rightarrow> invite" where
  "fields_invite fs = \<lparr>iv_version = 1, iv_peer = fs ! 0, iv_slug = fs ! 1, iv_name = fs ! 2, iv_url = fs ! 3, iv_send_mb = fs ! 4,
     iv_send_tok = fs ! 5, iv_recv_mb = fs ! 6, iv_recv_tok = fs ! 7, iv_secret = fs ! 8, iv_cert = fs ! 9, iv_key = fs ! 10,
     iv_ca = fs ! 11\<rparr>"

definition link_codec :: codec where
  "link_codec = demo_codec\<lparr>k_invite := (\<lambda>i. concat (map esc (invite_fields i))), k_uninvite := (\<lambda>b. Some (fields_invite (unescs [] b)))\<rparr>"

lemma unescs_fields: "unescs [] (concat (map esc fs)) = fs"
  by (induction fs) (simp_all add: unescs_esc)

lemma link_codec_roundtrip: "iv_version i = protocol_version \<Longrightarrow> k_uninvite link_codec (k_invite link_codec i) = Some i"
  by (simp add: link_codec_def unescs_fields) (simp add: fields_invite_def invite_fields_def protocol_version_def)

lemma link_codec_nonempty: "k_invite link_codec i \<noteq> []"
  by (simp add: link_codec_def invite_fields_def esc_def)

definition other_id :: string where "other_id = replicate 64 (CHR ''1'')"

definition link_env :: "mstore share_env" where
  "link_env = \<lparr>sh_client = (\<lambda>_. None), sh_first = host_net demo_world,
     sh_second = host_net (demo_world\<lparr>w_drawn := (other_id, ''w2'', ''r2'')\<rparr>),
     sh_issue = (\<lambda>_. Inr (201, Inr \<lparr>bu_cert = ''c'', bu_key = ''k'', bu_ca = ''ca''\<rparr>)), sh_key = Inr (replicate 32 (CHR ''s''))\<rparr>"

definition link_setting :: "string \<Rightarrow> string \<Rightarrow> setting" where
  "link_setting k v = \<lparr>g_key = k, g_value = JStr v, g_updated_at = 0\<rparr>"

definition link_server :: "setting list \<Rightarrow> project list \<Rightarrow> server" where
  "link_server gs ps = demo_server\<lparr>sv_db := empty_db\<lparr>settings := gs, projects := ps, db_drawn := 20\<rparr>\<rparr>"

definition link_a :: server where
  "link_a = link_server [link_setting setting_mailbox_url ''https://m/'', link_setting setting_mailbox_admin ''a'',
     link_setting setting_mailbox_cert ''c'', link_setting setting_mailbox_key ''k'', link_setting setting_mailbox_ca ''ca'']
     [tree_project 7 ''a-1'' ''active'' None]"

definition link_config :: mailbox_config where
  "link_config = \<lparr>mb_url = ''https://m'', mb_admin = ''a'', mb_cert = ''c'', mb_key = ''k'', mb_ca = ''ca'', mb_bundle_cert = [],
     mb_bundle_key = [], mb_bundle_name = [], mb_bundle_print = []\<rparr>"

lemma link_config: "read_mailbox_config link_a = link_config"
  by code_simp

lemma link_project: "find_slug ''a-1'' (sv_db link_a) = Inr (tree_project 7 ''a-1'' ''active'' None)"
  by code_simp

definition link_boxes :: "(error + string \<times> string \<times> string) \<times> mstore" where
  "link_boxes = create_mailbox demo_http (sh_first link_env) ''a'' new_store"

definition link_boxes2 :: "(error + string \<times> string \<times> string) \<times> mstore" where
  "link_boxes2 = create_mailbox demo_http (sh_second link_env) ''a'' (snd link_boxes)"

lemma link_box: "link_boxes = (Inr (demo_id, ''w'', ''r''), snd (create id demo_id ''w'' ''r'' 0 new_store))"
  unfolding link_boxes_def link_env_def
  by (simp add: create_mailbox_def client_do_def host_net_def handle_def http_create_def demo_world_def bearer_def
      create_def new_store_def max_mailboxes_def demo_http_def Let_def)

lemma link_box2: "fst link_boxes2 = Inr (other_id, ''w2'', ''r2'')"
  unfolding link_boxes2_def link_box link_env_def
  by (simp add: create_mailbox_def client_do_def host_net_def handle_def http_create_def demo_world_def bearer_def
      create_def new_store_def max_mailboxes_def demo_http_def Let_def put_box_def)

definition link_row :: share where
  "link_row = new_share 7 ''bob'' ''https://m'' (other_id, ''w2'') (demo_id, ''r'') (replicate 32 (CHR ''s'')) (own_bundle link_config)"

definition link_invite :: invite where
  "link_invite = share_invite ''bob'' (tree_project 7 ''a-1'' ''active'' None) ''https://m'' (demo_id, ''w'') (other_id, ''r2'')
     (replicate 32 (CHR ''s'')) \<lparr>bu_cert = ''c'', bu_key = ''k'', bu_ca = ''ca''\<rparr>"

lemma link_row_stored: "\<not> isl (fst (with_tx 5 (create_project_share link_row) (sv_db link_a)))"
  by code_simp

definition link_shared :: server where
  "link_shared = link_a\<lparr>sv_db := snd (with_tx 5 (create_project_share link_row) (sv_db link_a))\<rparr>"

lemma split_ran: "fst p = r \<Longrightarrow> p = (r, snd p)"
  by (simp add: prod_eq_iff)

lemma link_shares:
  "share_project link_codec demo_http link_env ''a-1'' ''bob'' 5 link_a new_store
    = (Inr (encode_invite link_codec link_invite), link_shared, snd link_boxes2)"
proof -
  obtain r where r: "with_tx 5 (create_project_share link_row) (sv_db link_a) = (Inr r, sv_db link_shared)"
    using link_row_stored by (cases "with_tx 5 (create_project_share link_row) (sv_db link_a)"; cases "fst (with_tx 5 (create_project_share link_row) (sv_db link_a))")
      (simp_all add: link_shared_def)
  have f: "finish_share link_codec link_config (tree_project 7 ''a-1'' ''active'' None) ''bob'' (demo_id, ''w'', ''r'') (other_id, ''w2'', ''r2'')
      (replicate 32 (CHR ''s'')) \<lparr>bu_cert = ''c'', bu_key = ''k'', bu_ca = ''ca''\<rparr> 5 link_a
      = (Inr (encode_invite link_codec link_invite), link_shared)"
    using r unfolding link_row_def
    by (simp add: finish_share_def link_invite_def) (simp add: link_config_def link_shared_def tree_project_def)
  have c: "configured link_config" "mb_admin link_config = ''a''" by (simp_all add: configured_def link_config_def)
  have e: "sh_client link_env = (\<lambda>_. None)" "sh_key link_env = Inr (replicate 32 (CHR ''s''))"
    "issue_peer_bundle link_env link_config ''bob'' = Inr \<lparr>bu_cert = ''c'', bu_key = ''k'', bu_ca = ''ca''\<rparr>"
    by (simp_all add: link_env_def issue_peer_bundle_def)
  have m: "create_mailbox demo_http (sh_first link_env) ''a'' new_store = (Inr (demo_id, ''w'', ''r''), snd link_boxes)"
    "create_mailbox demo_http (sh_second link_env) ''a'' (snd link_boxes) = (Inr (other_id, ''w2'', ''r2''), snd link_boxes2)"
    using link_box link_box2 by (simp_all add: link_boxes_def link_boxes2_def prod_eq_iff)
  show ?thesis unfolding share_project_def link_config link_project Let_def
    using c e f m by simp
qed

definition link_accepted :: "(error + uuid) \<times> db" where
  "link_accepted = (case local_project [] link_invite 6 (sv_db (link_server [] [])) of
     (Inl er, s1) \<Rightarrow> (Inl er, s1)
   | (Inr p, s1) \<Rightarrow> (case with_tx 6 (create_project_share (invited_share (p_id p) link_invite)) s1 of
        (Inl er, s2) \<Rightarrow> (Inl er, s2) | (Inr _, s2) \<Rightarrow> (Inr (p_id p), s2)))"

lemma link_accepted_ok: "fst link_accepted = Inr 20"
  by code_simp

lemma link_decodes: "decode_invite link_codec (encode_invite link_codec link_invite) = Inr link_invite"
  by (rule invite_roundtrip, rule link_codec_roundtrip, simp_all add: link_codec_nonempty)
    (simp_all add: link_invite_def share_invite_def key_size_def demo_id_def other_id_def)

lemma link_accepts:
  "accept_invite link_codec (encode_invite link_codec link_invite) [] 6 (link_server [] [])
    = (Inr 20, (link_server [] [])\<lparr>sv_db := snd link_accepted\<rparr>)"
proof -
  obtain res s1 where l: "local_project [] link_invite 6 (sv_db (link_server [] [])) = (res, s1)"
    by (cases "local_project [] link_invite 6 (sv_db (link_server [] []))")
  then obtain p where p: "res = Inr p" using link_accepted_ok by (cases res) (simp_all add: link_accepted_def)
  obtain res2 s2 where w: "with_tx 6 (create_project_share (invited_share (p_id p) link_invite)) s1 = (res2, s2)"
    by (cases "with_tx 6 (create_project_share (invited_share (p_id p) link_invite)) s1")
  then obtain r where "res2 = Inr r" using link_accepted_ok l p by (cases res2) (simp_all add: link_accepted_def)
  with w l p link_accepted_ok show ?thesis
    unfolding accept_invite_def trim_invite_code link_decodes by (simp add: link_accepted_def)
qed

lemma accepted_invite_links_both_witness:
  "\<exists>a \<in> set (shares (sv_db link_shared)). \<exists>b \<in> set (shares (snd link_accepted)).
     s_recv_mb b = s_send_mb a \<and> s_send_mb b = s_recv_mb a \<and> s_secret b = s_secret a"
proof -
  have v: "valid_id other_id"
    by (simp add: valid_id_def other_id_def token_bytes_def hex_digits_def list_all_iff)
  have d: "valid_id (fst (w_drawn demo_world))" "fst (w_drawn demo_world) \<noteq> fst (w_drawn (demo_world\<lparr>w_drawn := (other_id, ''w2'', ''r2'')\<rparr>))"
    by (simp_all add: demo_world_def demo_id_def other_id_def) (simp add: demo_id_def[symmetric])
  have e: "sh_first link_env = host_net demo_world" "sh_second link_env = host_net (demo_world\<lparr>w_drawn := (other_id, ''w2'', ''r2'')\<rparr>)"
    by (simp_all add: link_env_def)
  have "w_hash (demo_world\<lparr>w_drawn := (other_id, ''w2'', ''r2'')\<rparr>) = w_hash demo_world" by simp
  moreover have "valid_id (fst (w_drawn (demo_world\<lparr>w_drawn := (other_id, ''w2'', ''r2'')\<rparr>)))" using v by simp
  moreover have "length k = key_size" if "sh_key link_env = Inr k" for k using that by (auto simp: link_env_def key_size_def)
  ultimately show ?thesis
    using accepted_invite_links_both[OF link_shares link_accepts e _ d(1) _ d(2) link_codec_roundtrip link_codec_nonempty]
    by (simp only: server.select_convs server.update_convs simp_thms) fastforce
qed

end
