(* ===== verification/Item_Properties.thy ===== *)
theory Item_Properties
  imports Items
begin

text \<open>
  What the item operations promise, over one call and over histories: idempotent creation,
  optimistic concurrency without lost updates, completion with its recorded why, batches that are
  all or nothing, refs that never collide.
\<close>

subsection \<open>Creation by key\<close>

definition key_lookup :: "create_params \<Rightarrow> db \<Rightarrow> item option" where
  "key_lookup p s = (case get_item_by_key (cp_project p) (cp_key p) s of Inr (i, _) \<Rightarrow> Some i | Inl _ \<Rightarrow> None)"

lemma get_item_by_key_None: "get_item_by_key pr k s = Inl e \<Longrightarrow> e = NoRows"
  by (auto simp: get_item_by_key_def tx_read_def row_find_Inl split: sum.splits)

lemma get_item_by_key_Some: "get_item_by_key pr k s = Inr (i, s') \<Longrightarrow>
    s' = s \<and> i \<in> set (items s) \<and> i_project i = pr \<and> i_key i = k \<and> k \<noteq> None \<and> live i"
  by (auto simp: get_item_by_key_def tx_simps dest: row_find_Inr)

lemma get_item_by_key_row:
  assumes "db_ok s" and "i \<in> set (items s)" and "i_project i = pr" and "i_key i = k" and "k \<noteq> None" and "live i"
  shows "get_item_by_key pr k s = Inr (i, s)"
proof -
  have "\<exists>r. row_find (\<lambda>i. i_project i = pr \<and> k \<noteq> None \<and> i_key i = k \<and> live i) (items s) = Inr r"
    using assms by (intro row_find_ex[of i]) auto
  then obtain r where r: "row_find (\<lambda>i. i_project i = pr \<and> k \<noteq> None \<and> i_key i = k \<and> live i) (items s) = Inr r" by blast
  from row_find_Inr[OF r] have "r \<in> set (items s)" "i_project r = pr" "i_key r = k" by auto
  with assms have "i = r" by (auto simp: db_ok_def items_ok_def keys_ok_def)
  with r show ?thesis by (simp add: get_item_by_key_def tx_read_def)
qed

lemma create_item_hit:
  assumes "has_key p" and "key_lookup p s = Some i"
  shows "create_item other p actor now s = (Inr i, s)"
  using assms by (auto simp: create_item_def key_lookup_def Let_def split: sum.splits)

text \<open>The effect of the inserting branch.\<close>

lemma assign_frame:
  assumes "assign_item_ref i s = Inr (i', s')"
  shows "items s' = items s" and "activities s' = activities s" and "webhook_events s' = webhook_events s"
    and "db_now s' = db_now s" and "i_project i' = i_project i" and "i_key i' = i_key i"
    and "i_deleted_at i' = i_deleted_at i" and "i_version i' = i_version i"
  using assms by (auto simp: assign_item_ref_def Let_def split: sum.splits)

lemma create_item_stmt_row:
  assumes "create_item_stmt p s = Inr (i, t)"
  shows "items t = items s @ [i]" and "i_project i = cp_project p" and "i_key i = cp_key p" and "live i"
    and "i_version i = 1" and "activities t = activities s" and "webhook_events t = webhook_events s"
    and "db_now t = db_now s"
proof -
  from assms obtain i0 s' where a: "assign_item_ref (new_item p (db_rand s (db_drawn s)) (db_now s))
      (s\<lparr>db_drawn := db_drawn s + 1\<rparr>) = Inr (i0, s')" and b: "append_item i0 s' = Inr (i, t)"
    by (auto simp: create_item_stmt_def tx_simps)
  note s' = assign_frame[OF a]
  from b have "i = i0" "t = s'\<lparr>items := items s' @ [i]\<rparr>" by (auto simp: append_item_Inr)
  with s' show "items t = items s @ [i]" "i_project i = cp_project p" "i_key i = cp_key p" "live i"
    "i_version i = 1" "activities t = activities s" "webhook_events t = webhook_events s" "db_now t = db_now s"
    by (simp_all add: new_item_def live_def)
qed

lemma create_activity_row:
  assumes "create_activity p s = Inr (a, t)"
  shows "activities t = activities s @ [a]" and "items t = items s" and "webhook_events t = webhook_events s"
    and "projects t = projects s" and "\<exists>u. a = new_activity p u (db_now s)" and "db_now t = db_now s"
  using assms by (auto simp: create_activity_def tx_simps append_activity_Inr)

lemma insert_item_tx_rows:
  assumes "insert_item_tx p actor s = Inr (i, t)"
  shows "items t = items s @ [i]" and "i_project i = cp_project p" and "i_key i = cp_key p" and "live i"
    and "\<exists>a. activities t = activities s @ [a] \<and> a_item a = Some (i_id i) \<and> a_kind a = ''created'' \<and> a_actor a = actor"
    and "\<exists>e. webhook_events t = webhook_events s @ [e] \<and> e_event e = ''item.created'' \<and> e_payload e = ItemData i"
proof -
  from assms obtain s1 a s2 u where c: "create_item_stmt p s = Inr (i, s1)"
    and a: "create_activity (activity_of (i_project i) (i_id i) ''created'' actor
       (''created '' @ i_type i @ '': '' @ i_title i)) s1 = Inr (a, s2)"
    and e: "enqueue (i_project i) ''item.created'' (ItemData i) s2 = Inr (u, t)"
    by (auto simp: insert_item_tx_def tx_simps)
  note c = create_item_stmt_row[OF c] and a = create_activity_row[OF a]
  from e obtain ev where ev: "t = s2\<lparr>db_drawn := db_drawn s2 + 1, webhook_events := webhook_events s2 @ [ev]\<rparr>"
    "e_event ev = ''item.created''" "e_payload ev = ItemData i" by (rule enqueue_Inr)
  show "items t = items s @ [i]" "i_project i = cp_project p" "i_key i = cp_key p" "live i"
    using c a ev by auto
  show "\<exists>a. activities t = activities s @ [a] \<and> a_item a = Some (i_id i) \<and> a_kind a = ''created'' \<and> a_actor a = actor"
    using a(1,5) c ev by (auto simp: activity_of_def new_activity_def)
  show "\<exists>e. webhook_events t = webhook_events s @ [e] \<and> e_event e = ''item.created'' \<and> e_payload e = ItemData i"
    using a(3) c(7) ev by auto
qed

lemma create_item_tx_found:
  assumes ok: "db_ok s" and k: "has_key p" and r: "create_item_tx p actor s = Inr (i, t)"
  shows "key_lookup p t = Some i"
proof (cases "get_item_by_key (cp_project p) (cp_key p) s")
  case (Inr x)
  then show ?thesis using r k get_item_by_key_Some[of "cp_project p" "cp_key p" s]
    by (cases x) (auto simp: create_item_tx_def tx_or_else_def key_lookup_def)
next
  case (Inl e)
  then have e: "e = NoRows" by (rule get_item_by_key_None)
  with Inl r k have ins: "insert_item_tx p actor s = Inr (i, t)" by (simp add: create_item_tx_def tx_or_else_def)
  have "db_ok t" using tx_keepsD[OF keeps_insert_item_tx ins ok] .
  moreover have "i \<in> set (items t)" "i_project i = cp_project p" "i_key i = cp_key p" "live i"
    using insert_item_tx_rows[OF ins] by auto
  ultimately show ?thesis using get_item_by_key_row[of t i] k by (simp add: key_lookup_def has_key_def)
qed

text \<open>One call without interference, as a keyed creation.\<close>

definition create_alone :: "create_params \<times> string \<times> gtime \<Rightarrow> db \<Rightarrow> (error + item) \<times> db" where
  "create_alone q s = (case q of (p, actor, now) \<Rightarrow> create_item (\<lambda>s. s) p actor now s)"

definition same_item_key :: "create_params \<times> string \<times> gtime \<Rightarrow> create_params \<times> string \<times> gtime \<Rightarrow> bool" where
  "same_item_key p q = (cp_project (fst p) = cp_project (fst q) \<and> cp_key (fst p) = cp_key (fst q))"

lemma create_item_inv:
  assumes "db_ok s" and "db_ok (other s)"
  shows "db_ok (snd (create_item other p actor now s))"
proof -
  have "db_ok (snd (with_tx now (create_item_tx p actor) (other s)))"
    using assms(2) by (intro with_tx_ok) auto
  then show ?thesis using assms(1) by (auto simp: create_item_def Let_def split: sum.splits prod.splits)
qed

lemma key_lookup_None: "key_lookup p s = None \<Longrightarrow> get_item_by_key (cp_project p) (cp_key p) s = Inl NoRows"
  by (auto simp: key_lookup_def split: sum.splits dest: get_item_by_key_None)

lemma create_item_made:
  assumes ok: "db_ok s" and k: "has_key p" and none: "key_lookup p s = None"
    and r: "create_item (\<lambda>s. s) p actor now s = (Inr i, s')"
  shows "key_lookup p s' = Some i"
proof (cases "with_tx now (create_item_tx p actor) s")
  case (Pair res t)
  show ?thesis
  proof (cases res)
    case (Inr x)
    with r none k Pair have "x = i" "t = s'" by (auto simp: create_item_def Let_def key_lookup_None)
    with Pair Inr have "create_item_tx p actor (s\<lparr>db_now := now\<rparr>) = Inr (i, s')" by (simp add: with_tx_Inr)
    from create_item_tx_found[OF _ k this] ok show ?thesis by simp
  next
    case (Inl e)
    with Pair have "t = s" by (simp add: with_tx_Inl)
    with r none k Pair Inl show ?thesis
      by (auto simp: create_item_def Let_def key_lookup_None split: if_splits)
  qed
qed

interpretation item_key: keyed_create "has_key \<circ> fst" "key_lookup \<circ> fst" create_alone same_item_key db_ok
proof
  show "create_alone p s = (Inr r, s)" if "(has_key \<circ> fst) p" "db_ok s" "(key_lookup \<circ> fst) p s = Some r" for p s r
    using that create_item_hit by (cases p) (auto simp: create_alone_def)
  show "(key_lookup \<circ> fst) p s' = Some r"
    if "(has_key \<circ> fst) p" "db_ok s" "(key_lookup \<circ> fst) p s = None" "create_alone p s = (Inr r, s')" for p s r s'
    using that create_item_made by (cases p) (auto simp: create_alone_def)
  show "db_ok (snd (create_alone p s))" if "db_ok s" for p s
    using that create_item_inv by (cases p) (auto simp: create_alone_def)
  show "(key_lookup \<circ> fst) p s = (key_lookup \<circ> fst) q s" if "same_item_key p q" for p q s
    using that by (simp add: same_item_key_def key_lookup_def)
qed

subsection \<open>The service as a machine\<close>

datatype iop =
    ICreate create_params string gtime
  | IUpdate update_params string gtime
  | IComplete uuid string string string gtime
  | IBulk "create_params list" string gtime
  | ILog activity_params gtime
  | IDelete uuid gtime
  | ILink uuid uuid string gtime
  | IUnlink uuid gtime
  | IRef uuid string string string gtime
  | IUnref uuid gtime

fun istep :: "db \<Rightarrow> iop \<Rightarrow> db" where
  "istep s (ICreate p a t) = snd (create_item (\<lambda>s. s) p a t s)"
| "istep s (IUpdate p a t) = snd (update_item p a t s)"
| "istep s (IComplete x w m a t) = snd (complete_item x w m a t s)"
| "istep s (IBulk ps a t) = snd (bulk_create_items ps a t s)"
| "istep s (ILog p t) = snd (log_activity p t s)"
| "istep s (IDelete x t) = snd (with_tx t (soft_delete_item x) s)"
| "istep s (ILink f g k t) = snd (link_items f g k t s)"
| "istep s (IUnlink x t) = snd (delete_link x t s)"
| "istep s (IRef x k r l t) = snd (add_item_ref x k r l t s)"
| "istep s (IUnref x t) = snd (remove_item_ref x t s)"

lemma istep_ok: "db_ok s \<Longrightarrow> db_ok (istep s e)"
  by (cases e) (auto simp: create_item_inv update_item_def complete_item_def bulk_create_items_def log_activity_def
      link_items_def delete_link_def add_item_ref_def remove_item_ref_def intro!: with_tx_ok)

interpretation svc: machine istep db_ok
  by unfold_locales (rule istep_ok)

subsection \<open>Versions only grow\<close>

definition at_version :: "uuid \<Rightarrow> int \<Rightarrow> db \<Rightarrow> bool" where
  "at_version x n s = (\<exists>i \<in> set (items s). i_id i = x \<and> n \<le> i_version i)"

lemma keeps_version_frame:
  "(\<And>s y s'. m s = Inr (y, s') \<Longrightarrow> set (items s) \<subseteq> set (items s')) \<Longrightarrow> tx_keeps (at_version x n) m"
  unfolding tx_keeps_def at_version_def by blast

lemma keeps_version_update:
  assumes "\<And>i. i_id (f i) = i_id i \<and> i_version i \<le> i_version (f i)"
  shows "tx_keeps (at_version x n) (update_item_where c f)"
proof (rule tx_keepsI)
  fix s y s' assume v: "at_version x n s" and r: "update_item_where c f s = Inr (y, s')"
  then have s': "items s' = map (\<lambda>i. if c i then f i else i) (items s)"
    by (auto simp: update_item_where_def rows_update_def split: sum.splits if_splits)
  from v obtain i where i: "i \<in> set (items s)" "i_id i = x" "n \<le> i_version i" by (auto simp: at_version_def)
  let ?i = "if c i then f i else i"
  have "?i \<in> set (items s')" unfolding s' set_map using i(1) by (rule imageI)
  moreover have "i_id ?i = x \<and> n \<le> i_version ?i" using assms[of i] i by auto
  ultimately show "at_version x n s'" unfolding at_version_def by blast
qed

lemma keeps_version_stmts [tx_pres]:
  "tx_keeps (at_version x n) draw_uuid" "tx_keeps (at_version x n) get_now"
  "tx_keeps (at_version x n) (get_item y)" "tx_keeps (at_version x n) (get_item_by_key pr k)"
  "tx_keeps (at_version x n) (append_item i)" "tx_keeps (at_version x n) (assign_item_ref i)"
  "tx_keeps (at_version x n) (append_activity a)" "tx_keeps (at_version x n) (enqueue pr ev d)"
  "tx_keeps (at_version x n) (create_item_link f t kd)" "tx_keeps (at_version x n) (delete_item_link y)"
  "tx_keeps (at_version x n) (create_item_ref y kd rf lb)" "tx_keeps (at_version x n) (delete_item_ref y)"
  "tx_keeps (at_version x n) (update_project_summary sl sm)" "tx_keeps (at_version x n) (get_project_by_id y)"
  by (rule keeps_version_frame; auto simp: tx_simps get_item_def get_item_by_key_def append_item_Inr append_activity_Inr
      create_item_link_def delete_item_link_def create_item_ref_def delete_item_ref_def Let_def
      update_project_summary_def get_project_by_id_def assign_frame(1)
      split: sum.splits if_splits dest!: enqueue_core; simp add: same_core_def)+

lemma keeps_version_soft_delete: "tx_keeps (at_version x n) (soft_delete_item y)"
  unfolding soft_delete_item_def by (intro tx_keeps_bind keeps_version_stmts keeps_version_update) simp_all

lemma keeps_version_update_stmt: "tx_keeps (at_version x n) (update_item_stmt p)"
  unfolding update_item_stmt_def by (intro tx_keeps_bind keeps_version_stmts keeps_version_update)
    (simp_all add: updated_item_def)

lemma keeps_version_activity: "tx_keeps (at_version x n) (create_activity p)"
  unfolding create_activity_def by (intro tx_keeps_bind keeps_version_stmts)

lemma keeps_version_log: "tx_keeps (at_version x n) (log_activity_tx p)"
  unfolding log_activity_tx_def by (intro tx_keeps_bind keeps_version_stmts keeps_version_activity tx_keeps_ret)

lemma keeps_version_status: "tx_keeps (at_version x n) (record_status_change fr i a)"
  unfolding record_status_change_def by (intro tx_keeps_bind keeps_version_stmts keeps_version_activity)

lemma keeps_version_create: "tx_keeps (at_version x n) (create_item_tx p a)"
  unfolding create_item_tx_def insert_item_tx_def create_item_stmt_def
  by (intro tx_keeps_if tx_keeps_or_else tx_keeps_bind keeps_version_stmts keeps_version_activity tx_keeps_ret)

lemma keeps_version_update_tx: "tx_keeps (at_version x n) (update_item_tx p a)"
  unfolding update_item_tx_def
  by (intro tx_keeps_bind keeps_version_stmts keeps_conflict keeps_version_update_stmt tx_keeps_when
      keeps_version_status tx_keeps_ret)

lemma keeps_version_complete_tx: "tx_keeps (at_version x n) (complete_item_tx y w sm a)"
  unfolding complete_item_tx_def
  by (intro tx_keeps_bind keeps_version_stmts keeps_version_update_stmt tx_keeps_when
      keeps_version_status keeps_version_log tx_keeps_ret)

lemma with_tx_version: "tx_keeps (at_version x n) m \<Longrightarrow> at_version x n s \<Longrightarrow> at_version x n (snd (with_tx t m s))"
  by (erule with_tx_keeps) (auto simp: at_version_def)

lemma istep_version:
  assumes "at_version x n s"
  shows "at_version x n (istep s e)"
proof (cases e)
  case (ICreate p a t)
  have "at_version x n (snd (with_tx t (create_item_tx p a) s))" using assms
    by (intro with_tx_version keeps_version_create)
  then show ?thesis using assms by (auto simp: ICreate create_item_def Let_def split: sum.splits prod.splits)
qed (use assms in \<open>auto simp: update_item_def complete_item_def bulk_create_items_def log_activity_def
      link_items_def delete_link_def add_item_ref_def remove_item_ref_def
      intro!: with_tx_version keeps_version_stmts keeps_version_soft_delete keeps_version_update_tx
        keeps_version_complete_tx keeps_version_log tx_keeps_map keeps_version_create\<close>)

lemma run_version:
  assumes "db_ok s" and "at_version x n s"
  shows "at_version x n (foldl istep s es)"
  using svc.run_persist[where P = "at_version x n" and allowed = "\<lambda>_. True"] istep_version assms by blast

subsection \<open>One update\<close>

lemma get_item_Inr: "get_item x s = Inr (i, s') \<Longrightarrow> s' = s \<and> i \<in> set (items s) \<and> i_id i = x \<and> live i"
  by (auto simp: get_item_def tx_simps dest: row_find_Inr)

lemma update_item_stmt_row:
  assumes ok: "db_ok s" and r: "update_item_stmt p s = Inr (i, t)"
  obtains i0 where "i0 \<in> set (items s)" "i_id i0 = up_id p" "live i0" "null_match (up_expected p) (i_version i0)"
    "i = updated_item p (db_now s) i0" "i \<in> set (items t)" "activities t = activities s"
    "webhook_events t = webhook_events s" "projects t = projects s" "db_now t = db_now s"
proof -
  let ?c = "\<lambda>i. i_id i = up_id p \<and> live i \<and> null_match (up_expected p) (i_version i)"
  let ?f = "updated_item p (db_now s)"
  from r have "update_item_where ?c ?f s = Inr (i, t)" by (auto simp: update_item_stmt_def tx_simps)
  then obtain i0 where i0: "row_find ?c (items s) = Inr i0" "i0 \<in> set (items s)" "?c i0" "i = ?f i0"
      "item_checks (?f i0)" and t: "t = s\<lparr>items := rows_update ?c ?f (items s)\<rparr>"
    by (rule update_item_where_Inr)
  have "i \<in> set (items t)" using i0 by (auto simp: t rows_update_set)
  show thesis
    by (rule that[of i0]) (use i0 t \<open>i \<in> set (items t)\<close> in simp_all)
qed

lemma stale_stmt:
  assumes ok: "db_ok s" and v: "at_version x n s" and p: "up_id p = x" "up_expected p = Some w" "w < n"
  shows "update_item_stmt p (s\<lparr>db_now := t\<rparr>) = Inl NoRows"
proof -
  let ?s = "s\<lparr>db_now := t\<rparr>"
  have "\<not> (i_id i = up_id p \<and> live i \<and> null_match (up_expected p) (i_version i))" if i: "i \<in> set (items ?s)" for i
  proof
    assume a: "i_id i = up_id p \<and> live i \<and> null_match (up_expected p) (i_version i)"
    obtain j where j: "j \<in> set (items s)" "i_id j = x" "n \<le> i_version j" using v by (auto simp: at_version_def)
    have "distinct (map i_id (items s))" using ok by (simp add: db_ok_def items_ok_def)
    from distinct_key[OF this _ j(1)] i a p j have "i = j" by simp
    with a j p show False by simp
  qed
  then have "row_find (\<lambda>i. i_id i = up_id p \<and> live i \<and> null_match (up_expected p) (i_version i)) (items ?s) = Inl NoRows"
    by (subst row_find_Inl) blast
  then show ?thesis by (simp add: update_item_stmt_def tx_bind_def get_now_def tx_read_def update_item_where_def)
qed

lemma stale_update:
  assumes ok: "db_ok s" and v: "at_version x n s" and p: "up_id p = x" "up_expected p = Some w" "w < n"
  shows "update_item p a t s = (Inl NoRows, s) \<or> update_item p a t s = (Inl ErrConflict, s)"
proof -
  let ?s = "s\<lparr>db_now := t\<rparr>"
  have none: "update_item_stmt p ?s = Inl NoRows" using assms by (rule stale_stmt)
  have "update_item_tx p a ?s = Inl NoRows \<or> update_item_tx p a ?s = Inl ErrConflict"
  proof (cases "get_item (up_id p) ?s")
    case (Inl e)
    then have "e = NoRows" by (auto simp: get_item_def tx_read_def row_find_Inl split: sum.splits)
    with Inl show ?thesis by (simp add: update_item_tx_def tx_bind_def)
  next
    case (Inr r)
    then have "snd r = ?s" using get_item_Inr by (metis prod.collapse)
    with Inr none show ?thesis by (cases r) (simp add: update_item_tx_def tx_bind_def tx_conflict_def)
  qed
  then show ?thesis by (auto simp: update_item_def with_tx_def)
qed

lemma update_item_tx_parts:
  assumes ok: "db_ok s" and r: "update_item_tx p actor s = Inr (i, s')"
  obtains i0 s1 where "i0 \<in> set (items s)" "i_id i0 = up_id p" "live i0" "null_match (up_expected p) (i_version i0)"
    "i = updated_item p (db_now s) i0" "i \<in> set (items s1)" "activities s1 = activities s"
    "webhook_events s1 = webhook_events s"
    "tx_when (up_status p \<noteq> None \<and> up_status p \<noteq> Some (i_status i0)) (record_status_change (i_status i0) i actor) s1
       = Inr ((), s')"
proof -
  from r obtain prev s0 s1 where g: "get_item (up_id p) s = Inr (prev, s0)" and u: "update_item_stmt p s0 = Inr (i, s1)"
    and w: "tx_when (up_status p \<noteq> None \<and> up_status p \<noteq> Some (i_status prev))
        (record_status_change (i_status prev) i actor) s1 = Inr ((), s')"
    by (auto simp: update_item_tx_def tx_simps)
  from get_item_Inr[OF g] have pr: "s0 = s" "prev \<in> set (items s)" "i_id prev = up_id p" by auto
  have d: "distinct (map i_id (items s))" using ok by (simp add: db_ok_def items_ok_def)
  from update_item_stmt_row[OF ok u[unfolded pr(1)]] obtain i0 where i0: "i0 \<in> set (items s)" "i_id i0 = up_id p"
    "live i0" "null_match (up_expected p) (i_version i0)" "i = updated_item p (db_now s) i0" "i \<in> set (items s1)"
    "activities s1 = activities s" "webhook_events s1 = webhook_events s" by metis
  have "prev = i0" using distinct_key[OF d pr(2) i0(1)] pr(3) i0(2) by simp
  with i0 w that show thesis by blast
qed

lemma record_status_change_rows:
  assumes "record_status_change fr i actor s = Inr (u, t)"
  shows "items t = items s" and "\<exists>a. activities t = activities s @ [a] \<and> a_item a = Some (i_id i)
      \<and> a_kind a = ''status_change'' \<and> a_actor a = actor \<and> a_body a = fr @ arrow @ i_status i"
    and "\<exists>e. webhook_events t = webhook_events s @ [e] \<and> e_event e = ''item.status_changed''
      \<and> e_payload e = StatusData i fr (i_status i)"
proof -
  from assms obtain a s1 where a: "create_activity (activity_of (i_project i) (i_id i) ''status_change'' actor
       (fr @ arrow @ i_status i)) s = Inr (a, s1)"
    and e: "enqueue (i_project i) ''item.status_changed'' (StatusData i fr (i_status i)) s1 = Inr (u, t)"
    by (auto simp: record_status_change_def tx_simps)
  note ar = create_activity_row[OF a]
  from e obtain ev where ev: "t = s1\<lparr>db_drawn := db_drawn s1 + 1, webhook_events := webhook_events s1 @ [ev]\<rparr>"
    "e_event ev = ''item.status_changed''" "e_payload ev = StatusData i fr (i_status i)" by (rule enqueue_Inr)
  show "items t = items s" using ar ev by simp
  show "\<exists>a. activities t = activities s @ [a] \<and> a_item a = Some (i_id i)
      \<and> a_kind a = ''status_change'' \<and> a_actor a = actor \<and> a_body a = fr @ arrow @ i_status i"
    using ar(1,5) ev by (auto simp: activity_of_def new_activity_def)
  show "\<exists>e. webhook_events t = webhook_events s @ [e] \<and> e_event e = ''item.status_changed''
      \<and> e_payload e = StatusData i fr (i_status i)"
    using ar(3) ev by auto
qed

lemma complete_item_tx_parts:
  assumes ok: "db_ok s" and r: "complete_item_tx x why summary actor s = Inr (i, s')"
  obtains i0 s1 s2 s3 where "i0 \<in> set (items s)" "i_id i0 = x" "i_id i = x" "i_status i = ''done''"
    "i_closed_at i = Some (coalesce (i_closed_at i0) (db_now s))"
    "i \<in> set (items s1)" "activities s1 = activities s" "db_now s1 = db_now s"
    "tx_when (i_status i0 \<noteq> ''done'') (record_status_change (i_status i0) i actor) s1 = Inr ((), s2)"
    "tx_when (why \<noteq> []) (tx_bind (log_activity_tx (activity_of (i_project i) x ''decision'' actor why)) (\<lambda>_. tx_ret ())) s2
       = Inr ((), s3)"
    "items s' = items s3" "activities s' = activities s3"
    "summary \<noteq> [] \<Longrightarrow> \<exists>p \<in> set (projects s'). p_id p = i_project i \<and> p_summary p = summary"
proof -
  let ?u = "(no_update x)\<lparr>up_status := Some ''done''\<rparr>"
  from r obtain prev s0 i' s1 u1 s2 u2 s3 u3 s4 where g: "get_item x s = Inr (prev, s0)"
    and u': "update_item_stmt ?u s0 = Inr (i', s1)"
    and w1': "tx_when (i_status prev \<noteq> i_status i') (record_status_change (i_status prev) i' actor) s1 = Inr (u1, s2)"
    and w2': "tx_when (why \<noteq> []) (tx_bind (log_activity_tx (activity_of (i_project i') x ''decision'' actor why)) (\<lambda>_. tx_ret ())) s2
       = Inr (u2, s3)"
    and w3': "tx_when (summary \<noteq> []) (tx_bind (get_project_by_id (i_project i')) (\<lambda>p.
        tx_bind (update_project_summary (p_slug p) summary) (\<lambda>_. tx_ret ()))) s3 = Inr (u3, s4)"
    and fin': "tx_ret i' s4 = Inr (i, s')"
    unfolding complete_item_tx_def by (elim tx_bindE) (rule that)
  have eq: "i' = i" "s4 = s'" using fin' by (auto simp: tx_ret_def)
  note u = u'[unfolded eq] and w1 = w1'[unfolded eq unit_eq] and w2 = w2'[unfolded eq unit_eq]
    and w3 = w3'[unfolded eq unit_eq]
  from get_item_Inr[OF g] have pr: "s0 = s" "prev \<in> set (items s)" "i_id prev = x" by auto
  have d: "distinct (map i_id (items s))" using ok by (simp add: db_ok_def items_ok_def)
  obtain i0 where i0: "i0 \<in> set (items s)" "i_id i0 = x" "i = updated_item ?u (db_now s) i0" "i \<in> set (items s1)"
    "activities s1 = activities s" "db_now s1 = db_now s"
    by (rule update_item_stmt_row[OF ok u[unfolded pr(1)]]) (simp add: no_update_def)
  have e: "prev = i0" using distinct_key[OF d pr(2) i0(1)] pr(3) i0(2) by simp
  have st: "i_status i = ''done''" "i_id i = x"
    "i_closed_at i = Some (coalesce (i_closed_at i0) (db_now s))"
    using i0(2) by (simp_all add: i0(3) updated_item_def no_update_def closed_statuses_def)
  have fin: "items s' = items s3 \<and> activities s' = activities s3
      \<and> (summary \<noteq> [] \<longrightarrow> (\<exists>p \<in> set (projects s'). p_id p = i_project i \<and> p_summary p = summary))"
  proof (cases "summary = []")
    case True
    then show ?thesis using w3 by (auto simp: tx_when_def tx_ret_def)
  next
    case False
    then obtain p q where p: "get_project_by_id (i_project i) s3 = Inr (p, s3)"
      and q: "update_project_summary (p_slug p) summary s3 = Inr (q, s')"
      using w3 by (auto simp: tx_simps get_project_by_id_def)
    from p have pm: "p \<in> set (projects s3)" "p_id p = i_project i"
      by (auto simp: get_project_by_id_def tx_simps dest: find_project_Inr)
    from q have s': "s' = s3\<lparr>projects := rows_update (\<lambda>q. p_slug q = p_slug p)
        (\<lambda>q. q\<lparr>p_summary := summary, p_updated_at := db_now s3\<rparr>) (projects s3)\<rparr>"
      by (auto simp: update_project_summary_def Let_def split: sum.splits)
    have "p\<lparr>p_summary := summary, p_updated_at := db_now s3\<rparr> \<in> set (projects s')"
      using pm(1) by (auto simp: s' rows_update_set)
    moreover have "p_id (p\<lparr>p_summary := summary, p_updated_at := db_now s3\<rparr>) = i_project i" using pm(2) by simp
    moreover have "p_summary (p\<lparr>p_summary := summary, p_updated_at := db_now s3\<rparr>) = summary" by simp
    moreover have "items s' = items s3" "activities s' = activities s3" by (simp_all add: s')
    ultimately show ?thesis by blast
  qed
  show thesis
    by (rule that[of i0 s1 s2 s3]) (use i0 st e w1 w2 fin in simp_all)
qed

lemma create_item_tx_row:
  assumes "create_item_tx p actor s = Inr (i, t)"
  shows "set (items s) \<subseteq> set (items t) \<and> i \<in> set (items t) \<and> i_project i = cp_project p \<and> i_key i = cp_key p"
proof (cases "insert_item_tx p actor s = Inr (i, t)")
  case True
  from insert_item_tx_rows(1-3)[OF this] show ?thesis by auto
next
  case False
  with assms have "has_key p" "get_item_by_key (cp_project p) (cp_key p) s = Inr (i, t)"
    by (auto simp: create_item_tx_def tx_or_else_def split: if_splits sum.splits)
  with get_item_by_key_Some[OF this(2)] show ?thesis by auto
qed

lemma created_rows:
  assumes "tx_map (\<lambda>p. create_item_tx p actor) ps s = Inr (rs, t)"
  shows "set (items s) \<subseteq> set (items t)
    \<and> list_all2 (\<lambda>p i. i \<in> set (items t) \<and> i_project i = cp_project p \<and> i_key i = cp_key p) ps rs"
  using assms
proof (induction ps arbitrary: s rs)
  case Nil
  then show ?case by (simp add: tx_ret_def)
next
  case (Cons p ps)
  then obtain i s1 js where i: "create_item_tx p actor s = Inr (i, s1)"
    and js: "tx_map (\<lambda>p. create_item_tx p actor) ps s1 = Inr (js, t)" and rs: "rs = i # js"
    by (auto simp: tx_simps)
  from create_item_tx_row[OF i] Cons.IH[OF js] rs show ?case by auto
qed

subsection \<open>Properties\<close>


text \<open>Losing the race for a key is not an error: when another caller commits an item with the key
  between the lookup and the transaction, the call returns that item and adds nothing.\<close>

theorem create_item_lost_race:
  assumes "has_key p" and "key_lookup p s = None" and "key_lookup p (other s) = Some i"
  shows "fst (create_item other p actor now s) = Inr i \<and> items (snd (create_item other p actor now s)) = items (other s)
    \<and> activities (snd (create_item other p actor now s)) = activities (other s)"
proof -
  let ?o = "(other s)\<lparr>db_now := now\<rparr>"
  obtain t where g: "get_item_by_key (cp_project p) (cp_key p) (other s) = Inr (i, t)"
    using assms(3) by (auto simp: key_lookup_def split: sum.splits)
  then have "get_item_by_key (cp_project p) (cp_key p) ?o = Inr (i, ?o)"
    by (auto simp: get_item_by_key_def tx_read_def split: sum.splits)
  then have "with_tx now (create_item_tx p actor) (other s) = (Inr i, ?o)"
    using assms(1) by (simp add: with_tx_def create_item_tx_def tx_or_else_def)
  then show ?thesis using assms(1,2) by (simp add: create_item_def Let_def key_lookup_None)
qed

text \<open>A creation that makes an item appends exactly one item, one \<open>created\<close> activity of it and one
  outbox event carrying it, in one transaction, and the item's ref is the project's slug and next
  number.\<close>

theorem create_item_appends:
  assumes "db_ok s" and "has_key p \<longrightarrow> key_lookup p s = None" and "create_item (\<lambda>s. s) p actor now s = (Inr i, s')"
  shows "items s' = items s @ [i]
    \<and> (\<exists>a. activities s' = activities s @ [a] \<and> a_item a = Some (i_id i) \<and> a_kind a = ''created'' \<and> a_actor a = actor)
    \<and> (\<exists>e. webhook_events s' = webhook_events s @ [e] \<and> e_event e = ''item.created'' \<and> e_payload e = ItemData i)
    \<and> (\<exists>pr \<in> set (projects s'). p_id pr = cp_project p \<and> i_ref i = item_ref_of (p_slug pr) (i_seq i)
         \<and> (\<forall>j \<in> set (items s). i_project j = cp_project p \<longrightarrow> i_seq j \<noteq> i_seq i))"
proof -
  let ?s = "s\<lparr>db_now := now\<rparr>"
  have miss: "has_key p \<Longrightarrow> get_item_by_key (cp_project p) (cp_key p) t = Inl NoRows" if "items t = items s" for t
  proof -
    assume "has_key p"
    with assms(2) have "get_item_by_key (cp_project p) (cp_key p) s = Inl NoRows" by (simp add: key_lookup_None)
    with that show ?thesis by (auto simp: get_item_by_key_def tx_read_def split: sum.splits)
  qed
  have eq: "create_item_tx p actor ?s = insert_item_tx p actor ?s"
    using miss[of ?s] by (simp add: create_item_tx_def tx_or_else_def)
  have "with_tx now (create_item_tx p actor) s = (Inr i, s')"
  proof (cases "with_tx now (create_item_tx p actor) s")
    case (Pair res t)
    show ?thesis
    proof (cases res)
      case (Inl e)
      then have "t = s" using Pair by (simp add: with_tx_Inl)
      with Inl Pair assms(3) miss[of s] show ?thesis
        by (auto simp: create_item_def Let_def split: if_splits)
    next
      case (Inr x)
      with Pair assms(3) miss[of s] show ?thesis by (auto simp: create_item_def Let_def split: if_splits)
    qed
  qed
  then have ins: "insert_item_tx p actor ?s = Inr (i, s')" by (simp add: with_tx_Inr eq)
  note rows = insert_item_tx_rows[OF ins]
  have ok': "db_ok s'" using tx_keepsD[OF keeps_insert_item_tx ins] assms(1) by simp
  then have iok: "items_ok s'" by (simp add: db_ok_def)
  then obtain pr where pr: "pr \<in> set (projects s')" "p_id pr = cp_project p" "i_ref i = item_ref_of (p_slug pr) (i_seq i)"
    using rows(1,2) by (auto simp: items_ok_def item_ok_def)
  have "item_sid i \<notin> item_sid ` set (items s)" using iok rows(1) by (simp add: items_ok_def)
  then have "\<forall>j \<in> set (items s). i_project j = cp_project p \<longrightarrow> i_seq j \<noteq> i_seq i"
    using rows(2) by (auto simp: item_sid_def image_iff)
  with pr rows show ?thesis by auto
qed



text \<open>What an update does: the row takes the fields given and one more version; the closing time is
  set exactly when the new status is closed, keeping an earlier one; and a \<open>status_change\<close> activity
  with its event is recorded exactly when a status was given that differs from the old one.\<close>

theorem update_item_effect:
  assumes "db_ok s" and "update_item p actor now s = (Inr i, s')"
  shows "\<exists>i0 \<in> set (items s). i_id i0 = up_id p \<and> live i0 \<and> i = updated_item p now i0 \<and> i \<in> set (items s')
    \<and> i_version i = i_version i0 + 1
    \<and> (i_closed_at i \<noteq> None \<longleftrightarrow> \<not> open_status (i_status i))
    \<and> (if up_status p \<noteq> None \<and> i_status i \<noteq> i_status i0
       then (\<exists>a e. activities s' = activities s @ [a] \<and> a_item a = Some (up_id p) \<and> a_kind a = ''status_change''
               \<and> a_body a = i_status i0 @ arrow @ i_status i
               \<and> webhook_events s' = webhook_events s @ [e] \<and> e_payload e = StatusData i (i_status i0) (i_status i))
       else activities s' = activities s \<and> webhook_events s' = webhook_events s)"
proof -
  let ?s = "s\<lparr>db_now := now\<rparr>"
  have ok: "db_ok ?s" using assms(1) by simp
  have tx: "update_item_tx p actor ?s = Inr (i, s')" using assms(2) by (simp add: update_item_def with_tx_Inr)
  show ?thesis
  proof (rule update_item_tx_parts[OF ok tx])
    fix i0 s1
    assume i0: "i0 \<in> set (items ?s)" "i_id i0 = up_id p" "live i0" "i = updated_item p (db_now ?s) i0" "i \<in> set (items s1)"
        "activities s1 = activities ?s" "webhook_events s1 = webhook_events ?s"
      and w: "tx_when (up_status p \<noteq> None \<and> up_status p \<noteq> Some (i_status i0)) (record_status_change (i_status i0) i actor) s1
       = Inr ((), s')"
    have st: "up_status p \<noteq> None \<Longrightarrow> up_status p = Some (i_status i)"
      by (auto simp: i0(4) updated_item_def)
    have idi: "i_id i = up_id p" using i0(2) by (simp add: i0(4) updated_item_def)
    have it: "items s' = items s1" using w record_status_change_rows(1) by (auto simp: tx_simps split: if_splits)
    have cl: "(i_closed_at i \<noteq> None) = (\<not> open_status (i_status i))" "i_version i = i_version i0 + 1"
      by (auto simp: i0(4) updated_item_def open_status_def)
    have lg: "if up_status p \<noteq> None \<and> i_status i \<noteq> i_status i0
       then (\<exists>a e. activities s' = activities s @ [a] \<and> a_item a = Some (up_id p) \<and> a_kind a = ''status_change''
               \<and> a_body a = i_status i0 @ arrow @ i_status i
               \<and> webhook_events s' = webhook_events s @ [e] \<and> e_payload e = StatusData i (i_status i0) (i_status i))
       else activities s' = activities s \<and> webhook_events s' = webhook_events s"
    proof (cases "up_status p \<noteq> None \<and> i_status i \<noteq> i_status i0")
      case True
      with w st have "record_status_change (i_status i0) i actor s1 = Inr ((), s')" by (simp add: tx_when_def)
      from record_status_change_rows(2,3)[OF this] True i0(6,7) idi show ?thesis by auto
    next
      case False
      with w st have "s' = s1" by (auto simp: tx_when_def tx_ret_def split: if_splits)
      with False i0(6,7) show ?thesis by simp
    qed
    have i1: "i0 \<in> set (items s)" "i = updated_item p now i0" using i0(1,4) by simp_all
    have mem: "i \<in> set (items s')" using i0(5) it by simp
    show ?thesis
      by (rule bexI[OF _ i1(1)]) (intro conjI i0(2,3) i1(2) mem cl lg)
  qed
qed

text \<open>Completion is one unit of work: either nothing changes, or the item is done and closed, its move
  and the given why are both in the activity log, and the given summary is the project's.\<close>

theorem complete_item_atomic:
  assumes "db_ok s"
  shows "(\<exists>e. complete_item x why summary actor now s = (Inl e, s))
    \<or> (\<exists>i s'. complete_item x why summary actor now s = (Inr i, s') \<and> i_id i = x \<and> i \<in> set (items s')
        \<and> i_status i = ''done'' \<and> i_closed_at i \<noteq> None
        \<and> (why \<noteq> [] \<longrightarrow> (\<exists>a \<in> set (activities s'). a_item a = Some x \<and> a_kind a = ''decision'' \<and> a_body a = why))
        \<and> (\<forall>i0 \<in> set (items s). i_id i0 = x \<and> i_status i0 \<noteq> ''done'' \<longrightarrow>
             (\<exists>a \<in> set (activities s'). a_item a = Some x \<and> a_kind a = ''status_change''))
        \<and> (summary \<noteq> [] \<longrightarrow> (\<exists>p \<in> set (projects s'). p_id p = i_project i \<and> p_summary p = summary)))"
proof (cases "complete_item_tx x why summary actor (s\<lparr>db_now := now\<rparr>)")
  case (Inl e)
  then show ?thesis by (auto simp: complete_item_def with_tx_def)
next
  case (Inr r)
  obtain i s' where r: "r = (i, s')" by (cases r)
  let ?s = "s\<lparr>db_now := now\<rparr>"
  have ok: "db_ok ?s" using assms by simp
  have d: "distinct (map i_id (items s))" using assms by (simp add: db_ok_def items_ok_def)
  have run: "complete_item x why summary actor now s = (Inr i, s')" using Inr r by (simp add: complete_item_def with_tx_def)
  show ?thesis
  proof (rule complete_item_tx_parts[OF ok Inr[unfolded r]])
    fix i0 s1 s2 s3
    assume i0: "i0 \<in> set (items ?s)" "i_id i0 = x" and i: "i_id i = x" "i_status i = ''done''"
        "i_closed_at i = Some (coalesce (i_closed_at i0) (db_now ?s))" "i \<in> set (items s1)"
      and w1: "tx_when (i_status i0 \<noteq> ''done'') (record_status_change (i_status i0) i actor) s1 = Inr ((), s2)"
      and w2: "tx_when (why \<noteq> []) (tx_bind (log_activity_tx (activity_of (i_project i) x ''decision'' actor why)) (\<lambda>_. tx_ret ())) s2
       = Inr ((), s3)"
      and fin: "items s' = items s3" "activities s' = activities s3"
      and sm: "summary \<noteq> [] \<Longrightarrow> \<exists>p \<in> set (projects s'). p_id p = i_project i \<and> p_summary p = summary"
    have a1: "items s2 = items s1 \<and> (i_status i0 \<noteq> ''done'' \<longrightarrow>
        (\<exists>a \<in> set (activities s2). a_item a = Some x \<and> a_kind a = ''status_change''))"
      using w1 record_status_change_rows(1,2)[of "i_status i0" i actor s1 "()" s2] i(1)
      by (cases "i_status i0 = ''done''") (auto simp: tx_when_def tx_ret_def)
    have a2: "items s3 = items s2 \<and> set (activities s2) \<subseteq> set (activities s3) \<and> (why \<noteq> [] \<longrightarrow>
        (\<exists>a \<in> set (activities s3). a_item a = Some x \<and> a_kind a = ''decision'' \<and> a_body a = why))"
    proof (cases "why = []")
      case True
      then show ?thesis using w2 by (simp add: tx_when_def tx_ret_def)
    next
      case False
      then obtain a t u where c: "create_activity (activity_of (i_project i) x ''decision'' actor why) s2 = Inr (a, t)"
        and q: "enqueue (a_project a) ''activity.logged'' (ActivityData a) t = Inr (u, s3)"
        using w2 by (auto simp: tx_simps log_activity_tx_def)
      note cr = create_activity_row[OF c]
      have "same_core t s3" using q by (rule enqueue_core)
      then show ?thesis using cr(1,2,5) by (auto simp: same_core_def activity_of_def new_activity_def)
    qed
    have one: "j = i0" if "j \<in> set (items s)" "i_id j = x" for j
      using distinct_key[OF d that(1), of i0] i0 that(2) by simp
    show ?thesis using run i a1 a2 fin sm one by (intro disjI2 exI[of _ i] exI[of _ s']) (auto 4 3)
  qed
qed

text \<open>A batch is all or nothing: either every request has its item, in order, or no item, activity or
  event was added.\<close>

theorem bulk_create_atomic:
  assumes "db_ok s"
  shows "(\<exists>e. bulk_create_items ps actor now s = (Inl e, s))
    \<or> (\<exists>is s'. bulk_create_items ps actor now s = (Inr is, s') \<and> db_ok s'
        \<and> list_all2 (\<lambda>p i. i \<in> set (items s') \<and> i_project i = cp_project p \<and> i_key i = cp_key p) ps is)"
proof (cases "tx_map (\<lambda>p. create_item_tx p actor) ps (s\<lparr>db_now := now\<rparr>)")
  case (Inl e)
  then show ?thesis by (auto simp: bulk_create_items_def with_tx_def)
next
  case (Inr r)
  obtain rs s' where r: "r = (rs, s')" by (cases r)
  have "db_ok s'" using tx_keepsD[OF tx_keeps_map[OF keeps_create_item_tx] Inr[unfolded r]] assms by simp
  with Inr r created_rows[OF Inr[unfolded r]] show ?thesis by (auto simp: bulk_create_items_def with_tx_def)
qed

text \<open>A key outlives its item: once the item of a key is soft-deleted, no creation with that key in that
  project succeeds any more, although the lookup says that no item has it. (The unique index counts
  deleted rows, the lookup does not.)\<close>

theorem deleted_key_blocks_creation:
  assumes "db_ok s" and "d \<in> set (items s)" and "\<not> live d" and "i_project d = cp_project p" and "i_key d = cp_key p"
    and "has_key p"
  shows "key_lookup p s = None \<and> (\<exists>e. create_item (\<lambda>s. s) p actor now s = (Inl e, s))"
proof -
  have nokey: "get_item_by_key (cp_project p) (cp_key p) t = Inl NoRows" if "items t = items s" for t
  proof (cases "get_item_by_key (cp_project p) (cp_key p) t")
    case (Inl e)
    then show ?thesis using get_item_by_key_None by blast
  next
    case (Inr r)
    then have "fst r \<in> set (items t)" "i_project (fst r) = cp_project p" "i_key (fst r) = cp_key p" "live (fst r)"
      using get_item_by_key_Some[of _ _ t "fst r" "snd r"] by auto
    with assms that have "fst r = d" by (simp add: db_ok_def items_ok_def keys_ok_def has_key_def)
    with \<open>live (fst r)\<close> assms(3) show ?thesis by simp
  qed
  let ?s = "s\<lparr>db_now := now\<rparr>"
  have "create_item_stmt p ?s \<noteq> Inr (i, t)" for i t
  proof
    assume c: "create_item_stmt p ?s = Inr (i, t)"
    have "db_ok t" using tx_keepsD[OF keeps_create_item_stmt c] assms(1) by simp
    then have "keys_ok (items t)" by (simp add: db_ok_def items_ok_def)
    then have "d = i" using create_item_stmt_row(1-3)[OF c] assms by (simp add: keys_ok_def has_key_def)
    with create_item_stmt_row(4)[OF c] assms(3) show False by simp
  qed
  then obtain e where "create_item_stmt p ?s = Inl e" by (metis obj_sumE prod.collapse)
  then have "create_item_tx p actor ?s = Inl e"
    using assms(6) nokey[of ?s] by (simp add: create_item_tx_def tx_or_else_def insert_item_tx_def tx_bind_def)
  then show ?thesis using nokey[of s] by (auto simp: create_item_def key_lookup_def Let_def with_tx_def)
qed

text \<open>The empty key is stored as a key although creation does not treat it as one: the second creation
  with an empty key in a project fails on the unique index.\<close>

theorem empty_key_collides:
  assumes "db_ok s" and "cp_key p = Some []" and "cp_key q = Some []" and "cp_project q = cp_project p"
    and "create_item (\<lambda>s. s) p actor now s = (Inr i, s')"
  shows "\<exists>e. create_item (\<lambda>s. s) q actor' now' s' = (Inl e, s')"
proof -
  have nk: "\<not> has_key p" "\<not> has_key q" using assms(2,3) by (simp_all add: has_key_def)
  have "with_tx now (create_item_tx p actor) s = (Inr i, s')"
    using assms(5) nk(1) by (auto simp: create_item_def split: sum.splits prod.splits)
  then have ins: "insert_item_tx p actor (s\<lparr>db_now := now\<rparr>) = Inr (i, s')"
    using nk(1) by (simp add: with_tx_Inr create_item_tx_def)
  note rows = insert_item_tx_rows[OF ins]
  have ok: "db_ok s'" using tx_keepsD[OF keeps_insert_item_tx ins] assms(1) by simp
  let ?s = "s'\<lparr>db_now := now'\<rparr>"
  have "create_item_stmt q ?s \<noteq> Inr (j, t)" for j t
  proof
    assume c: "create_item_stmt q ?s = Inr (j, t)"
    note cr = create_item_stmt_row[OF c]
    have "db_ok t" using tx_keepsD[OF keeps_create_item_stmt c] ok by simp
    then have k: "keys_ok (items t)" and d: "distinct (map i_id (items t))" by (simp_all add: db_ok_def items_ok_def)
    have "i \<in> set (items t)" "j \<in> set (items t)" using rows(1) cr(1) by auto
    with k have "i = j" using rows(2,3) cr(2,3) assms(2-4) by (simp add: keys_ok_def)
    with d rows(1) cr(1) show False by auto
  qed
  then obtain e where "create_item_stmt q ?s = Inl e" by (metis obj_sumE prod.collapse)
  then have "create_item_tx q actor' ?s = Inl e" using nk(2) by (simp add: create_item_tx_def insert_item_tx_def tx_bind_def)
  then show ?thesis using nk(2) by (auto simp: create_item_def with_tx_def)
qed

subsection \<open>A concrete history\<close>

definition demo_project :: project where
  "demo_project = \<lparr>p_id = 7, p_slug = ''a-1'', p_name = ''A'', p_status = ''active'', p_summary = [], p_repo_url = None,
     p_site_url = None, p_created_at = 0, p_updated_at = 0, p_instructions = [], p_item_seq = 0, p_aliases = [], p_parent = None\<rparr>"

definition demo_db :: db where
  "demo_db = empty_db\<lparr>projects := [demo_project], db_drawn := 10\<rparr>"

definition demo_create :: create_params where
  "demo_create = \<lparr>cp_project = 7, cp_type = None, cp_title = ''t'', cp_body = None, cp_status = None, cp_priority = None,
     cp_assignee = None, cp_position = None, cp_source = None, cp_external_ref = None, cp_tags = None, cp_metadata = None,
     cp_key = Some ''k'', cp_criteria = None\<rparr>"

definition demo_item :: item where
  "demo_item = (new_item demo_create 10 5)\<lparr>i_seq := 1, i_ref := ''a-1-1''\<rparr>"

lemma demo_db_ok: "db_ok demo_db"
  by (simp add: db_ok_def demo_db_def empty_db_def projects_ok_def items_ok_def activities_ok_def links_ok_def keys_ok_def
      demo_project_def project_checks_def project_statuses_def)

lemma demo_ref: "item_ref_of ''a-1'' 1 = ''a-1-1''"
  by code_simp
lemma demo_create_run: "fst (create_item (\<lambda>s. s) demo_create ''me'' 5 demo_db) = Inr demo_item"
  by code_simp
definition demo_made :: db where
  "demo_made = snd (create_item (\<lambda>s. s) demo_create ''me'' 5 demo_db)"

lemma demo_made_run: "create_item (\<lambda>s. s) demo_create ''me'' 5 demo_db = (Inr demo_item, demo_made)"
  using demo_create_run by (simp add: demo_made_def prod_eq_iff)

lemma demo_made_ok: "db_ok demo_made"
  unfolding demo_made_def by (rule create_item_inv) (rule demo_db_ok)+

lemma demo_has_key: "has_key demo_create"
  by (simp add: has_key_def demo_create_def)

lemma demo_lookup: "key_lookup demo_create demo_db = None" "key_lookup demo_create demo_made = Some demo_item"
  by code_simp+


lemma create_item_lost_race_witness:
  "fst (create_item (\<lambda>_. demo_made) demo_create ''you'' 9 demo_db) = Inr demo_item"
  using create_item_lost_race[OF demo_has_key demo_lookup(1), of "\<lambda>_. demo_made"] demo_lookup(2) by blast

lemma create_item_appends_witness: "items demo_made = items demo_db @ [demo_item]"
  using create_item_appends[OF demo_db_ok _ demo_made_run] demo_lookup(1) by blast

lemma demo_in: "demo_item \<in> set (items (foldl istep demo_db [ICreate demo_create ''me'' 5]))"
  by (simp add: demo_made_run) (code_simp)


definition demo_update :: "string option \<Rightarrow> int \<Rightarrow> update_params" where
  "demo_update st v = (no_update 10)\<lparr>up_status := st, up_expected := Some v\<rparr>"

lemma demo_update_run:
  "update_item (demo_update (Some ''done'') 1) ''me'' 6 demo_made
    = (Inr (updated_item (demo_update (Some ''done'') 1) 6 demo_item),
       snd (update_item (demo_update (Some ''done'') 1) ''me'' 6 demo_made))"
proof -
  have "fst (update_item (demo_update (Some ''done'') 1) ''me'' 6 demo_made)
    = Inr (updated_item (demo_update (Some ''done'') 1) 6 demo_item)" by code_simp
  then show ?thesis by (simp add: prod_eq_iff)
qed


lemma update_item_effect_witness:
  "\<exists>i0 \<in> set (items demo_made). i_id i0 = up_id (demo_update (Some ''done'') 1)"
  using update_item_effect[OF demo_made_ok demo_update_run] by blast

lemma complete_item_atomic_witness:
  "(\<exists>e. complete_item 10 ''why'' [] ''me'' 8 demo_made = (Inl e, demo_made))
    \<or> (\<exists>i s'. complete_item 10 ''why'' [] ''me'' 8 demo_made = (Inr i, s') \<and> i_status i = ''done'')"
  using complete_item_atomic[OF demo_made_ok, of 10 "''why''" "[]" "''me''" 8] by blast

lemma bulk_create_atomic_witness:
  "(\<exists>e. bulk_create_items [demo_create] ''me'' 8 demo_made = (Inl e, demo_made))
    \<or> (\<exists>is s'. bulk_create_items [demo_create] ''me'' 8 demo_made = (Inr is, s'))"
  using bulk_create_atomic[OF demo_made_ok, of "[demo_create]" "''me''" 8] by blast

definition demo_deleted :: db where
  "demo_deleted = snd (with_tx 6 (soft_delete_item 10) demo_made)"

lemma demo_deleted_ok: "db_ok demo_deleted"
  unfolding demo_deleted_def by (rule with_tx_ok[OF keeps_soft_delete_item demo_made_ok])

lemma demo_deleted_item: "demo_item\<lparr>i_deleted_at := Some 6, i_updated_at := 6\<rparr> \<in> set (items demo_deleted)"
  by code_simp

lemma deleted_key_blocks_creation_witness:
  "\<exists>e. create_item (\<lambda>s. s) demo_create ''me'' 8 demo_deleted = (Inl e, demo_deleted)"
  using deleted_key_blocks_creation[OF demo_deleted_ok demo_deleted_item, of demo_create] demo_has_key
  by (simp add: live_def demo_item_def new_item_def demo_create_def)

lemma empty_key_collides_witness:
  "\<exists>e. create_item (\<lambda>s. s) (demo_create\<lparr>cp_key := Some []\<rparr>) ''me'' 8
      (snd (create_item (\<lambda>s. s) (demo_create\<lparr>cp_key := Some []\<rparr>) ''me'' 5 demo_db))
    = (Inl e, snd (create_item (\<lambda>s. s) (demo_create\<lparr>cp_key := Some []\<rparr>) ''me'' 5 demo_db))"
proof (rule empty_key_collides[OF demo_db_ok])
  show "create_item (\<lambda>s. s) (demo_create\<lparr>cp_key := Some []\<rparr>) ''me'' 5 demo_db
    = (Inr (demo_item\<lparr>i_key := Some []\<rparr>), snd (create_item (\<lambda>s. s) (demo_create\<lparr>cp_key := Some []\<rparr>) ''me'' 5 demo_db))"
  proof -
    have "fst (create_item (\<lambda>s. s) (demo_create\<lparr>cp_key := Some []\<rparr>) ''me'' 5 demo_db) = Inr (demo_item\<lparr>i_key := Some []\<rparr>)"
      by code_simp
    then show ?thesis by (simp add: prod_eq_iff)
  qed
qed simp_all

end
