(* ===== verification/Validate.thy ===== *)
theory Validate
  imports Item_Properties
begin

text \<open>
  Validation of caller input, \<open>internal/service/validate.go\<close>, with the counting of UTF-8 runes it uses.
  The texts of the errors name the field; the value quoted into them by the code is left out.
\<close>

subsection \<open>Runes\<close>

definition in_range :: "char \<Rightarrow> nat \<Rightarrow> nat \<Rightarrow> bool" where
  "in_range c lo hi = (lo \<le> of_char c \<and> (of_char c :: nat) \<le> hi)"

definition cont :: "char \<Rightarrow> bool" where "cont c = in_range c 0x80 0xBF"

text \<open>
  How many bytes the first rune of a non-empty string takes, \<open>utf8.DecodeRuneInString\<close>: a byte that does
  not start a valid encoding is a rune of its own.
\<close>

fun rune_size :: "string \<Rightarrow> nat" where
  "rune_size [] = 0"
| "rune_size [a] = 1"
| "rune_size [a, b] = (if in_range a 0xC2 0xDF \<and> cont b then 2 else 1)"
| "rune_size [a, b, c] =
     (if in_range a 0xC2 0xDF \<and> cont b then 2
      else if in_range a 0xE0 0xEF \<and> in_range b (if of_char a = (0xE0 :: nat) then 0xA0 else 0x80)
                (if of_char a = (0xED :: nat) then 0x9F else 0xBF) \<and> cont c then 3 else 1)"
| "rune_size (a # b # c # d # _) =
     (if in_range a 0xC2 0xDF \<and> cont b then 2
      else if in_range a 0xE0 0xEF \<and> in_range b (if of_char a = (0xE0 :: nat) then 0xA0 else 0x80)
                (if of_char a = (0xED :: nat) then 0x9F else 0xBF) \<and> cont c then 3
      else if in_range a 0xF0 0xF4 \<and> in_range b (if of_char a = (0xF0 :: nat) then 0x90 else 0x80)
                (if of_char a = (0xF4 :: nat) then 0x8F else 0xBF) \<and> cont c \<and> cont d then 4 else 1)"

lemma rune_size_pos: "s \<noteq> [] \<Longrightarrow> 0 < rune_size s"
  by (cases s rule: rune_size.cases) simp_all

lemma rune_size_le: "rune_size s \<le> length s"
  by (cases s rule: rune_size.cases) simp_all

function rune_count :: "string \<Rightarrow> nat" where
  "rune_count s = (if s = [] then 0 else Suc (rune_count (drop (rune_size s) s)))"
  by auto
termination
proof (relation "measure length")
  fix s :: string assume "s \<noteq> []"
  then show "(drop (rune_size s) s, s) \<in> measure length" using rune_size_pos[of s] by simp
qed simp

declare rune_count.simps [simp del]

text \<open>The first \<open>n\<close> runes of a string, as bytes.\<close>

fun take_runes :: "nat \<Rightarrow> string \<Rightarrow> string" where
  "take_runes 0 s = []"
| "take_runes (Suc n) s = (if s = [] then [] else take (rune_size s) s @ take_runes n (drop (rune_size s) s))"

lemma rune_count_Nil [simp]: "rune_count [] = 0"
  by (simp add: rune_count.simps)

lemma rune_count_pos: "0 < rune_count s \<longleftrightarrow> s \<noteq> []"
  by (subst rune_count.simps) simp

lemma rune_count_le: "rune_count s \<le> length s"
proof (induction s rule: rune_count.induct)
  case (1 s)
  show ?case
  proof (cases "s = []")
    case False
    have "rune_count s = Suc (rune_count (drop (rune_size s) s))" using False by (subst rune_count.simps) simp
    also have "\<dots> \<le> Suc (length s - rune_size s)" using 1[OF False] by simp
    also have "\<dots> \<le> length s" using rune_size_pos[OF False] rune_size_le[of s] by linarith
    finally show ?thesis .
  qed simp
qed

subsection \<open>Enumerations\<close>

definition valid_context_effects :: "string list" where
  "valid_context_effects = [''helpful'', ''neutral'', ''harmful'']"

definition valid_context_mechanisms :: "string list" where
  "valid_context_mechanisms = [''decision_changed'', ''prevented_error'', ''duplicate_work_avoided'',
     ''reconstruction_saved'', ''ignored'', ''stale_or_incorrect'']"

definition valid_context_impact_pairs :: "string \<Rightarrow> string \<Rightarrow> bool" where
  "valid_context_impact_pairs ef me =
     (if ef = ''helpful'' then me \<in> {''decision_changed'', ''prevented_error'', ''duplicate_work_avoided'', ''reconstruction_saved''}
      else if ef = ''neutral'' then me = ''ignored''
      else if ef = ''harmful'' then me = ''stale_or_incorrect'' else False)"

definition one_of :: "string \<Rightarrow> string \<Rightarrow> string list \<Rightarrow> string option" where
  "one_of field v allowed = (if v \<in> set allowed then None
     else Some (''invalid '' @ field @ '' (want one of: '' @ join '', '' allowed @ '')''))"

text \<open>A check of an optional field: nil and the empty string are skipped.\<close>

definition opt_one_of :: "string \<Rightarrow> string list \<Rightarrow> string option \<Rightarrow> string option" where
  "opt_one_of field allowed v = (if v \<noteq> None \<and> v \<noteq> Some [] then one_of field (the v) allowed else None)"

definition first_error :: "string option \<Rightarrow> string option \<Rightarrow> string option" where
  "first_error a b = (case a of None \<Rightarrow> b | Some e \<Rightarrow> Some e)"

definition validate_item_fields :: "string option \<Rightarrow> string option \<Rightarrow> string option \<Rightarrow> string option" where
  "validate_item_fields ty st pr = first_error (opt_one_of ''type'' item_types ty)
     (first_error (opt_one_of ''status'' item_statuses st) (opt_one_of ''priority'' item_priorities pr))"

definition validate_project_status :: "string option \<Rightarrow> string option" where
  "validate_project_status = opt_one_of ''status'' project_statuses"

definition validate_activity_kind :: "string option \<Rightarrow> string option" where
  "validate_activity_kind = opt_one_of ''kind'' activity_kinds"

definition validate_link_kind :: "string option \<Rightarrow> string option" where
  "validate_link_kind = opt_one_of ''kind'' link_kinds"

definition validate_confidence :: "string option \<Rightarrow> string option" where
  "validate_confidence = opt_one_of ''confidence'' confidences"

definition validate_ref_kind :: "string option \<Rightarrow> string option" where
  "validate_ref_kind = opt_one_of ''kind'' ref_kinds"

subsection \<open>Context impact\<close>

record impact_input =
  in_session :: string
  in_project :: string
  in_item :: "string option"
  in_effect :: string
  in_mechanism :: string
  in_refs :: "string list"
  in_evidence :: string
  in_delta :: "int option"
  in_key :: "string option"

definition guard_that :: "bool \<Rightarrow> string \<Rightarrow> string option" where
  "guard_that b e = (if b then None else Some e)"

definition validate_context_impact :: "impact_input \<Rightarrow> string option" where
  "validate_context_impact i =
     (let ses = rune_count (trim_space (in_session i)); ev = rune_count (trim_space (in_evidence i)) in
      first_error (guard_that (1 \<le> ses \<and> ses \<le> 200) ''session_id must be 1-200 characters'')
     (first_error (guard_that (trim_space (in_project i) \<noteq> []) ''project is required'')
     (first_error (one_of ''effect'' (in_effect i) valid_context_effects)
     (first_error (one_of ''mechanism'' (in_mechanism i) valid_context_mechanisms)
     (first_error (guard_that (valid_context_impact_pairs (in_effect i) (in_mechanism i)) ''mechanism is not valid for effect'')
     (first_error (guard_that (1 \<le> ev \<and> ev \<le> 2000) ''evidence must be 1-2000 characters'')
     (first_error (guard_that (length (in_refs i) \<le> 20) ''context_refs may contain at most 20 entries'')
     (first_error (guard_that (list_all (\<lambda>r. 1 \<le> rune_count (trim_space r) \<and> rune_count (trim_space r) \<le> 200) (in_refs i))
        ''each context_refs entry must be 1-200 characters'')
     (first_error (guard_that (case in_key i of None \<Rightarrow> True | Some k \<Rightarrow> rune_count (trim_space k) \<le> 200)
        ''idempotency_key must be at most 200 characters'')
     (case in_delta i of
        None \<Rightarrow> None
      | Some d \<Rightarrow>
          first_error (guard_that (-1440 \<le> d \<and> d \<le> 1440) ''estimated_minutes_delta must be between -1440 and 1440'')
         (first_error (guard_that (\<not> (in_effect i = ''helpful'' \<and> d < 0)) ''helpful impact cannot report negative estimated_minutes_delta'')
         (first_error (guard_that (\<not> (in_effect i = ''harmful'' \<and> 0 < d)) ''harmful impact cannot report positive estimated_minutes_delta'')
            (guard_that (\<not> (in_effect i = ''neutral'' \<and> d \<noteq> 0)) ''neutral impact must report zero estimated_minutes_delta'')))))))))))))"

subsection \<open>What validation rules out\<close>

lemma first_error_None [simp]: "first_error a b = None \<longleftrightarrow> a = None \<and> b = None"
  by (cases a) (simp_all add: first_error_def)

lemma guard_that_None [simp]: "guard_that b e = None \<longleftrightarrow> b"
  by (simp add: guard_that_def)

lemma one_of_None [simp]: "one_of f v xs = None \<longleftrightarrow> v \<in> set xs"
  by (simp add: one_of_def)

lemma opt_one_of_None: "opt_one_of f xs v = None \<longleftrightarrow> v = None \<or> v = Some [] \<or> the v \<in> set xs"
  by (auto simp: opt_one_of_def)

text \<open>Validated input does not reach the CHECK constraints of the items table: the update of a live row
  whose given type, status and priority passed validation and are not empty is not refused by them.\<close>

theorem validated_update_passes_checks:
  assumes "db_ok s" and "validate_item_fields (up_type p) (up_status p) (up_priority p) = None"
    and "up_type p \<noteq> Some []" and "up_status p \<noteq> Some []" and "up_priority p \<noteq> Some []"
  shows "update_item_stmt p s \<noteq> Inl check_violation"
proof -
  have chk: "item_checks (updated_item p (db_now s) i)" if "i \<in> set (items s)" for i
  proof -
    have ok: "item_checks i" using assms(1) that by (auto simp: db_ok_def items_ok_def item_ok_def)
    have "coalesce v d \<in> set xs" if "opt_one_of f xs v = None" "v \<noteq> Some []" "d \<in> set xs" for f xs v d
      using that by (cases v) (auto simp: opt_one_of_None)
    then show ?thesis using assms(2-5) ok
      by (auto simp: item_checks_def updated_item_def validate_item_fields_def)
  qed
  show ?thesis
  proof (cases "row_find (\<lambda>i. i_id i = up_id p \<and> live i \<and> null_match (up_expected p) (i_version i)) (items s)")
    case (Inl e)
    then have "e = NoRows" by (simp add: row_find_Inl)
    with Inl show ?thesis
      by (simp add: update_item_stmt_def update_item_where_def tx_bind_def get_now_def tx_read_def check_violation_def)
  next
    case (Inr i)
    then have "item_checks (updated_item p (db_now s) i)" using chk row_find_Inr by fast
    with Inr show ?thesis by (simp add: update_item_stmt_def update_item_where_def tx_bind_def get_now_def tx_read_def)
  qed
qed

text \<open>An empty status passes validation and is refused by the database: \<open>COALESCE\<close> only skips nulls, so
  the update of a live item with the empty status fails on the CHECK constraint. (The comment of
  \<open>ValidateItemFields\<close> says that empty values fall back to defaults or do nothing.)\<close>

theorem empty_status_fails_check:
  assumes "i \<in> set (items s)" and "i_id i = x" and "live i"
  shows "validate_item_fields None (Some []) None = None
    \<and> update_item ((no_update x)\<lparr>up_status := Some []\<rparr>) actor now s = (Inl check_violation, s)"
proof
  show "validate_item_fields None (Some []) None = None" by (simp add: validate_item_fields_def opt_one_of_def)
  let ?p = "(no_update x)\<lparr>up_status := Some []\<rparr>" and ?s = "s\<lparr>db_now := now\<rparr>"
  have p: "up_id ?p = x" "up_status ?p = Some []" "up_expected ?p = None" by (simp_all add: no_update_def)
  have "\<exists>j. row_find (\<lambda>i. i_id i = x \<and> live i) (items s) = Inr j" using assms by (intro row_find_ex) auto
  then obtain j where j: "row_find (\<lambda>i. i_id i = x \<and> live i) (items s) = Inr j" ..
  have bad: "\<not> item_checks (updated_item ?p now k)" for k
    by (simp add: item_checks_def updated_item_def p(2) item_statuses_def)
  have "get_item x ?s = Inr (j, ?s)" using j by (simp add: get_item_def tx_read_def)
  moreover have "update_item_stmt ?p ?s = Inl check_violation"
    using j bad by (simp add: update_item_stmt_def update_item_where_def tx_bind_def get_now_def tx_read_def p)
  ultimately show "update_item ?p actor now s = (Inl check_violation, s)"
    by (simp add: update_item_def with_tx_def update_item_tx_def tx_bind_def tx_conflict_def p)
qed

subsection \<open>Concrete input\<close>

lemma demo_item_facts: "items demo_made = [demo_item]" "i_id demo_item = 10" "live demo_item"
  by code_simp+

lemma validated_update_passes_checks_witness:
  "update_item_stmt (demo_update (Some ''done'') 1) demo_made \<noteq> Inl check_violation"
proof -
  have v: "validate_item_fields (up_type (demo_update (Some ''done'') 1)) (up_status (demo_update (Some ''done'') 1))
    (up_priority (demo_update (Some ''done'') 1)) = None" by code_simp
  show ?thesis
    by (rule validated_update_passes_checks[OF demo_made_ok v]) (simp_all add: demo_update_def no_update_def)
qed

lemma empty_status_fails_check_witness:
  "update_item ((no_update 10)\<lparr>up_status := Some []\<rparr>) ''me'' 6 demo_made = (Inl check_violation, demo_made)"
proof -
  have "demo_item \<in> set (items demo_made)" by (simp add: demo_item_facts)
  from empty_status_fails_check[OF this demo_item_facts(2,3)] show ?thesis by (rule conjunct2)
qed

end
