(* ===== verification/Context_Impact.thy ===== *)
theory Context_Impact
  imports Validate
begin

text \<open>
  Context-impact events: the statements of \<open>internal/store/context_impact.sql.go\<close>, the recording
  service of \<open>internal/service/context_impact.go\<close> and the handlers of
  \<open>internal/api/context_impact.go\<close>. What comes from libraries is in \<open>impact_env\<close>: the parser of
  UUIDs, the folding of letter case in the query for a ref, and the fingerprint (the hexadecimal SHA-256
  of the encoded input).
\<close>

subsection \<open>Statements\<close>

definition btrim :: "string \<Rightarrow> string" where
  "btrim s = rev (dropWhile (\<lambda>c. c = CHR '' '') (rev (dropWhile (\<lambda>c. c = CHR '' '') s)))"

text \<open>The CHECK constraints of the table, \<open>char_length\<close> counting the characters of a UTF-8 text.\<close>

definition impact_checks :: "impact \<Rightarrow> bool" where
  "impact_checks r = (0 < rune_count (btrim (c_actor r))
     \<and> 1 \<le> rune_count (btrim (c_session r)) \<and> rune_count (btrim (c_session r)) \<le> 200
     \<and> 0 < rune_count (btrim (c_project r))
     \<and> c_effect r \<in> set valid_context_effects \<and> c_mechanism r \<in> set valid_context_mechanisms
     \<and> length (c_refs r) \<le> 20
     \<and> 1 \<le> rune_count (btrim (c_evidence r)) \<and> rune_count (btrim (c_evidence r)) \<le> 2000
     \<and> (case c_delta r of None \<Rightarrow> True | Some d \<Rightarrow> -1440 \<le> d \<and> d \<le> 1440)
     \<and> (case c_key r of None \<Rightarrow> True | Some k \<Rightarrow> rune_count k \<le> 200)
     \<and> rune_count (c_fingerprint r) = 64
     \<and> ((c_effect r = ''helpful'' \<and> c_mechanism r \<in> {''decision_changed'', ''prevented_error'', ''duplicate_work_avoided'', ''reconstruction_saved''})
        \<or> (c_effect r = ''neutral'' \<and> c_mechanism r = ''ignored'')
        \<or> (c_effect r = ''harmful'' \<and> c_mechanism r = ''stale_or_incorrect''))
     \<and> (case c_delta r of None \<Rightarrow> True
        | Some d \<Rightarrow> (c_effect r = ''helpful'' \<and> 0 \<le> d) \<or> (c_effect r = ''neutral'' \<and> d = 0) \<or> (c_effect r = ''harmful'' \<and> d \<le> 0)))"

definition impact_row :: "impact_input \<Rightarrow> string \<Rightarrow> string option \<Rightarrow> string \<Rightarrow> uuid \<Rightarrow> gtime \<Rightarrow> impact" where
  "impact_row i actor it fp u t = \<lparr>c_id = u, c_recorded_at = t, c_actor = actor, c_session = in_session i,
     c_project = in_project i, c_item = it, c_effect = in_effect i, c_mechanism = in_mechanism i, c_refs = in_refs i,
     c_evidence = in_evidence i, c_delta = in_delta i, c_key = in_key i, c_fingerprint = fp\<rparr>"

definition create_context_impact_event :: "impact_input \<Rightarrow> string \<Rightarrow> string option \<Rightarrow> string \<Rightarrow> impact dbtx" where
  "create_context_impact_event i actor it fp = tx_bind draw_uuid (\<lambda>u. tx_bind get_now (\<lambda>t. (\<lambda>s.
     (let r = impact_row i actor it fp u t
      in if \<not> impact_checks r then Inl check_violation
         else if has_row (\<lambda>q. c_id q = u \<or> (c_key r \<noteq> None \<and> c_actor q = c_actor r \<and> c_key q = c_key r)) (impacts s)
         then Inl unique_violation
         else Inr (r, s\<lparr>impacts := impacts s @ [r]\<rparr>)))))"

definition get_context_impact_by_key :: "string \<Rightarrow> string \<Rightarrow> db \<Rightarrow> error + impact" where
  "get_context_impact_by_key actor k s = row_find (\<lambda>r. c_actor r = actor \<and> c_key r = Some k) (impacts s)"

definition list_context_impact_events :: "gtime \<Rightarrow> string option \<Rightarrow> nat \<Rightarrow> db \<Rightarrow> impact list" where
  "list_context_impact_events since pr n s = take n (sort_key (\<lambda>r. - c_recorded_at r)
     (filter (\<lambda>r. since \<le> c_recorded_at r \<and> null_match pr (c_project r)) (impacts s)))"

record effectiveness =
  ef_reported :: nat
  ef_helpful :: nat
  ef_neutral :: nat
  ef_harmful :: nat
  ef_prevented :: nat
  ef_duplicate :: nat
  ef_minutes :: int

definition context_effectiveness_summary :: "gtime \<Rightarrow> db \<Rightarrow> effectiveness" where
  "context_effectiveness_summary since s =
     (let rows = filter (\<lambda>r. since \<le> c_recorded_at r) (impacts s);
          ses = remdups (map (\<lambda>r. (c_actor r, c_session r)) rows);
          having = (\<lambda>p. length (filter (\<lambda>k. list_ex (\<lambda>r. (c_actor r, c_session r) = k \<and> p r) rows) ses))
      in \<lparr>ef_reported = length ses, ef_helpful = having (\<lambda>r. c_effect r = ''helpful''),
          ef_neutral = having (\<lambda>r. c_effect r = ''neutral''), ef_harmful = having (\<lambda>r. c_effect r = ''harmful''),
          ef_prevented = having (\<lambda>r. c_mechanism r = ''prevented_error''),
          ef_duplicate = having (\<lambda>r. c_mechanism r = ''duplicate_work_avoided''),
          ef_minutes = sum_list (map (\<lambda>r. coalesce (c_delta r) 0) rows)\<rparr>)"

subsection \<open>Recording\<close>

record impact_env =
  ie_parse :: "string \<Rightarrow> uuid option"
  ie_lower :: "string \<Rightarrow> string"
  ie_finger :: "impact_input \<Rightarrow> string"

definition blank_to_none :: "string option \<Rightarrow> string option" where
  "blank_to_none v = (case v of None \<Rightarrow> None | Some x \<Rightarrow> if trim_space x = [] then None else Some (trim_space x))"

definition normalize_context_impact :: "impact_input \<Rightarrow> impact_input" where
  "normalize_context_impact i = \<lparr>in_session = trim_space (in_session i), in_project = trim_space (in_project i),
     in_item = blank_to_none (in_item i), in_effect = trim_space (in_effect i), in_mechanism = trim_space (in_mechanism i),
     in_refs = map trim_space (in_refs i), in_evidence = trim_space (in_evidence i), in_delta = in_delta i,
     in_key = blank_to_none (in_key i)\<rparr>"

text \<open>The fingerprint covers everything but the key.\<close>

definition context_impact_fingerprint :: "impact_env \<Rightarrow> impact_input \<Rightarrow> string" where
  "context_impact_fingerprint e i = ie_finger e (i\<lparr>in_key := None\<rparr>)"

definition context_impact_item :: "impact_env \<Rightarrow> string \<Rightarrow> item dbtx" where
  "context_impact_item e x = (case ie_parse e x of Some u \<Rightarrow> get_item u | None \<Rightarrow> get_item_by_ref (ie_lower e) x)"

definition context_impact_replay :: "impact \<Rightarrow> string \<Rightarrow> error + impact \<times> bool" where
  "context_impact_replay prior fp = (if c_fingerprint prior \<noteq> fp then Inl ErrIdempotencyConflict else Inr (prior, False))"

text \<open>The item an input names, as the ref the row keeps.\<close>

definition impact_item_ref :: "impact_env \<Rightarrow> impact_input \<Rightarrow> project \<Rightarrow> db \<Rightarrow> error + string option" where
  "impact_item_ref e i p s =
     (case in_item i of
        None \<Rightarrow> Inr None
      | Some x \<Rightarrow>
         (case context_impact_item e x s of
            Inl er \<Rightarrow> Inl er
          | Inr (it, _) \<Rightarrow>
             (if i_project it \<noteq> p_id p then Inl (ErrInvalidContextImpact ''item does not belong to project'')
              else Inr (Some (i_ref it)))))"

definition insert_impact :: "(db \<Rightarrow> db) \<Rightarrow> impact_input \<Rightarrow> string \<Rightarrow> string option \<Rightarrow> string \<Rightarrow> gtime \<Rightarrow> db
    \<Rightarrow> (error + impact \<times> bool) \<times> db" where
  "insert_impact other i actor ref fp now s =
     (case with_tx now (create_context_impact_event i actor ref fp) (other s) of
        (Inr r, s') \<Rightarrow> (Inr (r, True), s')
      | (Inl er, s') \<Rightarrow>
          (case in_key i of
             None \<Rightarrow> (Inl er, s')
           | Some k \<Rightarrow>
              (if er = unique_violation
               then (case get_context_impact_by_key actor k s' of
                       Inr prior \<Rightarrow> (context_impact_replay prior fp, s')
                     | Inl _ \<Rightarrow> (Inl er, s'))
               else (Inl er, s'))))"

text \<open>\<open>RecordContextImpact\<close>. \<open>other\<close> is what other callers commit between the lookup of the key and the
  insert.\<close>

definition record_context_impact :: "impact_env \<Rightarrow> (db \<Rightarrow> db) \<Rightarrow> impact_input \<Rightarrow> string \<Rightarrow> gtime \<Rightarrow> db
    \<Rightarrow> (error + impact \<times> bool) \<times> db" where
  "record_context_impact e other input actor0 now s =
     (let i = normalize_context_impact input; actor = trim_space actor0 in
      case validate_context_impact i of
        Some msg \<Rightarrow> (Inl (ErrInvalidContextImpact msg), s)
      | None \<Rightarrow>
         (if actor = [] then (Inl (ErrInvalidContextImpact ''authenticated actor is required''), s)
          else (let fp = context_impact_fingerprint e i in
            case (case in_key i of None \<Rightarrow> Inl NoRows | Some k \<Rightarrow> get_context_impact_by_key actor k s) of
              Inr prior \<Rightarrow> (context_impact_replay prior fp, s)
            | Inl er \<Rightarrow>
               (if er \<noteq> NoRows then (Inl er, s)
                else (case find_slug (in_project i) s of
                        Inl er' \<Rightarrow> (Inl er', s)
                      | Inr p \<Rightarrow>
                         (case impact_item_ref e i p s of
                            Inl er' \<Rightarrow> (Inl er', s)
                          | Inr ref \<Rightarrow> insert_impact other i actor ref fp now s))))))"

subsection \<open>Handlers\<close>

text \<open>\<open>writeDBError\<close>: the status an error is answered with.\<close>

definition db_error_status :: "error \<Rightarrow> nat" where
  "db_error_status e = (if e = NoRows then 404 else if e = ErrConflict then 409
     else if e = ErrIdempotencyConflict then 409 else 500)"

definition create_context_impact :: "impact_env \<Rightarrow> impact_input option \<Rightarrow> string \<Rightarrow> gtime \<Rightarrow> db \<Rightarrow> (nat \<times> impact option) \<times> db" where
  "create_context_impact e req actor now s =
     (case req of
        None \<Rightarrow> ((400, None), s)
      | Some input \<Rightarrow>
         (case record_context_impact e (\<lambda>s. s) input actor now s of
            (Inl (ErrInvalidContextImpact _), s') \<Rightarrow> ((400, None), s')
          | (Inl er, s') \<Rightarrow> ((db_error_status er, None), s')
          | (Inr (r, created), s') \<Rightarrow> ((if created then 201 else 200, Some r), s')))"

definition bounded_int :: "(string \<Rightarrow> int option) \<Rightarrow> string \<Rightarrow> int \<Rightarrow> int \<Rightarrow> int \<Rightarrow> int option" where
  "bounded_int atoi raw fallback lo hi =
     (if raw = [] then Some fallback
      else (case atoi raw of None \<Rightarrow> None | Some v \<Rightarrow> if v < lo \<or> hi < v then None else Some v))"

subsection \<open>Lemmas\<close>

lemma dropWhile_no_space: "no_lead_space s \<Longrightarrow> dropWhile (\<lambda>c. c = CHR '' '') s = s"
proof (cases s)
  case (Cons a r)
  assume "no_lead_space s"
  moreover have "[CHR '' ''] \<in> set space_runes" by (simp add: space_runes_def)
  ultimately have "\<not> has_prefix [CHR '' ''] s" unfolding no_lead_space_def by blast
  with Cons show ?thesis by (auto simp: has_prefix_iff)
qed simp

lemma rev_no_space: "no_trail_space s \<Longrightarrow> dropWhile (\<lambda>c. c = CHR '' '') (rev s) = rev s"
proof (cases "rev s")
  case (Cons a r)
  then have s: "s = rev r @ [a]" by simp
  assume "no_trail_space s"
  moreover have "[CHR '' ''] \<in> set space_runes" by (simp add: space_runes_def)
  ultimately have "\<not> has_suffix [CHR '' ''] s" unfolding no_trail_space_def by blast
  with Cons s show ?thesis by (auto simp: has_suffix_iff)
qed simp

lemma btrim_trim [simp]: "btrim (trim_space s) = trim_space s"
  using trim_space_clean[of s] by (simp add: btrim_def dropWhile_no_space rev_no_space)

lemma blank_to_none_idem [simp]: "blank_to_none (blank_to_none v) = blank_to_none v"
  by (auto simp: blank_to_none_def split: option.splits if_splits)

lemma normalize_idem [simp]: "normalize_context_impact (normalize_context_impact i) = normalize_context_impact i"
  by (simp add: normalize_context_impact_def comp_def)

lemma valid_row_checks:
  assumes "validate_context_impact (normalize_context_impact i) = None" and "trim_space a \<noteq> []"
    and "rune_count fp = 64"
  shows "impact_checks (impact_row (normalize_context_impact i) (trim_space a) it fp u t)"
proof -
  let ?n = "normalize_context_impact i"
  have t: "trim_space (in_session ?n) = in_session ?n" "trim_space (in_evidence ?n) = in_evidence ?n"
    "trim_space (in_project ?n) = in_project ?n" "btrim (in_session ?n) = in_session ?n"
    "btrim (in_evidence ?n) = in_evidence ?n" "btrim (in_project ?n) = in_project ?n"
    by (simp_all add: normalize_context_impact_def)
  have key: "case in_key ?n of None \<Rightarrow> True | Some k \<Rightarrow> trim_space k = k"
    by (auto simp: normalize_context_impact_def blank_to_none_def split: option.splits if_splits)
  have v: "1 \<le> rune_count (in_session ?n)" "rune_count (in_session ?n) \<le> 200" "in_project ?n \<noteq> []"
    "in_effect ?n \<in> set valid_context_effects" "in_mechanism ?n \<in> set valid_context_mechanisms"
    "valid_context_impact_pairs (in_effect ?n) (in_mechanism ?n)" "1 \<le> rune_count (in_evidence ?n)"
    "rune_count (in_evidence ?n) \<le> 2000" "length (in_refs ?n) \<le> 20"
    "case in_key ?n of None \<Rightarrow> True | Some k \<Rightarrow> rune_count (trim_space k) \<le> 200"
    using assms(1) unfolding validate_context_impact_def Let_def t first_error_None guard_that_None one_of_None by auto
  have d: "case in_delta ?n of None \<Rightarrow> True | Some d \<Rightarrow> -1440 \<le> d \<and> d \<le> 1440 \<and> \<not> (in_effect ?n = ''helpful'' \<and> d < 0)
      \<and> \<not> (in_effect ?n = ''harmful'' \<and> 0 < d) \<and> \<not> (in_effect ?n = ''neutral'' \<and> d \<noteq> 0)"
    using assms(1) unfolding validate_context_impact_def Let_def first_error_None by (auto split: option.splits)
  have k: "case in_key ?n of None \<Rightarrow> True | Some k \<Rightarrow> rune_count k \<le> 200"
    using v(10) key by (auto split: option.splits)
  have "0 < rune_count (btrim (trim_space a))" "0 < rune_count (in_project ?n)"
    using assms(2) v(3) by (simp_all add: rune_count_pos)
  then show ?thesis
    using v k d assms(3) by (auto simp: impact_checks_def impact_row_def t valid_context_effects_def valid_context_impact_pairs_def
        split: option.splits if_splits)
qed

subsection \<open>Retries\<close>

text \<open>The event a request's key names for its actor, when it was made from the same input.\<close>

definition impact_usable :: "impact_input \<times> string \<times> gtime \<Rightarrow> bool" where
  "impact_usable q = (case q of (i, a, _) \<Rightarrow> validate_context_impact (normalize_context_impact i) = None
     \<and> trim_space a \<noteq> [] \<and> in_key (normalize_context_impact i) \<noteq> None)"

definition impact_fp :: "impact_env \<Rightarrow> impact_input \<Rightarrow> string" where
  "impact_fp e i = context_impact_fingerprint e (normalize_context_impact i)"

definition impact_found :: "impact_env \<Rightarrow> impact_input \<times> string \<times> gtime \<Rightarrow> db \<Rightarrow> impact option" where
  "impact_found e q s = (case q of (i, a, _) \<Rightarrow>
     (case in_key (normalize_context_impact i) of
        None \<Rightarrow> None
      | Some k \<Rightarrow>
         (case get_context_impact_by_key (trim_space a) k s of
            Inl _ \<Rightarrow> None
          | Inr r \<Rightarrow> if c_fingerprint r = impact_fp e i then Some r else None)))"

text \<open>One request without interference, without the flag that tells a new event from a replay.\<close>

definition record_alone :: "impact_env \<Rightarrow> impact_input \<times> string \<times> gtime \<Rightarrow> db \<Rightarrow> (error + impact) \<times> db" where
  "record_alone e q s = (case q of (i, a, now) \<Rightarrow>
     (case record_context_impact e (\<lambda>s. s) i a now s of (Inl er, s') \<Rightarrow> (Inl er, s') | (Inr r, s') \<Rightarrow> (Inr (fst r), s')))"

definition same_impact :: "impact_env \<Rightarrow> impact_input \<times> string \<times> gtime \<Rightarrow> impact_input \<times> string \<times> gtime \<Rightarrow> bool" where
  "same_impact e p q = (trim_space (fst (snd p)) = trim_space (fst (snd q))
     \<and> in_key (normalize_context_impact (fst p)) = in_key (normalize_context_impact (fst q))
     \<and> impact_fp e (fst p) = impact_fp e (fst q))"

lemma get_impact_None: "get_context_impact_by_key a k s = Inl er \<Longrightarrow> er = NoRows"
  by (simp add: get_context_impact_by_key_def row_find_Inl)

lemma record_hit:
  assumes "impact_usable (i, a, now)" and "impact_found e (i, a, now) s = Some r"
  shows "record_context_impact e other i a now s = (Inr (r, False), s)"
proof -
  let ?n = "normalize_context_impact i"
  obtain k where k: "in_key ?n = Some k" using assms(1) by (auto simp: impact_usable_def)
  have g: "get_context_impact_by_key (trim_space a) k s = Inr r" and fp: "c_fingerprint r = impact_fp e i"
    using assms(2) k by (auto simp: impact_found_def split: sum.splits if_splits)
  have "context_impact_replay r (context_impact_fingerprint e ?n) = Inr (r, False)"
    using fp by (simp add: context_impact_replay_def impact_fp_def)
  then show ?thesis using assms(1) k g
    by (simp add: record_context_impact_def Let_def impact_usable_def)
qed

lemma create_impact_row:
  assumes "create_context_impact_event i a it fp s = Inr (r, s')"
  shows "c_actor r = a" "c_key r = in_key i" "c_fingerprint r = fp" "impacts s' = impacts s @ [r]"
  using assms by (auto simp: create_context_impact_event_def tx_simps Let_def impact_row_def split: if_splits)

lemma row_find_snoc: "row_find p rs = Inl NoRows \<Longrightarrow> p r \<Longrightarrow> row_find p (rs @ [r]) = Inr r"
  by (induction rs) (auto simp: row_find_def split: option.splits)

lemma insert_impact_found:
  assumes "in_key i = Some k" and "get_context_impact_by_key a k s = Inl NoRows"
    and "insert_impact (\<lambda>s. s) i a ref fp now s = (Inr (r, b), s')"
  shows "get_context_impact_by_key a k s' = Inr r \<and> c_fingerprint r = fp \<and> b"
proof (cases "with_tx now (create_context_impact_event i a ref fp) s")
  case (Pair res t)
  show ?thesis
  proof (cases res)
    case (Inr x)
    with Pair have c: "create_context_impact_event i a ref fp (s\<lparr>db_now := now\<rparr>) = Inr (x, t)" by (simp add: with_tx_Inr)
    have "x = r" "t = s'" b using assms(3) Pair Inr by (simp_all add: insert_impact_def)
    with create_impact_row[OF c] assms(1,2) show ?thesis
      by (simp add: get_context_impact_by_key_def row_find_snoc)
  next
    case (Inl er)
    with Pair have "t = s" by (simp add: with_tx_Inl)
    with assms Pair Inl show ?thesis by (simp add: insert_impact_def split: if_splits)
  qed
qed

lemma record_made:
  assumes u: "impact_usable (i, a, now)" and none: "impact_found e (i, a, now) s = None"
    and r: "record_context_impact e (\<lambda>s. s) i a now s = (Inr (r, b), s')"
  shows "impact_found e (i, a, now) s' = Some r \<and> b"
proof -
  let ?n = "normalize_context_impact i" and ?a = "trim_space a"
  let ?fp = "context_impact_fingerprint e ?n"
  obtain k where k: "in_key ?n = Some k" using u by (auto simp: impact_usable_def)
  have v: "validate_context_impact ?n = None" "?a \<noteq> []" using u by (auto simp: impact_usable_def)
  have g: "get_context_impact_by_key ?a k s = Inl NoRows"
  proof (cases "get_context_impact_by_key ?a k s")
    case (Inl er) then show ?thesis using get_impact_None by simp
  next
    case (Inr x)
    with none k have "c_fingerprint x \<noteq> ?fp" by (auto simp: impact_found_def impact_fp_def)
    with r k v Inr show ?thesis by (simp add: record_context_impact_def Let_def context_impact_replay_def)
  qed
  obtain ref where "insert_impact (\<lambda>s. s) ?n ?a ref ?fp now s = (Inr (r, b), s')"
    using r k v g by (auto simp: record_context_impact_def Let_def split: sum.splits)
  from insert_impact_found[OF k g this] k show ?thesis by (simp add: impact_found_def impact_fp_def)
qed

interpretation impact_key: keyed_create impact_usable "impact_found e" "record_alone e" "same_impact e" "\<lambda>_. True" for e
proof
  show "record_alone e p s = (Inr r, s)" if "impact_usable p" "impact_found e p s = Some r" for p s r
    using that record_hit by (cases p) (auto simp: record_alone_def)
  show "impact_found e p s' = Some r"
    if "impact_usable p" "impact_found e p s = None" "record_alone e p s = (Inr r, s')" for p s r s'
  proof -
    note h = that
    obtain i a now where p: "p = (i, a, now)" by (cases p)
    obtain b where "record_context_impact e (\<lambda>s. s) i a now s = (Inr (r, b), s')"
      using h(3) by (auto simp: p record_alone_def split: prod.splits sum.splits)
    from record_made[OF _ _ this] h show ?thesis by (simp add: p)
  qed
  show "impact_found e p s = impact_found e q s" if "same_impact e p q" for p q s
    using that by (cases p; cases q) (simp add: same_impact_def impact_found_def split: option.splits sum.splits)
qed simp

lemma record_conflict:
  assumes "impact_usable (i, a, now)" and "in_key (normalize_context_impact i) = Some k"
    and "get_context_impact_by_key (trim_space a) k s = Inr r" and "c_fingerprint r \<noteq> impact_fp e i"
  shows "record_context_impact e other i a now s = (Inl ErrIdempotencyConflict, s)"
  using assms by (simp add: record_context_impact_def Let_def impact_usable_def context_impact_replay_def impact_fp_def)

subsection \<open>Properties\<close>

lemma impact_row_not_checked:
  assumes "validate_context_impact (normalize_context_impact i) = None" and "trim_space a \<noteq> []" and "rune_count fp = 64"
  shows "create_context_impact_event (normalize_context_impact i) (trim_space a) it fp s \<noteq> Inl check_violation"
  using valid_row_checks[OF assms]
  by (auto simp: create_context_impact_event_def tx_bind_def draw_uuid_def get_now_def tx_read_def Let_def
      check_violation_def unique_violation_def)

lemma impact_item_ref_error: "impact_item_ref e i p s \<noteq> Inl check_violation"
  by (auto simp: impact_item_ref_def context_impact_item_def get_item_def get_item_by_ref_def tx_read_def row_find_Inl
      check_violation_def split: option.splits sum.splits if_splits)

text \<open>The validation of an impact report agrees with the CHECK constraints of its table: a report is
  never refused by the database for them, whatever the input and the state, and whatever other callers
  commit meanwhile. (A fingerprint is the hexadecimal form of a SHA-256 and has 64 characters.)\<close>

theorem impact_passes_checks:
  assumes "\<And>i. rune_count (ie_finger e i) = 64"
  shows "fst (record_context_impact e other input actor now s) \<noteq> Inl check_violation"
proof -
  let ?n = "normalize_context_impact input" and ?a = "trim_space actor"
  let ?fp = "context_impact_fingerprint e ?n"
  have replay: "context_impact_replay r fp \<noteq> Inl check_violation" for r fp
    by (simp add: context_impact_replay_def check_violation_def)
  have find: "find_slug x t = Inl er \<Longrightarrow> er \<noteq> check_violation" for x t er
    by (simp add: find_slug_def row_find_Inl check_violation_def)
  have insert: "fst (insert_impact other ?n ?a ref ?fp now s) \<noteq> Inl check_violation"
    if v: "validate_context_impact ?n = None" "?a \<noteq> []" for ref
  proof -
    have "rune_count ?fp = 64" using assms by (simp add: context_impact_fingerprint_def)
    from impact_row_not_checked[OF v this]
    have c: "create_context_impact_event ?n ?a ref ?fp t \<noteq> Inl check_violation" for t .
    show ?thesis using c[of "other s\<lparr>db_now := now\<rparr>"] replay
      by (auto simp: insert_impact_def with_tx_def split: sum.splits option.splits)
  qed
  show ?thesis using insert replay find impact_item_ref_error
    by (auto simp: record_context_impact_def Let_def check_violation_def get_impact_None
        split: option.splits sum.splits if_splits)
qed

text \<open>A report with an idempotency key can be sent again: while nobody else interferes with the first
  call, a later request with the same key of the same actor, whatever is committed during it, returns the
  same event, marked as a replay, and changes nothing; with any other input it is refused as a conflict.\<close>

theorem impact_retry:
  assumes "impact_usable (i, a, now)" and "record_context_impact e (\<lambda>s. s) i a now s = (Inr (r, b), s')"
    and "impact_usable (j, a', now')" and "trim_space a' = trim_space a"
    and "in_key (normalize_context_impact j) = in_key (normalize_context_impact i)"
  shows "record_context_impact e other j a' now' s' =
    (if impact_fp e j = impact_fp e i then Inr (r, False) else Inl ErrIdempotencyConflict, s')"
proof -
  have "record_alone e (i, a, now) s = (Inr r, s')" using assms(2) by (simp add: record_alone_def)
  from impact_key.created_found[OF assms(1) TrueI this]
  have found: "impact_found e (i, a, now) s' = Some r" .
  then obtain k where k: "in_key (normalize_context_impact i) = Some k" "c_fingerprint r = impact_fp e i"
      "get_context_impact_by_key (trim_space a) k s' = Inr r"
    by (auto simp: impact_found_def split: option.splits sum.splits if_splits)
  show ?thesis
  proof (cases "impact_fp e j = impact_fp e i")
    case True
    then have "impact_found e (j, a', now') s' = Some r" using k assms(4,5) by (simp add: impact_found_def)
    with True show ?thesis using record_hit[OF assms(3)] by simp
  next
    case False
    with k assms show ?thesis using record_conflict[OF assms(3), of k s' r e other] by simp
  qed
qed

subsection \<open>Concrete input\<close>

definition demo_report :: "string \<Rightarrow> impact_input" where
  "demo_report ev = \<lparr>in_session = ''s1'', in_project = ''a-1'', in_item = None, in_effect = ''helpful'',
     in_mechanism = ''prevented_error'', in_refs = [''a-1-1''], in_evidence = ev, in_delta = Some 15,
     in_key = Some '' k1 ''\<rparr>"

definition demo_finger :: "impact_input \<Rightarrow> string" where
  "demo_finger i = (if in_evidence i = ''ok'' then replicate 64 (CHR ''0'') else replicate 64 (CHR ''1''))"

definition demo_impact_env :: impact_env where
  "demo_impact_env = \<lparr>ie_parse = (\<lambda>_. None), ie_lower = (\<lambda>x. x), ie_finger = demo_finger\<rparr>"

lemma demo_finger_size: "rune_count (ie_finger demo_impact_env i) = 64"
proof -
  have "rune_count (replicate 64 (CHR ''0'')) = 64" "rune_count (replicate 64 (CHR ''1'')) = 64" by code_simp+
  then show ?thesis by (simp add: demo_impact_env_def demo_finger_def)
qed

definition demo_reported :: "(error + impact \<times> bool) \<times> db" where
  "demo_reported = record_context_impact demo_impact_env (\<lambda>s. s) (demo_report '' ok '') ''me'' 5 demo_db"

lemma impact_passes_checks_witness: "fst demo_reported \<noteq> Inl check_violation"
  unfolding demo_reported_def by (rule impact_passes_checks[OF demo_finger_size])

lemma demo_report_usable: "impact_usable (demo_report '' ok '', ''me'', 5)" "impact_usable (demo_report ''bad'', ''me'', 9)"
  by code_simp+

lemma demo_fp: "impact_fp demo_impact_env (demo_report ''bad'') \<noteq> impact_fp demo_impact_env (demo_report '' ok '')"
  by code_simp

lemma demo_reported_ok: "(case fst demo_reported of Inl _ \<Rightarrow> False | Inr r \<Rightarrow> snd r)"
  by code_simp

lemma impact_retry_witness:
  "record_context_impact demo_impact_env (\<lambda>s. s) (demo_report ''bad'') ''me'' 9 (snd demo_reported)
   = (Inl ErrIdempotencyConflict, snd demo_reported)"
proof -
  obtain r b where "fst demo_reported = Inr (r, b)" using demo_reported_ok by (cases "fst demo_reported") auto
  then have run: "record_context_impact demo_impact_env (\<lambda>s. s) (demo_report '' ok '') ''me'' 5 demo_db = (Inr (r, b), snd demo_reported)"
    unfolding demo_reported_def by (simp add: prod_eq_iff)
  have k: "in_key (normalize_context_impact (demo_report ''bad'')) = in_key (normalize_context_impact (demo_report '' ok ''))"
    by (simp add: normalize_context_impact_def demo_report_def)
  from impact_retry[OF demo_report_usable(1) run demo_report_usable(2) refl k] demo_fp show ?thesis by simp
qed

end
