(* ===== verification/Attachments.thy ===== *)
theory Attachments
  imports Projects Context_Impact
begin

text \<open>
  Attachments of items: the object stores of \<open>internal/blob/blob.go\<close>, the statements of
  \<open>internal/store/attachments.sql.go\<close>, the service of \<open>internal/service/attachments.go\<close> and the handlers
  of \<open>internal/api/attachments.go\<close>. An object store is a record of its methods, as in the code; its laws
  are a locale, which the in-memory store of the repository satisfies. The text form and the parser of
  UUIDs, the drawn part of an object key and the multipart reader are arguments.
\<close>

subsection \<open>Object stores\<close>

text \<open>The methods of \<open>blob.Store\<close>; the content to be stored is what its reader delivers, an error or bytes.\<close>

record 'b objects =
  ob_bucket :: string
  ob_put :: "string \<Rightarrow> string \<Rightarrow> int \<Rightarrow> error + string \<Rightarrow> 'b \<Rightarrow> error option \<times> 'b"
  ob_get :: "string \<Rightarrow> 'b \<Rightarrow> error + string"
  ob_del :: "string \<Rightarrow> 'b \<Rightarrow> error option \<times> 'b"

type_synonym objs = "string \<rightharpoonup> string"

definition memory_put :: "string \<Rightarrow> string \<Rightarrow> int \<Rightarrow> error + string \<Rightarrow> objs \<Rightarrow> error option \<times> objs" where
  "memory_put key ctype sz r m = (case r of Inl e \<Rightarrow> (Some e, m) | Inr b \<Rightarrow> (None, m(key \<mapsto> b)))"

definition memory_get :: "string \<Rightarrow> objs \<Rightarrow> error + string" where
  "memory_get key m = (case m key of None \<Rightarrow> Inl (ErrText ''blob: no object'') | Some b \<Rightarrow> Inr b)"

definition memory_del :: "string \<Rightarrow> objs \<Rightarrow> error option \<times> objs" where
  "memory_del key m = (None, m(key := None))"

definition memory :: "objs objects" where
  "memory = \<lparr>ob_bucket = ''memory'', ob_put = memory_put, ob_get = memory_get, ob_del = memory_del\<rparr>"

subsection \<open>Object keys\<close>

text \<open>\<open>path.Base\<close>.\<close>

definition path_base :: "string \<Rightarrow> string" where
  "path_base s = (if s = [] then ''.'' else
     (let t = rev (dropWhile (\<lambda>c. c = CHR ''/'') (rev s)); l = rev (takeWhile (\<lambda>c. c \<noteq> CHR ''/'') (rev t))
      in if l = [] then ''/'' else l))"

definition safe_char :: "char \<Rightarrow> bool" where
  "safe_char c = (let n = (of_char c :: nat) in (97 \<le> n \<and> n \<le> 122) \<or> (65 \<le> n \<and> n \<le> 90) \<or> (48 \<le> n \<and> n \<le> 57)
     \<or> c = CHR ''.'' \<or> c = CHR ''-'' \<or> c = CHR ''_'')"

text \<open>\<open>sanitizeFilename\<close>. The loop over runes keeps ASCII ones only, so it is a loop over bytes.\<close>

definition keep_char :: "char \<Rightarrow> string" where
  "keep_char c = (if safe_char c then [c] else if c = CHR '' '' then ''-'' else [])"

definition last_chars :: "nat \<Rightarrow> string \<Rightarrow> string" where
  "last_chars n s = (if n < length s then drop (length s - n) s else s)"

definition sanitize_filename :: "string \<Rightarrow> string" where
  "sanitize_filename name =
     (let base = path_base (map (\<lambda>c. if c = CHR 0x5C then CHR ''/'' else c) name);
          out = concat (map keep_char base)
      in last_chars 100 (if list_all (\<lambda>c. c = CHR ''.'') out then ''file'' else out))"

text \<open>\<open>rnd\<close> is the first eight characters of a new UUID.\<close>

definition object_key :: "(uuid \<Rightarrow> string) \<Rightarrow> string \<Rightarrow> uuid \<Rightarrow> string \<Rightarrow> string" where
  "object_key ustr rnd x name = ''items/'' @ ustr x @ ''/'' @ rnd @ ''-'' @ sanitize_filename name"

subsection \<open>Statements\<close>

definition count_attachments_for_item :: "uuid \<Rightarrow> db \<Rightarrow> nat" where
  "count_attachments_for_item x s = length (filter (\<lambda>a. t_item a = x) (attachments s))"

record attachment_params =
  tp_item :: uuid
  tp_filename :: string
  tp_content_type :: string
  tp_size :: int
  tp_key :: string
  tp_actor :: string

definition new_attachment :: "attachment_params \<Rightarrow> uuid \<Rightarrow> gtime \<Rightarrow> attachment" where
  "new_attachment p u t = \<lparr>t_id = u, t_item = tp_item p, t_filename = tp_filename p, t_content_type = tp_content_type p,
     t_size = tp_size p, t_object_key = tp_key p, t_actor = tp_actor p, t_created_at = t\<rparr>"

definition append_attachment :: "attachment \<Rightarrow> attachment dbtx" where
  "append_attachment a s =
     (if has_row (\<lambda>r. t_id r = t_id a \<or> t_object_key r = t_object_key a) (attachments s) then Inl unique_violation
      else if \<not> has_row (\<lambda>i. i_id i = t_item a) (items s) then Inl fk_violation
      else Inr (a, s\<lparr>attachments := attachments s @ [a]\<rparr>))"

definition create_attachment :: "attachment_params \<Rightarrow> attachment dbtx" where
  "create_attachment p = tx_bind draw_uuid (\<lambda>u. tx_bind get_now (\<lambda>t. append_attachment (new_attachment p u t)))"

definition delete_attachment_stmt :: "uuid \<Rightarrow> attachment dbtx" where
  "delete_attachment_stmt x s =
     (case row_find (\<lambda>a. t_id a = x) (attachments s) of
        Inl e \<Rightarrow> Inl e
      | Inr a \<Rightarrow> Inr (a, s\<lparr>attachments := filter (\<lambda>a. t_id a \<noteq> x) (attachments s)\<rparr>))"

definition get_attachment_stmt :: "uuid \<Rightarrow> db \<Rightarrow> error + attachment" where
  "get_attachment_stmt x s = row_find (\<lambda>a. t_id a = x) (attachments s)"

definition list_attachments_for_item :: "uuid \<Rightarrow> db \<Rightarrow> attachment list" where
  "list_attachments_for_item x s = sort_key t_created_at (filter (\<lambda>a. t_item a = x) (attachments s))"

subsection \<open>The service\<close>

definition max_attachments_per_item :: nat where "max_attachments_per_item = 8"

definition attachment_tx :: "uuid \<Rightarrow> attachment_params \<Rightarrow> attachment dbtx" where
  "attachment_tx pr p = tx_bind (create_attachment p) (\<lambda>a.
     tx_bind (enqueue pr ''item.attachment_added'' (AttachmentData (tp_item p) (t_id a) (tp_filename p) (tp_actor p)))
       (\<lambda>_. tx_ret a))"

record upload =
  uf_item :: uuid
  uf_name :: string
  uf_type :: string
  uf_size :: int
  uf_body :: "error + string"
  uf_actor :: string

text \<open>\<open>AddAttachment\<close>. \<open>other\<close> is what other callers commit between the count and the transaction.\<close>

definition add_attachment :: "'b objects option \<Rightarrow> (uuid \<Rightarrow> string) \<Rightarrow> string \<Rightarrow> (db \<Rightarrow> db) \<Rightarrow> upload \<Rightarrow> gtime
    \<Rightarrow> db \<Rightarrow> 'b \<Rightarrow> (error + attachment) \<times> db \<times> 'b" where
  "add_attachment st ustr rnd other u now s ob =
     (case st of
        None \<Rightarrow> (Inl ErrNoBlobStore, s, ob)
      | Some b \<Rightarrow>
         (case row_find (\<lambda>i. i_id i = uf_item u \<and> live i) (items s) of
            Inl e \<Rightarrow> (Inl e, s, ob)
          | Inr i \<Rightarrow>
             (if max_attachments_per_item \<le> count_attachments_for_item (uf_item u) s
              then (Inl ErrTooManyAttachments, s, ob)
              else
                (let key = object_key ustr rnd (uf_item u) (uf_name u) in
                 case ob_put b key (uf_type u) (uf_size u) (uf_body u) ob of
                   (Some e, ob1) \<Rightarrow> (Inl e, other s, ob1)
                 | (None, ob1) \<Rightarrow>
                    (case with_tx now (attachment_tx (i_project i) \<lparr>tp_item = uf_item u, tp_filename = uf_name u,
                            tp_content_type = uf_type u, tp_size = uf_size u, tp_key = key, tp_actor = uf_actor u\<rparr>)
                            (other s) of
                       (Inl e, s1) \<Rightarrow> (Inl e, s1, snd (ob_del b key ob1))
                     | (Inr a, s1) \<Rightarrow> (Inr a, s1, ob1))))))"

text \<open>\<open>OpenAttachment\<close>: the row and the bytes. \<open>DeleteAttachment\<close>: the row first, then the object.\<close>

definition open_attachment :: "'b objects option \<Rightarrow> uuid \<Rightarrow> db \<Rightarrow> 'b \<Rightarrow> error + attachment \<times> string" where
  "open_attachment st x s ob =
     (case get_attachment_stmt x s of
        Inl e \<Rightarrow> Inl e
      | Inr a \<Rightarrow>
         (case st of
            None \<Rightarrow> Inl ErrNoBlobStore
          | Some b \<Rightarrow> (case ob_get b (t_object_key a) ob of Inl e \<Rightarrow> Inl e | Inr d \<Rightarrow> Inr (a, d))))"

definition delete_attachment :: "'b objects option \<Rightarrow> uuid \<Rightarrow> gtime \<Rightarrow> db \<Rightarrow> 'b \<Rightarrow> (error + unit) \<times> db \<times> 'b" where
  "delete_attachment st x now s ob =
     (case with_tx now (delete_attachment_stmt x) s of
        (Inl e, s1) \<Rightarrow> (Inl e, s1, ob)
      | (Inr a, s1) \<Rightarrow>
         (Inr (), s1, case st of None \<Rightarrow> ob | Some b \<Rightarrow> snd (ob_del b (t_object_key a) ob)))"

subsection \<open>The handlers\<close>

definition max_attachment_files :: nat where "max_attachment_files = 4"
definition max_attachment_bytes :: nat where "max_attachment_bytes = 8 * 1024 * 1024"
definition ingest_attach_window :: gtime where "ingest_attach_window = 15 * minute"

text \<open>\<open>http.DetectContentType\<close> on an image that is accepted: the signatures of the four types. No other
  signature of the table is a prefix of one of them, or the reverse.\<close>

definition sniffed_image :: "string \<Rightarrow> string option" where
  "sniffed_image d =
     (if has_prefix [CHR 0x89, CHR ''P'', CHR ''N'', CHR ''G'', CHR 0x0D, CHR 0x0A, CHR 0x1A, CHR 0x0A] d then Some ''image/png''
      else if has_prefix [CHR 0xFF, CHR 0xD8, CHR 0xFF] d then Some ''image/jpeg''
      else if has_prefix ''GIF87a'' d \<or> has_prefix ''GIF89a'' d then Some ''image/gif''
      else if has_prefix ''RIFF'' d \<and> has_prefix ''WEBPVP'' (drop 8 d) then Some ''image/webp'' else None)"

definition allowed_image_types :: "string list" where
  "allowed_image_types = [''image/png'', ''image/jpeg'', ''image/webp'', ''image/gif'']"

text \<open>\<open>itemByIDOrRef\<close>.\<close>

definition item_by_id_or_ref :: "(string \<Rightarrow> uuid option) \<Rightarrow> (string \<Rightarrow> string) \<Rightarrow> string \<Rightarrow> db \<Rightarrow> error + item" where
  "item_by_id_or_ref parse lower raw s =
     (case parse raw of
        Some x \<Rightarrow> row_find (\<lambda>i. i_id i = x \<and> live i) (items s)
      | None \<Rightarrow> row_find (\<lambda>i. lower (i_ref i) = lower raw \<and> live i) (items s))"

text \<open>A part of the form: its field, its file name, its content, and whether reading fails after that.\<close>

record part =
  pt_form :: string
  pt_file :: string
  pt_body :: string
  pt_broken :: bool

text \<open>What the bounded multipart reader delivers: nothing when the request is not a form, or the parts
  up to the end of the form or to an error.\<close>

record form =
  fo_parts :: "part list"
  fo_complete :: bool

record 'b attach_env =
  te_store :: "'b objects option"
  te_ustr :: "uuid \<Rightarrow> string"
  te_rnd :: "nat \<Rightarrow> string"
  te_other :: "nat \<Rightarrow> db \<Rightarrow> db"

type_synonym http_err = "nat \<times> string"

definition save_attachment_part :: "'b attach_env \<Rightarrow> item \<Rightarrow> part \<Rightarrow> string \<Rightarrow> nat \<Rightarrow> gtime \<Rightarrow> db \<Rightarrow> 'b
    \<Rightarrow> (http_err + attachment) \<times> db \<times> 'b" where
  "save_attachment_part e i p actor n now s ob =
     (let d = take (max_attachment_bytes + 1) (pt_body p) in
      if pt_broken p \<and> length (pt_body p) \<le> max_attachment_bytes then (Inl (400, ''read file''), s, ob)
      else if max_attachment_bytes < length d then (Inl (413, ''exceeds 8MB''), s, ob)
      else if d = [] then (Inl (400, ''is empty''), s, ob)
      else (case sniffed_image d of
              None \<Rightarrow> (Inl (415, ''only png, jpeg, webp, or gif images are accepted''), s, ob)
            | Some ct \<Rightarrow>
               (case add_attachment (te_store e) (te_ustr e) (te_rnd e n) (te_other e n)
                       \<lparr>uf_item = i_id i, uf_name = pt_file p, uf_type = ct, uf_size = int (length d),
                        uf_body = Inr d, uf_actor = actor\<rparr> now s ob of
                  (Inl er, s1, ob1) \<Rightarrow>
                    (Inl (if er = ErrTooManyAttachments then (400, ''an item can hold at most 8 attachments'')
                          else if er = ErrNoBlobStore then (503, ''attachment storage not configured'')
                          else (500, ''store attachment failed'')), s1, ob1)
                | (Inr a, s1, ob1) \<Rightarrow> (Inr a, s1, ob1))))"

text \<open>The loop of \<open>uploadAttachments\<close>, with the number of files met and the rows saved so far.\<close>

primrec upload_loop :: "'b attach_env \<Rightarrow> item \<Rightarrow> string \<Rightarrow> bool \<Rightarrow> gtime \<Rightarrow> part list \<Rightarrow> nat \<Rightarrow> attachment list \<Rightarrow> db \<Rightarrow> 'b
    \<Rightarrow> (http_err + attachment list) \<times> db \<times> 'b" where
  "upload_loop e i actor whole now [] n saved s ob =
     (if \<not> whole then (Inl (400, ''read multipart''), s, ob)
      else if n = 0 then (Inl (400, ''no files''), s, ob) else (Inr saved, s, ob))"
| "upload_loop e i actor whole now (p # ps) n saved s ob =
     (if pt_form p \<noteq> ''files'' \<or> pt_file p = [] then upload_loop e i actor whole now ps n saved s ob
      else if max_attachment_files < n + 1 then (Inl (400, ''at most 4 files per request''), s, ob)
      else (case save_attachment_part e i p actor n now s ob of
              (Inl h, s1, ob1) \<Rightarrow> (Inl h, s1, ob1)
            | (Inr a, s1, ob1) \<Rightarrow> upload_loop e i actor whole now ps (n + 1) (saved @ [a]) s1 ob1))"

definition upload_attachments :: "'b attach_env \<Rightarrow> item \<Rightarrow> form option \<Rightarrow> string \<Rightarrow> gtime \<Rightarrow> db \<Rightarrow> 'b
    \<Rightarrow> (http_err + attachment list) \<times> db \<times> 'b" where
  "upload_attachments e i req actor now s ob =
     (case te_store e of
        None \<Rightarrow> (Inl (503, ''attachment storage not configured''), s, ob)
      | Some _ \<Rightarrow>
         (case req of
            None \<Rightarrow> (Inl (400, ''expected multipart/form-data''), s, ob)
          | Some f \<Rightarrow> upload_loop e i actor (fo_complete f) now (fo_parts f) 0 [] s ob))"

definition upload_attachments_authed :: "(string \<Rightarrow> uuid option) \<Rightarrow> (string \<Rightarrow> string) \<Rightarrow> 'b attach_env \<Rightarrow> string \<Rightarrow> form option
    \<Rightarrow> string \<Rightarrow> gtime \<Rightarrow> db \<Rightarrow> 'b \<Rightarrow> (http_err + attachment list) \<times> db \<times> 'b" where
  "upload_attachments_authed parse lower e raw req actor now s ob =
     (case item_by_id_or_ref parse lower raw s of
        Inl er \<Rightarrow> (Inl (db_error_status er, []), s, ob)
      | Inr i \<Rightarrow> upload_attachments e i req actor now s ob)"

definition ingest_upload_attachments :: "(string \<Rightarrow> uuid option) \<Rightarrow> (string \<Rightarrow> string) \<Rightarrow> 'b attach_env \<Rightarrow> string \<Rightarrow> form option
    \<Rightarrow> string \<Rightarrow> gtime \<Rightarrow> db \<Rightarrow> 'b \<Rightarrow> (http_err + attachment list) \<times> db \<times> 'b" where
  "ingest_upload_attachments parse lower e raw req actor now s ob =
     (case item_by_id_or_ref parse lower raw s of
        Inl er \<Rightarrow> (Inl (db_error_status er, []), s, ob)
      | Inr i \<Rightarrow>
         (if i_source i \<noteq> ''bug_reporter'' \<and> i_source i \<noteq> ''capture''
          then (Inl (403, ''ingest keys can only attach to reporter/capture items''), s, ob)
          else if ingest_attach_window < now - i_created_at i
          then (Inl (403, ''attachment window for this report has closed''), s, ob)
          else upload_attachments e i req actor now s ob))"

definition list_item_attachments :: "(string \<Rightarrow> uuid option) \<Rightarrow> (string \<Rightarrow> string) \<Rightarrow> string \<Rightarrow> db \<Rightarrow> nat + attachment list" where
  "list_item_attachments parse lower raw s =
     (case item_by_id_or_ref parse lower raw s of
        Inl er \<Rightarrow> Inl (db_error_status er) | Inr i \<Rightarrow> Inr (list_attachments_for_item (i_id i) s))"

text \<open>\<open>getAttachment\<close>: the row, whose type and size become headers, and the bytes.\<close>

definition get_attachment :: "'b objects option \<Rightarrow> uuid option \<Rightarrow> db \<Rightarrow> 'b \<Rightarrow> nat + attachment \<times> string" where
  "get_attachment st req s ob =
     (case req of
        None \<Rightarrow> Inl 400
      | Some x \<Rightarrow>
         (case open_attachment st x s ob of
            Inl er \<Rightarrow> Inl (if er = ErrNoBlobStore then 503 else db_error_status er) | Inr r \<Rightarrow> Inr r))"

definition delete_attachment_handler :: "'b objects option \<Rightarrow> uuid option \<Rightarrow> gtime \<Rightarrow> db \<Rightarrow> 'b \<Rightarrow> nat \<times> db \<times> 'b" where
  "delete_attachment_handler st req now s ob =
     (case req of
        None \<Rightarrow> (400, s, ob)
      | Some x \<Rightarrow> (case delete_attachment st x now s ob of
                    (Inl er, rest) \<Rightarrow> (db_error_status er, rest) | (Inr _, rest) \<Rightarrow> (204, rest)))"

end
