(* ===== verification/Maintenance.thy ===== *)
theory Maintenance
  imports Attachments
begin

text \<open>
  The daily sweep: the statements of \<open>internal/store/maintenance.sql.go\<close>, the two retention statements of
  \<open>internal/store/usage.sql.go\<close>, and \<open>runMaintenanceOnce\<close> of \<open>internal/service/maintenance.go\<close>. Each
  statement may fail on its own, which the sweep logs and passes over; which ones fail is an argument.
\<close>

definition deleted_before :: "gtime \<Rightarrow> item \<Rightarrow> bool" where
  "deleted_before t i = (case i_deleted_at i of None \<Rightarrow> False | Some d \<Rightarrow> d < t)"

definition list_purgeable_attachment_keys :: "gtime \<Rightarrow> db \<Rightarrow> string list" where
  "list_purgeable_attachment_keys t s = concat (map (\<lambda>a. map (\<lambda>_. t_object_key a)
     (filter (\<lambda>i. i_id i = t_item a \<and> deleted_before t i) (items s))) (attachments s))"

definition purge_old_activity :: "gtime \<Rightarrow> db \<Rightarrow> nat \<times> db" where
  "purge_old_activity t s =
     (let gone = (\<lambda>a. a_kind a \<in> {''comment'', ''created''} \<and> a_created_at a < t);
          ids = a_id ` set (filter gone (activities s))
      in (length (filter gone (activities s)),
          s\<lparr>activities := filter (\<lambda>a. \<not> gone a) (activities s),
            act_embeddings := filter (\<lambda>e. ae_activity e \<notin> ids) (act_embeddings s)\<rparr>))"

text \<open>The rows that refer to a deleted item go with it; its activity loses the reference.\<close>

definition purge_soft_deleted_items :: "gtime \<Rightarrow> db \<Rightarrow> nat \<times> db" where
  "purge_soft_deleted_items t s =
     (let gone = i_id ` set (filter (deleted_before t) (items s))
      in (length (filter (deleted_before t) (items s)),
          s\<lparr>items := filter (\<lambda>i. \<not> deleted_before t i) (items s),
            activities := rows_update (\<lambda>a. case a_item a of None \<Rightarrow> False | Some x \<Rightarrow> x \<in> gone) (\<lambda>a. a\<lparr>a_item := None\<rparr>)
                            (activities s),
            item_links := filter (\<lambda>l. l_from l \<notin> gone \<and> l_to l \<notin> gone) (item_links s),
            item_refs := filter (\<lambda>r. r_item r \<notin> gone) (item_refs s),
            attachments := filter (\<lambda>a. t_item a \<notin> gone) (attachments s)\<rparr>))"

definition purge_old_tool_calls :: "gtime \<Rightarrow> db \<Rightarrow> nat \<times> db" where
  "purge_old_tool_calls t s = (length (filter (\<lambda>c. tc_called_at c < t) (tool_calls s)),
     s\<lparr>tool_calls := filter (\<lambda>c. \<not> tc_called_at c < t) (tool_calls s)\<rparr>)"

definition purge_old_search_log :: "gtime \<Rightarrow> db \<Rightarrow> nat \<times> db" where
  "purge_old_search_log t s = (length (filter (\<lambda>c. sl_searched_at c < t) (search_logs s)),
     s\<lparr>search_logs := filter (\<lambda>c. \<not> sl_searched_at c < t) (search_logs s)\<rparr>)"

subsection \<open>The sweep\<close>

definition soft_delete_retention :: gtime where "soft_delete_retention = 30 * (24 * hour)"
definition activity_retention :: gtime where "activity_retention = 90 * (24 * hour)"
definition webhook_event_retention :: gtime where "webhook_event_retention = 7 * (24 * hour)"
definition parked_event_retention :: gtime where "parked_event_retention = 30 * (24 * hour)"
definition usage_retention :: gtime where "usage_retention = 60 * (24 * hour)"

text \<open>The deletion of blobs goes on after an error.\<close>

definition delete_blobs :: "'b objects \<Rightarrow> string list \<Rightarrow> 'b \<Rightarrow> 'b" where
  "delete_blobs b ks ob = foldl (\<lambda>o1 k. snd (ob_del b k o1)) ob ks"

record sweep_faults =
  sf_keys :: bool
  sf_items :: bool
  sf_activity :: bool
  sf_delivered :: bool
  sf_parked :: bool
  sf_calls :: bool
  sf_searches :: bool

definition unless_failed :: "bool \<Rightarrow> (db \<Rightarrow> nat \<times> db) \<Rightarrow> db \<Rightarrow> db" where
  "unless_failed failed stmt s = (if failed then s else snd (stmt s))"

definition maintain :: "'b objects option \<Rightarrow> sweep_faults \<Rightarrow> gtime \<Rightarrow> db \<Rightarrow> 'b \<Rightarrow> db \<times> 'b" where
  "maintain st f now s ob =
     (let ob1 = (case st of
                   None \<Rightarrow> ob
                 | Some b \<Rightarrow> (if sf_keys f then ob
                     else delete_blobs b (list_purgeable_attachment_keys (now - soft_delete_retention) s) ob));
          s1 = unless_failed (sf_items f) (purge_soft_deleted_items (now - soft_delete_retention)) s;
          s2 = unless_failed (sf_activity f) (purge_old_activity (now - activity_retention)) s1;
          s3 = unless_failed (sf_delivered f) (purge_delivered_webhook_events (now - webhook_event_retention)) s2;
          s4 = unless_failed (sf_parked f) (purge_parked_webhook_events (now - parked_event_retention)) s3;
          s5 = unless_failed (sf_calls f) (purge_old_tool_calls (now - usage_retention)) s4;
          s6 = unless_failed (sf_searches f) (purge_old_search_log (now - usage_retention)) s5
      in (s6, ob1))"

text \<open>The purge of a project with the deletion of its blobs, once the rows are gone (\<open>PurgeProject\<close>).\<close>

definition purge_project_files :: "'b objects option \<Rightarrow> string \<Rightarrow> gtime \<Rightarrow> db \<Rightarrow> 'b \<Rightarrow> (error + nat \<times> nat \<times> nat) \<times> db \<times> 'b" where
  "purge_project_files st slug now s ob =
     (case purge_project (st \<noteq> None) slug now s of
        (Inl e, s1) \<Rightarrow> (Inl e, s1, ob)
      | (Inr (counts, ks), s1) \<Rightarrow>
         (Inr counts, s1, case st of None \<Rightarrow> ob | Some b \<Rightarrow> delete_blobs b ks ob))"

subsection \<open>What a sweep changes\<close>

lemma unless_failed_keeps: "(I s \<Longrightarrow> I (snd (stmt s))) \<Longrightarrow> I s \<Longrightarrow> I (unless_failed b stmt s)"
  by (simp add: unless_failed_def)

lemma unless_failed_field: "f (unless_failed b stmt s) = (if b then f s else f (snd (stmt s)))"
  by (simp add: unless_failed_def)

lemma purge_counts: "fst (purge_soft_deleted_items t s) = length (items s) - length (items (snd (purge_soft_deleted_items t s)))"
  using sum_length_filter_compl[of "deleted_before t" "items s"] by (simp add: purge_soft_deleted_items_def Let_def)

text \<open>Every statement after the first keeps items and attachments.\<close>

lemma later_sweep_keeps:
  "items (snd (purge_old_activity t s)) = items s" "attachments (snd (purge_old_activity t s)) = attachments s"
  "items (snd (purge_delivered_webhook_events t s)) = items s"
  "attachments (snd (purge_delivered_webhook_events t s)) = attachments s"
  "items (snd (purge_parked_webhook_events t s)) = items s"
  "attachments (snd (purge_parked_webhook_events t s)) = attachments s"
  "items (snd (purge_old_tool_calls t s)) = items s" "attachments (snd (purge_old_tool_calls t s)) = attachments s"
  "items (snd (purge_old_search_log t s)) = items s" "attachments (snd (purge_old_search_log t s)) = attachments s"
  by (simp_all add: purge_old_activity_def purge_delivered_webhook_events_def purge_parked_webhook_events_def
      purge_old_tool_calls_def purge_old_search_log_def Let_def)

lemma sweep_items:
  "items (fst (maintain st f now s ob)) =
     (if sf_items f then items s else items (snd (purge_soft_deleted_items (now - soft_delete_retention) s)))"
  "attachments (fst (maintain st f now s ob)) =
     (if sf_items f then attachments s else attachments (snd (purge_soft_deleted_items (now - soft_delete_retention) s)))"
  by (simp_all add: maintain_def unless_failed_field[of items] unless_failed_field[of attachments] Let_def later_sweep_keeps)

lemma sweep_objects:
  "snd (maintain (Some b) f now s ob) = (if sf_keys f then ob
     else delete_blobs b (list_purgeable_attachment_keys (now - soft_delete_retention) s) ob)"
  by (simp add: maintain_def Let_def)

subsection \<open>What a sweep never removes\<close>

definition durable :: "gtime \<Rightarrow> activity \<Rightarrow> bool" where
  "durable t a = (a_kind a \<notin> {''comment'', ''created''} \<or> t \<le> a_created_at a)"

definition unsettled :: "webhook_event \<Rightarrow> bool" where
  "unsettled e = (e_delivered_at e = None \<and> e_parked_at e = None)"

lemma sweep_activities:
  "activities (fst (maintain st f now s ob)) =
     (let as = (if sf_items f then activities s else activities (snd (purge_soft_deleted_items (now - soft_delete_retention) s)))
      in if sf_activity f then as
         else filter (\<lambda>a. \<not> (a_kind a \<in> {''comment'', ''created''} \<and> a_created_at a < now - activity_retention)) as)"
proof -
  have "activities (snd (purge_old_activity t s)) =
      filter (\<lambda>a. \<not> (a_kind a \<in> {''comment'', ''created''} \<and> a_created_at a < t)) (activities s)" for t s
    by (simp add: purge_old_activity_def Let_def)
  moreover have "activities (snd (purge_delivered_webhook_events t s)) = activities s"
    "activities (snd (purge_parked_webhook_events t s)) = activities s"
    "activities (snd (purge_old_tool_calls t s)) = activities s" "activities (snd (purge_old_search_log t s)) = activities s" for t s
    by (simp_all add: purge_delivered_webhook_events_def purge_parked_webhook_events_def purge_old_tool_calls_def
        purge_old_search_log_def Let_def)
  ultimately show ?thesis
    by (simp add: maintain_def unless_failed_field[of activities] Let_def)
qed

lemma sweep_events:
  "set (filter unsettled (webhook_events s)) \<subseteq> set (webhook_events (fst (maintain st f now s ob)))"
proof -
  have "webhook_events (snd (purge_old_activity t s)) = webhook_events s"
    "webhook_events (snd (purge_soft_deleted_items t s)) = webhook_events s"
    "webhook_events (snd (purge_old_tool_calls t s)) = webhook_events s"
    "webhook_events (snd (purge_old_search_log t s)) = webhook_events s" for t s
    by (simp_all add: purge_old_activity_def purge_soft_deleted_items_def purge_old_tool_calls_def
        purge_old_search_log_def Let_def)
  then show ?thesis
    by (auto simp: maintain_def unless_failed_field[of webhook_events] Let_def unsettled_def
        purge_delivered_webhook_events_def purge_parked_webhook_events_def)
qed

lemma purge_items_activity_ids: "a_id ` set (filter (durable t) (activities (snd (purge_soft_deleted_items d s))))
    = a_id ` set (filter (durable t) (activities s))"
proof -
  have "a_id ` set (filter P (rows_update c f rs)) = a_id ` set (filter P rs)"
    if "\<And>a. a_id (f a) = a_id a" "\<And>a. P (f a) = P a" for P c f and rs :: "activity list"
    by (induction rs) (auto simp: rows_update_def that)
  then show ?thesis unfolding purge_soft_deleted_items_def Let_def by (simp add: durable_def)
qed

lemma sweep_durable: "a_id ` set (filter (durable (now - 90 * (24 * hour))) (activities (fst (maintain st f now s ob))))
     = a_id ` set (filter (durable (now - 90 * (24 * hour))) (activities s))"
proof -
  let ?c = "now - 90 * (24 * hour)"
  have F0: "filter (durable t) (filter (\<lambda>a. \<not> (a_kind a \<in> {''comment'', ''created''} \<and> a_created_at a < t)) as)
      = filter (durable t) as" for t as
    unfolding filter_filter by (rule filter_cong) (auto simp: durable_def)
  have F: "filter (durable ?c) (activities (fst (maintain st f now s ob))) = filter (durable ?c)
      (if sf_items f then activities s else activities (snd (purge_soft_deleted_items (now - soft_delete_retention) s)))"
    unfolding sweep_activities Let_def activity_retention_def
    by (cases "sf_activity f") (simp_all only: if_True if_False F0)
  show ?thesis
    unfolding F by (cases "sf_items f") (simp_all only: if_True if_False purge_items_activity_ids)
qed

lemma sweep_projects: "projects (fst (maintain st f now s ob)) = projects s"
proof -
  have "projects (snd (purge_old_activity t s)) = projects s" "projects (snd (purge_soft_deleted_items t s)) = projects s"
    "projects (snd (purge_delivered_webhook_events t s)) = projects s"
    "projects (snd (purge_parked_webhook_events t s)) = projects s"
    "projects (snd (purge_old_tool_calls t s)) = projects s" "projects (snd (purge_old_search_log t s)) = projects s" for t s
    by (simp_all add: purge_old_activity_def purge_soft_deleted_items_def purge_delivered_webhook_events_def
        purge_parked_webhook_events_def purge_old_tool_calls_def purge_old_search_log_def Let_def)
  then show ?thesis by (simp add: maintain_def unless_failed_field[of projects] Let_def)
qed

text \<open>Whichever of its statements fail, the daily sweep keeps every item that is not deleted or was deleted
  in the last 30 days, every activity row except comments and creation notes older than 90 days, every
  outbox event that is neither delivered nor parked, and all projects.
\<close>

theorem sweep_keeps_the_record:
  "filter (\<lambda>i. \<not> deleted_before (now - 30 * (24 * hour)) i) (items (fst (maintain st f now s ob)))
     = filter (\<lambda>i. \<not> deleted_before (now - 30 * (24 * hour)) i) (items s)
   \<and> a_id ` set (filter (durable (now - 90 * (24 * hour))) (activities (fst (maintain st f now s ob))))
     = a_id ` set (filter (durable (now - 90 * (24 * hour))) (activities s))
   \<and> set (filter unsettled (webhook_events s)) \<subseteq> set (webhook_events (fst (maintain st f now s ob)))
   \<and> projects (fst (maintain st f now s ob)) = projects s"
  by (intro conjI sweep_durable sweep_events sweep_projects)
     (simp add: sweep_items purge_soft_deleted_items_def Let_def soft_delete_retention_def)

end
