(* ===== verification/Attachment_Properties.thy ===== *)
theory Attachment_Properties
  imports Maintenance
begin

text \<open>
  What the attachments promise. The laws of an object store are a locale; inside it, every step that
  touches attachments keeps each row of a live item backed by an object of the recorded size. The
  in-memory store satisfies the laws. The rest is about the handlers: what the public key can do, the
  bounds on files, and the two ways in which the promises fail.
\<close>

subsection \<open>The laws of an object store\<close>

locale object_store =
  fixes b :: "'b objects"
  assumes put_get: "ob_put b k ct n (Inr d) ob = (None, ob') \<Longrightarrow> ob_get b k ob' = Inr d"
    and put_frame: "ob_put b k ct n r ob = (e, ob') \<Longrightarrow> k' \<noteq> k \<Longrightarrow> ob_get b k' ob' = ob_get b k' ob"
    and del_frame: "ob_del b k ob = (e, ob') \<Longrightarrow> k' \<noteq> k \<Longrightarrow> ob_get b k' ob' = ob_get b k' ob"
begin

lemma snd_del_frame: "k' \<noteq> k \<Longrightarrow> ob_get b k' (snd (ob_del b k ob)) = ob_get b k' ob"
  by (rule del_frame[of k ob "fst (ob_del b k ob)"]) simp_all

lemma delete_blobs_frame: "k \<notin> set ks \<Longrightarrow> ob_get b k (delete_blobs b ks ob) = ob_get b k ob"
  unfolding delete_blobs_def by (induction ks arbitrary: ob) (auto simp: snd_del_frame)

end

interpretation mem: object_store memory
  by unfold_locales (auto simp: memory_def memory_put_def memory_get_def memory_del_def split: sum.splits)

subsection \<open>Rows and objects\<close>

definition attached_live :: "db \<Rightarrow> attachment \<Rightarrow> bool" where
  "attached_live s a = has_row (\<lambda>i. i_id i = t_item a \<and> live i) (items s)"

definition backed :: "'b objects \<Rightarrow> 'b \<Rightarrow> attachment \<Rightarrow> bool" where
  "backed b ob a = (case ob_get b (t_object_key a) ob of Inl _ \<Rightarrow> False | Inr d \<Rightarrow> int (length d) = t_size a)"

definition files_ok :: "'b objects \<Rightarrow> db \<times> 'b \<Rightarrow> bool" where
  "files_ok b = (\<lambda>(s, ob). distinct (map t_id (attachments s)) \<and> distinct (map t_object_key (attachments s))
     \<and> distinct (map i_id (items s)) \<and> (\<forall>a \<in> set (attachments s). attached_live s a \<longrightarrow> backed b ob a))"

text \<open>What any other operation of the program does to these tables: no attachment changes and no item
  comes back from deletion.\<close>

definition calm :: "db \<Rightarrow> db \<Rightarrow> bool" where
  "calm s t = (attachments t = attachments s \<and> distinct (map i_id (items t))
     \<and> (\<forall>a \<in> set (attachments s). attached_live t a \<longrightarrow> attached_live s a))"

inductive files_step :: "'b objects \<Rightarrow> db \<times> 'b \<Rightarrow> db \<times> 'b \<Rightarrow> bool" for b where
  upload: "add_attachment (Some b) ustr rnd other u now s ob = (r, s', ob') \<Longrightarrow> calm s (other s)
    \<Longrightarrow> uf_body u = Inr d \<Longrightarrow> uf_size u = int (length d)
    \<Longrightarrow> object_key ustr rnd (uf_item u) (uf_name u) \<notin> t_object_key ` set (attachments s)
    \<Longrightarrow> files_step b (s, ob) (s', ob')"
| remove: "delete_attachment (Some b) x now s ob = (r, s', ob') \<Longrightarrow> files_step b (s, ob) (s', ob')"
| purge: "purge_project_files (Some b) slug now s ob = (r, s', ob') \<Longrightarrow> files_step b (s, ob) (s', ob')"
| sweep: "maintain (Some b) f now s ob = p \<Longrightarrow> files_step b (s, ob) p"
| other: "calm s s' \<Longrightarrow> files_step b (s, ob) (s', ob)"

text \<open>Fewer rows, no revived item, and objects unchanged at the keys that stay.\<close>

lemma files_ok_shrink:
  assumes ok: "files_ok b (s, ob)"
    and att: "attachments t = filter P (attachments s)"
    and its: "distinct (map i_id (items t))"
    and alive: "\<And>a. a \<in> set (attachments t) \<Longrightarrow> attached_live t a \<Longrightarrow> attached_live s a"
    and obj: "\<And>a. a \<in> set (attachments t) \<Longrightarrow> attached_live t a
      \<Longrightarrow> ob_get b (t_object_key a) ob' = ob_get b (t_object_key a) ob"
  shows "files_ok b (t, ob')"
proof -
  have d: "distinct (map t_id (attachments t))" "distinct (map t_object_key (attachments t))"
    using ok by (simp_all add: files_ok_def att distinct_map_filter)
  have "backed b ob' a" if a: "a \<in> set (attachments t)" "attached_live t a" for a
  proof -
    have "a \<in> set (attachments s)" using a att by simp
    with ok alive[OF a] have "backed b ob a" by (simp add: files_ok_def)
    with obj[OF a] show ?thesis by (simp add: backed_def)
  qed
  with d its show ?thesis by (simp add: files_ok_def)
qed

lemma same_key_row:
  assumes "files_ok b (s, ob)" "a \<in> set (attachments s)" "a' \<in> set (attachments s)" "t_object_key a = t_object_key a'"
  shows "a = a'"
  using assms distinct_key[of t_object_key "attachments s" a a'] by (simp add: files_ok_def)

lemma attached_live_items: "items t = items s \<Longrightarrow> attached_live t a = attached_live s a"
  by (simp add: attached_live_def)

lemma calm_refl: "files_ok b (s, ob) \<Longrightarrow> calm s s"
  by (simp add: calm_def files_ok_def)

lemma files_ok_calm:
  assumes ok: "files_ok b (s, ob)" and c: "calm s t"
    and obj: "\<And>a. a \<in> set (attachments s) \<Longrightarrow> ob_get b (t_object_key a) ob' = ob_get b (t_object_key a) ob"
  shows "files_ok b (t, ob')"
  by (rule files_ok_shrink[OF ok, of t "\<lambda>_. True"]) (use c obj in \<open>auto simp: calm_def\<close>)

lemma attachment_tx_Inr:
  assumes "attachment_tx pr p s = Inr (a, t)"
  shows "attachments t = attachments s @ [a] \<and> items t = items s \<and> t_item a = tp_item p \<and> t_object_key a = tp_key p
    \<and> t_size a = tp_size p \<and> t_content_type a = tp_content_type p \<and> t_actor a = tp_actor p \<and> t_filename a = tp_filename p
    \<and> t_id a \<notin> t_id ` set (attachments s) \<and> tp_key p \<notin> t_object_key ` set (attachments s)"
  using assms by (auto simp: attachment_tx_def create_attachment_def append_attachment_def new_attachment_def tx_simps
      elim!: enqueue_Inr split: if_splits)

text \<open>The outcomes of \<open>AddAttachment\<close>: refused with nothing touched, undone, or a new row.\<close>

lemma add_attachment_cases:
  assumes "add_attachment st ustr rnd other u now s ob = (r, s', ob')"
  obtains (refused) e where "r = Inl e" "s' = s" "ob' = ob"
  | (not_put) b e e' where "st = Some b" "r = Inl e" "s' = other s"
      "ob_put b (object_key ustr rnd (uf_item u) (uf_name u)) (uf_type u) (uf_size u) (uf_body u) ob = (Some e', ob')"
  | (undone) b e ob1 where "st = Some b" "r = Inl e" "s' = other s"
      "ob_put b (object_key ustr rnd (uf_item u) (uf_name u)) (uf_type u) (uf_size u) (uf_body u) ob = (None, ob1)"
      "ob' = snd (ob_del b (object_key ustr rnd (uf_item u) (uf_name u)) ob1)"
  | (added) b a i p where "st = Some b" "r = Inr a"
      "ob_put b (object_key ustr rnd (uf_item u) (uf_name u)) (uf_type u) (uf_size u) (uf_body u) ob = (None, ob')"
      "p = \<lparr>tp_item = uf_item u, tp_filename = uf_name u, tp_content_type = uf_type u, tp_size = uf_size u,
            tp_key = object_key ustr rnd (uf_item u) (uf_name u), tp_actor = uf_actor u\<rparr>"
      "attachment_tx (i_project i) p ((other s)\<lparr>db_now := now\<rparr>) = Inr (a, s')"
      "row_find (\<lambda>i. i_id i = uf_item u \<and> live i) (items s) = Inr i"
      "count_attachments_for_item (uf_item u) s < max_attachments_per_item"
  using assms unfolding add_attachment_def Let_def
  by (auto simp: with_tx_Inr with_tx_Inl split: option.splits sum.splits if_splits prod.splits)

context object_store
begin

lemma upload_ok:
  assumes ok: "files_ok b (s, ob)" and r: "add_attachment (Some b) ustr rnd other u now s ob = (r, s', ob')"
    and c: "calm s (other s)" and d: "uf_body u = Inr d" "uf_size u = int (length d)"
    and fresh: "object_key ustr rnd (uf_item u) (uf_name u) \<notin> t_object_key ` set (attachments s)"
  shows "files_ok b (s', ob')"
proof -
  let ?k = "object_key ustr rnd (uf_item u) (uf_name u)"
  have other_keys: "t_object_key a \<noteq> ?k" if "a \<in> set (attachments s)" for a
    using imageI[OF that, of t_object_key] fresh by metis
  from r show ?thesis
  proof (cases rule: add_attachment_cases)
    case (refused e)
    then show ?thesis using ok by simp
  next
    case (not_put b' e e')
    then have p: "ob_put b ?k (uf_type u) (uf_size u) (uf_body u) ob = (Some e', ob')" "s' = other s" by simp_all
    show ?thesis unfolding p(2)
      by (rule files_ok_calm[OF ok c]) (rule put_frame[OF p(1)], rule other_keys)
  next
    case (undone b' e ob1)
    then have p: "ob_put b ?k (uf_type u) (uf_size u) (uf_body u) ob = (None, ob1)" "s' = other s"
      "ob' = snd (ob_del b ?k ob1)" by simp_all
    show ?thesis unfolding p(2,3)
    proof (rule files_ok_calm[OF ok c])
      fix a assume "a \<in> set (attachments s)"
      then have k: "t_object_key a \<noteq> ?k" by (rule other_keys)
      show "ob_get b (t_object_key a) (snd (ob_del b ?k ob1)) = ob_get b (t_object_key a) ob"
        using snd_del_frame[OF k] put_frame[OF p(1) k] by simp
    qed
  next
    case (added b' a i p)
    then have put: "ob_put b ?k (uf_type u) (uf_size u) (Inr d) ob = (None, ob')" using d by simp
    have t: "attachments s' = attachments s @ [a]" "items s' = items (other s)" "t_object_key a = ?k"
      "t_size a = int (length d)" "t_id a \<notin> t_id ` set (attachments s)"
      using attachment_tx_Inr[OF added(5)] c d(2) added(4) by (auto simp: calm_def)
    have rest: "files_ok b (other s, ob')"
      by (rule files_ok_calm[OF ok c]) (rule put_frame[OF put], rule other_keys)
    have new: "backed b ob' a" using put_get[OF put] t by (simp add: backed_def)
    show ?thesis using rest new t fresh c
      by (auto simp: files_ok_def calm_def attached_live_items[OF t(2)])
  qed
qed

lemma remove_ok:
  assumes ok: "files_ok b (s, ob)" and r: "delete_attachment (Some b) x now s ob = (r, s', ob')"
  shows "files_ok b (s', ob')"
proof (cases "row_find (\<lambda>a. t_id a = x) (attachments s)")
  case (Inl e)
  then have "s' = s" "ob' = ob" using r by (auto simp: delete_attachment_def with_tx_def delete_attachment_stmt_def)
  with ok show ?thesis by simp
next
  case (Inr a0)
  then have t: "s' = s\<lparr>db_now := now, attachments := filter (\<lambda>a. t_id a \<noteq> x) (attachments s)\<rparr>"
    "ob' = snd (ob_del b (t_object_key a0) ob)"
    using r by (auto simp: delete_attachment_def with_tx_def delete_attachment_stmt_def)
  have a0: "a0 \<in> set (attachments s)" "t_id a0 = x" using row_find_Inr[OF Inr] by auto
  show ?thesis
  proof (rule files_ok_shrink[OF ok, of s' "\<lambda>a. t_id a \<noteq> x"])
    fix a assume a: "a \<in> set (attachments s')" "attached_live s' a"
    then have "a \<in> set (attachments s)" "a \<noteq> a0" using a0 t by auto
    then have "t_object_key a \<noteq> t_object_key a0" using same_key_row[OF ok _ a0(1)] by blast
    then show "ob_get b (t_object_key a) ob' = ob_get b (t_object_key a) ob" unfolding t(2) by (rule snd_del_frame)
  qed (use ok t in \<open>simp_all add: files_ok_def attached_live_def\<close>)
qed

text \<open>Deleting the blobs of rows that go away: no other row has one of their keys.\<close>

lemma delete_blobs_ok:
  assumes ok: "files_ok b (s, ob)" and att: "attachments t = filter P (attachments s)"
    and its: "distinct (map i_id (items t))"
    and alive: "\<And>a. a \<in> set (attachments t) \<Longrightarrow> attached_live t a \<Longrightarrow> attached_live s a"
    and ks: "\<And>a. a \<in> set (attachments t) \<Longrightarrow> attached_live t a \<Longrightarrow> t_object_key a \<notin> set ks"
  shows "files_ok b (t, delete_blobs b ks ob)"
  by (rule files_ok_shrink[OF ok att its alive]) (use ks in \<open>auto intro: delete_blobs_frame\<close>)

end

subsection \<open>The sweep and the purge of a project\<close>

lemma attached_live_mono: "set (items t) \<subseteq> set (items s) \<Longrightarrow> attached_live t a \<Longrightarrow> attached_live s a"
  by (auto simp: attached_live_def)

lemma purgeable_key:
  assumes ok: "files_ok b (s, ob)" and a: "a \<in> set (attachments s)" "attached_live s a"
  shows "t_object_key a \<notin> set (list_purgeable_attachment_keys t s)"
proof
  assume "t_object_key a \<in> set (list_purgeable_attachment_keys t s)"
  then obtain a' i where a': "a' \<in> set (attachments s)" "t_object_key a = t_object_key a'"
    and i: "i \<in> set (items s)" "i_id i = t_item a'" "deleted_before t i"
    by (auto simp: list_purgeable_attachment_keys_def)
  have "a' = a" using same_key_row[OF ok a(1) a'] by simp
  moreover obtain j where j: "j \<in> set (items s)" "i_id j = t_item a" "live j" using a(2) by (auto simp: attached_live_def)
  moreover have "distinct (map i_id (items s))" using ok by (simp add: files_ok_def)
  ultimately have "i = j" using distinct_key[of i_id "items s" i j] i by simp
  then show False using i(3) j(3) by (simp add: deleted_before_def live_def)
qed

lemma project_key:
  assumes ok: "files_ok b (s, ob)" and a: "a \<in> set (attachments s)"
    and k: "t_object_key a \<in> set (list_attachment_keys_for_project pr s)"
  shows "t_item a \<in> i_id ` set (filter (\<lambda>i. i_project i = pr) (items s))"
proof -
  obtain a' i where a': "a' \<in> set (attachments s)" "t_object_key a = t_object_key a'"
    and i: "i \<in> set (items s)" "i_id i = t_item a'" "i_project i = pr"
    using k by (auto simp: list_attachment_keys_for_project_def)
  have "a' = a" using same_key_row[OF ok a a'] by simp
  with i show ?thesis by force
qed

context object_store
begin

lemma sweep_ok:
  assumes ok: "files_ok b (s, ob)"
  shows "files_ok b (maintain (Some b) f now s ob)"
proof -
  let ?d = "now - soft_delete_retention"
  let ?t = "fst (maintain (Some b) f now s ob)"
  have att: "\<exists>P. attachments ?t = filter P (attachments s)"
    by (cases "sf_items f") (auto simp: sweep_items purge_soft_deleted_items_def Let_def intro: exI[of _ "\<lambda>_. True"])
  have sub: "set (items ?t) \<subseteq> set (items s)"
    by (cases "sf_items f") (auto simp: sweep_items purge_soft_deleted_items_def Let_def)
  have dis: "distinct (map i_id (items ?t))"
    using ok by (cases "sf_items f") (auto simp: files_ok_def sweep_items purge_soft_deleted_items_def Let_def distinct_map_filter)
  have alive: "attached_live s a" if "attached_live ?t a" for a using attached_live_mono[OF sub that] .
  obtain P where P: "attachments ?t = filter P (attachments s)" using att by blast
  have "files_ok b (?t, snd (maintain (Some b) f now s ob))"
  proof (cases "sf_keys f")
    case True
    then have "snd (maintain (Some b) f now s ob) = ob" by (simp add: sweep_objects)
    then show ?thesis using files_ok_shrink[OF ok P dis alive] by simp
  next
    case False
    then have o: "snd (maintain (Some b) f now s ob) = delete_blobs b (list_purgeable_attachment_keys ?d s) ob"
      by (simp add: sweep_objects)
    show ?thesis unfolding o
      by (rule delete_blobs_ok[OF ok P dis alive]) (use P alive purgeable_key[OF ok] in auto)
  qed
  then show ?thesis by simp
qed

lemma purge_ok:
  assumes ok: "files_ok b (s, ob)" and r: "purge_project_files (Some b) slug now s ob = (r, s', ob')"
  shows "files_ok b (s', ob')"
proof (cases "purge_project True slug now s")
  case (Pair q s1)
  show ?thesis
  proof (cases q)
    case (Inl e)
    then have "s1 = s" using Pair
      by (auto simp: purge_project_def with_tx_def Let_def split: sum.splits if_splits prod.splits)
    then show ?thesis using r ok Pair Inl by (simp add: purge_project_files_def)
  next
    case (Inr y)
    obtain p s2 where p: "find_slug slug s = Inr p" "delete_project slug (s\<lparr>db_now := now\<rparr>) = Inr (p, s1)"
      "snd y = list_attachment_keys_for_project (p_id p) s"
      using Pair Inr by (auto simp: purge_project_def with_tx_def Let_def delete_project_def find_slug_def
          split: sum.splits if_splits prod.splits)
    have t: "s' = s1" "ob' = delete_blobs b (snd y) ob" using r Pair Inr by (auto simp: purge_project_files_def split: prod.splits)
    have s1: "attachments s1 = filter (\<lambda>a. t_item a \<notin> i_id ` set (filter (\<lambda>i. i_project i = p_id p) (items s))) (attachments s)"
      "items s1 = filter (\<lambda>i. i_project i \<noteq> p_id p) (items s)"
      using p(1,2) by (auto simp: delete_project_def Let_def find_slug_def)
    show ?thesis unfolding t
    proof (rule delete_blobs_ok[OF ok s1(1)])
      fix a assume a: "a \<in> set (attachments s1)"
      then have "a \<in> set (attachments s)" "t_item a \<notin> i_id ` set (filter (\<lambda>i. i_project i = p_id p) (items s))"
        using s1(1) by auto
      then show "t_object_key a \<notin> set (snd y)" using project_key[OF ok] unfolding p(3) by blast
    qed (use ok s1(2) in \<open>auto simp: files_ok_def distinct_map_filter attached_live_def\<close>)
  qed
qed

lemma step_ok: "files_step b p q \<Longrightarrow> files_ok b p \<Longrightarrow> files_ok b q"
proof (induction rule: files_step.induct)
  case (upload ustr rnd other u now s ob r s' ob' d)
  then show ?case using upload_ok by blast
next
  case (remove x now s ob r s' ob')
  then show ?case using remove_ok by blast
next
  case (purge slug now s ob r s' ob')
  then show ?case using purge_ok by blast
next
  case (sweep f now s ob p)
  then show ?case using sweep_ok by blast
next
  case (other s s' ob)
  then show ?case using files_ok_calm[of b s ob s' ob] by blast
qed

lemma reach_ok: "(files_step b)\<^sup>*\<^sup>* p q \<Longrightarrow> files_ok b p \<Longrightarrow> files_ok b q"
  by (induction rule: rtranclp_induct) (auto intro: step_ok)

lemma reach_opens:
  assumes "(files_step b)\<^sup>*\<^sup>* p (t, ob)" "files_ok b p" "a \<in> set (attachments t)" "attached_live t a"
  shows "\<exists>d. open_attachment (Some b) (t_id a) t ob = Inr (a, d) \<and> int (length d) = t_size a"
proof -
  have ok: "files_ok b (t, ob)" using reach_ok assms(1,2) by blast
  then have "row_find (\<lambda>r. t_id r = t_id a) (attachments t) = Inr a"
    using row_find_key[of t_id "attachments t" a] assms(3) by (simp add: files_ok_def)
  moreover have "backed b ob a" using ok assms(3,4) by (simp add: files_ok_def)
  ultimately show ?thesis
    by (auto simp: open_attachment_def get_attachment_stmt_def backed_def split: sum.splits)
qed

end

subsection \<open>What holds for the program\<close>

definition demo_item :: "uuid \<Rightarrow> string \<Rightarrow> gtime \<Rightarrow> item" where
  "demo_item x src t = (new_item \<lparr>cp_project = 1, cp_type = None, cp_title = ''t'', cp_body = None, cp_status = None,
     cp_priority = None, cp_assignee = None, cp_position = None, cp_source = Some src, cp_external_ref = None,
     cp_tags = None, cp_metadata = None, cp_key = None, cp_criteria = None\<rparr> x t)\<lparr>i_seq := 1, i_ref := ''p-1''\<rparr>"

definition demo_files :: "attachment list \<Rightarrow> db" where
  "demo_files rows = empty_db\<lparr>db_drawn := 100,
     projects := [\<lparr>p_id = 1, p_slug = ''p'', p_name = ''P'', p_status = ''active'', p_summary = [], p_repo_url = None,
        p_site_url = None, p_created_at = 0, p_updated_at = 0, p_instructions = [], p_item_seq = 1, p_aliases = [], p_parent = None\<rparr>],
     items := [demo_item 7 ''bug_reporter'' 0], attachments := rows\<rparr>"

definition demo_row :: "uuid \<Rightarrow> string \<Rightarrow> attachment" where
  "demo_row x k = \<lparr>t_id = x, t_item = 7, t_filename = ''a.png'', t_content_type = ''image/png'', t_size = 3,
     t_object_key = k, t_actor = ''w'', t_created_at = 0\<rparr>"


lemma demo_files_ok: "files_ok memory (demo_files [demo_row 1 ''k''], [''k'' \<mapsto> ''abc''])"
  by (simp add: files_ok_def demo_files_def demo_row_def backed_def memory_def memory_get_def)


text \<open>Without interference, the count of an item never passes the bound.\<close>

lemma add_attachment_count:
  assumes "add_attachment st ustr rnd (\<lambda>s. s) u now s ob = (r, s', ob')"
    and "count_attachments_for_item x s \<le> max_attachments_per_item"
  shows "count_attachments_for_item x s' \<le> max_attachments_per_item"
  using assms(1)
proof (cases rule: add_attachment_cases)
  case (added b a i p)
  have "attachments s' = attachments s @ [a]" "t_item a = uf_item u"
    using attachment_tx_Inr[OF added(5)] added(4) by simp_all
  then have "count_attachments_for_item x s' = count_attachments_for_item x s + (if uf_item u = x then 1 else 0)"
    by (simp add: count_attachments_for_item_def)
  with assms(2) added(7) show ?thesis by (auto split: if_splits)
qed (use assms(2) in simp_all)

lemma added_count:
  assumes "add_attachment st ustr rnd other u now s ob = (Inr a, s', ob')"
  shows "count_attachments_for_item x s' = count_attachments_for_item x (other s) + (if x = uf_item u then 1 else 0)"
  using assms
proof (cases rule: add_attachment_cases)
  case (added b a' i p)
  have "attachments s' = attachments (other s) @ [a']" "t_item a' = uf_item u"
    using attachment_tx_Inr[OF added(5)] added(4) by simp_all
  then show ?thesis by (simp add: count_attachments_for_item_def)
qed simp_all

text \<open>
  The bound of eight attachments is checked before the transaction that inserts the row, so it does
  not hold: of an item with seven, two uploads that both pass the check leave nine.
\<close>

theorem racing_uploads_exceed_cap:
  assumes "count_attachments_for_item x s = 7"
    and "uf_item u = x" and "uf_item v = x"
    and "add_attachment (Some memory) ustr r2 (\<lambda>s. s) v now s ob = (Inr a2, s2, ob2)"
    and "add_attachment (Some memory) ustr r1 (\<lambda>_. s2) u now s ob = (Inr a1, s1, ob1)"
  shows "count_attachments_for_item x s1 = 9" and "max_attachments_per_item = 8"
proof -
  have "count_attachments_for_item x s2 = 8" using added_count[OF assms(4), of x] assms(1,3) by simp
  then show "count_attachments_for_item x s1 = 9" using added_count[OF assms(5), of x] assms(2) by simp
qed (simp add: max_attachments_per_item_def)

text \<open>What one stored file is.\<close>

definition uploaded_ok :: "item \<Rightarrow> string \<Rightarrow> attachment \<Rightarrow> bool" where
  "uploaded_ok i actor a = (t_item a = i_id i \<and> t_actor a = actor \<and> t_content_type a \<in> set allowed_image_types
     \<and> 0 < t_size a \<and> t_size a \<le> int max_attachment_bytes)"

lemma sniffed_allowed: "sniffed_image d = Some ct \<Longrightarrow> ct \<in> set allowed_image_types"
  by (auto simp: sniffed_image_def allowed_image_types_def split: if_splits)

lemma save_part_cases:
  assumes "save_attachment_part e i p actor n now s ob = (r, s', ob')" and "te_other e = (\<lambda>_ s. s)"
  obtains (failed) h where "r = Inl h" "attachments s' = attachments s"
  | (saved) a where "r = Inr a" "attachments s' = attachments s @ [a]" "uploaded_ok i actor a"
proof -
  let ?d = "take (max_attachment_bytes + 1) (pt_body p)"
  let ?u = "\<lambda>ct. \<lparr>uf_item = i_id i, uf_name = pt_file p, uf_type = ct, uf_size = int (length ?d), uf_body = Inr ?d,
    uf_actor = actor\<rparr>"
  show ?thesis
  proof (cases "\<exists>h. r = Inl h \<and> s' = s")
    case True
    then show ?thesis using failed by auto
  next
    case False
    then have g: "length ?d \<le> max_attachment_bytes" "?d \<noteq> []"
      using assms(1) by (auto simp: save_attachment_part_def Let_def split: if_splits)
    obtain ct where ct: "sniffed_image ?d = Some ct"
      using assms(1) False by (auto simp: save_attachment_part_def Let_def split: if_splits option.splits)
    obtain q where q: "add_attachment (te_store e) (te_ustr e) (te_rnd e n) (\<lambda>s. s) (?u ct) now s ob = (q, s', ob')"
      and r: "r = Inr a \<longleftrightarrow> q = Inr a" and rl: "(\<exists>h. r = Inl h) \<longleftrightarrow> (\<exists>h. q = Inl h)" for a
      using assms False g ct
      by (auto simp: save_attachment_part_def Let_def split: if_splits option.splits sum.splits prod.splits)
    from q show ?thesis
    proof (cases rule: add_attachment_cases)
      case (added b a j pp)
      have t: "attachments s' = attachments s @ [a]" using attachment_tx_Inr[OF added(5)] by simp
      have "0 < length ?d" using g(2) by (rule length_greater_0_conv[THEN iffD2])
      then have "uploaded_ok i actor a"
        using attachment_tx_Inr[OF added(5)] added(4) sniffed_allowed[OF ct] g(1) by (simp add: uploaded_ok_def)
      then show ?thesis using saved[of a] r added(2) t by simp
    qed (use failed rl in auto)
  qed
qed

lemma upload_loop_adds:
  assumes e: "te_other e = (\<lambda>_ s. s)"
  shows "upload_loop e i actor whole now ps n sv s ob = (r, s', ob') \<Longrightarrow> n \<le> max_attachment_files \<Longrightarrow>
    \<exists>new. attachments s' = attachments s @ new \<and> n + length new \<le> max_attachment_files
      \<and> list_all (uploaded_ok i actor) new"
proof (induction ps arbitrary: n sv s ob)
  case Nil
  then show ?case by (auto split: if_splits)
next
  case (Cons p ps)
  consider (skip) "pt_form p \<noteq> ''files'' \<or> pt_file p = []" | (full) "\<not> n + 1 \<le> max_attachment_files"
      "\<not> (pt_form p \<noteq> ''files'' \<or> pt_file p = [])" | (more) "n + 1 \<le> max_attachment_files"
      "\<not> (pt_form p \<noteq> ''files'' \<or> pt_file p = [])" by blast
  then show ?case
  proof cases
    case skip
    with Cons show ?thesis by simp
  next
    case full
    with Cons.prems show ?thesis by (intro exI[of _ "[]"]) auto
  next
    case more
    obtain q s1 ob1 where q: "save_attachment_part e i p actor n now s ob = (q, s1, ob1)" by (metis prod_cases3)
    from q e show ?thesis
    proof (cases rule: save_part_cases)
      case (failed h)
      with Cons.prems more q show ?thesis by (intro exI[of _ "[]"]) auto
    next
      case (saved a)
      with Cons.prems(1) more q
      have "upload_loop e i actor whole now ps (n + 1) (sv @ [a]) s1 ob1 = (r, s', ob')" by auto
      from Cons.IH[OF this more(1)] saved(2,3) show ?thesis
        by (elim exE) (rule_tac x = "a # new" in exI, auto)
    qed
  qed
qed

text \<open>The public key, which is readable in any page that embeds the widget, can attach at most four files
  per request, only to an item that exists, was filed by the reporter or by capture, and is at most fifteen
  minutes old; every stored file is a non-empty image of an accepted type, found by its content, of at most
  8 MB. In every other case no attachment changes.
\<close>

theorem public_upload_guarded:
  assumes "te_other e = (\<lambda>_ s. s)"
    and "ingest_upload_attachments parse lower e raw req actor now s ob = (r, s', ob')"
  shows "attachments s' = attachments s \<or>
    (\<exists>i new. item_by_id_or_ref parse lower raw s = Inr i \<and> i_source i \<in> {''bug_reporter'', ''capture''}
       \<and> now - i_created_at i \<le> 15 * minute \<and> attachments s' = attachments s @ new \<and> length new \<le> 4
       \<and> list_all (uploaded_ok i actor) new)"
proof (cases "item_by_id_or_ref parse lower raw s")
  case (Inl er)
  then show ?thesis using assms(2) by (auto simp: ingest_upload_attachments_def)
next
  case (Inr i)
  show ?thesis
  proof (cases "(i_source i \<noteq> ''bug_reporter'' \<and> i_source i \<noteq> ''capture'') \<or> ingest_attach_window < now - i_created_at i")
    case True
    then show ?thesis using assms(2) Inr by (auto simp: ingest_upload_attachments_def split: if_splits)
  next
    case False
    then have up: "upload_attachments e i req actor now s ob = (r, s', ob')"
      using assms(2) Inr by (auto simp: ingest_upload_attachments_def split: if_splits)
    have g: "i_source i \<in> {''bug_reporter'', ''capture''}" "now - i_created_at i \<le> 15 * minute"
      using False by (auto simp: ingest_attach_window_def)
    show ?thesis
    proof (cases "te_store e = None \<or> req = None")
      case True
      then show ?thesis using up by (auto simp: upload_attachments_def split: option.splits)
    next
      case False
      then obtain f b where "req = Some f" "te_store e = Some b" by auto
      with up have "upload_loop e i actor (fo_complete f) now (fo_parts f) 0 [] s ob = (r, s', ob')"
        by (simp add: upload_attachments_def)
      from upload_loop_adds[OF assms(1) this] obtain new where
        n: "attachments s' = attachments s @ new" "length new \<le> 4" "list_all (uploaded_ok i actor) new"
        by (auto simp: max_attachment_files_def)
      with Inr g show ?thesis by blast
    qed
  qed
qed


subsection \<open>Concrete runs\<close>

definition demo_upload :: upload where
  "demo_upload = \<lparr>uf_item = 7, uf_name = ''a'', uf_type = ''image/gif'', uf_size = 6, uf_body = Inr ''GIF89a'', uf_actor = ''w''\<rparr>"

definition demo_add :: "string \<Rightarrow> (db \<Rightarrow> db) \<Rightarrow> (error + attachment) \<times> db \<times> objs" where
  "demo_add rnd other = add_attachment (Some memory) (\<lambda>_. ''x'') rnd other demo_upload 5
     (demo_files (map (\<lambda>n. demo_row n [digit_char n]) [0..<7])) (\<lambda>_. None)"

lemma demo_sanitize: "sanitize_filename ''a'' = ''a''"
  by code_simp

lemma demo_adds:
  "\<not> isl (fst (demo_add ''1'' (\<lambda>s. s)))" "\<not> isl (fst (demo_add ''2'' (\<lambda>_. fst (snd (demo_add ''1'' (\<lambda>s. s))))))"
  unfolding demo_add_def demo_upload_def object_key_def demo_sanitize
  by code_simp+

lemma isr_ex: "\<not> isl r \<Longrightarrow> \<exists>x. r = Inr x"
  by (cases r) auto

lemma racing_uploads_exceed_cap_witness:
  "\<exists>s u v r1 r2 s2 s1 ob ob1 ob2 a1 a2. count_attachments_for_item 7 s = 7
     \<and> add_attachment (Some memory) (\<lambda>_. ''x'') r2 (\<lambda>s. s) v 5 s ob = (Inr a2, s2, ob2)
     \<and> add_attachment (Some memory) (\<lambda>_. ''x'') r1 (\<lambda>_. s2) u 5 s ob = (Inr a1, s1, ob1)
     \<and> count_attachments_for_item 7 s1 = 9"
proof -
  let ?s = "demo_files (map (\<lambda>n. demo_row n [digit_char n]) [0..<7])"
  have c: "count_attachments_for_item 7 ?s = 7"
    by (simp add: count_attachments_for_item_def demo_files_def demo_row_def)
  obtain a2 s2 ob2 where d1: "demo_add ''1'' (\<lambda>s. s) = (Inr a2, s2, ob2)"
    using isr_ex[OF demo_adds(1)] by (metis prod.collapse)
  have "\<not> isl (fst (demo_add ''2'' (\<lambda>_. s2)))" using demo_adds(2) unfolding d1 by simp
  then obtain a1 s1 ob1 where d2: "demo_add ''2'' (\<lambda>_. s2) = (Inr a1, s1, ob1)"
    using isr_ex by (metis prod.collapse)
  have u: "uf_item demo_upload = 7" by (simp add: demo_upload_def)
  note r = d1[unfolded demo_add_def] d2[unfolded demo_add_def]
  have "count_attachments_for_item 7 s1 = 9" by (rule racing_uploads_exceed_cap(1)[OF c u u r])
  with c r show ?thesis by blast
qed

definition demo_env :: "objs attach_env" where
  "demo_env = \<lparr>te_store = Some memory, te_ustr = (\<lambda>_. ''x''), te_rnd = (\<lambda>n. [digit_char n]), te_other = (\<lambda>_ s. s)\<rparr>"

definition demo_form :: form where
  "demo_form = \<lparr>fo_parts = [\<lparr>pt_form = ''files'', pt_file = ''a'', pt_body = ''GIF89a'', pt_broken = False\<rparr>], fo_complete = True\<rparr>"

lemma demo_kept_ref: "item_by_id_or_ref (\<lambda>_. None) (\<lambda>x. x) ''p-1'' (demo_files []) = Inr (demo_item 7 ''bug_reporter'' 0)"
  by (simp add: item_by_id_or_ref_def demo_files_def demo_item_def new_item_def live_def)

lemma public_upload_guarded_witness:
  "\<exists>r s' ob'. ingest_upload_attachments (\<lambda>_. None) (\<lambda>x. x) demo_env ''p-1'' (Some demo_form) ''w'' minute (demo_files []) (\<lambda>_. None)
       = (r, s', ob') \<and> length (attachments s') \<le> 4"
proof -
  obtain r s' ob' where r: "ingest_upload_attachments (\<lambda>_. None) (\<lambda>x. x) demo_env ''p-1'' (Some demo_form) ''w'' minute
      (demo_files []) (\<lambda>_. None) = (r, s', ob')" by (metis prod_cases3)
  have "te_other demo_env = (\<lambda>_ s. s)" by (simp add: demo_env_def)
  from public_upload_guarded[OF this r] have "length (attachments s') \<le> 4"
    by (auto simp: demo_files_def)
  with r show ?thesis by blast
qed


subsection \<open>Object keys stay under their item\<close>

lemma safe_dash [simp]: "safe_char (CHR ''-'')"
  by (simp add: safe_char_def)

lemma keep_char_set: "c \<in> set (keep_char x) \<Longrightarrow> safe_char c"
  by (cases "safe_char x"; cases "x = CHR '' ''") (simp_all add: keep_char_def)

lemma last_chars_set: "set (last_chars n s) \<subseteq> set s"
  by (auto simp: last_chars_def dest: in_set_dropD)

lemma safe_file: "list_all safe_char ''file''"
  by (simp add: safe_char_def)

lemma kept_safe: "list_all safe_char (concat (map keep_char s))"
  by (induction s) (auto simp: list_all_iff keep_char_set)

lemma sanitize_last:
  obtains out where "sanitize_filename name = last_chars 100 out" "out \<noteq> []" "list_all safe_char out"
proof -
  let ?out = "concat (map keep_char (path_base (map (\<lambda>c. if c = CHR 0x5C then CHR ''/'' else c) name)))"
  show ?thesis
  proof (cases "list_all (\<lambda>c. c = CHR ''.'') ?out")
    case True
    then have "sanitize_filename name = last_chars 100 ''file''" unfolding sanitize_filename_def Let_def by (simp only: if_True)
    then show ?thesis using that[of "''file''"] safe_file by simp
  next
    case False
    then have "sanitize_filename name = last_chars 100 ?out" unfolding sanitize_filename_def Let_def by (simp only: if_False)
    moreover have "?out \<noteq> []" using False by (metis list.pred_inject(1))
    ultimately show ?thesis using that kept_safe by blast
  qed
qed

lemma sanitize_chars: "list_all safe_char (sanitize_filename name)"
proof (cases rule: sanitize_last[of name])
  case (1 out)
  then show ?thesis using last_chars_set[of 100 out] by (auto simp: list_all_iff)
qed

lemma sanitize_length: "1 \<le> length (sanitize_filename name) \<and> length (sanitize_filename name) \<le> 100"
proof (cases rule: sanitize_last[of name])
  case (1 out)
  then show ?thesis by (cases out) (auto simp: last_chars_def)
qed

lemma unsafe_chars [simp]: "\<not> safe_char (CHR ''/'')" "\<not> safe_char (CHR 0x5C)" "\<not> safe_char (CHR 0x22)"
  by (simp_all add: safe_char_def)

text \<open>
  Whatever the file name (slashes, backslashes, quotes, dots, any bytes), the object key of an
  upload is one path segment under the directory of its item: the drawn part, a dash, and 1 to 100 letters,
  digits, dots, dashes and underscores.
\<close>

theorem object_key_confined:
  "\<exists>seg. object_key ustr rnd x name = ''items/'' @ ustr x @ ''/'' @ rnd @ ''-'' @ seg
     \<and> CHR ''/'' \<notin> set seg \<and> list_all safe_char seg \<and> length seg \<in> {1..100}"
proof -
  have c: "list_all safe_char (sanitize_filename name)" by (rule sanitize_chars)
  have "CHR ''/'' \<notin> set (sanitize_filename name)"
  proof
    assume "CHR ''/'' \<in> set (sanitize_filename name)"
    with c have "safe_char (CHR ''/'')" unfolding list_all_iff by (rule bspec)
    then show False by simp
  qed
  then show ?thesis using c sanitize_length[of name] by (intro exI[of _ "sanitize_filename name"]) (simp add: object_key_def)
qed

end
