(* ===== verification/Runes.thy ===== *)
theory Runes
  imports Validate
begin

text \<open>
  Slicing strings by runes, as \<open>[]rune(s)\<close> and \<open>string(r[:n])\<close> do: the runes of a string, each as the bytes
  that encode it, where a byte that starts no encoding becomes the replacement character. The two
  truncations of the program, of bodies (\<open>dto.trunc\<close>) and of titles (\<open>bugTitle\<close>), and their bounds.
\<close>

subsection \<open>Runes\<close>

definition replacement :: string where "replacement = [CHR 0xEF, CHR 0xBF, CHR 0xBD]"

definition ascii :: "char \<Rightarrow> bool" where "ascii c = ((of_char c :: nat) < 0x80)"

definition first_rune :: "string \<Rightarrow> string" where
  "first_rune s = (if rune_size s = 1 \<and> \<not> ascii (hd s) then replacement else take (rune_size s) s)"

function runes :: "string \<Rightarrow> string list" where
  "runes s = (if s = [] then [] else first_rune s # runes (drop (rune_size s) s))"
  by auto
termination
proof (relation "measure length")
  fix s :: string assume "s \<noteq> []"
  then show "(drop (rune_size s) s, s) \<in> measure length" using rune_size_pos[of s] by simp
qed simp

declare runes.simps [simp del]

definition runes_upto :: "nat \<Rightarrow> string \<Rightarrow> string" where
  "runes_upto n s = concat (take n (runes s))"

definition ellipsis :: string where "ellipsis = [CHR 0xE2, CHR 0x80, CHR 0xA6]"

definition trunc :: "string \<Rightarrow> int \<Rightarrow> string" where
  "trunc s n = (if n \<le> 0 then s else if int (length (runes s)) \<le> n then s else runes_upto (nat n) s @ ellipsis)"

definition bug_title :: "string \<Rightarrow> string" where
  "bug_title msg = (let t = trim_space msg in if 80 < length (runes t) then runes_upto 77 t @ ''...'' else t)"

subsection \<open>Whole runes\<close>

text \<open>The encoding of one rune, whatever follows it.\<close>

definition whole_rune :: "string \<Rightarrow> bool" where
  "whole_rune r = (r \<noteq> [] \<and> (length r = 1 \<longrightarrow> ascii (hd r)) \<and> (\<forall>t. rune_size (r @ t) = length r))"

lemma runes_Nil [simp]: "runes [] = []"
  by (simp add: runes.simps)

lemma length_runes: "length (runes s) = rune_count s"
proof (induction s rule: runes.induct)
  case (1 s)
  then show ?case by (cases "s = []") (simp_all add: runes.simps[of s] rune_count.simps[of s])
qed

lemma rune_size_one: "ascii c \<Longrightarrow> rune_size (c # t) = 1"
  by (cases "c # t" rule: rune_size.cases) (auto simp: ascii_def in_range_def)

lemma whole_ascii: "ascii c \<Longrightarrow> whole_rune [c]"
  by (simp add: whole_rune_def rune_size_one)

lemma whole_two: "in_range a 0xC2 0xDF \<Longrightarrow> cont b \<Longrightarrow> whole_rune [a, b]"
  unfolding whole_rune_def
proof (intro conjI allI)
  fix t assume ab: "in_range a 0xC2 0xDF" "cont b"
  show "rune_size ([a, b] @ t) = length [a, b]"
    using ab by (cases "[a, b] @ t" rule: rune_size.cases) auto
qed simp_all

definition lead3 :: "char \<Rightarrow> char \<Rightarrow> bool" where
  "lead3 a b = (in_range a 0xE0 0xEF \<and> in_range b (if of_char a = (0xE0 :: nat) then 0xA0 else 0x80)
     (if of_char a = (0xED :: nat) then 0x9F else 0xBF))"

definition lead4 :: "char \<Rightarrow> char \<Rightarrow> bool" where
  "lead4 a b = (in_range a 0xF0 0xF4 \<and> in_range b (if of_char a = (0xF0 :: nat) then 0x90 else 0x80)
     (if of_char a = (0xF4 :: nat) then 0x8F else 0xBF))"

lemma lead_disjoint: "lead3 a b \<Longrightarrow> \<not> in_range a 0xC2 0xDF" "lead4 a b \<Longrightarrow> \<not> in_range a 0xC2 0xDF"
  "lead4 a b \<Longrightarrow> \<not> lead3 a b"
  by (auto simp: lead3_def lead4_def in_range_def)

lemma rune_size_3: "rune_size [a, b, c] =
  (if in_range a 0xC2 0xDF \<and> cont b then 2 else if lead3 a b \<and> cont c then 3 else 1)"
  by (simp add: lead3_def)

lemma rune_size_4: "rune_size (a # b # c # d # t) =
  (if in_range a 0xC2 0xDF \<and> cont b then 2 else if lead3 a b \<and> cont c then 3
   else if lead4 a b \<and> cont c \<and> cont d then 4 else 1)"
  by (simp add: lead3_def lead4_def)

declare rune_size.simps(4,5) [simp del]

lemma whole_three: "lead3 a b \<Longrightarrow> cont c \<Longrightarrow> whole_rune [a, b, c]"
  unfolding whole_rune_def
proof (intro conjI allI)
  fix t assume h: "lead3 a b" "cont c"
  show "rune_size ([a, b, c] @ t) = length [a, b, c]"
    using h lead_disjoint(1)[OF h(1)] by (cases t) (simp_all add: rune_size_3 rune_size_4)
qed simp_all

lemma whole_four: "lead4 a b \<Longrightarrow> cont c \<Longrightarrow> cont d \<Longrightarrow> whole_rune [a, b, c, d]"
  unfolding whole_rune_def
proof (intro conjI allI)
  fix t assume h: "lead4 a b" "cont c" "cont d"
  show "rune_size ([a, b, c, d] @ t) = length [a, b, c, d]"
    using h lead_disjoint(2,3)[OF h(1)] by (simp add: rune_size_4)
qed simp_all

lemma whole_replacement: "whole_rune replacement"
  unfolding replacement_def by (rule whole_three) (simp_all add: lead3_def in_range_def cont_def)

lemma whole_ellipsis: "whole_rune ellipsis"
  unfolding ellipsis_def by (rule whole_three) (simp_all add: lead3_def in_range_def cont_def)

lemma rune_size_cases:
  assumes "s \<noteq> []"
  obtains (one) "rune_size s = 1" | (two) a b t where "s = a # b # t" "rune_size s = 2" "in_range a 0xC2 0xDF" "cont b"
  | (three) a b c t where "s = a # b # c # t" "rune_size s = 3" "lead3 a b" "cont c"
  | (four) a b c d t where "s = a # b # c # d # t" "rune_size s = 4" "lead4 a b" "cont c" "cont d"
proof (cases s rule: rune_size.cases)
  case (5 a b c d t)
  consider "in_range a 0xC2 0xDF \<and> cont b" | "\<not> (in_range a 0xC2 0xDF \<and> cont b)" "lead3 a b \<and> cont c"
    | "\<not> (in_range a 0xC2 0xDF \<and> cont b)" "\<not> (lead3 a b \<and> cont c)" "lead4 a b \<and> cont c \<and> cont d"
    | "\<not> (in_range a 0xC2 0xDF \<and> cont b)" "\<not> (lead3 a b \<and> cont c)" "\<not> (lead4 a b \<and> cont c \<and> cont d)" by blast
  then show ?thesis
  proof cases
    case 1
    then show ?thesis using two[OF 5] 5 by (simp add: rune_size_4)
  next
    case 2
    then show ?thesis using three[OF 5] 5 by (simp add: rune_size_4)
  next
    case 3
    then show ?thesis using four[OF 5] 5 by (simp add: rune_size_4)
  next
    case 4
    then show ?thesis using one 5 by (simp add: rune_size_4)
  qed
next
  case (4 a b c)
  consider "in_range a 0xC2 0xDF \<and> cont b" | "\<not> (in_range a 0xC2 0xDF \<and> cont b)" "lead3 a b \<and> cont c"
    | "\<not> (in_range a 0xC2 0xDF \<and> cont b)" "\<not> (lead3 a b \<and> cont c)" by blast
  then show ?thesis
  proof cases
    case 1
    then show ?thesis using two[OF 4] 4 by (simp add: rune_size_3)
  next
    case 2
    then show ?thesis using three[OF 4] 4 by (simp add: rune_size_3)
  next
    case 3
    then show ?thesis using one 4 by (simp add: rune_size_3)
  qed
next
  case (3 a b)
  show ?thesis
  proof (cases "in_range a 0xC2 0xDF \<and> cont b")
    case True
    then show ?thesis using two[OF 3] 3 by simp
  next
    case False
    then show ?thesis using one 3 by simp
  qed
qed (use assms one in auto)

lemma whole_first:
  assumes "s \<noteq> []" shows "whole_rune (first_rune s)"
  using assms
proof (cases rule: rune_size_cases)
  case one
  obtain c t where s: "s = c # t" using assms by (cases s) auto
  have "first_rune s = (if ascii c then [c] else replacement)" unfolding first_rune_def one by (simp add: s)
  then show ?thesis using whole_ascii whole_replacement by simp
next
  case (two a b t)
  then show ?thesis using whole_two by (simp add: first_rune_def)
next
  case (three a b c t)
  then show ?thesis using whole_three by (simp add: first_rune_def)
next
  case (four a b c d t)
  then show ?thesis using whole_four by (simp add: first_rune_def)
qed

lemma runes_whole: "r \<in> set (runes s) \<Longrightarrow> whole_rune r"
proof (induction s rule: runes.induct)
  case (1 s)
  then show ?case using whole_first by (cases "s = []") (auto simp: runes.simps[of s])
qed

text \<open>A string of whole runes is cut where it was joined.\<close>

lemma first_whole:
  assumes "whole_rune r" shows "first_rune (r @ t) = r"
proof -
  have sz: "rune_size (r @ t) = length r" "length r = 1 \<longrightarrow> ascii (hd (r @ t))"
    using assms by (auto simp: whole_rune_def hd_append)
  then show ?thesis by (auto simp: first_rune_def)
qed

lemma runes_append_whole: "whole_rune r \<Longrightarrow> runes (r @ t) = r # runes t"
  using first_whole[of r t] by (subst runes.simps) (simp add: whole_rune_def)

lemma runes_concat: "list_all whole_rune rs \<Longrightarrow> runes (concat rs @ t) = rs @ runes t"
  by (induction rs) (simp_all add: runes_append_whole)

lemma runes_upto_runes: "runes (runes_upto n s @ t) = take n (runes s) @ runes t"
  unfolding runes_upto_def
  by (rule runes_concat) (auto simp: list_all_iff dest!: in_set_takeD intro: runes_whole)

text \<open>A string is its runes, unless it holds a byte that encodes nothing.\<close>

definition well_encoded :: "string \<Rightarrow> bool" where
  "well_encoded s = (concat (runes s) = s)"

lemma runes_upto_encoded: "well_encoded (runes_upto n s)"
  using runes_upto_runes[of n s "[]"] by (simp add: well_encoded_def runes_upto_def)

lemma runes_upto_prefix: "well_encoded s \<Longrightarrow> \<exists>r. s = runes_upto n s @ r"
  unfolding well_encoded_def runes_upto_def by (metis append_take_drop_id concat_append)

subsection \<open>The two truncations\<close>

lemma runes_ascii: "list_all ascii cs \<Longrightarrow> runes cs = map (\<lambda>c. [c]) cs"
proof (induction cs)
  case (Cons c cs)
  then show ?case using runes_append_whole[OF whole_ascii, of c cs] by simp
qed simp

lemma runes_dots: "runes ''...'' = [''.'', ''.'', ''.'']"
  by (subst runes_ascii) (simp_all add: ascii_def)

lemma runes_ellipsis: "runes ellipsis = [ellipsis]"
  using runes_append_whole[OF whole_ellipsis, of "[]"] by simp

lemma bug_title_length: "length (runes (bug_title msg)) \<le> 80"
  by (simp add: bug_title_def Let_def runes_upto_runes runes_dots)

text \<open>
  A truncated title is at most 80 runes long and is cut between runes: when the message, trimmed, has
  more than 80, the runes of the title are exactly its first 77 and three dots; otherwise the title is the
  trimmed message itself.
\<close>

theorem bug_title_bounded:
  "length (runes (bug_title msg)) \<le> 80 \<and> runes (bug_title msg) = (if 80 < length (runes (trim_space msg))
     then take 77 (runes (trim_space msg)) @ [''.'', ''.'', ''.''] else runes (trim_space msg))"
  by (simp_all add: bug_title_def Let_def runes_upto_runes runes_dots)

lemma trunc_runes: "runes (trunc s n) = (if n \<le> 0 \<or> int (length (runes s)) \<le> n then runes s
    else take (nat n) (runes s) @ [ellipsis])"
  by (simp add: trunc_def runes_upto_runes runes_ellipsis)

lemma trunc_bounded: "0 < n \<Longrightarrow> int (length (runes (trunc s n))) \<le> n + 1"
  by (simp add: trunc_runes)

end
