(* ===== verification/Api_Items.thy ===== *)
theory Api_Items
  imports Runes Attachments
begin

text \<open>
  The handlers of \<open>internal/api\<close> for items, activity, links, code references and webhooks (\<open>items.go\<close>,
  \<open>activity.go\<close>, \<open>features.go\<close>) and the query parameters they read (\<open>params.go\<close>). A handler is a function
  of the decoded request, the actor, the time and the database; its result is the status, the body when it
  succeeds, and the database. The conversion of rows to their JSON form is the identity here. A body that does
  not decode is the request \<open>None\<close>.
\<close>

subsection \<open>Query parameters\<close>

text \<open>The parsers of UUIDs and of RFC 3339 times, the letter case and the full-text match of PostgreSQL.\<close>

record api_env =
  ae_parse :: "string \<Rightarrow> uuid option"
  ae_time :: "string \<Rightarrow> gtime option"
  ae_lower :: "string \<Rightarrow> string"
  ae_fts :: "string \<Rightarrow> item \<Rightarrow> bool"

type_synonym query = "string \<Rightarrow> string"
type_synonym 'a reply = "nat \<times> 'a option"

definition query_str :: "query \<Rightarrow> string \<Rightarrow> string option" where
  "query_str q k = (if q k \<noteq> [] then Some (q k) else None)"

definition query_uuid :: "api_env \<Rightarrow> query \<Rightarrow> string \<Rightarrow> error + uuid option" where
  "query_uuid e q k = (if q k = [] then Inr None
     else (case ae_parse e (q k) of None \<Rightarrow> Inl (ErrText ''invalid UUID'') | Some x \<Rightarrow> Inr (Some x)))"

definition query_time :: "api_env \<Rightarrow> query \<Rightarrow> string \<Rightarrow> error + gtime option" where
  "query_time e q k = (if q k = [] then Inr None
     else (case ae_time e (q k) of None \<Rightarrow> Inl (ErrText ''parsing time'') | Some t \<Rightarrow> Inr (Some t)))"

text \<open>\<open>strconv.Atoi\<close>: a sign and digits only, in the range of a 64-bit integer.\<close>

definition atoi_digits :: "string \<Rightarrow> int option" where
  "atoi_digits ds = (if ds \<noteq> [] \<and> list_all is_digit_char ds then Some (int (digits_val ds)) else None)"

definition atoi :: "string \<Rightarrow> int option" where
  "atoi v = (case (case v of [] \<Rightarrow> None
       | c # cs \<Rightarrow> if c = CHR ''-'' then map_option uminus (atoi_digits cs)
                  else if c = CHR ''+'' then atoi_digits cs else atoi_digits (c # cs)) of
     None \<Rightarrow> None
   | Some n \<Rightarrow> if - (2 ^ 63) \<le> n \<and> n < 2 ^ 63 then Some n else None)"

text \<open>The conversion to a 32-bit integer drops the high bits.\<close>

definition to_int32 :: "int \<Rightarrow> int" where
  "to_int32 n = (n + 2 ^ 31) mod 2 ^ 32 - 2 ^ 31"

definition query_int32 :: "query \<Rightarrow> string \<Rightarrow> error + int option" where
  "query_int32 q k = (if q k = [] then Inr None
     else (case atoi (q k) of None \<Rightarrow> Inl (ErrText ''invalid syntax'') | Some n \<Rightarrow> Inr (Some (to_int32 n))))"

text \<open>\<open>pgUUIDFromPtr\<close>.\<close>

definition uuid_from_ptr :: "api_env \<Rightarrow> string option \<Rightarrow> error + uuid option" where
  "uuid_from_ptr e v = (case v of None \<Rightarrow> Inr None
     | Some x \<Rightarrow> if x = [] then Inr None
                else (case ae_parse e x of None \<Rightarrow> Inl (ErrText ''invalid UUID'') | Some u \<Rightarrow> Inr (Some u)))"

text \<open>The project named by id or, failing that, by slug, as the listings read it; \<open>Inl\<close> is the status.\<close>

definition project_filter :: "api_env \<Rightarrow> query \<Rightarrow> db \<Rightarrow> nat + uuid option" where
  "project_filter e q s =
     (case query_uuid e q ''project_id'' of
        Inl _ \<Rightarrow> Inl 400
      | Inr x \<Rightarrow>
         (if q ''project'' \<noteq> [] \<and> x = None
          then (case find_slug (q ''project'') s of Inl er \<Rightarrow> Inl (db_error_status er) | Inr p \<Rightarrow> Inr (Some (p_id p)))
          else Inr x))"

text \<open>PostgreSQL refuses a negative \<open>LIMIT\<close>.\<close>

definition limit_refused :: "int option \<Rightarrow> bool" where
  "limit_refused n = (case n of None \<Rightarrow> False | Some k \<Rightarrow> k < 0)"

subsection \<open>Items\<close>

text \<open>A listed item and the titles of its open blockers; the flag \<open>blocked\<close> is that there is one.\<close>

type_synonym listed = "item \<times> string list"

definition blocked_by :: "db \<Rightarrow> uuid \<Rightarrow> string list" where
  "blocked_by s x = map (\<lambda>(_, _, t). t) (filter (\<lambda>(d, _, _). d = x) (list_open_blocking_edges s))"

definition list_items_handler :: "api_env \<Rightarrow> query \<Rightarrow> db \<Rightarrow> listed list reply" where
  "list_items_handler e q s =
     (case project_filter e q s of
        Inl st \<Rightarrow> (st, None)
      | Inr pr \<Rightarrow>
         (case query_time e q ''updated_since'' of
            Inl _ \<Rightarrow> (400, None)
          | Inr since \<Rightarrow>
             (case query_int32 q ''limit'' of
                Inl _ \<Rightarrow> (400, None)
              | Inr n \<Rightarrow>
                 (if limit_refused n then (500, None)
                  else (200, Some (map (\<lambda>i. (i, blocked_by s (i_id i)))
                    (list_items_rows (ae_fts e) \<lparr>lp_project = pr, lp_status = query_str q ''status'', lp_type = query_str q ''type'',
                       lp_assignee = query_str q ''assignee'', lp_tag = query_str q ''tag'', lp_since = since,
                       lp_q = query_str q ''q'', lp_off = None, lp_lim = n\<rparr> s)))))))"

definition get_item_handler :: "api_env \<Rightarrow> string \<Rightarrow> db \<Rightarrow> (item \<times> attachment list) reply" where
  "get_item_handler e raw s =
     (case item_by_id_or_ref (ae_parse e) (ae_lower e) raw s of
        Inl er \<Rightarrow> (db_error_status er, None)
      | Inr i \<Rightarrow> (200, Some (i, list_attachments_for_item (i_id i) s)))"

text \<open>\<open>resolveProjectID\<close>; the nil UUID, zero here, stands for no project.\<close>

definition resolve_project_id :: "api_env \<Rightarrow> string \<Rightarrow> string option \<Rightarrow> db \<Rightarrow> error + uuid" where
  "resolve_project_id e slug pid s =
     (case (case pid of None \<Rightarrow> [] | Some x \<Rightarrow> x) of
        [] \<Rightarrow> (if slug \<noteq> [] then (case find_slug slug s of Inl er \<Rightarrow> Inl er | Inr p \<Rightarrow> Inr (p_id p)) else Inr 0)
      | c # cs \<Rightarrow> (case ae_parse e (c # cs) of None \<Rightarrow> Inl (ErrText ''invalid UUID'') | Some u \<Rightarrow> Inr u))"

text \<open>A request names its project by slug or by id; the rest are the parameters of the statement, whose
  project is filled in.\<close>

record 'p project_req =
  pj_slug :: string
  pj_id :: "string option"
  pj_params :: 'p

definition create_item_handler :: "api_env \<Rightarrow> (db \<Rightarrow> db) \<Rightarrow> create_params project_req option \<Rightarrow> string \<Rightarrow> gtime \<Rightarrow> db
    \<Rightarrow> item reply \<times> db" where
  "create_item_handler e other req actor now s =
     (case req of
        None \<Rightarrow> ((400, None), s)
      | Some r \<Rightarrow>
         (let p = pj_params r in
          if cp_title p = [] then ((400, None), s)
          else if validate_item_fields (cp_type p) (cp_status p) (cp_priority p) \<noteq> None then ((400, None), s)
          else (case resolve_project_id e (pj_slug r) (pj_id r) s of
                  Inl er \<Rightarrow> ((db_error_status er, None), s)
                | Inr pr \<Rightarrow>
                   (if pr = 0 then ((400, None), s)
                    else (case create_item other (p\<lparr>cp_project := pr\<rparr>) actor now s of
                            (Inl er, s') \<Rightarrow> ((db_error_status er, None), s')
                          | (Inr i, s') \<Rightarrow> ((201, Some i), s'))))))"

text \<open>The id of a path, as the handlers parse it.\<close>

definition patch_item_handler :: "api_env \<Rightarrow> string \<Rightarrow> update_params option \<Rightarrow> string \<Rightarrow> gtime \<Rightarrow> db \<Rightarrow> item reply \<times> db" where
  "patch_item_handler e raw req actor now s =
     (case ae_parse e raw of
        None \<Rightarrow> ((400, None), s)
      | Some x \<Rightarrow>
         (case req of
            None \<Rightarrow> ((400, None), s)
          | Some p \<Rightarrow>
             (if validate_item_fields (up_type p) (up_status p) (up_priority p) \<noteq> None then ((400, None), s)
              else (case update_item (p\<lparr>up_id := x\<rparr>) actor now s of
                      (Inl er, s') \<Rightarrow> ((db_error_status er, None), s')
                    | (Inr i, s') \<Rightarrow> ((200, Some i), s')))))"

definition delete_item_handler :: "api_env \<Rightarrow> string \<Rightarrow> gtime \<Rightarrow> db \<Rightarrow> nat \<times> db" where
  "delete_item_handler e raw now s =
     (case ae_parse e raw of
        None \<Rightarrow> (400, s)
      | Some x \<Rightarrow> (case with_tx now (soft_delete_item x) s of
                    (Inl er, s') \<Rightarrow> (db_error_status er, s') | (Inr _, s') \<Rightarrow> (204, s')))"

subsection \<open>Activity\<close>

definition list_activity_handler :: "api_env \<Rightarrow> query \<Rightarrow> db \<Rightarrow> activity list reply" where
  "list_activity_handler e q s =
     (case project_filter e q s of
        Inl st \<Rightarrow> (st, None)
      | Inr pr \<Rightarrow>
         (case query_uuid e q ''item_id'' of
            Inl _ \<Rightarrow> (400, None)
          | Inr it \<Rightarrow>
             (case query_time e q ''since'' of
                Inl _ \<Rightarrow> (400, None)
              | Inr since \<Rightarrow>
                 (case query_int32 q ''limit'' of
                    Inl _ \<Rightarrow> (400, None)
                  | Inr n \<Rightarrow>
                     (if limit_refused n then (500, None)
                      else (200, Some (list_activity pr it (query_str q ''kind'') since n s)))))))"

record activity_req =
  aq_item :: "string option"
  aq_kind :: "string option"
  aq_body :: "string option"
  aq_confidence :: "string option"
  aq_metadata :: "json option"

definition create_activity_handler :: "api_env \<Rightarrow> activity_req project_req option \<Rightarrow> string \<Rightarrow> gtime \<Rightarrow> db
    \<Rightarrow> activity reply \<times> db" where
  "create_activity_handler e req actor now s =
     (case req of
        None \<Rightarrow> ((400, None), s)
      | Some r \<Rightarrow>
         (let a = pj_params r in
          if validate_activity_kind (aq_kind a) \<noteq> None then ((400, None), s)
          else if validate_confidence (aq_confidence a) \<noteq> None then ((400, None), s)
          else (case resolve_project_id e (pj_slug r) (pj_id r) s of
                  Inl er \<Rightarrow> ((db_error_status er, None), s)
                | Inr pr \<Rightarrow>
                   (if pr = 0 then ((400, None), s)
                    else (case uuid_from_ptr e (aq_item a) of
                            Inl _ \<Rightarrow> ((400, None), s)
                          | Inr it \<Rightarrow>
                             (case log_activity \<lparr>ap_project = pr, ap_item = it, ap_kind = aq_kind a, ap_actor = Some actor,
                                      ap_body = aq_body a, ap_metadata = aq_metadata a, ap_confidence = aq_confidence a\<rparr> now s of
                                (Inl er, s') \<Rightarrow> ((db_error_status er, None), s')
                              | (Inr row, s') \<Rightarrow> ((201, Some row), s')))))))"

subsection \<open>Next action, links, code references, webhooks\<close>

definition next_action_handler :: "query \<Rightarrow> db \<Rightarrow> (item \<times> string) list reply" where
  "next_action_handler q s =
     (case query_int32 q ''limit'' of
        Inl _ \<Rightarrow> (400, None)
      | Inr n \<Rightarrow> (case next_action (q ''project'') (case n of None \<Rightarrow> 0 | Some k \<Rightarrow> k) s of
                    Inl er \<Rightarrow> (db_error_status er, None) | Inr rows \<Rightarrow> (200, Some rows)))"

definition list_links_handler :: "api_env \<Rightarrow> string \<Rightarrow> db \<Rightarrow> item_link list reply" where
  "list_links_handler e raw s =
     (case ae_parse e raw of None \<Rightarrow> (400, None) | Some x \<Rightarrow> (200, Some (list_links_for_item x s)))"

record link_req =
  lq_from :: string
  lq_to :: string
  lq_kind :: string

definition create_link_handler :: "api_env \<Rightarrow> link_req option \<Rightarrow> gtime \<Rightarrow> db \<Rightarrow> item_link reply \<times> db" where
  "create_link_handler e req now s =
     (case req of
        None \<Rightarrow> ((400, None), s)
      | Some r \<Rightarrow>
         (case ae_parse e (lq_from r) of
            None \<Rightarrow> ((400, None), s)
          | Some f \<Rightarrow>
             (case ae_parse e (lq_to r) of
                None \<Rightarrow> ((400, None), s)
              | Some t \<Rightarrow>
                 (if lq_kind r \<noteq> [] \<and> validate_link_kind (Some (lq_kind r)) \<noteq> None then ((400, None), s)
                  else (case link_items f t (lq_kind r) now s of
                          (Inl er, s') \<Rightarrow> ((db_error_status er, None), s')
                        | (Inr l, s') \<Rightarrow> ((201, Some l), s'))))))"

text \<open>Deleting a link, a code reference or a webhook, none of which reports a missing row.\<close>

definition delete_by_id :: "api_env \<Rightarrow> string \<Rightarrow> (uuid \<Rightarrow> unit dbtx) \<Rightarrow> gtime \<Rightarrow> db \<Rightarrow> nat \<times> db" where
  "delete_by_id e raw stmt now s =
     (case ae_parse e raw of
        None \<Rightarrow> (400, s)
      | Some x \<Rightarrow> (case with_tx now (stmt x) s of
                    (Inl er, s') \<Rightarrow> (db_error_status er, s') | (Inr _, s') \<Rightarrow> (204, s')))"

definition delete_link_handler :: "api_env \<Rightarrow> string \<Rightarrow> gtime \<Rightarrow> db \<Rightarrow> nat \<times> db" where
  "delete_link_handler e raw = delete_by_id e raw delete_item_link"

definition list_item_refs_handler :: "api_env \<Rightarrow> string \<Rightarrow> db \<Rightarrow> item_ref list reply" where
  "list_item_refs_handler e raw s =
     (case ae_parse e raw of None \<Rightarrow> (400, None) | Some x \<Rightarrow> (200, Some (list_item_refs x s)))"

record ref_req =
  fq_kind :: string
  fq_ref :: string
  fq_label :: string

definition create_item_ref_handler :: "api_env \<Rightarrow> string \<Rightarrow> ref_req option \<Rightarrow> gtime \<Rightarrow> db \<Rightarrow> item_ref reply \<times> db" where
  "create_item_ref_handler e raw req now s =
     (case ae_parse e raw of
        None \<Rightarrow> ((400, None), s)
      | Some x \<Rightarrow>
         (case req of
            None \<Rightarrow> ((400, None), s)
          | Some r \<Rightarrow>
             (if fq_ref r = [] then ((400, None), s)
              else if fq_kind r \<noteq> [] \<and> validate_ref_kind (Some (fq_kind r)) \<noteq> None then ((400, None), s)
              else (case add_item_ref x (fq_kind r) (fq_ref r) (fq_label r) now s of
                      (Inl er, s') \<Rightarrow> ((db_error_status er, None), s')
                    | (Inr row, s') \<Rightarrow> ((201, Some row), s')))))"

definition delete_item_ref_handler :: "api_env \<Rightarrow> string \<Rightarrow> gtime \<Rightarrow> db \<Rightarrow> nat \<times> db" where
  "delete_item_ref_handler e raw = delete_by_id e raw delete_item_ref"

definition list_webhook_events_handler :: "db \<Rightarrow> webhook_event list reply" where
  "list_webhook_events_handler s = (200, Some (list_failed_webhook_events 100 s))"

record webhook_req =
  wq_project :: string
  wq_url :: string
  wq_events :: "string list option"
  wq_secret :: "string option"

definition create_webhook_handler :: "webhook_req option \<Rightarrow> gtime \<Rightarrow> db \<Rightarrow> webhook reply \<times> db" where
  "create_webhook_handler req now s =
     (case req of
        None \<Rightarrow> ((400, None), s)
      | Some r \<Rightarrow>
         (if wq_url r = [] then ((400, None), s)
          else (case (if wq_project r \<noteq> []
                      then (case find_slug (wq_project r) s of Inl er \<Rightarrow> Inl er | Inr p \<Rightarrow> Inr (Some (p_id p)))
                      else Inr None) of
                  Inl er \<Rightarrow> ((db_error_status er, None), s)
                | Inr pr \<Rightarrow>
                   (case with_tx now (create_webhook pr (wq_url r) (wq_secret r) (wq_events r)) s of
                      (Inl er, s') \<Rightarrow> ((db_error_status er, None), s')
                    | (Inr h, s') \<Rightarrow> ((201, Some h), s')))))"

definition delete_webhook_handler :: "api_env \<Rightarrow> string \<Rightarrow> gtime \<Rightarrow> db \<Rightarrow> nat \<times> db" where
  "delete_webhook_handler e raw = delete_by_id e raw delete_webhook"

end
