(* ===== verification/Api_Ingest.thy ===== *)
theory Api_Ingest
  imports Api_Items Keys
begin

text \<open>
  The public endpoints of \<open>internal/api/ingest.go\<close> (bug reports of the widget, quick capture, the list of
  projects) and the route table of \<open>internal/api/server.go\<close> with the guard of each route. The letter case of
  Unicode and the rounding of numbers decoded into \<open>any\<close> are arguments. A handler that panics gives
  \<open>Panicked\<close>: the server drops the connection and nothing is written.
\<close>

subsection \<open>Bug reports\<close>

datatype 'a served = Served 'a | Panicked

definition max_bug_message_len :: nat where "max_bug_message_len = 5000"

record bug_report =
  br_site :: string
  br_url :: string
  br_message :: string
  br_severity :: string
  br_meta :: "json option"

definition severity_to_priority :: "(string \<Rightarrow> string) \<Rightarrow> string \<Rightarrow> string" where
  "severity_to_priority low sev =
     (let v = low (trim_space sev) in
      if v = ''low'' then ''low'' else if v = ''high'' then ''high''
      else if v = ''urgent'' \<or> v = ''critical'' then ''urgent'' else ''med'')"

text \<open>The map the metadata is decoded into. An object fills it, the last of two equal keys counting; JSON null
  makes it the nil map; any other value leaves it empty. A store into the nil map panics.\<close>

definition json_fields :: "(string \<times> json) list \<Rightarrow> (string \<times> json) list" where
  "json_fields kvs = foldl (\<lambda>m (k, v). AList.update k v m) [] kvs"

definition meta_map :: "(json \<Rightarrow> json) \<Rightarrow> json option \<Rightarrow> (string \<times> json) list option" where
  "meta_map rnd meta = (case meta of
     None \<Rightarrow> Some []
   | Some (JObj kvs) \<Rightarrow> Some (json_fields (map (\<lambda>(k, v). (k, rnd v)) kvs))
   | Some JNull \<Rightarrow> None
   | Some _ \<Rightarrow> Some [])"

definition set_field :: "string \<Rightarrow> string \<Rightarrow> (string \<times> json) list option served \<Rightarrow> (string \<times> json) list option served" where
  "set_field k v m = (if v = [] then m else
     (case m of Panicked \<Rightarrow> Panicked | Served None \<Rightarrow> Panicked | Served (Some kvs) \<Rightarrow> Served (Some (AList.update k (JStr v) kvs))))"

definition build_bug_metadata :: "(json \<Rightarrow> json) \<Rightarrow> bug_report \<Rightarrow> json served" where
  "build_bug_metadata rnd rep =
     (case set_field ''severity'' (br_severity rep) (set_field ''url'' (br_url rep) (Served (meta_map rnd (br_meta rep)))) of
        Panicked \<Rightarrow> Panicked | Served None \<Rightarrow> Served JNull | Served (Some kvs) \<Rightarrow> Served (JObj kvs))"

definition ingested :: "uuid \<Rightarrow> string \<Rightarrow> string \<Rightarrow> string option \<Rightarrow> string \<Rightarrow> string \<Rightarrow> string option \<Rightarrow> string list \<Rightarrow> json option
    \<Rightarrow> create_params" where
  "ingested pr typ title body prio src ext tags meta = \<lparr>cp_project = pr, cp_type = Some typ, cp_title = title, cp_body = body,
     cp_status = None, cp_priority = Some prio, cp_assignee = None, cp_position = None, cp_source = Some src,
     cp_external_ref = ext, cp_tags = Some tags, cp_metadata = meta, cp_key = None, cp_criteria = None\<rparr>"

definition reply_created :: "(error + item) \<times> db \<Rightarrow> item reply \<times> db" where
  "reply_created r = (case r of (Inl er, s) \<Rightarrow> ((db_error_status er, None), s) | (Inr i, s) \<Rightarrow> ((201, Some i), s))"

definition ingest_bug :: "(string \<Rightarrow> string) \<Rightarrow> (json \<Rightarrow> json) \<Rightarrow> (db \<Rightarrow> db) \<Rightarrow> bug_report option \<Rightarrow> string \<Rightarrow> gtime \<Rightarrow> db
    \<Rightarrow> (item reply \<times> db) served" where
  "ingest_bug low rnd other req actor now s =
     (case req of
        None \<Rightarrow> Served ((400, None), s)
      | Some rep \<Rightarrow>
         (if br_site rep = [] \<or> br_message rep = [] then Served ((400, None), s)
          else if max_bug_message_len < length (br_message rep) then Served ((400, None), s)
          else (case find_slug (br_site rep) s of
                  Inl er \<Rightarrow> Served ((db_error_status er, None), s)
                | Inr p \<Rightarrow>
                   (case build_bug_metadata rnd rep of
                      Panicked \<Rightarrow> Panicked
                    | Served meta \<Rightarrow> Served (reply_created (create_item other
                        (ingested (p_id p) ''bug'' (bug_title (br_message rep)) (Some (br_message rep))
                           (severity_to_priority low (br_severity rep)) ''bug_reporter'' (opt_str (br_url rep))
                           [''bug-report''] (Some meta)) actor now s))))))"

subsection \<open>Quick capture\<close>

record capture_req =
  kr_project :: string
  kr_type :: string
  kr_title :: string
  kr_body :: string
  kr_priority :: string
  kr_tags :: "string list"

definition capture_types :: "string list" where
  "capture_types = [''task'', ''bug'', ''idea'', ''note'']"

definition capture_body :: "string \<Rightarrow> string \<Rightarrow> string option" where
  "capture_body full body = (if body \<noteq> [] then Some body else if bug_title full \<noteq> full then Some full else None)"

definition ingest_capture :: "(string \<Rightarrow> string) \<Rightarrow> (db \<Rightarrow> db) \<Rightarrow> capture_req option \<Rightarrow> string \<Rightarrow> gtime \<Rightarrow> db
    \<Rightarrow> item reply \<times> db" where
  "ingest_capture low other req actor now s =
     (case req of
        None \<Rightarrow> ((400, None), s)
      | Some r \<Rightarrow>
         (let full = trim_space (kr_title r);
              typ0 = low (trim_space (kr_type r));
              typ = (if typ0 = [] then ''task'' else typ0)
          in if kr_project r = [] \<or> full = [] then ((400, None), s)
             else if max_bug_message_len < length full \<or> max_bug_message_len < length (kr_body r) then ((400, None), s)
             else if typ \<notin> set capture_types then ((400, None), s)
             else (case find_slug (kr_project r) s of
                     Inl er \<Rightarrow> ((db_error_status er, None), s)
                   | Inr p \<Rightarrow> reply_created (create_item other
                       (ingested (p_id p) typ (bug_title full) (capture_body full (kr_body r))
                          (severity_to_priority low (kr_priority r)) ''capture'' None
                          (if kr_tags r = [] then [''captured''] else kr_tags r) None) actor now s))))"

definition ingest_projects :: "db \<Rightarrow> string list reply" where
  "ingest_projects s = (200, Some (map p_slug (list_projects (Some ''active'') s)))"

subsection \<open>The route table\<close>

datatype guard = GScope string | GIngest | GPreflight | GOpen

text \<open>Method, pattern and guard, in the order of registration. \<open>GIngest\<close> is CORS, the rate limit and the ingest
  scope around the handler; \<open>GPreflight\<close> answers without calling anything.\<close>

definition routes :: "(string \<times> string \<times> guard) list" where
  "routes =
    [(''GET'', ''/projects'', GScope scope_read), (''POST'', ''/projects'', GScope scope_write),
     (''GET'', ''/projects/{slug}'', GScope scope_read), (''PATCH'', ''/projects/{slug}'', GScope scope_write),
     (''DELETE'', ''/projects/{slug}'', GScope scope_write),
     (''GET'', ''/shares'', GScope scope_read), (''POST'', ''/shares'', GScope scope_write),
     (''POST'', ''/shares/accept'', GScope scope_write), (''DELETE'', ''/shares/{id}'', GScope scope_write),
     (''GET'', ''/shares/config'', GScope scope_read), (''PUT'', ''/shares/config'', GScope scope_write),
     (''GET'', ''/items'', GScope scope_read), (''POST'', ''/items'', GScope scope_write),
     (''GET'', ''/items/{id}'', GScope scope_read), (''PATCH'', ''/items/{id}'', GScope scope_write),
     (''DELETE'', ''/items/{id}'', GScope scope_write), (''GET'', ''/items/{id}/links'', GScope scope_read),
     (''GET'', ''/items/{id}/refs'', GScope scope_read), (''POST'', ''/items/{id}/refs'', GScope scope_write),
     (''GET'', ''/items/{id}/attachments'', GScope scope_read), (''POST'', ''/items/{id}/attachments'', GScope scope_write),
     (''GET'', ''/attachments/{id}'', GScope scope_read), (''DELETE'', ''/attachments/{id}'', GScope scope_write),
     (''POST'', ''/links'', GScope scope_write), (''DELETE'', ''/links/{id}'', GScope scope_write),
     (''DELETE'', ''/refs/{id}'', GScope scope_write),
     (''GET'', ''/activity'', GScope scope_read), (''POST'', ''/activity'', GScope scope_write),
     (''GET'', ''/context'', GScope scope_read), (''GET'', ''/context/{slug}'', GScope scope_read),
     (''GET'', ''/next-action'', GScope scope_read), (''GET'', ''/digest/{slug}'', GScope scope_read),
     (''GET'', ''/stale'', GScope scope_read),
     (''GET'', ''/webhooks'', GScope scope_read), (''GET'', ''/webhooks/events'', GScope scope_read),
     (''POST'', ''/webhooks'', GScope scope_write), (''DELETE'', ''/webhooks/{id}'', GScope scope_write),
     (''GET'', ''/stream'', GScope scope_read), (''GET'', ''/search'', GScope scope_read),
     (''GET'', ''/usage'', GScope scope_read), (''GET'', ''/context-impact'', GScope scope_read),
     (''POST'', ''/context-impact'', GScope scope_write),
     (''POST'', ''/ingest/bug'', GIngest), (''OPTIONS'', ''/ingest/bug'', GPreflight),
     (''POST'', ''/ingest/attachments/{id}'', GIngest), (''OPTIONS'', ''/ingest/attachments/{id}'', GPreflight),
     (''POST'', ''/ingest/capture'', GIngest), (''OPTIONS'', ''/ingest/capture'', GPreflight),
     (''GET'', ''/ingest/projects'', GIngest),
     (''GET'', ''/setup/status'', GOpen), (''POST'', ''/setup/complete'', GOpen),
     (''GET'', ''/settings'', GScope scope_read), (''PUT'', ''/settings'', GScope scope_write)]"

text \<open>A handler behind its guard. \<open>allowed\<close> is the answer of the rate limiter for the caller's address.\<close>

definition guarded :: "(string \<Rightarrow> string) \<Rightarrow> guard \<Rightarrow> bool \<Rightarrow> (identity \<Rightarrow> db \<Rightarrow> 'r \<times> db) \<Rightarrow> credentials \<Rightarrow> gtime \<Rightarrow> db
    \<Rightarrow> (refusal + 'r option) \<times> db" where
  "guarded hash g allowed h r now s =
     (let behind = (\<lambda>scope. case key_middleware hash scope h r now s of
                      (Inl e, s') \<Rightarrow> (Inl e, s') | (Inr x, s') \<Rightarrow> (Inr (Some x), s'))
      in case g of
           GScope scope \<Rightarrow> behind scope
         | GIngest \<Rightarrow> (if allowed then behind scope_ingest else (Inl (429, ''rate limit exceeded''), s))
         | GPreflight \<Rightarrow> (Inr None, s)
         | GOpen \<Rightarrow> (case h \<lparr>id_name = [], id_scopes = []\<rparr> s of (x, s') \<Rightarrow> (Inr (Some x), s')))"

subsection \<open>What the public endpoints can write\<close>

lemma new_row:
  assumes "create_item_stmt p s = Inr (i, t)"
  shows "\<exists>u n rf. i = (new_item p u (db_now s))\<lparr>i_seq := n, i_ref := rf\<rparr>"
proof -
  from assms obtain u i0 s' s0 where a: "assign_item_ref (new_item p u (db_now s)) s0 = Inr (i0, s')"
    and b: "append_item i0 s' = Inr (i, t)"
    by (auto simp: create_item_stmt_def tx_simps)
  from b have "i = i0" by (simp add: append_item_Inr)
  with a show ?thesis by (auto simp: assign_item_ref_def Let_def split: sum.splits)
qed

lemma insert_row:
  assumes "insert_item_tx p actor s = Inr (i, t)"
  shows "\<exists>u n rf. i = (new_item p u (db_now s))\<lparr>i_seq := n, i_ref := rf\<rparr>"
  using assms new_row unfolding insert_item_tx_def by (auto simp: tx_simps)

lemma keyless_create:
  assumes k: "\<not> has_key p" and r: "create_item other p actor now s = (q, s')"
  obtains (failed) e where "q = Inl e" "s' = other s"
  | (made) i u n rf where "q = Inr i" "items s' = items (other s) @ [i]"
      "i = (new_item p u now)\<lparr>i_seq := n, i_ref := rf\<rparr>"
proof (cases "create_item_tx p actor ((other s)\<lparr>db_now := now\<rparr>)")
  case (Inl e)
  then show ?thesis using failed r k by (auto simp: create_item_def Let_def with_tx_def split: if_splits)
next
  case (Inr it)
  obtain i t where it: "it = (i, t)" by (cases it)
  have ins: "insert_item_tx p actor ((other s)\<lparr>db_now := now\<rparr>) = Inr (i, t)" using Inr it k by (simp add: create_item_tx_def)
  have q: "q = Inr i" "s' = t" using Inr it r k by (auto simp: create_item_def Let_def with_tx_def split: if_splits)
  have its: "items s' = items (other s) @ [i]" using insert_item_tx_rows(1)[OF ins] q by simp
  obtain u n rf where "i = (new_item p u now)\<lparr>i_seq := n, i_ref := rf\<rparr>" using insert_row[OF ins] by auto
  then show ?thesis using made q its by blast
qed

lemma ingested_keyless: "\<not> has_key (ingested pr typ title body prio src ext tags meta)"
  by (simp add: has_key_def ingested_def)

text \<open>An item as the public endpoints file it.\<close>

definition filed :: "string list \<Rightarrow> string \<Rightarrow> item \<Rightarrow> bool" where
  "filed types src i = (i_source i = src \<and> i_type i \<in> set types \<and> i_status i = ''backlog''
     \<and> i_priority i \<in> set item_priorities \<and> i_assignee i = None \<and> i_closed_at i = None
     \<and> length (runes (i_title i)) \<le> 80 \<and> length (i_body i) \<le> max_bug_message_len)"

lemma severity_priority: "severity_to_priority low v \<in> set item_priorities"
  by (simp add: severity_to_priority_def item_priorities_def Let_def)

lemma reply_created_cases:
  assumes "reply_created (create_item (\<lambda>s. s) (ingested pr typ title body prio src ext tags meta) actor now s) = ((st, r), s')"
  obtains "items s' = items s" "r = None"
  | i u n rf where "r = Some i" "st = 201" "items s' = items s @ [i]"
      "i = (new_item (ingested pr typ title body prio src ext tags meta) u now)\<lparr>i_seq := n, i_ref := rf\<rparr>"
proof -
  obtain q t where c: "create_item (\<lambda>s. s) (ingested pr typ title body prio src ext tags meta) actor now s = (q, t)"
    by (metis surj_pair)
  from ingested_keyless c show ?thesis
  proof (cases rule: keyless_create)
    case (failed e)
    then show ?thesis using that(1) assms c by (simp add: reply_created_def)
  next
    case (made i u n rf)
    have "r = Some i" "st = 201" "t = s'" using assms unfolding c made(1) by (simp_all add: reply_created_def)
    then show ?thesis using that(2)[OF _ _ _ made(3)] made(2) by simp
  qed
qed

lemma ingest_capture_cases:
  assumes r: "ingest_capture low other req actor now s = (q, s')"
  obtains (refused) st where "q = (st, None)" "s' = s"
  | (filing) ty full body prio p tags where "ty \<in> set capture_types" "length full \<le> max_bug_message_len"
      "length body \<le> max_bug_message_len"
      "reply_created (create_item other (ingested p ty (bug_title full) (capture_body full body)
          (severity_to_priority low prio) ''capture'' None tags None) actor now s) = (q, s')"
proof (cases req)
  case None
  then have "q = (400, None)" "s' = s" using r by (auto simp: ingest_capture_def)
  then show ?thesis by (rule refused)
next
  case (Some c)
  define full where "full = trim_space (kr_title c)"
  define ty where "ty = (let t = low (trim_space (kr_type c)) in if t = [] then ''task'' else t)"
  note r' = r[unfolded ingest_capture_def Some option.case Let_def, folded full_def ty_def[unfolded Let_def]]
  show ?thesis
  proof (cases "kr_project c = [] \<or> full = [] \<or> max_bug_message_len < length full
      \<or> max_bug_message_len < length (kr_body c) \<or> ty \<notin> set capture_types")
    case True
    have "q = (400, None) \<and> s' = s" using r' by (rule rev_mp) (use True in \<open>intro impI, elim disjE; simp split: if_splits\<close>)
    then show ?thesis using refused by blast
  next
    case False
    note g = False
    show ?thesis
    proof (cases "find_slug (kr_project c) s")
      case (Inl er)
      then have "q = (db_error_status er, None)" "s' = s" using r' g by auto
      then show ?thesis by (rule refused)
    next
      case (Inr p)
      have "ty \<in> set capture_types" "length full \<le> max_bug_message_len" "length (kr_body c) \<le> max_bug_message_len"
        using g by simp_all
      moreover have "reply_created (create_item other (ingested (p_id p) ty (bug_title full) (capture_body full (kr_body c))
          (severity_to_priority low (kr_priority c)) ''capture'' None
          (if kr_tags c = [] then [''captured''] else kr_tags c) None) actor now s) = (q, s')"
        using r' g Inr by simp
      ultimately show ?thesis by (rule filing)
    qed
  qed
qed

lemma bug_files_reports:
  assumes r: "ingest_bug low rnd (\<lambda>s. s) req actor now s = Served ((st, r), s')"
  shows "(items s' = items s \<and> r = None) \<or> (\<exists>i. items s' = items s @ [i] \<and> r = Some i \<and> filed [''bug''] ''bug_reporter'' i)"
proof (cases "\<exists>rep p meta. req = Some rep \<and> length (br_message rep) \<le> max_bug_message_len
      \<and> reply_created (create_item (\<lambda>s. s) (ingested p ''bug'' (bug_title (br_message rep)) (Some (br_message rep))
          (severity_to_priority low (br_severity rep)) ''bug_reporter'' (opt_str (br_url rep)) [''bug-report''] meta) actor now s)
        = ((st, r), s')")
  case True
  then show ?thesis
  proof (elim exE conjE)
    fix rep p meta
    assume h: "length (br_message rep) \<le> max_bug_message_len"
      and c: "reply_created (create_item (\<lambda>s. s) (ingested p ''bug'' (bug_title (br_message rep)) (Some (br_message rep))
        (severity_to_priority low (br_severity rep)) ''bug_reporter'' (opt_str (br_url rep)) [''bug-report''] meta) actor now s)
      = ((st, r), s')"
    from c show ?thesis
    proof (cases rule: reply_created_cases)
      case (2 i u n rf)
      then have "filed [''bug''] ''bug_reporter'' i"
        using h by (simp add: filed_def new_item_def ingested_def severity_priority bug_title_length)
      with 2 show ?thesis by blast
    qed simp
  qed
next
  case False
  then show ?thesis using r
    by (auto simp: ingest_bug_def split: option.splits if_splits sum.splits served.splits)
qed

lemma capture_files_reports:
  assumes r: "ingest_capture low (\<lambda>s. s) req actor now s = ((st, r), s')"
  shows "(items s' = items s \<and> r = None) \<or> (\<exists>i. items s' = items s @ [i] \<and> r = Some i \<and> filed capture_types ''capture'' i)"
  using r
proof (cases rule: ingest_capture_cases)
  case (filing ty full body prio p tags)
  from filing(4) show ?thesis
  proof (cases rule: reply_created_cases)
    case (2 i u n rf)
    have "length (coalesce (capture_body full body) []) \<le> max_bug_message_len"
      using filing by (simp add: capture_body_def)
    then have "filed capture_types ''capture'' i"
      using filing(1) 2(4) by (simp add: filed_def new_item_def ingested_def severity_priority bug_title_length)
    with 2 show ?thesis by blast
  qed simp
qed simp


definition demo_report :: bug_report where
  "demo_report = \<lparr>br_site = ''a-1'', br_url = ''u'', br_message = ''m'', br_severity = [], br_meta = None\<rparr>"

definition demo_capture :: capture_req where
  "demo_capture = \<lparr>kr_project = ''a-1'', kr_type = [], kr_title = ''t'', kr_body = [], kr_priority = [], kr_tags = []\<rparr>"


text \<open>A report whose metadata is JSON null and that carries a URL or a severity makes the handler panic: null
  turns the map that was to receive these fields into a nil map, and the report is lost with the connection.
\<close>

theorem null_metadata_loses_report:
  assumes "br_meta rep = Some JNull" and "br_url rep \<noteq> [] \<or> br_severity rep \<noteq> []"
    and "br_site rep \<noteq> []" and "br_message rep \<noteq> []" and "length (br_message rep) \<le> 5000"
    and "find_slug (br_site rep) s = Inr p"
  shows "ingest_bug low rnd other (Some rep) actor now s = Panicked"
proof -
  have "build_bug_metadata rnd rep = Panicked"
    using assms(1,2) by (auto simp: build_bug_metadata_def meta_map_def set_field_def)
  with assms(3-) show ?thesis by (simp add: ingest_bug_def max_bug_message_len_def)
qed

lemma null_metadata_loses_report_witness:
  "ingest_bug (\<lambda>x. x) (\<lambda>x. x) (\<lambda>s. s) (Some (demo_report\<lparr>br_meta := Some JNull\<rparr>)) ''w'' 5 demo_db = Panicked"
proof (rule null_metadata_loses_report[where p = demo_project])
  show "find_slug (br_site (demo_report\<lparr>br_meta := Some JNull\<rparr>)) demo_db = Inr demo_project"
    by (simp add: find_slug_def demo_db_def demo_project_def demo_report_def)
qed (simp_all add: demo_report_def)

text \<open>
  Without a body, a capture keeps the whole of its title, in the title or in the body; with one, a
  title longer than 80 runes is cut and its end is stored nowhere.
\<close>

theorem capture_keeps_text:
  "kr_body r = [] \<Longrightarrow> bug_title (trim_space (kr_title r)) = trim_space (kr_title r)
     \<or> capture_body (trim_space (kr_title r)) (kr_body r) = Some (trim_space (kr_title r))"
  "kr_body r \<noteq> [] \<Longrightarrow> capture_body (trim_space (kr_title r)) (kr_body r) = Some (kr_body r)"
  by (simp_all add: capture_body_def)

subsection \<open>Guards\<close>

lemma route_guards: "list_all (\<lambda>(m, p, g). m = ''GET'' \<or> m = ''OPTIONS'' \<or> g = GScope scope_write
    \<or> g = GIngest \<and> p \<in> set [''/ingest/bug'', ''/ingest/attachments/{id}'', ''/ingest/capture'']
    \<or> g = GOpen \<and> p = ''/setup/complete'') routes"
  unfolding routes_def by simp

lemma middleware_refuses:
  assumes "authenticate hash r now s = (Inr i, s1)" and "\<not> has_scope i scope"
  shows "key_middleware hash scope h r now s = (Inl (403, ''key lacks scope: '' @ scope), s1)"
  using assms by (simp add: key_middleware_def)

text \<open>Of the requests that are not reads, the first-run setup aside, a key without the write scope reaches
  no handler, except that a key with the ingest scope reaches the three that file reports. What is refused
  changes nothing but the time the key was last used.
\<close>

theorem writes_need_write_scope:
  assumes "(m, p, g) \<in> set routes" and "m \<noteq> ''GET''" and "m \<noteq> ''OPTIONS''" and "p \<noteq> ''/setup/complete''"
    and "authenticate hash r now s = (Inr i, s1)" and "\<not> has_scope i scope_write"
  shows "(\<exists>e. guarded hash g allowed h r now s = (Inl e, s1)) \<or> (\<exists>e. guarded hash g allowed h r now s = (Inl e, s))
    \<or> has_scope i scope_ingest \<and> p \<in> set [''/ingest/bug'', ''/ingest/attachments/{id}'', ''/ingest/capture'']"
proof -
  have "g = GScope scope_write \<or> g = GIngest \<and> p \<in> set [''/ingest/bug'', ''/ingest/attachments/{id}'', ''/ingest/capture'']"
    using route_guards assms(1-4) unfolding list_all_iff by fastforce
  then show ?thesis
  proof
    assume "g = GScope scope_write"
    then show ?thesis using middleware_refuses[OF assms(5,6), of h] by (simp add: guarded_def)
  next
    assume g: "g = GIngest \<and> p \<in> set [''/ingest/bug'', ''/ingest/attachments/{id}'', ''/ingest/capture'']"
    show ?thesis
    proof (cases "has_scope i scope_ingest")
      case True
      with g show ?thesis by blast
    next
      case False
      then show ?thesis using g middleware_refuses[OF assms(5) False, of h] by (simp add: guarded_def)
    qed
  qed
qed

definition demo_reader :: api_key where
  "demo_reader = \<lparr>k_id = 3, k_name = ''r'', k_hash = ''k'', k_scopes = [scope_read], k_created_at = 0, k_last_used = Some 5,
     k_revoked = False, k_expires_at = None\<rparr>"

lemma writes_need_write_scope_witness:
  "\<exists>e. fst (guarded (\<lambda>x. x) (GScope scope_write) True (\<lambda>i s. ((), empty_db)) \<lparr>cr_header = ''k'', cr_query = []\<rparr> 5
     (demo_db\<lparr>api_keys := [demo_reader]\<rparr>)) = Inl e"
proof -
  let ?s = "demo_db\<lparr>api_keys := [demo_reader]\<rparr>"
  let ?i = "\<lparr>id_name = ''r'', id_scopes = [scope_read]\<rparr>"
  have a: "authenticate (\<lambda>x. x) \<lparr>cr_header = ''k'', cr_query = []\<rparr> 5 ?s = (Inr ?i, ?s)"
    by (simp add: authenticate_def presented_def get_api_key_by_hash_def demo_reader_def minute_def second_def)
  have r: "(''POST'', ''/items'', GScope scope_write) \<in> set routes" by (simp add: routes_def)
  have n: "\<not> has_scope ?i scope_write" "\<not> has_scope ?i scope_ingest"
    by (simp_all add: has_scope_def scope_read_def scope_write_def scope_ingest_def)
  from writes_need_write_scope[OF r _ _ _ a n(1), of True "\<lambda>i s. ((), empty_db)"] n(2) show ?thesis by auto
qed

end
