(* ===== verification/Api_Properties.thy ===== *)
theory Api_Properties
  imports Api_Ingest
begin

text \<open>
  What the item handlers answer: the badges of the listing agree with the links, and a limit is read modulo
  the width of a 32-bit integer.
\<close>

subsection \<open>Blocked badges\<close>

lemma in_blocking_edges:
  "(x, b, t, st) \<in> set (blocking_edges c s) \<longleftrightarrow> (\<exists>l \<in> set (item_links s). \<exists>d \<in> set (items s). \<exists>k \<in> set (items s).
     l_kind l = ''blocks'' \<and> l_to l = x \<and> l_from l = b \<and> i_id d = x \<and> c d \<and> live d
     \<and> i_id k = b \<and> live k \<and> open_status (i_status k) \<and> t = i_title k \<and> st = i_status k)"
  by (auto simp: blocking_edges_def split: if_splits)

lemma blocked_by_iff:
  assumes i: "i \<in> set (items s)" "live i"
  shows "blocked_by s (i_id i) \<noteq> [] \<longleftrightarrow> blocked s (i_id i)"
proof -
  have "blocked_by s (i_id i) \<noteq> [] \<longleftrightarrow> (\<exists>b t. (i_id i, b, t) \<in> set (list_open_blocking_edges s))"
    by (auto simp: blocked_by_def filter_empty_conv)
  also have "\<dots> \<longleftrightarrow> (\<exists>b t st. (i_id i, b, t, st) \<in> set (blocking_edges (\<lambda>_. True) s))"
    by (force simp: list_open_blocking_edges_def)
  also have "\<dots> \<longleftrightarrow> blocked s (i_id i)"
    unfolding in_blocking_edges blocked_def open_blocker_def has_row_iff using i by (auto; blast)
  finally show ?thesis .
qed

lemma listed_items: "i \<in> set (list_items_rows fts p s) \<Longrightarrow> i \<in> set (items s) \<and> live i"
  by (auto simp: list_items_rows_def limit_rows_def list_items_match_def dest!: in_set_takeD in_set_dropD)

lemma list_items_reply:
  assumes "list_items_handler e q s = (200, Some rows)"
  obtains p where "rows = map (\<lambda>i. (i, blocked_by s (i_id i))) (list_items_rows (ae_fts e) p s)"
  using assms by (auto simp: list_items_handler_def split: sum.splits if_splits)

text \<open>C3: The listing badges a card as blocked exactly when an open, live item blocks it, the condition under
  which the next-action ranking leaves it out; and it lists only items that are not deleted.
\<close>

theorem blocked_badges_exact:
  assumes "list_items_handler e q s = (200, Some rows)" and "(i, bs) \<in> set rows"
  shows "i \<in> set (items s) \<and> live i \<and> (bs \<noteq> [] \<longleftrightarrow> blocked s (i_id i))"
proof -
  obtain p where "rows = map (\<lambda>i. (i, blocked_by s (i_id i))) (list_items_rows (ae_fts e) p s)"
    using assms(1) by (rule list_items_reply)
  with assms(2) have "i \<in> set (list_items_rows (ae_fts e) p s)" "bs = blocked_by s (i_id i)" by auto
  then show ?thesis using listed_items[of i "ae_fts e" p s] blocked_by_iff[of i s] by simp
qed

subsection \<open>Limits\<close>

lemma atoi_dec: "0 \<le> n \<Longrightarrow> n < 2 ^ 63 \<Longrightarrow> atoi (dec_int n) = Some n"
proof -
  assume n: "0 \<le> n" "n < 2 ^ 63"
  have d: "dec_int n = dec_nat (nat n)" using n by (simp add: dec_int_def)
  obtain c cs where c: "dec_nat (nat n) = c # cs" by (cases "dec_nat (nat n)") auto
  have all: "list_all is_digit_char (dec_nat (nat n))" using dec_nat_digits by (auto simp: list_all_iff)
  have e: "atoi_digits (c # cs) = Some n" using all n(1) unfolding c[symmetric] by (simp add: atoi_digits_def)
  from all c have "is_digit_char c" by simp
  then have "c \<noteq> CHR ''-''" "c \<noteq> CHR ''+''" by auto
  then show ?thesis using n unfolding d c by (simp add: atoi_def e)
qed

lemma int32_range: "query_int32 q k = Inr (Some n) \<Longrightarrow> - (2 ^ 31) \<le> n \<and> n < 2 ^ 31"
  by (auto simp: query_int32_def to_int32_def split: if_splits option.splits)

lemma to_int32_wrap: "- (2 ^ 31) \<le> n \<Longrightarrow> n < 2 ^ 31 \<Longrightarrow> to_int32 (2 ^ 32 * k + n) = n"
proof -
  assume "- (2 ^ 31) \<le> n" "n < 2 ^ 31"
  then have "(n + 2 ^ 31) mod 2 ^ 32 = n + 2 ^ 31" by (intro mod_pos_pos_trivial) auto
  moreover have "2 ^ 32 * k + n + 2 ^ 31 = n + 2 ^ 31 + 2 ^ 32 * k" by simp
  ultimately show ?thesis unfolding to_int32_def by (metis mod_mult_self2 add_diff_cancel_right')
qed

lemma dec_int_nonempty: "0 \<le> n \<Longrightarrow> dec_int n \<noteq> []"
  by (simp add: dec_int_def)

lemma query_wraps:
  assumes "0 \<le> n" and "n < 2 ^ 31" and "q k = dec_int (2 ^ 32 + n)"
  shows "query_int32 q k = Inr (Some n)"
proof -
  have "atoi (dec_int (2 ^ 32 + n)) = Some (2 ^ 32 + n)" using assms(1,2) by (intro atoi_dec) auto
  moreover have "to_int32 (2 ^ 32 + n) = n" using to_int32_wrap[of n 1] assms by simp
  moreover have "dec_int (2 ^ 32 + n) \<noteq> []" using assms(1) by (intro dec_int_nonempty) simp
  ultimately show ?thesis using assms(3) by (simp add: query_int32_def)
qed

lemma query_plain:
  assumes "0 \<le> n" and "n < 2 ^ 31" and "q k = dec_int n"
  shows "query_int32 q k = Inr (Some n)"
proof -
  have "atoi (dec_int n) = Some n" using assms(1,2) by (intro atoi_dec) auto
  moreover have "to_int32 n = n" using to_int32_wrap[of n 0] assms by simp
  ultimately show ?thesis using assms(3) dec_int_nonempty[OF assms(1)] by (simp add: query_int32_def)
qed

text \<open>A limit beyond 32 bits is not refused: 4,294,967,296 plus n is taken for n, so a client that asks
  for very many rows can get few or, for 4,294,967,296 itself, none.
\<close>

theorem large_limit_wraps:
  assumes "0 \<le> n" and "n < 2 ^ 31" and "q ''limit'' = dec_int (2 ^ 32 + n)"
  shows "list_items_handler e q s = list_items_handler e (q(''limit'' := dec_int n)) s
    \<and> list_activity_handler e q s = list_activity_handler e (q(''limit'' := dec_int n)) s"
proof -
  have a: "query_int32 q ''limit'' = query_int32 (q(''limit'' := dec_int n)) ''limit''"
    using query_wraps[of n q "''limit''"] assms query_plain[of n "q(''limit'' := dec_int n)" "''limit''"] assms(1,2) by simp
  let ?q = "q(''limit'' := dec_int n)"
  have o: "?q ''project_id'' = q ''project_id''" "?q ''project'' = q ''project''" "?q ''updated_since'' = q ''updated_since''"
    "?q ''status'' = q ''status''" "?q ''type'' = q ''type''" "?q ''assignee'' = q ''assignee''" "?q ''tag'' = q ''tag''"
    "?q ''q'' = q ''q''" "?q ''item_id'' = q ''item_id''" "?q ''since'' = q ''since''" "?q ''kind'' = q ''kind''"
    by simp_all
  note d = project_filter_def query_uuid_def query_str_def query_time_def o
  have "list_items_handler e q s = list_items_handler e ?q s" unfolding list_items_handler_def a d ..
  moreover have "list_activity_handler e q s = list_activity_handler e ?q s" unfolding list_activity_handler_def a d ..
  ultimately show ?thesis ..
qed

definition demo_api :: api_env where
  "demo_api = \<lparr>ae_parse = (\<lambda>_. None), ae_time = (\<lambda>_. None), ae_lower = (\<lambda>x. x), ae_fts = (\<lambda>_ _. True)\<rparr>"

lemma demo_listing: "list_items_handler demo_api (\<lambda>_. []) demo_made = (200, Some [(demo_item, [])])"
proof -
  have "project_filter demo_api (\<lambda>_. []) demo_made = Inr None" by (simp add: project_filter_def query_uuid_def)
  moreover have "filter (list_items_match (ae_fts demo_api) \<lparr>lp_project = None, lp_status = None, lp_type = None, lp_assignee = None,
      lp_tag = None, lp_since = None, lp_q = None, lp_off = None, lp_lim = None\<rparr> demo_made) (items demo_made) = [demo_item]"
    unfolding demo_item_facts(1) by (simp add: list_items_match_def demo_item_facts) (code_simp)
  moreover have "blocked_by demo_made (i_id demo_item) = []" by code_simp
  ultimately show ?thesis
    by (simp add: list_items_handler_def query_time_def query_int32_def query_str_def limit_refused_def list_items_rows_def
        limit_rows_def)
qed

lemma blocked_badges_exact_witness: "demo_item \<in> set (items demo_made) \<and> \<not> blocked demo_made (i_id demo_item)"
  using blocked_badges_exact[OF demo_listing, of demo_item "[]"] by simp

lemma large_limit_wraps_witness:
  "list_items_handler demo_api ((\<lambda>_. [])(''limit'' := dec_int (2 ^ 32 + 0))) demo_made
     = list_items_handler demo_api ((\<lambda>_. [])(''limit'' := dec_int 0)) demo_made"
  using large_limit_wraps[of 0 "(\<lambda>_. [])(''limit'' := dec_int (2 ^ 32 + 0))" demo_api demo_made] by simp

end
