(* ===== verification/Dto.thy ===== *)
theory Dto
  imports Api_Properties
begin

text \<open>
  The JSON shapes of \<open>internal/dto/dto.go\<close> and the conversions of rows into them. Identifiers and times
  stay what they are in the rows; \<open>rnd\<close> is the rounding of the numbers inside decoded metadata. A search
  row is the item (or activity) it extends: its rank is not part of any shape.
\<close>

subsection \<open>Metadata and acceptance criteria\<close>

type_synonym meta_fields = "(string \<times> json) list"

definition to_meta :: "(json \<Rightarrow> json) \<Rightarrow> json \<Rightarrow> meta_fields option" where
  "to_meta rnd raw = (case raw of
     JObj kvs \<Rightarrow> (let m = json_fields (map (\<lambda>(k, v). (k, rnd v)) kvs) in if m = [] then None else Some m)
   | _ \<Rightarrow> None)"

record criterion =
  cr_text :: string
  cr_done :: bool

text \<open>A key names a field when it equals its name up to the case of ASCII letters; a null leaves a field as it
  is, and any other mismatch fails the whole list.\<close>

definition lower_ascii :: "char \<Rightarrow> char" where
  "lower_ascii c = (let n = of_char c :: nat in if 65 \<le> n \<and> n \<le> 90 then char_of (n + 32) else c)"

definition names_field :: "string \<Rightarrow> string \<Rightarrow> bool" where
  "names_field f k = (map lower_ascii k = f)"

fun decode_criterion_fields :: "(string \<times> json) list \<Rightarrow> criterion \<Rightarrow> criterion option" where
  "decode_criterion_fields [] c = Some c"
| "decode_criterion_fields ((k, v) # kvs) c =
     (if names_field ''text'' k
      then (case v of JStr t \<Rightarrow> decode_criterion_fields kvs (c\<lparr>cr_text := t\<rparr>)
            | JNull \<Rightarrow> decode_criterion_fields kvs c | _ \<Rightarrow> None)
      else if names_field ''done'' k
      then (case v of JBool b \<Rightarrow> decode_criterion_fields kvs (c\<lparr>cr_done := b\<rparr>)
            | JNull \<Rightarrow> decode_criterion_fields kvs c | _ \<Rightarrow> None)
      else decode_criterion_fields kvs c)"

definition decode_criterion :: "json \<Rightarrow> criterion option" where
  "decode_criterion v = (case v of
     JObj kvs \<Rightarrow> decode_criterion_fields kvs \<lparr>cr_text = [], cr_done = False\<rparr>
   | JNull \<Rightarrow> Some \<lparr>cr_text = [], cr_done = False\<rparr>
   | _ \<Rightarrow> None)"

text \<open>No checklist is the empty list.\<close>

definition to_criteria :: "json \<Rightarrow> criterion list \<times> nat" where
  "to_criteria raw = (case raw of
     JArr vs \<Rightarrow> (case those (map decode_criterion vs) of
                   None \<Rightarrow> ([], 0) | Some cs \<Rightarrow> (cs, length (filter (\<lambda>c. \<not> cr_done c) cs)))
   | _ \<Rightarrow> ([], 0))"

subsection \<open>Items\<close>

record item_dto =
  d_id :: uuid
  d_ref :: string
  d_project :: uuid
  d_type :: string
  d_title :: string
  d_body :: string
  d_status :: string
  d_priority :: string
  d_assignee :: "string option"
  d_position :: rat
  d_source :: string
  d_external_ref :: "string option"
  d_tags :: "string list"
  d_metadata :: "meta_fields option"
  d_created_at :: gtime
  d_updated_at :: gtime
  d_closed_at :: "gtime option"
  d_version :: int
  d_blocked :: bool
  d_blocked_by :: "string list"
  d_criteria :: "criterion list"
  d_unmet :: nat
  d_compact :: bool
  d_attachments :: "attachment list"

definition to_item_trunc :: "(json \<Rightarrow> json) \<Rightarrow> int \<Rightarrow> item \<Rightarrow> item_dto" where
  "to_item_trunc rnd n i = \<lparr>d_id = i_id i, d_ref = i_ref i, d_project = i_project i, d_type = i_type i,
     d_title = i_title i, d_body = trunc (i_body i) n, d_status = i_status i, d_priority = i_priority i,
     d_assignee = i_assignee i, d_position = i_position i, d_source = i_source i, d_external_ref = i_external_ref i,
     d_tags = i_tags i, d_metadata = to_meta rnd (i_metadata i), d_created_at = i_created_at i,
     d_updated_at = i_updated_at i, d_closed_at = i_closed_at i, d_version = i_version i,
     d_blocked = False, d_blocked_by = [], d_criteria = fst (to_criteria (i_criteria i)),
     d_unmet = snd (to_criteria (i_criteria i)), d_compact = False, d_attachments = []\<rparr>"

definition to_items_trunc :: "(json \<Rightarrow> json) \<Rightarrow> int \<Rightarrow> item list \<Rightarrow> item_dto list" where
  "to_items_trunc rnd n = map (to_item_trunc rnd n)"

definition compacted :: "item_dto \<Rightarrow> item_dto" where
  "compacted d = d\<lparr>d_compact := True\<rparr>"

text \<open>What is serialized: every field, or the lean shape of a compacted item.\<close>

record compact_item =
  ci_ref :: string
  ci_type :: string
  ci_title :: string
  ci_body :: string
  ci_status :: string
  ci_priority :: string
  ci_assignee :: "string option"
  ci_external_ref :: "string option"
  ci_tags :: "string list"
  ci_metadata :: "meta_fields option"
  ci_updated_at :: gtime
  ci_blocked :: bool
  ci_blocked_by :: "string list"
  ci_criteria :: "criterion list"
  ci_unmet :: nat

datatype item_json = FullItem item_dto | LeanItem compact_item

definition marshal_item :: "item_dto \<Rightarrow> item_json" where
  "marshal_item d = (if \<not> d_compact d then FullItem d else LeanItem \<lparr>ci_ref = d_ref d, ci_type = d_type d,
     ci_title = d_title d, ci_body = d_body d, ci_status = d_status d, ci_priority = d_priority d,
     ci_assignee = d_assignee d, ci_external_ref = d_external_ref d, ci_tags = d_tags d, ci_metadata = d_metadata d,
     ci_updated_at = d_updated_at d, ci_blocked = d_blocked d, ci_blocked_by = d_blocked_by d,
     ci_criteria = d_criteria d, ci_unmet = d_unmet d\<rparr>)"

record item_brief =
  ib_ref :: string
  ib_title :: string
  ib_status :: string
  ib_priority :: string
  ib_type :: string

definition to_item_brief :: "item_dto \<Rightarrow> item_brief" where
  "to_item_brief d = \<lparr>ib_ref = d_ref d, ib_title = d_title d, ib_status = d_status d, ib_priority = d_priority d,
     ib_type = d_type d\<rparr>"

text \<open>The rows of the four searches. Each conversion copies the columns it names into a fresh row, whose other
  columns are zero: the lexical one leaves out the version and the criteria, the fuzzy one the criteria.\<close>

definition to_search_item :: "(json \<Rightarrow> json) \<Rightarrow> int \<Rightarrow> item \<Rightarrow> item_dto" where
  "to_search_item rnd n i = to_item_trunc rnd n (i\<lparr>i_version := 0, i_criteria := JNull\<rparr>)"

definition to_semantic_item :: "(json \<Rightarrow> json) \<Rightarrow> int \<Rightarrow> item \<Rightarrow> item_dto" where
  "to_semantic_item rnd n i = to_item_trunc rnd n i"

definition to_any_item :: "(json \<Rightarrow> json) \<Rightarrow> int \<Rightarrow> item \<Rightarrow> item_dto" where
  "to_any_item rnd n i = to_item_trunc rnd n i"

definition to_fuzzy_item :: "(json \<Rightarrow> json) \<Rightarrow> int \<Rightarrow> item \<Rightarrow> item_dto" where
  "to_fuzzy_item rnd n i = to_item_trunc rnd n (i\<lparr>i_criteria := JNull\<rparr>)"

subsection \<open>Activity\<close>

record activity_dto =
  y_id :: uuid
  y_project :: uuid
  y_item :: "uuid option"
  y_kind :: string
  y_actor :: string
  y_body :: string
  y_confidence :: string
  y_metadata :: "meta_fields option"
  y_created_at :: gtime

definition to_activity :: "(json \<Rightarrow> json) \<Rightarrow> activity \<Rightarrow> activity_dto" where
  "to_activity rnd a = \<lparr>y_id = a_id a, y_project = a_project a, y_item = a_item a, y_kind = a_kind a,
     y_actor = a_actor a, y_body = a_body a,
     y_confidence = (if a_confidence a = ''unspecified'' then [] else a_confidence a),
     y_metadata = to_meta rnd (a_metadata a), y_created_at = a_created_at a\<rparr>"

definition to_activity_trunc :: "(json \<Rightarrow> json) \<Rightarrow> int \<Rightarrow> activity \<Rightarrow> activity_dto" where
  "to_activity_trunc rnd n a = (let v = to_activity rnd a in v\<lparr>y_body := trunc (y_body v) n\<rparr>)"

definition to_search_activity :: "(json \<Rightarrow> json) \<Rightarrow> int \<Rightarrow> activity \<Rightarrow> activity_dto" where
  "to_search_activity rnd n a = to_activity_trunc rnd n (a\<lparr>a_confidence := []\<rparr>)"

definition to_semantic_activity :: "(json \<Rightarrow> json) \<Rightarrow> int \<Rightarrow> activity \<Rightarrow> activity_dto" where
  "to_semantic_activity rnd n a = to_activity_trunc rnd n a"

subsection \<open>Projects\<close>

record project_dto =
  pd_id :: uuid
  pd_slug :: string
  pd_name :: string
  pd_status :: string
  pd_parent :: "string option"
  pd_summary :: string
  pd_instructions :: string
  pd_aliases :: "string list"
  pd_repo_url :: "string option"
  pd_site_url :: "string option"
  pd_created_at :: gtime
  pd_updated_at :: gtime

definition to_project :: "project \<Rightarrow> project_dto" where
  "to_project p = \<lparr>pd_id = p_id p, pd_slug = p_slug p, pd_name = p_name p, pd_status = p_status p,
     pd_parent = p_parent p, pd_summary = p_summary p, pd_instructions = p_instructions p, pd_aliases = p_aliases p,
     pd_repo_url = p_repo_url p, pd_site_url = p_site_url p, pd_created_at = p_created_at p,
     pd_updated_at = p_updated_at p\<rparr>"

record project_brief =
  pb_slug :: string
  pb_name :: string
  pb_status :: string
  pb_parent :: "string option"
  pb_aliases :: "string list"
  pb_summary :: string

text \<open>\<open>firstSentence\<close>: the text before the first newline, up to a full stop, exclamation or question mark
  that a blank follows.\<close>

definition ends_sentence :: "char \<Rightarrow> bool" where
  "ends_sentence c = (c = CHR ''.'' \<or> c = CHR ''!'' \<or> c = CHR ''?'')"

fun sentence :: "string \<Rightarrow> string" where
  "sentence (c # d # s) = (if ends_sentence c \<and> d = CHR '' '' then [c] else c # sentence (d # s))"
| "sentence s = s"

definition first_sentence :: "string \<Rightarrow> string" where
  "first_sentence s = sentence (takeWhile (\<lambda>c. c \<noteq> CHR 0x0A) (trim_space s))"

definition brief_summary_max :: int where "brief_summary_max = 200"

definition to_project_list_brief :: "project \<Rightarrow> project_brief" where
  "to_project_list_brief p = \<lparr>pb_slug = p_slug p, pb_name = p_name p, pb_status = p_status p, pb_parent = p_parent p,
     pb_aliases = p_aliases p, pb_summary = trunc (first_sentence (p_summary p)) brief_summary_max\<rparr>"

text \<open>A row of the listing of children: slug, name, status and summary.\<close>

definition to_project_brief :: "string \<times> string \<times> string \<times> string \<Rightarrow> project_brief" where
  "to_project_brief r = (case r of (slug, name, status, summary) \<Rightarrow> \<lparr>pb_slug = slug, pb_name = name, pb_status = status,
     pb_parent = None, pb_aliases = [], pb_summary = summary\<rparr>)"

subsection \<open>Items of several projects\<close>

text \<open>Rows that carry the slug of their project; like a lexical hit, such a row leaves out version and criteria.\<close>

type_synonym item_with_project = "item_dto \<times> string"

definition ready_row_to_item :: "(json \<Rightarrow> json) \<Rightarrow> item \<times> string \<Rightarrow> item_with_project" where
  "ready_row_to_item rnd r = (to_search_item rnd 0 (fst r), snd r)"

definition top_open_row_to_item :: "(json \<Rightarrow> json) \<Rightarrow> int \<Rightarrow> item \<Rightarrow> item_dto" where
  "top_open_row_to_item rnd n i = to_search_item rnd n i"

definition stale_in_progress_to_item :: "(json \<Rightarrow> json) \<Rightarrow> item \<times> string \<Rightarrow> item_with_project" where
  "stale_in_progress_to_item rnd r = (to_search_item rnd 0 (fst r), snd r)"

definition untriaged_bug_to_item :: "(json \<Rightarrow> json) \<Rightarrow> item \<times> string \<Rightarrow> item_with_project" where
  "untriaged_bug_to_item rnd r = (to_search_item rnd 0 (fst r), snd r)"

subsection \<open>Facts\<close>

lemmas dto_item_defs = to_item_trunc_def to_search_item_def to_semantic_item_def to_any_item_def to_fuzzy_item_def

lemma dto_item_fields [simp]:
  "d_id (to_item_trunc rnd n i) = i_id i" "d_project (to_item_trunc rnd n i) = i_project i"
  "d_type (to_item_trunc rnd n i) = i_type i" "d_ref (to_item_trunc rnd n i) = i_ref i"
  "d_version (to_item_trunc rnd n i) = i_version i"
  by (simp_all add: to_item_trunc_def)

lemma search_item_fields [simp]:
  "d_id (to_search_item rnd n i) = i_id i" "d_id (to_semantic_item rnd n i) = i_id i"
  "d_id (to_any_item rnd n i) = i_id i" "d_id (to_fuzzy_item rnd n i) = i_id i"
  by (simp_all add: dto_item_defs)

lemma search_activity_fields [simp]:
  "y_id (to_activity rnd a) = a_id a" "y_id (to_activity_trunc rnd n a) = a_id a"
  "y_id (to_search_activity rnd n a) = a_id a" "y_id (to_semantic_activity rnd n a) = a_id a"
  by (simp_all add: to_activity_def to_activity_trunc_def to_search_activity_def to_semantic_activity_def Let_def)

lemma sentence_prefix: "\<exists>r. s = sentence s @ r"
  by (induction s rule: sentence.induct) auto

end
