(* ===== verification/Fusion.thy ===== *)
theory Fusion
  imports Complex_Main
begin

text \<open>
  Reciprocal-rank fusion (\<open>rrfMerge\<close> of \<open>internal/service/service.go\<close>): ranked lists become one list in which
  a row scores the sum of \<open>1 / (60 + rank)\<close> over the lists it is in. The scores are rationals where the code
  has \<open>float64\<close>. The lemmas give the fusion in closed form and show when a row of two lss leads.
\<close>

subsection \<open>The algorithm\<close>

text \<open>The map of the code together with the order of insertion: an association list.\<close>

type_synonym ('k, 'a) scores = "('k \<times> 'a \<times> rat) list"

definition rank_weight :: "nat \<Rightarrow> rat" where
  "rank_weight r = 1 / of_nat (60 + r)"

fun rrf_add :: "'k \<Rightarrow> 'a \<Rightarrow> nat \<Rightarrow> ('k, 'a) scores \<Rightarrow> ('k, 'a) scores" where
  "rrf_add k v r [] = [(k, v, rank_weight r)]"
| "rrf_add k v r ((k', v', sc) # acc) =
     (if k' = k then (k', v', sc + rank_weight r) # acc else (k', v', sc) # rrf_add k v r acc)"

fun rrf_list :: "('a \<Rightarrow> 'k) \<Rightarrow> nat \<Rightarrow> 'a list \<Rightarrow> ('k, 'a) scores \<Rightarrow> ('k, 'a) scores" where
  "rrf_list key r [] acc = acc"
| "rrf_list key r (v # vs) acc = rrf_list key (r + 1) vs (rrf_add (key v) v r acc)"

definition rrf_scored :: "('a \<Rightarrow> 'k) \<Rightarrow> 'a list list \<Rightarrow> ('k, 'a) scores" where
  "rrf_scored key lss = fold (rrf_list key 0) lss []"

definition rrf_merge :: "('a \<Rightarrow> 'k) \<Rightarrow> 'a list list \<Rightarrow> 'a list" where
  "rrf_merge key lss = map (\<lambda>(_, v, _). v) (sort_key (\<lambda>(_, _, sc). - sc) (rrf_scored key lss))"

subsection \<open>In closed form\<close>

definition ranked :: "'a list list \<Rightarrow> ('a \<times> nat) list" where
  "ranked lss = concat (map (\<lambda>vs. zip vs [0..<length vs]) lss)"

definition rank_sum :: "('a \<Rightarrow> 'k) \<Rightarrow> ('a \<times> nat) list \<Rightarrow> 'k \<Rightarrow> rat" where
  "rank_sum key ps k = sum_list (map (\<lambda>(_, r). rank_weight r) (filter (\<lambda>(v, _). key v = k) ps))"

definition rrf_score :: "('a \<Rightarrow> 'k) \<Rightarrow> 'a list list \<Rightarrow> 'k \<Rightarrow> rat" where
  "rrf_score key lss k = rank_sum key (ranked lss) k"

text \<open>The first row of each key, in order.\<close>

definition keep_first :: "('a \<Rightarrow> 'k) \<Rightarrow> 'a list \<Rightarrow> 'a list" where
  "keep_first key vs = foldl (\<lambda>acc v. if key v \<in> key ` set acc then acc else acc @ [v]) [] vs"

lemma keep_first_snoc: "keep_first key (vs @ [v]) =
    (if key v \<in> key ` set (keep_first key vs) then keep_first key vs else keep_first key vs @ [v])"
  by (simp add: keep_first_def)

lemma keep_first_keys: "key ` set (keep_first key vs) = key ` set vs"
  by (induction vs rule: rev_induct) (auto simp: keep_first_snoc keep_first_def[of key "[]"])

lemma keep_first_sub: "set (keep_first key vs) \<subseteq> set vs"
  by (induction vs rule: rev_induct) (auto simp: keep_first_snoc keep_first_def[of key "[]"])

lemma keep_first_distinct: "distinct (map key (keep_first key vs))"
  by (induction vs rule: rev_induct) (auto simp: keep_first_snoc keep_first_def[of key "[]"])

lemma rrf_list_fold: "rrf_list key r vs acc = fold (\<lambda>(v, n). rrf_add (key v) v n) (zip vs [r..<r + length vs]) acc"
proof (induction vs arbitrary: r acc)
  case (Cons v vs)
  have "[r..<r + length (v # vs)] = r # [Suc r..<Suc r + length vs]" by (simp add: upt_rec[of r] Suc_le_eq)
  with Cons[of "Suc r"] show ?case by simp
qed simp

lemma rrf_scored_fold: "rrf_scored key lss = fold (\<lambda>(v, n). rrf_add (key v) v n) (ranked lss) []"
proof -
  have "fold (rrf_list key 0) lss acc = fold (\<lambda>(v, n). rrf_add (key v) v n) (ranked lss) acc" for acc
    by (induction lss arbitrary: acc) (simp_all add: ranked_def rrf_list_fold)
  then show ?thesis by (simp add: rrf_scored_def)
qed

lemma rrf_add_new: "k \<notin> fst ` set acc \<Longrightarrow> rrf_add k v r acc = acc @ [(k, v, rank_weight r)]"
  by (induction acc) auto

lemma rrf_add_old: "k \<in> fst ` set acc \<Longrightarrow> distinct (map fst acc) \<Longrightarrow>
    rrf_add k v r acc = map (\<lambda>(k', v', sc). (k', v', if k' = k then sc + rank_weight r else sc)) acc"
proof (induction acc)
  case (Cons e acc)
  obtain k' v' sc where e: "e = (k', v', sc)" by (cases e)
  show ?case
  proof (cases "k' = k")
    case True
    then have "k \<notin> fst ` set acc" using Cons.prems(2) e by auto
    then have "map (\<lambda>(k', v', sc). (k', v', if k' = k then sc + rank_weight r else sc)) acc = acc"
      by (intro map_idI) force
    with True e show ?thesis by simp
  qed (use Cons e in auto)
qed simp

definition closed_scores :: "('a \<Rightarrow> 'k) \<Rightarrow> ('a \<times> nat) list \<Rightarrow> ('k, 'a) scores" where
  "closed_scores key ps = map (\<lambda>v. (key v, v, rank_sum key ps (key v))) (keep_first key (map fst ps))"

lemma rank_sum_snoc: "rank_sum key (ps @ [(v, r)]) k = rank_sum key ps k + (if key v = k then rank_weight r else 0)"
  by (simp add: rank_sum_def)

lemma rank_sum_absent: "k \<notin> key ` fst ` set ps \<Longrightarrow> rank_sum key ps k = 0"
proof -
  assume "k \<notin> key ` fst ` set ps"
  then have "filter (\<lambda>(v, _). key v = k) ps = []" by (force simp: filter_empty_conv)
  then show ?thesis by (simp add: rank_sum_def)
qed

lemma closed_keys: "fst ` set (closed_scores key ps) = key ` fst ` set ps"
proof -
  have "fst ` set (closed_scores key ps) = key ` set (keep_first key (map fst ps))"
    by (simp add: closed_scores_def image_image)
  then show ?thesis by (simp add: keep_first_keys)
qed

lemma closed_step: "rrf_add (key v) v r (closed_scores key ps) = closed_scores key (ps @ [(v, r)])"
proof (cases "key v \<in> key ` fst ` set ps")
  case True
  have d: "distinct (map fst (closed_scores key ps))"
    using keep_first_distinct[of key "map fst ps"] by (simp add: closed_scores_def comp_def)
  have "key v \<in> key ` set (keep_first key (map fst ps))" using True by (simp add: keep_first_keys)
  then have kf: "keep_first key (map fst (ps @ [(v, r)])) = keep_first key (map fst ps)"
    by (simp add: keep_first_snoc)
  have a: "rrf_add (key v) v r (closed_scores key ps)
      = map (\<lambda>(k', v', sc). (k', v', if k' = key v then sc + rank_weight r else sc)) (closed_scores key ps)"
    by (rule rrf_add_old) (use True d in \<open>simp_all add: closed_keys\<close>)
  show ?thesis unfolding a unfolding closed_scores_def kf by (auto simp: rank_sum_snoc)
next
  case False
  then have kf: "keep_first key (map fst (ps @ [(v, r)])) = keep_first key (map fst ps) @ [v]"
    using keep_first_keys[of key "map fst ps"] by (simp add: keep_first_snoc)
  have n: "key w \<noteq> key v" if "w \<in> set (keep_first key (map fst ps))" for w
    using False that unfolding keep_first_keys[of key "map fst ps", simplified, symmetric] by (metis image_eqI)
  have "rrf_add (key v) v r (closed_scores key ps) = closed_scores key ps @ [(key v, v, rank_weight r)]"
    by (rule rrf_add_new) (use False in \<open>simp add: closed_keys\<close>)
  also have "\<dots> = closed_scores key (ps @ [(v, r)])"
  proof -
    have "map (\<lambda>w. (key w, w, rank_sum key ps (key w))) (keep_first key (map fst ps))
        = map (\<lambda>w. (key w, w, rank_sum key (ps @ [(v, r)]) (key w))) (keep_first key (map fst ps))"
      using n by (auto simp: rank_sum_snoc dest: n[THEN not_sym])
    then show ?thesis unfolding closed_scores_def kf by (simp add: rank_sum_snoc rank_sum_absent[OF False])
  qed
  finally show ?thesis .
qed

lemma rrf_scored_closed: "rrf_scored key lss = closed_scores key (ranked lss)"
proof -
  have "fold (\<lambda>(v, n). rrf_add (key v) v n) ps [] = closed_scores key ps" for ps
    by (induction ps rule: rev_induct) (simp add: closed_scores_def keep_first_def, clarsimp simp: closed_step)
  then show ?thesis by (simp add: rrf_scored_fold)
qed

lemma fst_ranked: "map fst (ranked lss) = concat lss"
  by (simp add: ranked_def map_concat comp_def)

lemma sort_key_map: "sort_key f (map g xs) = map g (sort_key (f \<circ> g) xs)"
proof -
  have "insort_key f (g x) (map g ys) = map g (insort_key (f \<circ> g) x ys)" for x ys
    by (induction ys) simp_all
  then show ?thesis by (induction xs) simp_all
qed

lemma rrf_merge_closed:
  "rrf_merge key lss = sort_key (\<lambda>v. - rrf_score key lss (key v)) (keep_first key (concat lss))"
  unfolding rrf_merge_def rrf_scored_closed closed_scores_def sort_key_map fst_ranked
  by (simp add: comp_def rrf_score_def)

lemma rrf_merge_set: "set (rrf_merge key lss) = set (keep_first key (concat lss))"
  by (simp add: rrf_merge_closed)

lemma rrf_merge_sub: "v \<in> set (rrf_merge key lss) \<Longrightarrow> \<exists>vs \<in> set lss. v \<in> set vs"
  using keep_first_sub[of key "concat lss"] by (auto simp: rrf_merge_set)

lemma rrf_merge_keys: "key ` set (rrf_merge key lss) = key ` (\<Union>vs \<in> set lss. set vs)"
  by (simp add: rrf_merge_set keep_first_keys)

lemma rrf_merge_Nil: "rrf_merge key lss = [] \<longleftrightarrow> (\<forall>vs \<in> set lss. vs = [])"
  using rrf_merge_keys[of key lss] by (auto simp flip: set_empty)

lemma rrf_merge_distinct: "distinct (map key (rrf_merge key lss))"
  using keep_first_distinct[of key "concat lss"]
  by (simp add: rrf_merge_closed distinct_map)


subsection \<open>Rows of several lists\<close>

lemma rank_weight_pos [simp]: "0 < rank_weight r"
  by (simp add: rank_weight_def)

lemma rank_weight_le: "rank_weight r \<le> rank_weight 0"
  by (simp add: rank_weight_def field_simps)

lemma rank_weight_half: "r < 60 \<Longrightarrow> rank_weight 0 < 2 * rank_weight r"
proof -
  assume "r < 60"
  then have "(of_nat (60 + r) :: rat) < of_nat 120" by (simp only: of_nat_less_iff)
  then have "(of_nat (60 + r) :: rat) < 120" by simp
  then show ?thesis by (simp add: rank_weight_def field_simps)
qed

lemma rrf_score_sum: "rrf_score key lss k = sum_list (map (\<lambda>vs. rank_sum key (zip vs [0..<length vs]) k) lss)"
  by (induction lss) (simp_all add: rrf_score_def ranked_def rank_sum_def)

lemma rank_sum_nonneg: "0 \<le> rank_sum key ps k"
  unfolding rank_sum_def by (rule sum_list_nonneg) (auto intro: less_imp_le)

lemma rank_sum_member:
  assumes "(v, r) \<in> set ps" and "key v = k"
  shows "rank_weight r \<le> rank_sum key ps k"
  using assms
proof (induction ps)
  case (Cons p ps)
  obtain w n where p: "p = (w, n)" by (cases p)
  have "rank_sum key (p # ps) k = (if key w = k then rank_weight n else 0) + rank_sum key ps k"
    by (simp add: p rank_sum_def)
  then show ?case using Cons p rank_sum_nonneg[of key ps k] rank_weight_pos[of n] by (auto simp: less_imp_le add_increasing)
qed simp

lemma rank_sum_in:
  assumes "v \<in> set vs" and "length vs \<le> 60"
  shows "rank_weight 0 < 2 * rank_sum key (zip vs [0..<length vs]) (key v)"
proof -
  obtain r where r: "r < length vs" "vs ! r = v" using assms(1) by (auto simp: in_set_conv_nth)
  then have "(v, r) \<in> set (zip vs [0..<length vs])" by (force simp: set_zip)
  then have "rank_weight r \<le> rank_sum key (zip vs [0..<length vs]) (key v)" by (rule rank_sum_member) simp
  with rank_weight_half[of r] r assms(2) show ?thesis by linarith
qed

lemma rank_sum_once:
  assumes "distinct (map key vs)"
  shows "rank_sum key (zip vs [a..<a + length vs]) k \<le> rank_weight 0"
  using assms
proof (induction vs arbitrary: a)
  case Nil
  then show ?case by (simp add: rank_sum_def less_imp_le)
next
  case (Cons v vs)
  have u: "[a..<a + length (v # vs)] = a # [Suc a..<Suc a + length vs]" by (simp add: upt_rec[of a] Suc_le_eq)
  have st: "rank_sum key (zip (v # vs) [a..<a + length (v # vs)]) k
      = (if key v = k then rank_weight a else 0) + rank_sum key (zip vs [Suc a..<Suc a + length vs]) k"
    unfolding u by (simp add: rank_sum_def)
  show ?case
  proof (cases "key v = k")
    case True
    then have "k \<notin> key ` fst ` set (zip vs [Suc a..<Suc a + length vs])"
      using Cons.prems by (auto dest: set_zip_leftD)
    then show ?thesis using st True rank_weight_le by (simp add: rank_sum_absent)
  next
    case False
    have "distinct (map key vs)" using Cons.prems by simp
    from Cons.IH[OF this, of "Suc a"] show ?thesis using False unfolding st by simp
  qed
qed

text \<open>When no list repeats a key or is longer than 60, a row of at least two lss scores more than any row of
  one.\<close>

lemma sum_two: "i < length xs \<Longrightarrow> j < length xs \<Longrightarrow> i \<noteq> j \<Longrightarrow> \<forall>x \<in> set xs. (0 :: rat) \<le> x \<Longrightarrow> xs ! i + xs ! j \<le> sum_list xs"
proof (induction xs arbitrary: i j)
  case (Cons x xs)
  have le: "xs ! n \<le> sum_list xs" if "n < length xs" for n
    using that Cons.prems(4) by (intro member_le_sum_list) auto
  show ?case
  proof (cases i)
    case 0
    then obtain j' where "j = Suc j'" "j' < length xs" using Cons.prems by (cases j) auto
    then show ?thesis using 0 le by simp
  next
    case (Suc i')
    then show ?thesis
    proof (cases j)
      case 0
      then show ?thesis using Suc le Cons.prems by (simp add: add.commute)
    next
      case (Suc j')
      then show ?thesis using \<open>i = Suc i'\<close> Cons.IH[of i' j'] Cons.prems by (simp add: add_increasing)
    qed
  qed
qed simp

lemma score_two:
  assumes "i < length lss" "j < length lss" "i \<noteq> j" "\<forall>vs \<in> set lss. length vs \<le> 60"
    and "k \<in> key ` set (lss ! i)" "k \<in> key ` set (lss ! j)"
  shows "rank_weight 0 < rrf_score key lss k"
proof -
  let ?f = "\<lambda>vs. rank_sum key (zip vs [0..<length vs]) k"
  have "?f (lss ! i) + ?f (lss ! j) \<le> sum_list (map ?f lss)"
    using sum_two[of i "map ?f lss" j] assms(1-3) by (simp add: rank_sum_nonneg)
  moreover have "rank_weight 0 < 2 * ?f (lss ! n)" if "n < length lss" "k \<in> key ` set (lss ! n)" for n
    using that rank_sum_in[of _ "lss ! n" key] assms(4) by auto
  then have "rank_weight 0 < 2 * ?f (lss ! i)" "rank_weight 0 < 2 * ?f (lss ! j)" using assms by auto
  ultimately show ?thesis unfolding rrf_score_sum by linarith
qed

lemma score_one:
  assumes "\<forall>vs \<in> set lss. distinct (map key vs)"
    and "\<And>i j. i < length lss \<Longrightarrow> j < length lss \<Longrightarrow> k \<in> key ` set (lss ! i) \<Longrightarrow> k \<in> key ` set (lss ! j) \<Longrightarrow> i = j"
  shows "rrf_score key lss k \<le> rank_weight 0"
  using assms
proof (induction lss)
  case Nil
  then show ?case by (simp add: rrf_score_sum less_imp_le)
next
  case (Cons vs lss)
  have e: "rrf_score key (vs # lss) k = rank_sum key (zip vs [0..<length vs]) k + rrf_score key lss k"
    by (simp add: rrf_score_sum)
  show ?case
  proof (cases "k \<in> key ` set vs")
    case True
    have "k \<notin> key ` set (lss ! j)" if "j < length lss" for j
      using Cons.prems(2)[of 0 "Suc j"] True that by auto
    then have "k \<notin> key ` set (concat lss)" by (auto simp: in_set_conv_nth) (metis image_eqI nth_mem)
    then have "k \<notin> key ` fst ` set (ranked lss)" unfolding fst_ranked[of lss, symmetric] by simp
    then have "rrf_score key lss k = 0" by (simp add: rrf_score_def rank_sum_absent)
    then show ?thesis using e rank_sum_once[of key vs 0 k] Cons.prems(1) by simp
  next
    case False
    then have "rank_sum key (zip vs [0..<length vs]) k = 0"
      by (intro rank_sum_absent) (auto dest: set_zip_leftD)
    moreover have "rrf_score key lss k \<le> rank_weight 0"
    proof (rule Cons.IH)
      show "\<forall>vs \<in> set lss. distinct (map key vs)" using Cons.prems(1) by simp
      show "i = j" if "i < length lss" "j < length lss" "k \<in> key ` set (lss ! i)" "k \<in> key ` set (lss ! j)" for i j
        using Cons.prems(2)[of "Suc i" "Suc j"] that by simp
    qed
    ultimately show ?thesis using e by simp
  qed
qed

lemma sorted_before:
  assumes "v \<in> set xs" "w \<in> set xs" "f v < (f w :: 'b :: linorder)"
  shows "\<exists>i j. i < j \<and> j < length xs \<and> sort_key f xs ! i = v \<and> sort_key f xs ! j = w"
proof -
  have "v \<in> set (sort_key f xs)" "w \<in> set (sort_key f xs)" using assms by simp_all
  then obtain i j where i: "i < length xs" "sort_key f xs ! i = v" and j: "j < length xs" "sort_key f xs ! j = w"
    by (metis in_set_conv_nth length_sort)
  have "i < j"
  proof (rule ccontr)
    assume "\<not> i < j"
    then have "map f (sort_key f xs) ! j \<le> map f (sort_key f xs) ! i"
      using i by (intro sorted_nth_mono) auto
    then show False using i j assms(3) by simp
  qed
  with i j show ?thesis by blast
qed

lemma fused_leads:
  assumes "\<forall>vs \<in> set lss. distinct (map key vs) \<and> length vs \<le> 60"
    and "v \<in> set (rrf_merge key lss)" "w \<in> set (rrf_merge key lss)"
    and "i < length lss" "j < length lss" "i \<noteq> j" "key v \<in> key ` set (lss ! i)" "key v \<in> key ` set (lss ! j)"
    and "\<And>i j. i < length lss \<Longrightarrow> j < length lss \<Longrightarrow> key w \<in> key ` set (lss ! i) \<Longrightarrow> key w \<in> key ` set (lss ! j) \<Longrightarrow> i = j"
  shows "\<exists>a b. a < b \<and> b < length (rrf_merge key lss) \<and> rrf_merge key lss ! a = v \<and> rrf_merge key lss ! b = w"
proof -
  have "rank_weight 0 < rrf_score key lss (key v)"
    by (rule score_two[OF assms(4-6) _ assms(7,8)]) (use assms(1) in simp)
  moreover have "rrf_score key lss (key w) \<le> rank_weight 0"
    by (rule score_one) (use assms(1) in simp, rule assms(9))
  ultimately have "- rrf_score key lss (key v) < - rrf_score key lss (key w)" by simp
  from sorted_before[of v "keep_first key (concat lss)" w, OF _ _ this] show ?thesis
    using assms(2,3) by (simp add: rrf_merge_closed)
qed

end
