(* ===== verification/Search.thy ===== *)
theory Search
  imports Dto Fusion
begin

text \<open>
  Search (\<open>SearchSmart\<close> and its helpers in \<open>internal/service/service.go\<close>, the statements of
  \<open>items_search.sql.go\<close>, \<open>items_semantic.sql.go\<close> and \<open>activity_semantic.sql.go\<close>, the handler of
  \<open>api/search.go\<close>). Full-text matching and ranking, trigram similarity and vector distance belong to
  PostgreSQL and are arguments, as are the outcome of embedding the query and which statements fail.
\<close>

subsection \<open>Statements\<close>

record search_env =
  se_fts :: "string \<Rightarrow> item \<Rightarrow> bool"
  se_rank :: "string \<Rightarrow> item \<Rightarrow> rat"
  se_lexemes :: "string \<Rightarrow> string list"
  se_has :: "string \<Rightarrow> item \<Rightarrow> bool"
  se_any_rank :: "string \<Rightarrow> item \<Rightarrow> rat"
  se_fuzzy :: "string \<Rightarrow> item \<Rightarrow> bool"
  se_sim :: "string \<Rightarrow> item \<Rightarrow> rat"
  se_dist :: "rat list \<Rightarrow> rat list \<Rightarrow> rat"
  se_act_fts :: "string \<Rightarrow> activity \<Rightarrow> bool"
  se_act_rank :: "string \<Rightarrow> activity \<Rightarrow> rat"
  se_round :: "json \<Rightarrow> json"

record search_params =
  sp_q :: string
  sp_project :: "uuid option"
  sp_type :: "string option"
  sp_lim :: "int option"

text \<open>What every item search requires of a row.\<close>

definition in_scope :: "search_params \<Rightarrow> item \<Rightarrow> bool" where
  "in_scope p i = (live i \<and> null_match (sp_project p) (i_project i) \<and> null_match (sp_type p) (i_type i))"

definition count_query_lexemes :: "search_env \<Rightarrow> string \<Rightarrow> nat" where
  "count_query_lexemes e q = length (remdups (se_lexemes e q))"

definition search_items :: "search_env \<Rightarrow> search_params \<Rightarrow> db \<Rightarrow> item list" where
  "search_items e p s = limit_rows (sp_lim p) 50 (sort_key (\<lambda>i. - se_rank e (sp_q p) i)
     (filter (\<lambda>i. in_scope p i \<and> se_fts e (sp_q p) i) (items s)))"

definition matched :: "search_env \<Rightarrow> string \<Rightarrow> item \<Rightarrow> nat" where
  "matched e q i = length (filter (\<lambda>l. se_has e l i) (remdups (se_lexemes e q)))"

definition coverage :: "search_env \<Rightarrow> string \<Rightarrow> item \<Rightarrow> rat" where
  "coverage e q i = of_nat (matched e q i) / of_nat (count_query_lexemes e q)"

definition search_items_any :: "search_env \<Rightarrow> search_params \<Rightarrow> nat \<Rightarrow> rat \<Rightarrow> db \<Rightarrow> item list" where
  "search_items_any e p min_matched min_coverage s = limit_rows (sp_lim p) 50
     (sort_key (\<lambda>i. - coverage e (sp_q p) i) (sort_key (\<lambda>i. - se_any_rank e (sp_q p) i)
       (filter (\<lambda>i. in_scope p i \<and> 0 < matched e (sp_q p) i \<and> 2 \<le> count_query_lexemes e (sp_q p)
          \<and> min_matched \<le> matched e (sp_q p) i \<and> min_coverage \<le> coverage e (sp_q p) i) (items s))))"

definition search_items_fuzzy :: "search_env \<Rightarrow> search_params \<Rightarrow> db \<Rightarrow> item list" where
  "search_items_fuzzy e p s = limit_rows (sp_lim p) 25 (sort_key (\<lambda>i. - se_sim e (sp_q p) i)
     (filter (\<lambda>i. in_scope p i \<and> se_fuzzy e (sp_q p) i) (items s)))"

definition item_distance :: "search_env \<Rightarrow> rat list \<Rightarrow> item \<Rightarrow> rat option" where
  "item_distance e v i = map_option (\<lambda>w. se_dist e w v) (i_embedding i)"

definition best_item_semantic_distance :: "search_env \<Rightarrow> search_params \<Rightarrow> rat list \<Rightarrow> db \<Rightarrow> rat" where
  "best_item_semantic_distance e p v s =
     (case map (the \<circ> item_distance e v) (filter (\<lambda>i. in_scope p i \<and> i_embedding i \<noteq> None) (items s)) of
        [] \<Rightarrow> 2 | d # ds \<Rightarrow> fold min ds d)"

definition nearer :: "rat \<Rightarrow> rat option \<Rightarrow> bool" where
  "nearer m d = (case d of None \<Rightarrow> False | Some x \<Rightarrow> x < m)"

definition search_items_semantic :: "search_env \<Rightarrow> search_params \<Rightarrow> rat list \<Rightarrow> rat \<Rightarrow> db \<Rightarrow> item list" where
  "search_items_semantic e p v max_distance s = limit_rows (sp_lim p) 25
     (sort_key (the \<circ> item_distance e v)
       (filter (\<lambda>i. in_scope p i \<and> nearer max_distance (item_distance e v i)) (items s)))"

definition search_activity :: "search_env \<Rightarrow> search_params \<Rightarrow> db \<Rightarrow> activity list" where
  "search_activity e p s = take 50 (sort_key (\<lambda>a. - se_act_rank e (sp_q p) a)
     (filter (\<lambda>a. se_act_fts e (sp_q p) a \<and> null_match (sp_project p) (a_project a)) (activities s)))"

definition activity_distance :: "search_env \<Rightarrow> rat list \<Rightarrow> db \<Rightarrow> activity \<Rightarrow> rat option" where
  "activity_distance e v s a = (case row_find (\<lambda>x. ae_activity x = a_id a) (act_embeddings s) of
     Inl _ \<Rightarrow> None | Inr x \<Rightarrow> map_option (\<lambda>w. se_dist e w v) (ae_vector x))"

definition search_activity_semantic :: "search_env \<Rightarrow> search_params \<Rightarrow> rat list \<Rightarrow> rat \<Rightarrow> db \<Rightarrow> activity list" where
  "search_activity_semantic e p v max_distance s = take 25 (sort_key (the \<circ> activity_distance e v s)
     (filter (\<lambda>a. null_match (sp_project p) (a_project a) \<and> nearer max_distance (activity_distance e v s a)) (activities s)))"

subsection \<open>When to embed the query\<close>

definition min_semantic_query_len :: nat where "min_semantic_query_len = 3"
definition lazy_semantic_min_fts :: nat where "lazy_semantic_min_fts = 5"

definition want_semantic :: "bool \<Rightarrow> string \<Rightarrow> nat \<Rightarrow> bool" where
  "want_semantic enabled q fts_hits = (if \<not> enabled then False
     else if rune_count (trim_space q) < min_semantic_query_len then False else fts_hits < lazy_semantic_min_fts)"

text \<open>The vector in the cache, or the answer of the embedding service; the flag says whether the cache had it.\<close>

definition embed_query :: "rat list option \<Rightarrow> rat list list option \<Rightarrow> rat list option \<times> bool" where
  "embed_query cached live_reply = (case cached of
     Some v \<Rightarrow> (Some v, True)
   | None \<Rightarrow> (case live_reply of Some [v] \<Rightarrow> (Some v, False) | _ \<Rightarrow> (None, False)))"

subsection \<open>Merging the tiers\<close>

record tier_hits =
  th_fts :: nat
  th_any :: nat
  th_semantic :: nat
  th_trigram :: nat
  th_best :: "rat option"

text \<open>Which statements fail. The failures of the optional tiers are only logged.\<close>

record search_faults =
  sf_search :: bool
  sf_lexemes :: bool
  sf_any :: bool
  sf_best :: bool
  sf_semantic :: bool
  sf_fuzzy :: bool
  sf_act_semantic :: bool

definition fts_any_min_fts :: nat where "fts_any_min_fts = 5"
definition fts_any_min_coverage :: rat where "fts_any_min_coverage = 1 / 2"
definition trigram_max_tokens :: nat where "trigram_max_tokens = 2"
definition semantic_max_distance :: rat where "semantic_max_distance = 6 / 10"

definition cap_len :: "'a list \<Rightarrow> int option \<Rightarrow> 'a list" where
  "cap_len xs n = (let m = (case n of None \<Rightarrow> 25 | Some k \<Rightarrow> if 0 < k then nat k else 25)
     in if m < length xs then take m xs else xs)"

text \<open>\<open>len(strings.Fields(q))\<close>: the number of maximal runs of runes that are not white space.\<close>

fun count_words :: "bool \<Rightarrow> string list \<Rightarrow> nat" where
  "count_words inside [] = 0"
| "count_words inside (r # rs) = (if r \<in> set space_runes then count_words False rs
     else (if inside then 0 else 1) + count_words True rs)"

definition count_fields :: "string \<Rightarrow> nat" where
  "count_fields q = count_words False (runes q)"

text \<open>The any-term tier: rows of most of the lexemes, when exact matches are few.\<close>

definition any_tier :: "search_env \<Rightarrow> search_faults \<Rightarrow> search_params \<Rightarrow> item list \<Rightarrow> db \<Rightarrow> item list" where
  "any_tier e f p fts s =
     (if length fts < fts_any_min_fts \<and> \<not> sf_lexemes f \<and> 2 \<le> count_query_lexemes e (sp_q p) \<and> \<not> sf_any f
      then search_items_any e p (if 3 \<le> count_query_lexemes e (sp_q p) then 2 else 1) fts_any_min_coverage s
      else [])"

definition semantic_tier :: "search_env \<Rightarrow> search_faults \<Rightarrow> search_params \<Rightarrow> rat list option \<Rightarrow> db \<Rightarrow> item list" where
  "semantic_tier e f p qvec s = (case qvec of None \<Rightarrow> []
     | Some v \<Rightarrow> if sf_semantic f then [] else search_items_semantic e p v semantic_max_distance s)"

definition finalize_items :: "search_env \<Rightarrow> search_faults \<Rightarrow> search_params \<Rightarrow> item list \<Rightarrow> rat list option \<Rightarrow> int \<Rightarrow> db
    \<Rightarrow> error + (item_dto list \<times> tier_hits)" where
  "finalize_items e f p fts qvec item_max s =
     (let any_rows = any_tier e f p fts s;
          sem = semantic_tier e f p qvec s;
          tiers = \<lparr>th_fts = length fts,
            th_any = length (filter (\<lambda>i. i_id i \<notin> i_id ` set fts) any_rows),
            th_semantic = length sem, th_trigram = 0,
            th_best = (case qvec of None \<Rightarrow> None
              | Some v \<Rightarrow> if sf_best f then None else Some (best_item_semantic_distance e p v s))\<rparr>;
          merged = rrf_merge d_id [map (to_search_item (se_round e) item_max) fts,
            map (to_any_item (se_round e) item_max) any_rows, map (to_semantic_item (se_round e) item_max) sem]
      in if merged \<noteq> [] then Inr (cap_len merged (sp_lim p), tiers)
         else if trigram_max_tokens < count_fields (sp_q p) then Inr ([], tiers)
         else if sf_fuzzy f then Inl (ErrText ''fuzzy search failed'')
         else (let fz = search_items_fuzzy e p s
               in Inr (map (to_fuzzy_item (se_round e) item_max) fz, tiers\<lparr>th_trigram := length fz\<rparr>)))"

definition finalize_activity :: "search_env \<Rightarrow> search_faults \<Rightarrow> search_params \<Rightarrow> activity list \<Rightarrow> rat list option \<Rightarrow> int \<Rightarrow> db
    \<Rightarrow> activity_dto list" where
  "finalize_activity e f p fts qvec act_max s =
     rrf_merge y_id [map (to_search_activity (se_round e) act_max) fts,
       (case qvec of None \<Rightarrow> []
        | Some v \<Rightarrow> if sf_act_semantic f then []
                   else map (to_semantic_activity (se_round e) act_max) (search_activity_semantic e p v semantic_max_distance s))]"

text \<open>The outcome of \<open>embedQuery\<close>: whether embedding is configured, the cached vector and the live answer.\<close>

record embedding =
  em_enabled :: bool
  em_cached :: "rat list option"
  em_live :: "rat list list option"

definition search_smart :: "search_env \<Rightarrow> search_faults \<Rightarrow> embedding \<Rightarrow> search_params \<Rightarrow> int \<Rightarrow> int \<Rightarrow> db
    \<Rightarrow> error + (item_dto list \<times> activity_dto list \<times> tier_hits)" where
  "search_smart e f em p item_max act_max s =
     (if sf_search f \<or> limit_refused (sp_lim p) then Inl (ErrText ''search failed'')
      else (let item_fts = search_items e p s;
                act_fts = search_activity e p s;
                qvec = (if want_semantic (em_enabled em) (sp_q p) (length item_fts)
                        then fst (embed_query (em_cached em) (em_live em)) else None)
            in (case finalize_items e f p item_fts qvec item_max s of
                  Inl er \<Rightarrow> Inl er
                | Inr (found, tiers) \<Rightarrow> Inr (found, finalize_activity e f p act_fts qvec act_max s, tiers))))"

subsection \<open>The handler\<close>

text \<open>The row a search leaves in the log; the write is best-effort.\<close>

definition insert_search_log :: "search_entry \<Rightarrow> unit dbtx" where
  "insert_search_log r s = Inr ((), s\<lparr>search_logs := search_logs s @ [r\<lparr>sl_searched_at := db_now s\<rparr>]\<rparr>)"

definition log_search :: "string \<Rightarrow> string \<Rightarrow> tier_hits \<Rightarrow> nat \<Rightarrow> nat \<Rightarrow> string \<Rightarrow> gtime \<Rightarrow> db \<Rightarrow> db" where
  "log_search actor q t act_n returned session now s =
     snd (with_tx now (insert_search_log \<lparr>sl_searched_at = now, sl_actor = actor, sl_query = q,
        sl_fts = to_int32 (int (th_fts t)), sl_semantic = to_int32 (int (th_semantic t)),
        sl_trigram = to_int32 (int (th_trigram t)), sl_activity = to_int32 (int act_n),
        sl_returned = to_int32 (int returned), sl_session = session, sl_fts_any = to_int32 (int (th_any t)),
        sl_best = th_best t\<rparr>) s)"

definition search_logged :: "search_env \<Rightarrow> search_faults \<Rightarrow> embedding \<Rightarrow> search_params \<Rightarrow> int \<Rightarrow> int \<Rightarrow> string \<Rightarrow> string
    \<Rightarrow> gtime \<Rightarrow> db \<Rightarrow> (error + (item_dto list \<times> activity_dto list)) \<times> db" where
  "search_logged e f em p item_max act_max actor session now s =
     (case search_smart e f em p item_max act_max s of
        Inl er \<Rightarrow> (Inl er, s)
      | Inr (found, acts, t) \<Rightarrow>
          (Inr (found, acts), log_search actor (sp_q p) t (length acts) (length found) session now s))"

definition search_handler :: "api_env \<Rightarrow> search_env \<Rightarrow> search_faults \<Rightarrow> embedding \<Rightarrow> query \<Rightarrow> string \<Rightarrow> gtime \<Rightarrow> db
    \<Rightarrow> (string \<times> item_dto list \<times> activity_dto list) reply \<times> db" where
  "search_handler a e f em q actor now s =
     (if q ''q'' = [] then ((400, None), s)
      else (case project_filter a q s of
              Inl st \<Rightarrow> ((st, None), s)
            | Inr pr \<Rightarrow>
               (case search_logged e f em \<lparr>sp_q = q ''q'', sp_project = pr, sp_type = query_str q ''type'', sp_lim = None\<rparr>
                      0 0 actor [] now s of
                  (Inl er, s') \<Rightarrow> ((db_error_status er, None), s')
                | (Inr (found, acts), s') \<Rightarrow> ((200, Some (q ''q'', found, acts)), s'))))"

end
