(* ===== verification/Search_Properties.thy ===== *)
theory Search_Properties
  imports Search
begin

text \<open>
  What a search returns: rows that exist and are in scope, each once and at most the limit; rows that two
  tiers agree on first; and what becomes of an update that trusts the version of a lexical hit.
\<close>

subsection \<open>The rows of the tiers\<close>

definition scoped :: "search_params \<Rightarrow> db \<Rightarrow> item list \<Rightarrow> bool" where
  "scoped p s rows = (set rows \<subseteq> {i \<in> set (items s). in_scope p i}
     \<and> (distinct (map i_id (items s)) \<longrightarrow> distinct (map i_id rows)))"

lemma scoped_Nil [simp]: "scoped p s []"
  by (simp add: scoped_def)

lemma distinct_map_filter: "distinct (map f xs) \<Longrightarrow> distinct (map f (filter P xs))"
  by (induction xs) auto

lemma distinct_map_sort: "distinct (map f (sort_key g xs)) = distinct (map f xs)"
  by (simp add: distinct_map)

lemma scoped_filter: "(\<And>i. P i \<Longrightarrow> in_scope p i) \<Longrightarrow> scoped p s (filter P (items s))"
  by (auto simp: scoped_def distinct_map_filter)

lemma scoped_sort: "scoped p s rows \<Longrightarrow> scoped p s (sort_key g rows)"
  by (simp add: scoped_def distinct_map_sort)

lemma scoped_limit: "scoped p s rows \<Longrightarrow> scoped p s (limit_rows n d rows)"
  by (auto simp: scoped_def limit_rows_def distinct_take take_map[symmetric] dest!: in_set_takeD)

lemma scoped_tiers:
  "scoped p s (search_items e p s)" "scoped p s (any_tier e f p fts s)" "scoped p s (semantic_tier e f p qvec s)"
  "scoped p s (search_items_fuzzy e p s)"
  unfolding search_items_def any_tier_def search_items_any_def semantic_tier_def search_items_semantic_def
    search_items_fuzzy_def
  by (auto split: option.split intro!: scoped_limit scoped_sort scoped_filter)

lemma tier_length:
  assumes "\<And>k. sp_lim p = Some k \<Longrightarrow> k \<le> 60"
  shows "length (search_items e p s) \<le> 60" "length (any_tier e f p fts s) \<le> 60"
    "length (semantic_tier e f p qvec s) \<le> 60"
proof -
  have l: "length (limit_rows (sp_lim p) d rows) \<le> 60" if "d \<le> 60" for d and rows :: "item list"
    using assms that by (cases "sp_lim p") (auto simp: limit_rows_def nat_le_iff min.coboundedI2)
  show "length (search_items e p s) \<le> 60" by (simp add: search_items_def l)
  show "length (any_tier e f p fts s) \<le> 60" by (simp add: any_tier_def search_items_any_def l)
  show "length (semantic_tier e f p qvec s) \<le> 60"
    by (simp add: semantic_tier_def search_items_semantic_def l split: option.split)
qed

lemma db_ok_ids: "db_ok s \<Longrightarrow> distinct (map i_id (items s))"
  by (simp add: db_ok_def items_ok_def)

subsection \<open>The merged hits\<close>

definition item_tiers :: "search_env \<Rightarrow> search_faults \<Rightarrow> search_params \<Rightarrow> rat list option \<Rightarrow> db \<Rightarrow> item list list" where
  "item_tiers e f p qvec s = [search_items e p s, any_tier e f p (search_items e p s) s, semantic_tier e f p qvec s]"

definition shown_tiers :: "search_env \<Rightarrow> search_faults \<Rightarrow> search_params \<Rightarrow> rat list option \<Rightarrow> int \<Rightarrow> db \<Rightarrow> item_dto list list" where
  "shown_tiers e f p qvec n s = [map (to_search_item (se_round e) n) (search_items e p s),
     map (to_any_item (se_round e) n) (any_tier e f p (search_items e p s) s),
     map (to_semantic_item (se_round e) n) (semantic_tier e f p qvec s)]"

text \<open>A shown hit is the item it was made of.\<close>

definition shows_item :: "item_dto \<Rightarrow> item \<Rightarrow> bool" where
  "shows_item d i = (d_id d = i_id i \<and> d_ref d = i_ref i \<and> d_project d = i_project i \<and> d_type d = i_type i
     \<and> d_title d = i_title i \<and> d_status d = i_status i)"

lemma shows_item_conv [simp]:
  "shows_item (to_search_item rnd n i) i" "shows_item (to_any_item rnd n i) i"
  "shows_item (to_semantic_item rnd n i) i" "shows_item (to_fuzzy_item rnd n i) i"
  by (simp_all add: shows_item_def dto_item_defs)

lemma finalize_cases:
  assumes "finalize_items e f p (search_items e p s) qvec n s = Inr (found, t)"
  obtains (merged) "found = cap_len (rrf_merge d_id (shown_tiers e f p qvec n s)) (sp_lim p)" "th_trigram t = 0"
      "rrf_merge d_id (shown_tiers e f p qvec n s) \<noteq> []"
  | (long) "found = []" "th_trigram t = 0"
  | (fuzzy) "found = map (to_fuzzy_item (se_round e) n) (search_items_fuzzy e p s)"
      "rrf_merge d_id (shown_tiers e f p qvec n s) = []" "count_fields (sp_q p) \<le> 2"
      "th_fts t = length (search_items e p s)" "th_semantic t = length (semantic_tier e f p qvec s)"
      "th_any t \<le> length (any_tier e f p (search_items e p s) s)"
proof (cases "rrf_merge d_id (shown_tiers e f p qvec n s) = []")
  case False
  then show ?thesis using assms merged by (auto simp: finalize_items_def shown_tiers_def Let_def)
next
  case True
  note t = this[unfolded shown_tiers_def]
  show ?thesis
  proof (cases "trigram_max_tokens < count_fields (sp_q p)")
    case True
    then show ?thesis using assms long t by (auto simp: finalize_items_def Let_def)
  next
    case False
    then show ?thesis using assms t
      by (intro fuzzy) (auto simp: finalize_items_def Let_def shown_tiers_def trigram_max_tokens_def split: if_splits)
  qed
qed

lemma shown_rows:
  assumes "vs \<in> set (shown_tiers e f p qvec n s)" and "d \<in> set vs"
  shows "\<exists>i \<in> set (items s). in_scope p i \<and> shows_item d i"
proof -
  have conv: "\<exists>i \<in> set (items s). in_scope p i \<and> shows_item d i"
    if sc: "scoped p s rows" and m: "vs = map g rows" and g: "\<And>i. shows_item (g i) i" for rows g
  proof -
    obtain i where "i \<in> set rows" "d = g i" using m assms(2) by auto
    with sc g show ?thesis unfolding scoped_def by blast
  qed
  from assms(1) consider "vs = map (to_search_item (se_round e) n) (search_items e p s)"
    | "vs = map (to_any_item (se_round e) n) (any_tier e f p (search_items e p s) s)"
    | "vs = map (to_semantic_item (se_round e) n) (semantic_tier e f p qvec s)" by (auto simp: shown_tiers_def)
  then show ?thesis
  proof cases
    case 1
    show ?thesis by (rule conv[OF scoped_tiers(1) 1]) simp
  next
    case 2
    show ?thesis by (rule conv[OF scoped_tiers(2) 2]) simp
  next
    case 3
    show ?thesis by (rule conv[OF scoped_tiers(3) 3]) simp
  qed
qed

lemma cap_len_take: "\<exists>m. cap_len xs n = take m xs \<and> m = (case n of Some k \<Rightarrow> if 0 < k then nat k else 25 | None \<Rightarrow> 25)"
  by (auto simp: cap_len_def Let_def)

lemma cap_len_sub: "set (cap_len xs n) \<subseteq> set xs"
  using cap_len_take[of xs n] by (auto dest: in_set_takeD)

definition page_size :: "search_params \<Rightarrow> nat" where
  "page_size p = (case sp_lim p of Some k \<Rightarrow> if 0 < k then nat k else 25 | None \<Rightarrow> 25)"

lemma cap_len_length: "length (cap_len xs (sp_lim p)) \<le> page_size p"
  using cap_len_take[of xs "sp_lim p"] by (auto simp: page_size_def)

lemma fuzzy_length: "length (search_items_fuzzy e p s) \<le> page_size p"
  by (auto simp: search_items_fuzzy_def limit_rows_def page_size_def split: option.split)

lemma found_items:
  assumes ok: "db_ok s" and r: "finalize_items e f p (search_items e p s) qvec n s = Inr (found, t)"
  shows "distinct (map d_id found) \<and> length found \<le> page_size p
    \<and> (\<forall>d \<in> set found. \<exists>i \<in> set (items s). in_scope p i \<and> shows_item d i)"
  using r
proof (cases rule: finalize_cases)
  case merged
  have "distinct (map d_id found)"
  proof -
    obtain m where m: "found = take m (rrf_merge d_id (shown_tiers e f p qvec n s))"
      using cap_len_take merged(1) by metis
    show ?thesis unfolding m take_map[symmetric] using rrf_merge_distinct by (rule distinct_take)
  qed
  moreover have "\<exists>i \<in> set (items s). in_scope p i \<and> shows_item d i" if "d \<in> set found" for d
  proof -
    have "d \<in> set (rrf_merge d_id (shown_tiers e f p qvec n s))" using that unfolding merged(1) by (rule subsetD[OF cap_len_sub])
    then obtain vs where "vs \<in> set (shown_tiers e f p qvec n s)" "d \<in> set vs" by (rule bexE[OF rrf_merge_sub])
    then show ?thesis by (rule shown_rows)
  qed
  moreover have "length found \<le> page_size p" unfolding merged(1) by (rule cap_len_length)
  ultimately show ?thesis by (intro conjI ballI)
next
  case fuzzy
  have "distinct (map i_id (search_items_fuzzy e p s))"
    using scoped_tiers(4)[of p s e] db_ok_ids[OF ok] by (simp add: scoped_def)
  then have "distinct (map d_id found)" unfolding fuzzy(1) by (simp add: comp_def)
  moreover have "\<exists>i \<in> set (items s). in_scope p i \<and> shows_item d i" if "d \<in> set found" for d
    using that scoped_tiers(4)[of p s e] unfolding fuzzy(1) by (auto simp: scoped_def)
  ultimately show ?thesis using fuzzy_length fuzzy(1) by simp
qed simp

lemma search_smart_parts:
  assumes "search_smart e f em p im am s = Inr (found, acts, t)"
  obtains qvec where "finalize_items e f p (search_items e p s) qvec im s = Inr (found, t)"
    "acts = finalize_activity e f p (search_activity e p s) qvec am s"
  using assms by (auto simp: search_smart_def Let_def split: if_splits sum.splits)

lemma found_activity:
  shows "distinct (map y_id (finalize_activity e f p (search_activity e p s) qvec am s))
    \<and> (\<forall>y \<in> set (finalize_activity e f p (search_activity e p s) qvec am s).
         \<exists>a \<in> set (activities s). null_match (sp_project p) (a_project a) \<and> y_id y = a_id a)"
proof -
  have "\<exists>a \<in> set (activities s). null_match (sp_project p) (a_project a) \<and> y_id y = a_id a"
    if "y \<in> set (finalize_activity e f p (search_activity e p s) qvec am s)" for y
  proof -
    from that rrf_merge_sub have "y \<in> set (map (to_search_activity (se_round e) am) (search_activity e p s))
        \<or> (\<exists>v. y \<in> set (map (to_semantic_activity (se_round e) am) (search_activity_semantic e p v semantic_max_distance s)))"
      unfolding finalize_activity_def by (force split: option.splits if_splits)
    then show ?thesis by (auto simp: search_activity_def search_activity_semantic_def dest!: in_set_takeD)
  qed
  then show ?thesis unfolding finalize_activity_def by (simp add: rrf_merge_distinct)
qed

text \<open>C24: Every hit of a search is a live item of the requested project and type, shown under its own ref, title
  and status; no item is returned twice and there are never more than the requested number (25 unless a
  positive limit is given). Every activity hit is a row of the requested project, and none comes twice.
\<close>

theorem search_hits_sound:
  assumes "db_ok s" and "search_smart e f em p im am s = Inr (found, acts, t)"
  shows "(distinct (map d_id found) \<and> length found \<le> page_size p
      \<and> (\<forall>d \<in> set found. \<exists>i \<in> set (items s). in_scope p i \<and> shows_item d i))
    \<and> distinct (map y_id acts)
    \<and> (\<forall>y \<in> set acts. \<exists>a \<in> set (activities s). null_match (sp_project p) (a_project a) \<and> y_id y = a_id a)"
proof -
  obtain qvec where "finalize_items e f p (search_items e p s) qvec im s = Inr (found, t)"
    and "acts = finalize_activity e f p (search_activity e p s) qvec am s"
    using assms(2) by (rule search_smart_parts)
  then show ?thesis using found_items[OF assms(1)] found_activity by blast
qed

subsection \<open>Hits of two tiers\<close>

lemma nth_shown: "n < 3 \<Longrightarrow> d_id ` set (shown_tiers e f p qvec k s ! n) = i_id ` set (item_tiers e f p qvec s ! n)"
  by (cases n; cases "n - 1") (auto simp: shown_tiers_def item_tiers_def image_image nth_Cons split: nat.splits)

lemma length_tiers: "length (shown_tiers e f p qvec k s) = 3" "length (item_tiers e f p qvec s) = 3"
  by (simp_all add: shown_tiers_def item_tiers_def)

lemma shown_distinct:
  assumes "db_ok s" and "\<And>k. sp_lim p = Some k \<Longrightarrow> k \<le> 60"
  shows "\<forall>vs \<in> set (shown_tiers e f p qvec n s). distinct (map d_id vs) \<and> length vs \<le> 60"
  using tier_length[of p, OF assms(2)] scoped_tiers[of p s e] db_ok_ids[OF assms(1)]
  by (simp add: shown_tiers_def scoped_def comp_def)

lemma take_prefix_before:
  assumes "a < b" "b < length xs" "xs ! a = v" "xs ! b = w" "distinct xs" "w \<in> set (take m xs)"
  shows "a < length (take m xs) \<and> b < length (take m xs) \<and> take m xs ! a = v \<and> take m xs ! b = w"
proof -
  obtain c where c: "c < length (take m xs)" "take m xs ! c = w" using assms(6) by (auto simp: in_set_conv_nth)
  then have "xs ! c = xs ! b" "c < length xs" using assms(4) by auto
  then have "c = b" using nth_eq_iff_index_eq[OF assms(5)] assms(2) by simp
  then show ?thesis using assms(1,3,4) c by auto
qed

text \<open>Fusion ranks by agreement: with a limit of at most 60, an item that two of the three tiers (exact words,
  most words, meaning) found is listed, and listed before, every item that only one of them found, whatever
  their ranks.
\<close>

theorem two_tier_hits_lead:
  assumes "db_ok s" and "\<And>k. sp_lim p = Some k \<Longrightarrow> k \<le> 60"
    and r: "finalize_items e f p (search_items e p s) qvec n s = Inr (found, t)"
    and ij: "i < 3" "j < 3" "i \<noteq> j"
    and v: "x \<in> i_id ` set (item_tiers e f p qvec s ! i)" "x \<in> i_id ` set (item_tiers e f p qvec s ! j)"
    and w: "y \<in> d_id ` set found"
    and one: "\<And>i j. i < 3 \<Longrightarrow> j < 3 \<Longrightarrow> y \<in> i_id ` set (item_tiers e f p qvec s ! i)
      \<Longrightarrow> y \<in> i_id ` set (item_tiers e f p qvec s ! j) \<Longrightarrow> i = j"
  shows "\<exists>a b. a < b \<and> b < length found \<and> d_id (found ! a) = x \<and> d_id (found ! b) = y"
proof -
  let ?ls = "shown_tiers e f p qvec n s"
  let ?m = "rrf_merge d_id ?ls"
  have keys: "x \<in> d_id ` set ?m"
  proof -
    have "x \<in> d_id ` set (?ls ! i)" using v(1) nth_shown[OF ij(1)] by simp
    moreover have "?ls ! i \<in> set ?ls" using ij(1) length_tiers(1)[of e f p qvec n s] by simp
    ultimately show ?thesis unfolding rrf_merge_keys by blast
  qed
  then have ne: "?m \<noteq> []" by auto
  obtain m where f: "found = take m ?m"
    using r
  proof (cases rule: finalize_cases)
    case merged
    then show ?thesis using cap_len_take that by metis
  next
    case long
    then show ?thesis using w by simp
  next
    case fuzzy
    then show ?thesis using ne by simp
  qed
  obtain dv where dv: "dv \<in> set ?m" "d_id dv = x" using keys by auto
  obtain dw where dw: "dw \<in> set found" "d_id dw = y" using w by auto
  have dwm: "dw \<in> set ?m" using dw(1) unfolding f by (rule in_set_takeD)
  have "\<exists>a b. a < b \<and> b < length ?m \<and> ?m ! a = dv \<and> ?m ! b = dw"
    by (rule fused_leads[OF shown_distinct[OF assms(1,2)] dv(1) dwm, of i j])
       (use ij v one dv(2) dw(2) nth_shown[of _ e f p qvec n s] length_tiers in auto)
  then show ?thesis
  proof (elim exE conjE)
    fix a b assume ab: "a < b" "b < length ?m" "?m ! a = dv" "?m ! b = dw"
    have "distinct ?m" using rrf_merge_distinct[of d_id ?ls] by (simp add: distinct_map)
    from take_prefix_before[OF ab this, of m] dw f show ?thesis
      by (intro exI[of _ a] exI[of _ b]) (simp add: ab dv(2))
  qed
qed

subsection \<open>The version of a lexical hit\<close>

lemma keep_first_append: "v \<in> set (keep_first key (xs @ ys)) \<Longrightarrow> v \<in> set xs \<or> key v \<notin> key ` set xs"
proof (induction ys rule: rev_induct)
  case Nil
  then show ?case using keep_first_sub[of key xs] by auto
next
  case (snoc z zs)
  have "key ` set xs \<subseteq> key ` set (keep_first key (xs @ zs))" by (auto simp: keep_first_keys)
  with snoc show ?case
    unfolding append_assoc[symmetric] keep_first_snoc by (auto split: if_splits)
qed

lemma lexical_hit_shown:
  assumes r: "finalize_items e f p (search_items e p s) qvec n s = Inr (found, t)"
    and d: "d \<in> set found" "d_id d \<in> i_id ` set (search_items e p s)"
  shows "d \<in> set (map (to_search_item (se_round e) n) (search_items e p s))"
  using r
proof (cases rule: finalize_cases)
  case merged
  have "d \<in> set (rrf_merge d_id (shown_tiers e f p qvec n s))"
    using d(1) unfolding merged(1) by (rule subsetD[OF cap_len_sub])
  then have "d \<in> set (keep_first d_id (map (to_search_item (se_round e) n) (search_items e p s)
      @ concat (tl (shown_tiers e f p qvec n s))))"
    by (simp add: rrf_merge_set shown_tiers_def)
  from keep_first_append[OF this] d(2) show ?thesis by (auto simp: image_image)
next
  case fuzzy
  then have "search_items e p s = []" by (simp add: rrf_merge_Nil shown_tiers_def)
  then show ?thesis using d(2) by simp
qed (use d in simp)

text \<open>An item that the lexical tier found is shown with version 0, which no item has: an update that passes
  the shown version back as the expected one, as the shape's comment asks, is refused as a conflict although
  nobody else touched the item.
\<close>

theorem lexical_hit_conflicts:
  assumes "db_ok s" and "search_smart e f em p im am s = Inr (found, acts, t)"
    and "d \<in> set found" and "d_id d \<in> i_id ` set (search_items e p s)"
    and "up_id u = d_id d" and "up_expected u = Some (d_version d)"
  shows "d_version d = 0 \<and> update_item u actor now s = (Inl ErrConflict, s)"
proof -
  obtain qvec where "finalize_items e f p (search_items e p s) qvec im s = Inr (found, t)"
    using assms(2) by (rule search_smart_parts)
  from lexical_hit_shown[OF this assms(3,4)] obtain i where i: "i \<in> set (search_items e p s)"
    and d: "d = to_search_item (se_round e) im i" by auto
  have it: "i \<in> set (items s)" "live i" using i scoped_tiers(1)[of p s e] by (auto simp: scoped_def in_scope_def)
  have v: "d_version d = 0" unfolding d by (simp add: to_search_item_def)
  have one: "1 \<le> i_version i" using assms(1) it(1) by (auto simp: db_ok_def items_ok_def item_ok_def)
  have "at_version (i_id i) 1 s" using it one by (auto simp: at_version_def)
  moreover have "up_id u = i_id i" using assms(5) d by simp
  moreover have "up_expected u = Some 0" using assms(6) v by simp
  ultimately have st: "update_item_stmt u (s\<lparr>db_now := now\<rparr>) = Inl NoRows"
    using stale_stmt[OF assms(1), of "i_id i" 1 u 0 now] by simp
  obtain j where "row_find (\<lambda>i. i_id i = up_id u \<and> live i) (items s) = Inr j"
    using it \<open>up_id u = i_id i\<close> by (cases "row_find (\<lambda>i. i_id i = up_id u \<and> live i) (items s)") (auto simp: row_find_Inl)
  then have "get_item (up_id u) (s\<lparr>db_now := now\<rparr>) = Inr (j, s\<lparr>db_now := now\<rparr>)"
    by (simp add: get_item_def tx_read_def)
  with st v show ?thesis by (simp add: update_item_def with_tx_def update_item_tx_def tx_bind_def tx_conflict_def)
qed

subsection \<open>Concrete input\<close>

definition demo_two :: db where
  "demo_two = snd (create_item (\<lambda>s. s) (demo_create\<lparr>cp_title := ''two'', cp_key := None\<rparr>) ''me'' 6 demo_made)"

definition demo_engine :: search_env where
  "demo_engine = \<lparr>se_fts = (\<lambda>_ i. i_title i = ''two''), se_rank = (\<lambda>_ _. 1), se_lexemes = (\<lambda>_. [''a'', ''b'']),
     se_has = (\<lambda>_ _. True), se_any_rank = (\<lambda>_ i. - of_nat (i_id i)), se_fuzzy = (\<lambda>_ _. True), se_sim = (\<lambda>_ _. 0),
     se_dist = (\<lambda>_ _. 0), se_act_fts = (\<lambda>_ _. True), se_act_rank = (\<lambda>_ _. 0), se_round = (\<lambda>x. x)\<rparr>"

definition no_faults :: search_faults where
  "no_faults = \<lparr>sf_search = False, sf_lexemes = False, sf_any = False, sf_best = False, sf_semantic = False,
     sf_fuzzy = False, sf_act_semantic = False\<rparr>"

definition demo_search :: search_params where
  "demo_search = \<lparr>sp_q = ''a b'', sp_project = None, sp_type = None, sp_lim = None\<rparr>"

lemma demo_two_ok: "db_ok demo_two"
  unfolding demo_two_def by (rule create_item_inv) (rule demo_made_ok)+

lemma demo_two_tiers:
  "map (map i_id) (item_tiers demo_engine no_faults demo_search None demo_two) = [[13], [10, 13], []]"
  by code_simp

lemma demo_found:
  obtains found t where "finalize_items demo_engine no_faults demo_search (search_items demo_engine demo_search demo_two) None 0 demo_two
    = Inr (found, t)" "map d_id found = [13, 10]"
proof -
  have "map_sum (\<lambda>_. ()) (\<lambda>(x, _). map d_id x) (finalize_items demo_engine no_faults demo_search
      (search_items demo_engine demo_search demo_two) None 0 demo_two) = Inr [13, 10]" by code_simp
  then show ?thesis
    using that by (cases "finalize_items demo_engine no_faults demo_search
      (search_items demo_engine demo_search demo_two) None 0 demo_two") auto
qed

lemma demo_searched:
  obtains found acts t where "search_smart demo_engine no_faults \<lparr>em_enabled = False, em_cached = None, em_live = None\<rparr> demo_search 0 0 demo_two
    = Inr (found, acts, t)" "map d_id found = [13, 10]"
proof -
  obtain found t where f: "finalize_items demo_engine no_faults demo_search (search_items demo_engine demo_search demo_two) None 0 demo_two
    = Inr (found, t)" "map d_id found = [13, 10]" by (rule demo_found)
  have "\<exists>acts. search_smart demo_engine no_faults \<lparr>em_enabled = False, em_cached = None, em_live = None\<rparr> demo_search 0 0 demo_two
    = Inr (found, acts, t)"
    using f(1) by (auto simp: search_smart_def Let_def want_semantic_def no_faults_def demo_search_def limit_refused_def)
  then show ?thesis using f(2) that by (elim exE)
qed

lemma search_hits_sound_witness:
  "\<exists>d. d_id d = 13 \<and> (\<exists>i \<in> set (items demo_two). in_scope demo_search i \<and> shows_item d i)"
proof -
  obtain found acts t where r: "search_smart demo_engine no_faults \<lparr>em_enabled = False, em_cached = None, em_live = None\<rparr>
      demo_search 0 0 demo_two = Inr (found, acts, t)" and f: "map d_id found = [13, 10]" by (rule demo_searched)
  from f obtain d where "d \<in> set found" "d_id d = 13" by (cases found) auto
  then show ?thesis using search_hits_sound[OF demo_two_ok r] by blast
qed

lemma two_tier_hits_lead_witness:
  "\<exists>found t a b. finalize_items demo_engine no_faults demo_search (search_items demo_engine demo_search demo_two) None 0 demo_two
     = Inr (found, t) \<and> a < b \<and> b < length found \<and> d_id (found ! a) = 13 \<and> d_id (found ! b) = 10"
proof -
  obtain found t where r: "finalize_items demo_engine no_faults demo_search (search_items demo_engine demo_search demo_two) None 0 demo_two
    = Inr (found, t)" and f: "map d_id found = [13, 10]" by (rule demo_found)
  let ?ts = "item_tiers demo_engine no_faults demo_search None demo_two"
  have l: "length ?ts = 3" by (simp add: item_tiers_def)
  have t: "i_id ` set (?ts ! n) = set ([[13], [10, 13], []] ! n)" if "n < 3" for n
  proof -
    have "map i_id (?ts ! n) = map (map i_id) ?ts ! n" using that l by simp
    then show ?thesis unfolding demo_two_tiers by (metis list.set_map)
  qed
  have w: "10 \<in> d_id ` set found" using f by (metis list.set_map list.set_intros)
  have one: "i = j" if "i < 3" "j < 3" "10 \<in> i_id ` set (?ts ! i)" "10 \<in> i_id ` set (?ts ! j)" for i j
  proof -
    have "n = 1" if "n < 3" "10 \<in> i_id ` set (?ts ! n)" for n
      using that t[OF that(1)] by (cases n; cases "n - 1") (auto simp: nth_Cons split: nat.splits)
    then show ?thesis using that by metis
  qed
  have "\<exists>a b. a < b \<and> b < length found \<and> d_id (found ! a) = 13 \<and> d_id (found ! b) = 10"
  proof (rule two_tier_hits_lead[OF demo_two_ok _ r, of 0 1])
    show "k \<le> 60" if "sp_lim demo_search = Some k" for k using that by (simp add: demo_search_def)
    show "13 \<in> i_id ` set (?ts ! 0)" "13 \<in> i_id ` set (?ts ! 1)" using t[of 0] t[of 1] by simp_all
    show "10 \<in> d_id ` set found" by (rule w)
  qed (use one in simp_all)
  with r show ?thesis by blast
qed

lemma lexical_hit_conflicts_witness:
  "update_item ((no_update 13)\<lparr>up_expected := Some 0\<rparr>) ''me'' 7 demo_two = (Inl ErrConflict, demo_two)"
proof -
  obtain found acts t where r: "search_smart demo_engine no_faults \<lparr>em_enabled = False, em_cached = None, em_live = None\<rparr>
      demo_search 0 0 demo_two = Inr (found, acts, t)" and f: "map d_id found = [13, 10]" by (rule demo_searched)
  from f obtain d where d: "d \<in> set found" "d_id d = 13" by (cases found) auto
  have "map i_id (search_items demo_engine demo_search demo_two) = [13]" by code_simp
  then have m: "d_id d \<in> i_id ` set (search_items demo_engine demo_search demo_two)"
    using d(2) by (metis list.set_map list.set_intros(1))
  have c: "d_version d = 0 \<and> update_item ((no_update 13)\<lparr>up_expected := Some (d_version d)\<rparr>) ''me'' 7 demo_two
      = (Inl ErrConflict, demo_two)"
    by (rule lexical_hit_conflicts[OF demo_two_ok r d(1) m]) (simp_all add: d(2) no_update_def)
  show ?thesis using conjunct2[OF c] unfolding conjunct1[OF c] .
qed

end
