(* ===== verification/Embedder.thy ===== *)
theory Embedder
  imports Search_Properties
begin

text \<open>
  The background embedder (\<open>internal/service/embedder.go\<close>) with its statements and the client of the embedding
  service (\<open>internal/embed/embed.go\<close>): the two backlogs, one batch, the isolation of poison rows, and the drain
  of a backlog. The answers of the service and the statements that fail are functions of a count of the calls
  made, so any sequence of outcomes is covered. The loop is a partial function; that it returns is a theorem.
\<close>

subsection \<open>The client\<close>

text \<open>What comes back from one request: nothing, an undecodable body, or a status with the embeddings and their
  indices.\<close>

datatype api_reply = NoReply | Undecodable | Replied nat "(int \<times> rat list) list"

datatype embed_error = NoKey | Transport | ApiStatus nat | BadReply

definition is_poison :: "embed_error \<Rightarrow> bool" where
  "is_poison er = (case er of ApiStatus st \<Rightarrow> 400 \<le> st \<and> st < 500 \<and> st \<noteq> 429 | _ \<Rightarrow> False)"

text \<open>The vectors in the order of the inputs; an index that no datum has keeps the nil vector.\<close>

fun place_vecs :: "(int \<times> rat list) list \<Rightarrow> rat list list \<Rightarrow> embed_error + rat list list" where
  "place_vecs [] vecs = Inr vecs"
| "place_vecs ((i, v) # ds) vecs =
     (if i < 0 \<or> int (length vecs) \<le> i then Inl BadReply else place_vecs ds (vecs[nat i := v]))"

definition embed :: "bool \<Rightarrow> api_reply \<Rightarrow> string list \<Rightarrow> embed_error + rat list list" where
  "embed enabled reply inputs =
     (if \<not> enabled then Inl NoKey
      else if inputs = [] then Inr []
      else (case reply of
              NoReply \<Rightarrow> Inl Transport
            | Undecodable \<Rightarrow> Inl BadReply
            | Replied st ds \<Rightarrow>
                (if st \<noteq> 200 then Inl (ApiStatus st)
                 else if length ds \<noteq> length inputs then Inl BadReply
                 else place_vecs ds (replicate (length inputs) []))))"

definition embed_dims :: nat where "embed_dims = 1536"

subsection \<open>Text\<close>

text \<open>\<open>utf8.RuneStart\<close>, and the cut of a string at no more than \<open>m\<close> bytes.\<close>

definition rune_start :: "char \<Rightarrow> bool" where
  "rune_start c = (\<not> in_range c 0x80 0xBF)"

fun cut_back :: "string \<Rightarrow> nat \<Rightarrow> nat" where
  "cut_back s 0 = 0"
| "cut_back s (Suc n) = (if rune_start (s ! Suc n) then Suc n else cut_back s n)"

definition trunc_bytes :: "string \<Rightarrow> nat \<Rightarrow> string" where
  "trunc_bytes s m = (if length s \<le> m then s else take (cut_back s m) s)"

definition embed_max_chars :: nat where "embed_max_chars = 8000"

definition embed_text :: "string \<Rightarrow> string \<Rightarrow> string" where
  "embed_text title body = trunc_bytes (if body \<noteq> [] then title @ [CHR 0x0A, CHR 0x0A] @ body else title) embed_max_chars"

subsection \<open>Statements\<close>

definition needs_embedding :: "item \<Rightarrow> bool" where
  "needs_embedding i = (live i \<and> i_embedding i = None \<and> i_model i \<noteq> ''failed'')"

definition list_items_needing_embedding :: "nat \<Rightarrow> db \<Rightarrow> item list" where
  "list_items_needing_embedding n s = take n (sort_key (\<lambda>i. - i_updated_at i) (filter needs_embedding (items s)))"

definition set_item_embedding :: "rat list \<Rightarrow> string \<Rightarrow> uuid \<Rightarrow> unit dbtx" where
  "set_item_embedding v model x s = Inr ((), s\<lparr>items := rows_update (\<lambda>i. i_id i = x \<and> i_embedding i = None)
     (\<lambda>i. i\<lparr>i_embedding := Some v, i_model := model\<rparr>) (items s)\<rparr>)"

definition mark_item_embedding_failed :: "uuid \<Rightarrow> unit dbtx" where
  "mark_item_embedding_failed x s = Inr ((), s\<lparr>items := rows_update (\<lambda>i. i_id i = x \<and> i_embedding i = None)
     (\<lambda>i. i\<lparr>i_model := ''failed''\<rparr>) (items s)\<rparr>)"

definition embedded_activity :: "db \<Rightarrow> uuid \<Rightarrow> bool" where
  "embedded_activity s x = has_row (\<lambda>r. ae_activity r = x) (act_embeddings s)"

definition activity_needs_embedding :: "db \<Rightarrow> activity \<Rightarrow> bool" where
  "activity_needs_embedding s a = (a_body a \<noteq> [] \<and> \<not> embedded_activity s (a_id a))"

definition list_activity_needing_embedding :: "nat \<Rightarrow> db \<Rightarrow> activity list" where
  "list_activity_needing_embedding n s = take n (newest_first (filter (activity_needs_embedding s) (activities s)))"

definition insert_activity_embedding :: "uuid \<Rightarrow> rat list option \<Rightarrow> string \<Rightarrow> unit dbtx" where
  "insert_activity_embedding x v model = (\<lambda>s.
     (if embedded_activity s x
      then Inr ((), s\<lparr>act_embeddings := rows_update (\<lambda>r. ae_activity r = x) (\<lambda>r. r\<lparr>ae_vector := v, ae_model := model\<rparr>)
                        (act_embeddings s)\<rparr>)
      else if \<not> has_row (\<lambda>a. a_id a = x) (activities s) then Inl fk_violation
      else Inr ((), s\<lparr>act_embeddings := act_embeddings s
             @ [\<lparr>ae_activity = x, ae_vector = v, ae_model = model, ae_created_at = db_now s\<rparr>]\<rparr>)))"

subsection \<open>A backlog\<close>

text \<open>One row to embed: its text and the statements that save a vector or park the row.\<close>

record embed_row =
  er_id :: uuid
  er_text :: string
  er_save :: "rat list \<Rightarrow> unit dbtx"
  er_park :: "unit dbtx"

definition embed_batch_size :: nat where "embed_batch_size = 50"

definition item_batch :: "string \<Rightarrow> db \<Rightarrow> embed_row list" where
  "item_batch model s = map (\<lambda>i. \<lparr>er_id = i_id i, er_text = embed_text (i_title i) (i_body i),
       er_save = (\<lambda>v. set_item_embedding v model (i_id i)), er_park = mark_item_embedding_failed (i_id i)\<rparr>)
     (list_items_needing_embedding embed_batch_size s)"

definition activity_batch :: "string \<Rightarrow> db \<Rightarrow> embed_row list" where
  "activity_batch model s = map (\<lambda>a. \<lparr>er_id = a_id a, er_text = trunc_bytes (a_body a) embed_max_chars,
       er_save = (\<lambda>v. insert_activity_embedding (a_id a) (Some v) model),
       er_park = insert_activity_embedding (a_id a) None ''failed''\<rparr>)
     (list_activity_needing_embedding embed_batch_size s)"

text \<open>The surroundings: whether a key is set, the reply to each request, and which calls of the database fail.
  The state carries the number of calls made so far.\<close>

record embed_env =
  ev_enabled :: bool
  ev_reply :: "nat \<Rightarrow> string list \<Rightarrow> api_reply"
  ev_down :: "nat \<Rightarrow> bool"

type_synonym embed_state = "nat \<times> db"

definition run_stmt :: "embed_env \<Rightarrow> unit dbtx \<Rightarrow> embed_state \<Rightarrow> bool \<times> embed_state" where
  "run_stmt ev m st = (case st of (k, s) \<Rightarrow>
     if ev_down ev k then (False, k + 1, s)
     else (case m s of Inl _ \<Rightarrow> (False, k + 1, s) | Inr (_, s') \<Rightarrow> (True, k + 1, s')))"

definition call_embed :: "embed_env \<Rightarrow> string list \<Rightarrow> embed_state \<Rightarrow> (embed_error + rat list list) \<times> embed_state" where
  "call_embed ev inputs st = (case st of (k, s) \<Rightarrow> (embed (ev_enabled ev) (ev_reply ev k inputs) inputs, k + 1, s))"

definition save_vec :: "embed_env \<Rightarrow> embed_row \<Rightarrow> rat list \<Rightarrow> embed_state \<Rightarrow> bool \<times> embed_state" where
  "save_vec ev r v = run_stmt ev (if length v \<noteq> embed_dims then er_park r else er_save r v)"

fun save_rows :: "embed_env \<Rightarrow> embed_row list \<Rightarrow> rat list list \<Rightarrow> embed_state \<Rightarrow> bool \<times> embed_state" where
  "save_rows ev (r # rs) (v # vs) st =
     (case save_vec ev r v st of (ok, st') \<Rightarrow> if ok then save_rows ev rs vs st' else (False, st'))"
| "save_rows ev _ _ st = (True, st)"

fun embed_rows_individually :: "embed_env \<Rightarrow> embed_row list \<Rightarrow> embed_state \<Rightarrow> bool \<times> embed_state" where
  "embed_rows_individually ev [] st = (True, st)"
| "embed_rows_individually ev (r # rs) st =
     (case call_embed ev [er_text r] st of
        (Inl er, st1) \<Rightarrow>
          (if \<not> is_poison er then (False, st1)
           else (case run_stmt ev (er_park r) st1 of
                   (ok, st2) \<Rightarrow> if ok then embed_rows_individually ev rs st2 else (False, st2)))
      | (Inr vs, st1) \<Rightarrow>
          (case save_vec ev r (hd vs) st1 of
             (ok, st2) \<Rightarrow> if ok then embed_rows_individually ev rs st2 else (False, st2)))"

definition embed_batch :: "embed_env \<Rightarrow> embed_row list \<Rightarrow> embed_state \<Rightarrow> bool \<times> embed_state" where
  "embed_batch ev rows st =
     (case call_embed ev (map er_text rows) st of
        (Inl er, st1) \<Rightarrow> (if \<not> is_poison er then (False, st1) else embed_rows_individually ev rows st1)
      | (Inr vs, st1) \<Rightarrow> save_rows ev rows vs st1)"

text \<open>The loop of \<open>drainBacklog\<close>; listing the batch is a call of the database too.\<close>

partial_function (option) drain_backlog :: "embed_env \<Rightarrow> (db \<Rightarrow> embed_row list) \<Rightarrow> embed_state \<Rightarrow> embed_state option" where
  "drain_backlog ev batch st = (case st of (k, s) \<Rightarrow>
     if ev_down ev k then Some (k + 1, s)
     else if batch s = [] then Some (k + 1, s)
     else (case embed_batch ev (batch s) (k + 1, s) of
             (ok, st') \<Rightarrow> if \<not> ok then Some st'
                         else if length (batch s) < embed_batch_size then Some st'
                         else drain_backlog ev batch st'))"

definition embed_backlog_once :: "embed_env \<Rightarrow> string \<Rightarrow> embed_state \<Rightarrow> embed_state option" where
  "embed_backlog_once ev model st = (case drain_backlog ev (item_batch model) st of
     None \<Rightarrow> None | Some st' \<Rightarrow> drain_backlog ev (activity_batch model) st')"

lemma drain_cases:
  obtains (idle) "ev_down ev k \<or> batch s = []" "drain_backlog ev batch (k, s) = Some (Suc k, s)"
  | (failed) st' where "batch s \<noteq> []" "embed_batch ev (batch s) (Suc k, s) = (False, st')" "drain_backlog ev batch (k, s) = Some st'"
  | (short) st' where "batch s \<noteq> []" "embed_batch ev (batch s) (Suc k, s) = (True, st')" "length (batch s) < embed_batch_size"
      "drain_backlog ev batch (k, s) = Some st'"
  | (again) st' where "batch s \<noteq> []" "embed_batch ev (batch s) (Suc k, s) = (True, st')" "\<not> length (batch s) < embed_batch_size"
      "drain_backlog ev batch (k, s) = drain_backlog ev batch st'"
proof (cases "ev_down ev k \<or> batch s = []")
  case True
  then have "drain_backlog ev batch (k, s) = Some (Suc k, s)" by (subst drain_backlog.simps) auto
  with True show ?thesis by (rule idle)
next
  case False
  obtain ok st' where b: "embed_batch ev (batch s) (Suc k, s) = (ok, st')" by (metis surj_pair)
  have d: "drain_backlog ev batch (k, s) = (if \<not> ok then Some st' else if length (batch s) < embed_batch_size then Some st'
      else drain_backlog ev batch st')"
    using False b by (subst drain_backlog.simps) simp
  show ?thesis
    using failed[of st'] short[of st'] again[of st'] b d False by (cases ok; cases "length (batch s) < embed_batch_size") simp_all
qed

subsection \<open>Every batch that succeeds shrinks its backlog\<close>

text \<open>What the drain needs of a backlog: the rows of a batch are pending, a short batch holds all that is
  pending, and a statement of a row, if it succeeds, takes exactly that row out.\<close>

locale backlog =
  fixes batch :: "db \<Rightarrow> embed_row list" and pend :: "db \<Rightarrow> uuid set"
  assumes pend_finite: "finite (pend s)"
    and batch_pend: "er_id ` set (batch s) \<subseteq> pend s"
    and batch_all: "length (batch s) < embed_batch_size \<Longrightarrow> pend s = er_id ` set (batch s)"
    and saved: "r \<in> set (batch s0) \<Longrightarrow> er_save r v s = Inr ((), s') \<Longrightarrow> pend s' = pend s - {er_id r}"
    and parked: "r \<in> set (batch s0) \<Longrightarrow> er_park r s = Inr ((), s') \<Longrightarrow> pend s' = pend s - {er_id r}"
begin

lemma run_stmt_taken:
  assumes "run_stmt ev m st = (True, st')" and "\<And>s s'. m s = Inr ((), s') \<Longrightarrow> pend s' = pend s - {x}"
  shows "pend (snd st') = pend (snd st) - {x}"
  using assms by (cases st) (auto simp: run_stmt_def split: if_splits sum.splits)

lemma save_vec_taken:
  assumes "r \<in> set (batch s0)" and "save_vec ev r v st = (True, st')"
  shows "pend (snd st') = pend (snd st) - {er_id r}"
  using assms(2) unfolding save_vec_def
  by (rule run_stmt_taken) (use saved[OF assms(1)] parked[OF assms(1)] in \<open>auto split: if_splits\<close>)

lemma save_rows_taken:
  "set rs \<subseteq> set (batch s0) \<Longrightarrow> length vs = length rs \<Longrightarrow> save_rows ev rs vs st = (True, st')
    \<Longrightarrow> pend (snd st') = pend (snd st) - er_id ` set rs"
proof (induction ev rs vs st rule: save_rows.induct)
  case (1 ev r rs v vs st)
  then obtain st1 where s: "save_vec ev r v st = (True, st1)" "save_rows ev rs vs st1 = (True, st')"
    by (auto split: prod.splits if_splits)
  have "pend (snd st1) = pend (snd st) - {er_id r}" using save_vec_taken[OF _ s(1), of s0] "1.prems"(1) by simp
  moreover have "pend (snd st') = pend (snd st1) - er_id ` set rs"
    using "1.IH"[OF s(1)[symmetric]] "1.prems" s(2) by simp
  ultimately show ?case by auto
qed auto

lemma individually_taken:
  "set rs \<subseteq> set (batch s0) \<Longrightarrow> embed_rows_individually ev rs st = (True, st')
    \<Longrightarrow> pend (snd st') = pend (snd st) - er_id ` set rs"
proof (induction rs arbitrary: st)
  case (Cons r rs)
  obtain res st1 where c: "call_embed ev [er_text r] st = (res, st1)" by (metis surj_pair)
  have same: "snd st1 = snd st" using c by (cases st) (auto simp: call_embed_def)
  obtain st2 where st2: "pend (snd st2) = pend (snd st1) - {er_id r}" "embed_rows_individually ev rs st2 = (True, st')"
  proof (cases res)
    case (Inl er)
    then obtain st2 where s: "run_stmt ev (er_park r) st1 = (True, st2)" "embed_rows_individually ev rs st2 = (True, st')"
      using Cons.prems(2) c by (auto split: if_splits prod.splits)
    have "pend (snd st2) = pend (snd st1) - {er_id r}"
      using s(1) by (rule run_stmt_taken) (use parked Cons.prems(1) in auto)
    then show ?thesis using that s(2) by blast
  next
    case (Inr vs)
    then obtain st2 where s: "save_vec ev r (hd vs) st1 = (True, st2)" "embed_rows_individually ev rs st2 = (True, st')"
      using Cons.prems(2) c by (auto split: if_splits prod.splits)
    have "pend (snd st2) = pend (snd st1) - {er_id r}" using save_vec_taken[OF _ s(1), of s0] Cons.prems(1) by simp
    then show ?thesis using that s(2) by blast
  qed
  with Cons.IH[OF _ st2(2)] Cons.prems(1) same show ?case by auto
qed simp

lemma place_vecs_length: "place_vecs ds vecs = Inr vs \<Longrightarrow> length vs = length vecs"
  by (induction ds vecs rule: place_vecs.induct) (auto split: if_splits)

lemma embed_length: "embed en reply inputs = Inr vs \<Longrightarrow> length vs = length inputs"
  by (auto simp: embed_def dest: place_vecs_length split: if_splits api_reply.splits)

lemma batch_taken:
  assumes "embed_batch ev (batch s0) st = (True, st')"
  shows "pend (snd st') = pend (snd st) - er_id ` set (batch s0)"
proof -
  obtain res st1 where c: "call_embed ev (map er_text (batch s0)) st = (res, st1)" by (metis surj_pair)
  have same: "snd st1 = snd st" using c by (cases st) (auto simp: call_embed_def)
  show ?thesis
  proof (cases res)
    case (Inl er)
    then have "embed_rows_individually ev (batch s0) st1 = (True, st')"
      using assms c by (auto simp: embed_batch_def split: if_splits)
    from individually_taken[OF subset_refl this] same show ?thesis by simp
  next
    case (Inr vs)
    then have s: "save_rows ev (batch s0) vs st1 = (True, st')" using assms c by (simp add: embed_batch_def)
    have "length vs = length (batch s0)"
      using c Inr embed_length by (cases st) (fastforce simp: call_embed_def)
    from save_rows_taken[OF subset_refl this s] same show ?thesis by simp
  qed
qed

lemma drain_step:
  assumes "embed_batch ev (batch s) (n, s) = (True, st')" and "batch s \<noteq> []"
  shows "card (pend (snd st')) < card (pend s)"
proof -
  have p: "pend (snd st') = pend s - er_id ` set (batch s)" using batch_taken[OF assms(1)] by simp
  obtain r where "r \<in> set (batch s)" using assms(2) by (cases "batch s") auto
  then have "er_id r \<in> er_id ` set (batch s)" "er_id r \<in> pend s" using batch_pend by auto
  then have "pend (snd st') \<subset> pend s" unfolding p by blast
  then show ?thesis by (rule psubset_card_mono[OF pend_finite])
qed

lemma drain_returns: "\<exists>r. drain_backlog ev batch st = Some r"
proof (induction "card (pend (snd st))" arbitrary: st rule: less_induct)
  case less
  obtain k s where st: "st = (k, s)" by (cases st)
  show ?case unfolding st
  proof (cases rule: drain_cases[of ev k batch s])
    case (again st')
    then have "card (pend (snd st')) < card (pend (snd st))" using drain_step st by simp
    from less[OF this] again(4) show "\<exists>r. drain_backlog ev batch (k, s) = Some r" by simp
  qed simp_all
qed

text \<open>When nothing fails, nothing is pending at the end.\<close>

lemma drain_empties:
  assumes "\<And>n. \<not> ev_down ev n" and "\<And>s st. batch s \<noteq> [] \<Longrightarrow> fst (embed_batch ev (batch s) st)"
    and "drain_backlog ev batch st = Some r"
  shows "pend (snd r) = {}"
  using assms(3)
proof (induction "card (pend (snd st))" arbitrary: st rule: less_induct)
  case less
  obtain k s where st: "st = (k, s)" by (cases st)
  show ?case
  proof (cases rule: drain_cases[of ev k batch s])
    case idle
    then have "batch s = []" "r = (Suc k, s)" using assms(1) less.prems st by auto
    then show ?thesis using batch_all[of s] by (simp add: embed_batch_size_def)
  next
    case (failed st')
    then show ?thesis using assms(2)[of s "(Suc k, s)"] by simp
  next
    case (short st')
    then have "r = st'" using less.prems st by simp
    then show ?thesis using batch_taken[OF short(2)] batch_all[OF short(3)] by simp
  next
    case (again st')
    then have "drain_backlog ev batch st' = Some r" using less.prems st by simp
    moreover have "card (pend (snd st')) < card (pend (snd st))" using drain_step again st by simp
    ultimately show ?thesis using less.hyps by blast
  qed
qed

end

subsection \<open>The two backlogs\<close>

definition items_pending :: "db \<Rightarrow> uuid set" where
  "items_pending s = i_id ` set (filter needs_embedding (items s))"

definition activity_pending :: "db \<Rightarrow> uuid set" where
  "activity_pending s = a_id ` set (filter (activity_needs_embedding s) (activities s))"

lemma pending_map:
  assumes "\<And>i. i_id (g i) = i_id i" and "\<And>i. needs_embedding (g i) \<longleftrightarrow> needs_embedding i \<and> i_id i \<noteq> x"
  shows "i_id ` set (filter needs_embedding (map g rs)) = i_id ` set (filter needs_embedding rs) - {x}"
  by (induction rs) (auto simp: assms)

lemma set_item_pending:
  assumes "set_item_embedding v model x s = Inr ((), s')"
  shows "items_pending s' = items_pending s - {x}"
proof -
  have "items s' = map (\<lambda>i. if i_id i = x \<and> i_embedding i = None then i\<lparr>i_embedding := Some v, i_model := model\<rparr> else i) (items s)"
    using assms unfolding set_item_embedding_def rows_update_def by auto
  then show ?thesis unfolding items_pending_def by (simp only:) (rule pending_map; auto simp: needs_embedding_def live_def)
qed

lemma mark_item_pending:
  assumes "mark_item_embedding_failed x s = Inr ((), s')"
  shows "items_pending s' = items_pending s - {x}"
proof -
  have "items s' = map (\<lambda>i. if i_id i = x \<and> i_embedding i = None then i\<lparr>i_model := ''failed''\<rparr> else i) (items s)"
    using assms unfolding mark_item_embedding_failed_def rows_update_def by auto
  then show ?thesis unfolding items_pending_def by (simp only:) (rule pending_map; auto simp: needs_embedding_def live_def)
qed

lemma embedded_iff: "embedded_activity s y \<longleftrightarrow> y \<in> set (map ae_activity (act_embeddings s))"
  by (auto simp: embedded_activity_def has_row_iff)

lemma insert_embedding_rows:
  assumes "insert_activity_embedding x v model s = Inr ((), s')"
  shows "set (map ae_activity (act_embeddings s')) = insert x (set (map ae_activity (act_embeddings s)))"
    and "activities s' = activities s"
proof -
  show "set (map ae_activity (act_embeddings s')) = insert x (set (map ae_activity (act_embeddings s)))"
  proof (cases "embedded_activity s x")
    case True
    then have "act_embeddings s' = rows_update (\<lambda>r. ae_activity r = x) (\<lambda>r. r\<lparr>ae_vector := v, ae_model := model\<rparr>) (act_embeddings s)"
      using assms by (auto simp: insert_activity_embedding_def)
    moreover have "x \<in> set (map ae_activity (act_embeddings s))" using True embedded_iff by simp
    moreover have "map ae_activity (rows_update (\<lambda>r. ae_activity r = x) (\<lambda>r. r\<lparr>ae_vector := v, ae_model := model\<rparr>)
        (act_embeddings s)) = map ae_activity (act_embeddings s)" by (rule rows_update_keys) simp
    ultimately show ?thesis by (simp only: insert_absorb)
  next
    case False
    then show ?thesis using assms by (auto simp: insert_activity_embedding_def split: if_splits)
  qed
  show "activities s' = activities s"
    using assms by (auto simp: insert_activity_embedding_def split: if_splits)
qed

lemma insert_activity_pending:
  assumes "insert_activity_embedding x v model s = Inr ((), s')"
  shows "activity_pending s' = activity_pending s - {x}"
  using insert_embedding_rows[OF assms]
  by (auto simp: activity_pending_def activity_needs_embedding_def embedded_iff simp del: set_map)

lemma batch_short: "length (take n xs) < n \<Longrightarrow> take n xs = xs"
  by simp

interpretation items_bl: backlog "item_batch model" items_pending for model
proof
  fix s s0 s' r v
  show "finite (items_pending s)" by (simp add: items_pending_def)
  show "er_id ` set (item_batch model s) \<subseteq> items_pending s"
    by (auto simp: item_batch_def items_pending_def list_items_needing_embedding_def dest: in_set_takeD)
  show "items_pending s = er_id ` set (item_batch model s)" if "length (item_batch model s) < embed_batch_size"
    using that by (auto simp: item_batch_def items_pending_def list_items_needing_embedding_def batch_short image_image)
  show "items_pending s' = items_pending s - {er_id r}"
    if "r \<in> set (item_batch model s0)" "er_save r v s = Inr ((), s')"
    using that by (auto simp: item_batch_def intro!: set_item_pending)
  show "items_pending s' = items_pending s - {er_id r}"
    if "r \<in> set (item_batch model s0)" "er_park r s = Inr ((), s')"
    using that by (auto simp: item_batch_def intro!: mark_item_pending)
qed

interpretation activity_bl: backlog "activity_batch model" activity_pending for model
proof
  fix s s0 s' r v
  show "finite (activity_pending s)" by (simp add: activity_pending_def)
  show "er_id ` set (activity_batch model s) \<subseteq> activity_pending s"
    by (auto simp: activity_batch_def activity_pending_def list_activity_needing_embedding_def newest_first_def dest: in_set_takeD)
  show "activity_pending s = er_id ` set (activity_batch model s)" if "length (activity_batch model s) < embed_batch_size"
    using that by (auto simp: activity_batch_def activity_pending_def list_activity_needing_embedding_def newest_first_def
        batch_short image_image)
  show "activity_pending s' = activity_pending s - {er_id r}"
    if "r \<in> set (activity_batch model s0)" "er_save r v s = Inr ((), s')"
    using that by (auto simp: activity_batch_def intro!: insert_activity_pending)
  show "activity_pending s' = activity_pending s - {er_id r}"
    if "r \<in> set (activity_batch model s0)" "er_park r s = Inr ((), s')"
    using that by (auto simp: activity_batch_def intro!: insert_activity_pending)
qed

text \<open>C25: A pass of the embedder over both backlogs always ends, whatever the service answers, in whatever
  order, and whichever statements fail: every batch that is fully handled takes its rows out of the backlog,
  poison rows and vectors of a wrong dimension included, and anything else stops the pass.
\<close>

theorem embedder_pass_ends:
  "\<exists>r. embed_backlog_once ev model st = Some r"
proof -
  obtain r where "drain_backlog ev (item_batch model) st = Some r" using items_bl.drain_returns by blast
  moreover obtain r' where "drain_backlog ev (activity_batch model) r = Some r'" using activity_bl.drain_returns by blast
  ultimately show ?thesis by (simp add: embed_backlog_once_def)
qed

subsection \<open>Poison does not stall the backlog\<close>

text \<open>A service that is up: every request is answered, with vectors or with a rejection of the input.\<close>

definition answers :: "embed_env \<Rightarrow> bool" where
  "answers ev = (\<forall>n inputs. case embed (ev_enabled ev) (ev_reply ev n inputs) inputs of
     Inl er \<Rightarrow> is_poison er | Inr _ \<Rightarrow> True)"

definition statements_succeed :: "embed_row \<Rightarrow> bool" where
  "statements_succeed r = (\<forall>s. isl (er_park r s) = False \<and> (\<forall>v. isl (er_save r v s) = False))"

lemma run_stmt_up: "\<not> ev_down ev (fst st) \<Longrightarrow> \<not> isl (m (snd st)) \<Longrightarrow> fst (run_stmt ev m st)"
  by (cases st; cases "m (snd st)") (auto simp: run_stmt_def)

lemma save_vec_up: "\<not> ev_down ev (fst st) \<Longrightarrow> statements_succeed r \<Longrightarrow> fst (save_vec ev r v st)"
  unfolding save_vec_def statements_succeed_def by (rule run_stmt_up) auto

lemma save_rows_up:
  "(\<And>n. \<not> ev_down ev n) \<Longrightarrow> list_all statements_succeed rs \<Longrightarrow> fst (save_rows ev rs vs st)"
proof (induction ev rs vs st rule: save_rows.induct)
  case (1 ev r rs v vs st)
  have "fst (save_vec ev r v st)" using 1 by (intro save_vec_up) simp_all
  then show ?case using 1 by (auto split: prod.splits)
qed simp_all

lemma individually_up:
  assumes "\<And>n. \<not> ev_down ev n" and "answers ev"
  shows "list_all statements_succeed rs \<Longrightarrow> fst (embed_rows_individually ev rs st)"
proof (induction rs arbitrary: st)
  case (Cons r rs)
  obtain res st1 where c: "call_embed ev [er_text r] st = (res, st1)" by (metis surj_pair)
  have sv: "fst (save_vec ev r v st1)" for v using assms(1) Cons.prems by (intro save_vec_up) simp_all
  have pk: "fst (run_stmt ev (er_park r) st1)"
    using assms(1) Cons.prems by (intro run_stmt_up) (auto simp: statements_succeed_def)
  have an: "is_poison er" if "res = Inl er" for er
    using assms(2) c that unfolding answers_def by (cases st) (auto simp: call_embed_def split: sum.splits)
  show ?case
  proof (cases res)
    case (Inl er)
    then show ?thesis using c an[OF Inl] pk Cons by (auto split: prod.splits)
  next
    case (Inr vs)
    then show ?thesis using c sv[of "hd vs"] Cons by (auto split: prod.splits)
  qed
qed simp

lemma batch_up:
  assumes "\<And>n. \<not> ev_down ev n" and "answers ev" and "list_all statements_succeed rows"
  shows "fst (embed_batch ev rows st)"
proof -
  obtain res st1 where c: "call_embed ev (map er_text rows) st = (res, st1)" by (metis surj_pair)
  show ?thesis
  proof (cases res)
    case (Inl er)
    have "is_poison er"
      using assms(2) c Inl unfolding answers_def by (cases st) (auto simp: call_embed_def split: sum.splits)
    then show ?thesis using Inl c individually_up[OF assms(1,2,3)] by (simp add: embed_batch_def)
  next
    case (Inr vs)
    then show ?thesis using c save_rows_up[OF assms(1,3)] by (simp add: embed_batch_def)
  qed
qed

lemma item_batch_succeeds: "list_all statements_succeed (item_batch model s)"
  by (auto simp: list_all_iff statements_succeed_def item_batch_def set_item_embedding_def mark_item_embedding_failed_def)

text \<open>C27: One poison row never stalls the items behind it: when the service answers every request, with vectors
  or by rejecting the input, and the database is up, a pass leaves no live item that is neither embedded nor
  parked.
\<close>

theorem poison_never_stalls:
  assumes "answers ev" and "\<And>n. \<not> ev_down ev n" and "drain_backlog ev (item_batch model) st = Some (k, s)"
  shows "\<forall>i \<in> set (items s). live i \<longrightarrow> i_embedding i \<noteq> None \<or> i_model i = ''failed''"
proof -
  have "items_pending s = {}"
    using items_bl.drain_empties[of ev model st "(k, s)"] batch_up[OF assms(2,1) item_batch_succeeds] assms(2,3) by simp
  then show ?thesis by (auto simp: items_pending_def needs_embedding_def)
qed

subsection \<open>An edit during the request\<close>

text \<open>The guard of the statement that stores a vector does not notice an edit of an item that has none yet:
  when the title or the body changes while the request for a first embedding is under way, the vector of the
  old text is stored for the new one, and the item leaves the backlog.
\<close>

theorem racing_edit_gets_stale_vector:
  assumes "db_ok s" and "r \<in> set (item_batch model s)" and "er_id r = up_id p"
    and "update_item_stmt p s = Inr (i, s1)" and "er_save r v s1 = Inr ((), s2)"
  shows "\<exists>i0 \<in> set (items s). i = updated_item p (db_now s) i0 \<and> er_text r = embed_text (i_title i0) (i_body i0)
    \<and> i\<lparr>i_embedding := Some v, i_model := model\<rparr> \<in> set (items s2) \<and> up_id p \<notin> items_pending s2"
proof -
  obtain i0 where u: "i0 \<in> set (items s)" "i_id i0 = up_id p" "live i0" "i = updated_item p (db_now s) i0" "i \<in> set (items s1)"
    using update_item_stmt_row[OF assms(1,4)] by metis
  obtain j where j: "j \<in> set (items s)" "needs_embedding j" "er_id r = i_id j"
      "er_text r = embed_text (i_title j) (i_body j)" "er_save r v = set_item_embedding v model (i_id j)"
    using assms(2) by (auto simp: item_batch_def list_items_needing_embedding_def dest!: in_set_takeD)
  have ij: "j = i0" by (rule distinct_key[OF db_ok_ids[OF assms(1)] j(1) u(1)]) (use j(3) assms(3) u(2) in simp)
  have n: "i_id i = i_id j" "i_embedding i = None"
    using u(2,4) j(2,3) ij assms(3) by (simp_all add: updated_item_def needs_embedding_def)
  have s2: "set_item_embedding v model (i_id j) s1 = Inr ((), s2)" using assms(5) j(5) by simp
  have "items s2 = rows_update (\<lambda>i. i_id i = i_id j \<and> i_embedding i = None)
      (\<lambda>i. i\<lparr>i_embedding := Some v, i_model := model\<rparr>) (items s1)"
    using s2 by (auto simp: set_item_embedding_def)
  then have "i\<lparr>i_embedding := Some v, i_model := model\<rparr> \<in> set (items s2)"
    using u(5) n by (force simp: rows_update_def)
  moreover have "up_id p \<notin> items_pending s2" using set_item_pending[OF s2] assms(3) j(3) by simp
  ultimately show ?thesis using u(1,4) j(4) ij by (intro bexI[of _ i0]) simp_all
qed

subsection \<open>Text is cut between runes\<close>

lemma cut_back_le: "cut_back s n \<le> n"
  by (induction n) auto

lemma cut_back_start: "cut_back s n = 0 \<or> rune_start (s ! cut_back s n)"
  by (induction n) auto

lemma cut_back_skips: "cut_back s n < k \<Longrightarrow> k \<le> n \<Longrightarrow> \<not> rune_start (s ! k)"
  by (induction n) (auto simp: le_Suc_eq split: if_splits)

text \<open>Every rune starts with a byte that starts a rune, and has no other such byte.\<close>

lemma starts:
  "ascii c \<Longrightarrow> rune_start c" "in_range c 0xC2 0xDF \<Longrightarrow> rune_start c" "lead3 c b \<Longrightarrow> rune_start c"
  "lead4 c b \<Longrightarrow> rune_start c" "cont c \<Longrightarrow> \<not> rune_start c" "lead3 a c \<Longrightarrow> \<not> rune_start c" "lead4 a c \<Longrightarrow> \<not> rune_start c"
  by (auto simp: rune_start_def ascii_def in_range_def cont_def lead3_def lead4_def split: if_splits)

definition one_start :: "string \<Rightarrow> bool" where
  "one_start r = (r \<noteq> [] \<and> rune_start (hd r) \<and> list_all (\<lambda>c. \<not> rune_start c) (tl r) \<and> length r \<le> 4)"

lemma first_rune_one_start: "s \<noteq> [] \<Longrightarrow> one_start (first_rune s)"
proof -
  assume "s \<noteq> []"
  then show ?thesis
  proof (cases rule: rune_size_cases)
    case one
    obtain c t where s: "s = c # t" using \<open>s \<noteq> []\<close> by (cases s) auto
    have "first_rune s = (if ascii c then [c] else replacement)" unfolding first_rune_def one by (simp add: s)
    then show ?thesis by (simp add: one_start_def starts replacement_def) (simp add: rune_start_def in_range_def)
  qed (simp_all add: first_rune_def one_start_def starts)
qed

lemma runes_one_start: "list_all one_start (runes s)"
proof (induction s rule: runes.induct)
  case (1 s)
  then show ?case using first_rune_one_start by (cases "s = []") (simp_all add: runes.simps[of s])
qed

lemma one_start_size: "one_start r \<Longrightarrow> 0 < length r \<and> length r \<le> 4"
  by (simp add: one_start_def)

lemma start_boundary:
  "list_all one_start rs \<Longrightarrow> i < length (concat rs) \<Longrightarrow> rune_start (concat rs ! i)
    \<Longrightarrow> \<exists>k \<le> length rs. i = length (concat (take k rs))"
proof (induction rs arbitrary: i)
  case (Cons r rs)
  show ?case
  proof (cases "i < length r")
    case True
    have "i = 0"
    proof (rule ccontr)
      assume "i \<noteq> 0"
      then have "r ! i \<in> set (tl r)" using True by (metis Suc_less_eq Suc_pred bot_nat_0.not_eq_extremum length_tl nth_mem nth_tl Suc_pred' length_0_conv less_nat_zero_code)
      then show False using Cons.prems True by (auto simp: one_start_def list_all_iff nth_append)
    qed
    then show ?thesis by (intro exI[of _ 0]) simp
  next
    case False
    then have "i - length r < length (concat rs)" using Cons.prems(2) by simp
    then obtain k where "k \<le> length rs" "i - length r = length (concat (take k rs))"
      using Cons.IH[of "i - length r"] Cons.prems False by (auto simp: nth_append)
    with False show ?thesis by (intro exI[of _ "Suc k"]) simp
  qed
qed simp

lemma boundary_start:
  assumes "list_all one_start rs" and "k < length rs"
  shows "rune_start (concat rs ! length (concat (take k rs)))"
proof -
  have e: "concat rs = concat (take k rs) @ rs ! k @ concat (drop (Suc k) rs)"
    using assms(2) by (metis append.assoc append_take_drop_id concat.simps(2) concat_append Cons_nth_drop_Suc)
  have "one_start (rs ! k)" using assms by (simp add: list_all_iff)
  then show ?thesis by (subst e) (auto simp: nth_append one_start_def hd_conv_nth)
qed

lemma boundary_take: "take (length (concat (take k rs))) (concat rs) = concat (take k rs)"
  by (metis append_take_drop_id concat_append append_eq_conv_conj)

lemma boundary_next:
  "k < length rs \<Longrightarrow> length (concat (take (Suc k) rs)) = length (concat (take k rs)) + length (rs ! k)"
  by (simp add: take_Suc_conv_app_nth)

lemma cut_back_boundary:
  assumes "list_all one_start rs" and "m < length (concat rs)"
  obtains k where "k < length rs" "cut_back (concat rs) m = length (concat (take k rs))" "m < cut_back (concat rs) m + 4"
proof -
  let ?n = "cut_back (concat rs) m"
  have n: "?n < length (concat rs)" using assms(2) cut_back_le[of "concat rs" m] by simp
  obtain k where k: "k \<le> length rs" "?n = length (concat (take k rs))"
    using cut_back_start[of "concat rs" m] start_boundary[OF assms(1) n] by (metis concat.simps(1) le0 list.size(3) take0)
  then have kl: "k < length rs" using n by (cases "k = length rs") auto
  have r: "0 < length (rs ! k)" "length (rs ! k) \<le> 4" using assms(1) kl one_start_size by (auto simp: list_all_iff)
  have "m < ?n + length (rs ! k)"
  proof (rule ccontr)
    assume c: "\<not> m < ?n + length (rs ! k)"
    have b: "length (concat (take (Suc k) rs)) = ?n + length (rs ! k)" using boundary_next[OF kl] k by simp
    have "Suc k < length rs"
    proof (rule ccontr)
      assume "\<not> Suc k < length rs"
      then have "take (Suc k) rs = rs" using kl by simp
      then show False using b c assms(2) by simp
    qed
    then have "rune_start (concat rs ! (?n + length (rs ! k)))" using boundary_start[OF assms(1)] b by metis
    moreover have "\<not> rune_start (concat rs ! (?n + length (rs ! k)))" by (rule cut_back_skips[of _ m]) (use r c in auto)
    ultimately show False by simp
  qed
  then show ?thesis using that[OF kl k(2)] r by simp
qed

text \<open>The text sent for embedding is never cut inside a rune: the cut keeps whole runes of a well-encoded
  string, at most the given number of bytes and at most three fewer than it could.
\<close>

theorem trunc_bytes_whole_runes:
  assumes "well_encoded s"
  shows "(\<exists>k. trunc_bytes s m = concat (take k (runes s))) \<and> length (trunc_bytes s m) \<le> m
    \<and> min m (length s) \<le> length (trunc_bytes s m) + 3"
proof (cases "length s \<le> m")
  case True
  then show ?thesis using assms
    by (auto simp: trunc_bytes_def well_encoded_def intro!: exI[of _ "length (runes s)"])
next
  case False
  have s: "concat (runes s) = s" using assms by (simp add: well_encoded_def)
  obtain k where k: "cut_back s m = length (concat (take k (runes s)))" "m < cut_back s m + 4"
    using cut_back_boundary[OF runes_one_start, of m s] False s by auto
  have t: "trunc_bytes s m = concat (take k (runes s))"
    using False boundary_take[of k "runes s"] by (simp add: trunc_bytes_def k s)
  have "length (trunc_bytes s m) = cut_back s m" by (simp add: t k)
  then show ?thesis using t k cut_back_le[of s m] by auto
qed

subsection \<open>Concrete input\<close>

definition calm_env :: "api_reply \<Rightarrow> embed_env" where
  "calm_env reply = \<lparr>ev_enabled = True, ev_reply = (\<lambda>_ _. reply), ev_down = (\<lambda>_. False)\<rparr>"

lemma poison_never_stalls_witness:
  "\<exists>k s. drain_backlog (calm_env (Replied 400 [])) (item_batch ''m'') (0, demo_made) = Some (k, s)
     \<and> (\<forall>i \<in> set (items s). \<not> live i \<or> i_embedding i \<noteq> None \<or> i_model i = ''failed'')"
proof -
  have a: "answers (calm_env (Replied 400 []))"
    by (auto simp: answers_def calm_env_def embed_def is_poison_def split: sum.splits)
  obtain k s where d: "drain_backlog (calm_env (Replied 400 [])) (item_batch ''m'') (0, demo_made) = Some (k, s)"
    using items_bl.drain_returns by (metis surj_pair)
  show ?thesis using poison_never_stalls[OF a _ d] d by (auto simp: calm_env_def)
qed

lemma racing_edit_gets_stale_vector_witness:
  "\<exists>i s1 s2. update_item_stmt ((no_update 10)\<lparr>up_title := Some ''new''\<rparr>) demo_made = Inr (i, s1)
     \<and> set_item_embedding [1] ''m'' 10 s1 = Inr ((), s2) \<and> 10 \<notin> items_pending s2"
proof -
  let ?p = "(no_update 10)\<lparr>up_title := Some ''new''\<rparr>"
  have "\<not> isl (update_item_stmt ?p demo_made)" by code_simp
  then obtain i s1 where u: "update_item_stmt ?p demo_made = Inr (i, s1)"
    by (cases "update_item_stmt ?p demo_made") auto
  define s2 where "s2 = snd (projr (set_item_embedding [1] ''m'' 10 s1))"
  have st: "set_item_embedding [1] ''m'' 10 s1 = Inr ((), s2)" by (simp add: s2_def set_item_embedding_def)
  have n: "needs_embedding demo_item" by code_simp
  have l: "list_items_needing_embedding embed_batch_size demo_made = [demo_item]"
    by (simp add: list_items_needing_embedding_def demo_item_facts(1) n embed_batch_size_def)
  obtain r where r: "r \<in> set (item_batch ''m'' demo_made)" "er_id r = 10" "er_save r [1] = set_item_embedding [1] ''m'' 10"
    by (simp add: item_batch_def l demo_item_facts(2))
  from racing_edit_gets_stale_vector[OF demo_made_ok r(1) _ u, of "[1]" s2] r(2,3) st
  have "10 \<notin> items_pending s2" by (auto simp: no_update_def)
  with u st show ?thesis by blast
qed

lemma trunc_bytes_whole_runes_witness:
  "length (trunc_bytes [CHR ''a'', CHR 0xC3, CHR 0xA9] 2) \<le> 2
     \<and> min 2 3 \<le> length (trunc_bytes [CHR ''a'', CHR 0xC3, CHR 0xA9] 2) + 3"
proof -
  have "well_encoded [CHR ''a'', CHR 0xC3, CHR 0xA9]" by code_simp
  from trunc_bytes_whole_runes[OF this, of 2] show ?thesis by simp
qed

end
