(* ===== verification/Orient.thy ===== *)
theory Orient
  imports Embedder
begin

text \<open>
  The orient reads: the bundle of one project, the map of all active projects, the digest, the stale report
  and the resolution of a path to a project (\<open>internal/service/service.go\<close>, \<open>features.go\<close>, \<open>cache.go\<close>, the
  statements of \<open>analytics.sql.go\<close>, \<open>internal/api/context.go\<close> and \<open>features.go\<close>). The service keeps the bundles
  in a cache for three seconds. Concurrent builds of one bundle are one build here, and a bundle is read from
  one state of the database, where the code reads its parts in parallel statements.
\<close>

subsection \<open>The cache\<close>

record project_context =
  cx_project :: project_dto
  cx_open :: "item_dto list"
  cx_recent :: "activity_dto list"
  cx_counts :: "(string \<times> nat) list"
  cx_ready :: "item_brief list"
  cx_nudges :: "string list"
  cx_rejected :: "activity_dto list"
  cx_summary_at :: gtime
  cx_since :: nat
  cx_children :: "project_brief list"

record project_overview =
  ov_project :: project_dto
  ov_counts :: "(string \<times> nat) list"
  ov_top :: "item_brief list"

datatype cached = CachedProject project_context | CachedGlobal "project_overview list"

type_synonym ttl_cache = "string \<Rightarrow> (cached \<times> gtime) option"

definition cache_ttl :: gtime where "cache_ttl = 3 * second"

definition cache_get :: "gtime \<Rightarrow> string \<Rightarrow> ttl_cache \<Rightarrow> cached option" where
  "cache_get now key c = (case c key of None \<Rightarrow> None | Some (v, ex) \<Rightarrow> if ex < now then None else Some v)"

definition cache_set :: "gtime \<Rightarrow> string \<Rightarrow> cached \<Rightarrow> ttl_cache \<Rightarrow> ttl_cache" where
  "cache_set now key v c = c(key := Some (v, now + cache_ttl))"

definition cache_clear :: "ttl_cache \<Rightarrow> ttl_cache" where
  "cache_clear c = (\<lambda>_. None)"

definition verbosity_compact :: string where "verbosity_compact = ''compact''"
definition verbosity_full :: string where "verbosity_full = ''full''"

definition body_limits :: "string \<Rightarrow> int \<times> int" where
  "body_limits v = (if v = verbosity_full then (0, 0) else (280, 600))"

subsection \<open>The bundle of a project\<close>

definition plural :: "nat \<Rightarrow> string \<Rightarrow> string" where
  "plural n noun = (if n = 1 then ''1 '' @ noun else dec_nat n @ '' '' @ noun @ ''s'')"

definition em_dash :: string where "em_dash = [CHR 0xE2, CHR 0x80, CHR 0x94]"

definition orient_hints :: "gtime \<Rightarrow> item_dto list \<Rightarrow> nat \<Rightarrow> item_brief list \<times> string list" where
  "orient_hints now its since =
     (let stale = map d_ref (filter (\<lambda>d. d_status d = ''in_progress'' \<and> d_updated_at d < now - 24 * hour) its)
      in (map to_item_brief (take 3 (filter (\<lambda>d. \<not> d_blocked d) its)),
          (if stale \<noteq> [] then [plural (length stale) ''item'' @ '' in progress with no update in 24h+ ('' @ join '', '' stale
              @ '') '' @ em_dash @ '' log progress or move it''] else [])
          @ (if 10 \<le> since then [''summary may be stale: '' @ dec_nat since @ '' activities since it was last refreshed ''
              @ em_dash @ '' consider update_project_summary''] else [])))"

definition compact_open_items :: int where "compact_open_items = 25"
definition compact_recent_activity :: int where "compact_recent_activity = 10"

text \<open>The titles of the open blockers of an item, from the edges of its project.\<close>

definition project_blockers :: "uuid \<Rightarrow> db \<Rightarrow> uuid \<Rightarrow> string list" where
  "project_blockers pr s x = map (\<lambda>(_, _, t, _). t) (filter (\<lambda>(d, _). d = x) (list_blocking_edges_by_project pr s))"

definition open_item_dto :: "(json \<Rightarrow> json) \<Rightarrow> string \<Rightarrow> db \<Rightarrow> uuid \<Rightarrow> item \<Rightarrow> item_dto" where
  "open_item_dto rnd v s pr i =
     (let d = to_item_trunc rnd (fst (body_limits v)) i;
          bs = project_blockers pr s (i_id i);
          d' = (if bs \<noteq> [] then d\<lparr>d_blocked := True, d_blocked_by := bs\<rparr> else d)
      in if v = verbosity_compact then compacted d' else d')"

text \<open>The rounding of metadata numbers and the collation of names.\<close>

record orient_env =
  oe_round :: "json \<Rightarrow> json"
  oe_coll :: "string \<Rightarrow> rat"

definition build_project_context :: "orient_env \<Rightarrow> string \<Rightarrow> string \<Rightarrow> gtime \<Rightarrow> db \<Rightarrow> error + project_context" where
  "build_project_context e slug v now s =
     (case find_slug slug s of
        Inl er \<Rightarrow> Inl er
      | Inr p \<Rightarrow>
         (let compact = (v = verbosity_compact);
              its = map (open_item_dto (oe_round e) v s (p_id p))
                      (list_open_items (p_id p) (if compact then compact_open_items else 50) s);
              acts = map (to_activity_trunc (oe_round e) (snd (body_limits v)));
              since = count_activity_since (p_id p) (p_updated_at p) s
          in Inr \<lparr>cx_project = to_project p, cx_open = its,
               cx_recent = acts (list_recent_decisions (p_id p) (if compact then compact_recent_activity else 15) s),
               cx_counts = count_items_by_status_for_project (p_id p) s,
               cx_ready = fst (orient_hints now its since), cx_nudges = snd (orient_hints now its since),
               cx_rejected = acts (list_rejected (p_id p) 15 s),
               cx_summary_at = p_updated_at p, cx_since = since,
               cx_children = map to_project_brief
                 (filter (\<lambda>(_, _, st, _). st \<noteq> ''archived'') (list_child_projects (oe_coll e) (p_slug p) s))\<rparr>))"

text \<open>A read through the cache. The cached value is asserted to be a bundle of this kind; the assertion panics
  when it is not.\<close>

definition project_key :: "string \<Rightarrow> string \<Rightarrow> string" where
  "project_key slug v = ''proj:'' @ slug @ '':'' @ v"

definition project_context_read :: "orient_env \<Rightarrow> string \<Rightarrow> string \<Rightarrow> gtime \<Rightarrow> db \<Rightarrow> ttl_cache
    \<Rightarrow> (error + project_context) served \<times> ttl_cache" where
  "project_context_read e slug v now s c =
     (case cache_get now (project_key slug v) c of
        Some (CachedProject b) \<Rightarrow> (Served (Inr b), c)
      | Some (CachedGlobal _) \<Rightarrow> (Panicked, c)
      | None \<Rightarrow>
         (case build_project_context e slug v now s of
            Inl er \<Rightarrow> (Served (Inl er), c)
          | Inr b \<Rightarrow> (Served (Inr b), cache_set now (project_key slug v) (CachedProject b) c)))"

subsection \<open>The map of all projects\<close>

definition list_top_open_items_per_project :: "(string \<Rightarrow> rat) \<Rightarrow> nat \<Rightarrow> db \<Rightarrow> (item \<times> string) list" where
  "list_top_open_items_per_project coll n s = concat (map (\<lambda>p. map (\<lambda>i. (i, p_slug p))
       (take n (sort_key (\<lambda>i. priority_rank (i_priority i)) (sort_key i_position
          (filter (\<lambda>i. i_project i = p_id p \<and> live i \<and> open_status (i_status i)) (items s))))))
     (sort_key (\<lambda>p. coll (p_slug p)) (filter (\<lambda>p. p_status p = ''active'') (projects s))))"

definition counts_by_project :: "db \<Rightarrow> uuid \<Rightarrow> (string \<times> nat) list" where
  "counts_by_project s pr = map (\<lambda>((_, st), n). (st, n)) (filter (\<lambda>((q, _), _). q = pr) (count_items_by_status s))"

definition build_global_context :: "orient_env \<Rightarrow> string \<Rightarrow> db \<Rightarrow> project_overview list" where
  "build_global_context e v s =
     (let rows = list_top_open_items_per_project (oe_coll e) 5 s
      in map (\<lambda>p. \<lparr>ov_project = (let d = to_project p in if v = verbosity_compact then d\<lparr>pd_instructions := []\<rparr> else d),
                   ov_counts = counts_by_project s (p_id p),
                   ov_top = map (to_item_brief \<circ> top_open_row_to_item (oe_round e) 0 \<circ> fst)
                     (filter (\<lambda>(i, _). i_project i = p_id p) rows)\<rparr>)
           (list_projects (Some ''active'') s))"

definition global_key :: "string \<Rightarrow> string" where
  "global_key v = ''global:'' @ v"

definition global_context_read :: "orient_env \<Rightarrow> string \<Rightarrow> gtime \<Rightarrow> db \<Rightarrow> ttl_cache \<Rightarrow> project_overview list served \<times> ttl_cache" where
  "global_context_read e v now s c =
     (case cache_get now (global_key v) c of
        Some (CachedGlobal b) \<Rightarrow> (Served b, c)
      | Some (CachedProject _) \<Rightarrow> (Panicked, c)
      | None \<Rightarrow> (let b = build_global_context e v s in (Served b, cache_set now (global_key v) (CachedGlobal b) c)))"

definition rest_verbosity :: "query \<Rightarrow> string" where
  "rest_verbosity q = (if q ''verbosity'' = verbosity_compact then verbosity_compact else verbosity_full)"

definition project_context_handler :: "orient_env \<Rightarrow> string \<Rightarrow> query \<Rightarrow> gtime \<Rightarrow> db \<Rightarrow> ttl_cache
    \<Rightarrow> project_context reply served \<times> ttl_cache" where
  "project_context_handler e slug q now s c =
     (case project_context_read e slug (rest_verbosity q) now s c of
        (Panicked, c') \<Rightarrow> (Panicked, c')
      | (Served (Inl er), c') \<Rightarrow> (Served (db_error_status er, None), c')
      | (Served (Inr b), c') \<Rightarrow> (Served (200, Some b), c'))"

definition global_context_handler :: "orient_env \<Rightarrow> query \<Rightarrow> gtime \<Rightarrow> db \<Rightarrow> ttl_cache
    \<Rightarrow> project_overview list reply served \<times> ttl_cache" where
  "global_context_handler e q now s c =
     (case global_context_read e (rest_verbosity q) now s c of
        (Panicked, c') \<Rightarrow> (Panicked, c') | (Served b, c') \<Rightarrow> (Served (200, Some b), c'))"

subsection \<open>Digest and stale report\<close>

definition activity_kind_counts_since :: "uuid \<Rightarrow> gtime \<Rightarrow> db \<Rightarrow> (string \<times> nat) list" where
  "activity_kind_counts_since pr t s = count_by a_kind (filter (\<lambda>a. a_project a = pr \<and> t \<le> a_created_at a) (activities s))"

definition count_distinct_items_touched_since :: "uuid \<Rightarrow> gtime \<Rightarrow> db \<Rightarrow> nat" where
  "count_distinct_items_touched_since pr t s = length (remdups (map a_item
     (filter (\<lambda>a. a_project a = pr \<and> t \<le> a_created_at a \<and> a_item a \<noteq> None) (activities s))))"

record digest =
  dg_project :: string
  dg_since :: gtime
  dg_counts :: "(string \<times> nat) list"
  dg_touched :: nat
  dg_decisions :: "activity_dto list"
  dg_summary :: string

definition build_digest :: "(json \<Rightarrow> json) \<Rightarrow> string \<Rightarrow> gtime \<Rightarrow> db \<Rightarrow> error + digest" where
  "build_digest rnd slug since s =
     (case find_slug slug s of
        Inl er \<Rightarrow> Inl er
      | Inr p \<Rightarrow> Inr \<lparr>dg_project = slug, dg_since = since, dg_counts = activity_kind_counts_since (p_id p) since s,
           dg_touched = count_distinct_items_touched_since (p_id p) since s,
           dg_decisions = map (to_activity rnd) (list_activity (Some (p_id p)) None (Some ''decision'') (Some since) (Some 50) s),
           dg_summary = p_summary p\<rparr>)"

definition digest_handler :: "api_env \<Rightarrow> (json \<Rightarrow> json) \<Rightarrow> string \<Rightarrow> query \<Rightarrow> gtime \<Rightarrow> db \<Rightarrow> digest reply" where
  "digest_handler a rnd slug q now s =
     (case query_time a q ''since'' of
        Inl _ \<Rightarrow> (400, None)
      | Inr t \<Rightarrow> (case build_digest rnd slug (case t of None \<Rightarrow> now - 7 * 24 * hour | Some x \<Rightarrow> x) s of
                    Inl er \<Rightarrow> (db_error_status er, None) | Inr d \<Rightarrow> (200, Some d)))"

definition with_active_slug :: "db \<Rightarrow> item list \<Rightarrow> (item \<times> string) list" where
  "with_active_slug s rows = concat (map (\<lambda>i. map (\<lambda>p. (i, p_slug p))
     (filter (\<lambda>p. p_id p = i_project i \<and> p_status p = ''active'') (projects s))) rows)"

definition list_stale_in_progress :: "gtime \<Rightarrow> db \<Rightarrow> (item \<times> string) list" where
  "list_stale_in_progress t s = with_active_slug s (sort_key i_updated_at
     (filter (\<lambda>i. live i \<and> i_status i = ''in_progress'' \<and> i_updated_at i < t) (items s)))"

definition list_untriaged_bugs :: "gtime \<Rightarrow> db \<Rightarrow> (item \<times> string) list" where
  "list_untriaged_bugs t s = with_active_slug s (sort_key i_created_at
     (filter (\<lambda>i. live i \<and> i_type i = ''bug'' \<and> i_status i = ''backlog'' \<and> i_created_at i < t) (items s)))"

text \<open>The last activity of a project, and the projects with one over an hour newer than the project row.\<close>

definition last_activity :: "db \<Rightarrow> uuid \<Rightarrow> gtime option" where
  "last_activity s pr = (case map a_created_at (filter (\<lambda>a. a_project a = pr) (activities s)) of
     [] \<Rightarrow> None | t # ts \<Rightarrow> Some (fold max ts t))"

definition list_stale_project_summaries :: "db \<Rightarrow> (project \<times> gtime) list" where
  "list_stale_project_summaries s = sort_key (\<lambda>(_, t). - t) (concat (map (\<lambda>p. case last_activity s (p_id p) of
     None \<Rightarrow> [] | Some t \<Rightarrow> if p_updated_at p + hour < t then [(p, t)] else [])
     (filter (\<lambda>p. p_status p = ''active'') (projects s))))"

record stale_summary =
  sm_slug :: string
  sm_name :: string
  sm_updated :: gtime
  sm_last :: gtime

definition to_stale_summary :: "project \<times> gtime \<Rightarrow> stale_summary" where
  "to_stale_summary r = \<lparr>sm_slug = p_slug (fst r), sm_name = p_name (fst r), sm_updated = p_updated_at (fst r), sm_last = snd r\<rparr>"

record stale_report =
  sr_in_progress :: "item_with_project list"
  sr_bugs :: "item_with_project list"
  sr_summaries :: "stale_summary list"

definition build_stale :: "(json \<Rightarrow> json) \<Rightarrow> gtime \<Rightarrow> gtime \<Rightarrow> db \<Rightarrow> stale_report" where
  "build_stale rnd ip_before bug_before s =
     \<lparr>sr_in_progress = map (stale_in_progress_to_item rnd) (list_stale_in_progress ip_before s),
      sr_bugs = map (untriaged_bug_to_item rnd) (list_untriaged_bugs bug_before s),
      sr_summaries = map to_stale_summary (list_stale_project_summaries s)\<rparr>"

definition day :: gtime where "day = 24 * hour"

definition stale_handler :: "(json \<Rightarrow> json) \<Rightarrow> query \<Rightarrow> gtime \<Rightarrow> db \<Rightarrow> stale_report reply" where
  "stale_handler rnd q now s =
     (case query_int32 q ''in_progress_days'' of
        Inl _ \<Rightarrow> (400, None)
      | Inr ip \<Rightarrow>
         (case query_int32 q ''bug_days'' of
            Inl _ \<Rightarrow> (400, None)
          | Inr bug \<Rightarrow> (200, Some (build_stale rnd (now - coalesce ip 3 * day) (now - coalesce bug 7 * day) s))))"

subsection \<open>Resolving a path to a project\<close>

definition generic_segments :: "string list" where
  "generic_segments = [[], ''users'', ''home'', ''dev'', ''desktop'', ''documents'', ''src'', ''code'', ''repos'', ''github.com'']"

definition path_segments :: "(string \<Rightarrow> string) \<Rightarrow> string \<Rightarrow> string list" where
  "path_segments low hint =
     filter (\<lambda>seg. seg \<notin> set generic_segments) (map (\<lambda>raw. low (trim_space raw))
       (split_on CHR ''/'' (map (\<lambda>c. if c = CHR 0x5C \<or> c = CHR '':'' then CHR ''/'' else c)
          (trim_suffix ''.git'' (trim_space hint)))))"

text \<open>What follows the last slash.\<close>

definition after_last_slash :: "string \<Rightarrow> string" where
  "after_last_slash s = rev (takeWhile (\<lambda>c. c \<noteq> CHR ''/'') (rev s))"

definition project_keys :: "(string \<Rightarrow> string) \<Rightarrow> project \<Rightarrow> string list" where
  "project_keys low p = [low (p_slug p), low (p_name p)] @ map low (p_aliases p)
     @ (case p_repo_url p of None \<Rightarrow> []
        | Some u \<Rightarrow> (let base = after_last_slash (trim_suffix ''.git'' (low u)) in if base \<noteq> [] then [base] else []))"

fun best_key :: "string list \<Rightarrow> project \<Rightarrow> string list \<Rightarrow> (project \<times> nat) option \<Rightarrow> (project \<times> nat) option" where
  "best_key segs p [] best = best"
| "best_key segs p (k # ks) best =
     best_key segs p ks (if k \<in> set segs \<and> (case best of None \<Rightarrow> 0 | Some (_, n) \<Rightarrow> n) < length k then Some (p, length k) else best)"

definition resolve_project :: "(string \<Rightarrow> string) \<Rightarrow> string \<Rightarrow> db \<Rightarrow> error + project" where
  "resolve_project low hint s =
     (let ps = list_projects None s; segs = path_segments low hint
      in (case fold (\<lambda>p best. best_key segs p (project_keys low p) best) ps None of
            None \<Rightarrow> Inl (ErrText (''no project matches; known projects: '' @ join '', '' (map p_slug ps)))
          | Some (p, _) \<Rightarrow> Inr p))"

end
