(* ===== verification/Orient_Properties.thy ===== *)
theory Orient_Properties
  imports Orient Project_Tree
begin

text \<open>
  What the orient reads promise: over every history of reads and writes a cached value has the type that its
  reader asserts and is at most three seconds old; the blocked flags agree with the links. And two surprises:
  a deletion over HTTP does not clear the cache, and creating an item resets the age of the summary.
\<close>

subsection \<open>Histories of reads and writes\<close>

text \<open>The state of the service: the clock, the database, the cache, and the moments at which a bundle was read
  from the database, each with the database of that moment (which only the proofs look at).\<close>

record orient_state =
  os_now :: gtime
  os_db :: db
  os_cache :: ttl_cache
  os_read :: "(gtime \<times> db) set"

definition verbosity :: "string \<Rightarrow> bool" where
  "verbosity v = (v = verbosity_compact \<or> v = verbosity_full)"

text \<open>Time passes; a write of the service clears the cache; other writes of the database do not; and the two
  reads.\<close>

inductive orient_step :: "orient_env \<Rightarrow> orient_state \<Rightarrow> orient_state \<Rightarrow> bool" for e where
  tick: "0 \<le> d \<Longrightarrow> orient_step e st (st\<lparr>os_now := os_now st + d\<rparr>)"
| service_write: "orient_step e st (st\<lparr>os_db := s, os_cache := cache_clear (os_cache st)\<rparr>)"
| other_write: "orient_step e st (st\<lparr>os_db := s\<rparr>)"
| read_project: "verbosity v \<Longrightarrow> orient_step e st (st\<lparr>os_cache := snd (project_context_read e slug v (os_now st) (os_db st) (os_cache st)),
    os_read := insert (os_now st, os_db st) (os_read st)\<rparr>)"
| read_global: "verbosity v \<Longrightarrow> orient_step e st (st\<lparr>os_cache := snd (global_context_read e v (os_now st) (os_db st) (os_cache st)),
    os_read := insert (os_now st, os_db st) (os_read st)\<rparr>)"

definition fresh_service :: "gtime \<Rightarrow> db \<Rightarrow> orient_state" where
  "fresh_service now s = \<lparr>os_now = now, os_db = s, os_cache = (\<lambda>_. None), os_read = {}\<rparr>"

text \<open>An entry was built for its key, from the database of a moment at most the time to live before its expiry.\<close>

definition built_for :: "orient_env \<Rightarrow> string \<Rightarrow> cached \<Rightarrow> gtime \<Rightarrow> db \<Rightarrow> bool" where
  "built_for e key v t s =
     ((\<exists>slug vb b. verbosity vb \<and> key = project_key slug vb \<and> v = CachedProject b \<and> build_project_context e slug vb t s = Inr b)
      \<or> (\<exists>vb. verbosity vb \<and> key = global_key vb \<and> v = CachedGlobal (build_global_context e vb s)))"

definition cache_ok :: "orient_env \<Rightarrow> orient_state \<Rightarrow> bool" where
  "cache_ok e st = (\<forall>key v ex. os_cache st key = Some (v, ex) \<longrightarrow>
     (\<exists>t s. (t, s) \<in> os_read st \<and> t \<le> os_now st \<and> ex = t + cache_ttl \<and> built_for e key v t s))"

lemma cache_okD:
  assumes "cache_ok e st" and "os_cache st key = Some (v, ex)"
  obtains t s where "(t, s) \<in> os_read st" "t \<le> os_now st" "ex = t + cache_ttl" "built_for e key v t s"
  using assms unfolding cache_ok_def by blast

lemma project_key_inj:
  assumes "verbosity v" and "verbosity w" and "project_key slug v = project_key slug' w"
  shows "slug = slug' \<and> v = w"
proof -
  have "rev (slug @ '':'' @ v) = rev (slug' @ '':'' @ w)" using assms(3) by (simp add: project_key_def)
  then show ?thesis using assms(1,2)
    by (auto simp: verbosity_def verbosity_compact_def verbosity_full_def)
qed

lemma key_kinds: "project_key slug v \<noteq> global_key w"
  by (simp add: project_key_def global_key_def)

lemma ttl_pos: "0 < cache_ttl"
  by (simp add: cache_ttl_def second_pos)

lemma cache_set_ok:
  assumes ok: "cache_ok e st" and b: "built_for e key v (os_now st) (os_db st)"
  shows "cache_ok e (st\<lparr>os_cache := cache_set (os_now st) key v (os_cache st), os_read := insert (os_now st, os_db st) (os_read st)\<rparr>)"
    (is "cache_ok e ?st")
  unfolding cache_ok_def
proof (intro allI impI)
  fix k w ex assume "os_cache ?st k = Some (w, ex)"
  then have k: "cache_set (os_now st) key v (os_cache st) k = Some (w, ex)" by simp
  show "\<exists>t s. (t, s) \<in> os_read ?st \<and> t \<le> os_now ?st \<and> ex = t + cache_ttl \<and> built_for e k w t s"
  proof (cases "k = key")
    case True
    then have "w = v" "ex = os_now st + cache_ttl" using k by (simp_all add: cache_set_def)
    then show ?thesis using b True by (intro exI[of _ "os_now st"] exI[of _ "os_db st"]) simp
  next
    case False
    then have "os_cache st k = Some (w, ex)" using k by (simp add: cache_set_def)
    with ok obtain t s where "(t, s) \<in> os_read st" "t \<le> os_now st" "ex = t + cache_ttl" "built_for e k w t s"
      by (rule cache_okD)
    then show ?thesis by (intro exI[of _ t] exI[of _ s]) simp
  qed
qed

lemma cache_ok_mono:
  assumes "cache_ok e st" and "os_cache st' = os_cache st" and "os_read st \<subseteq> os_read st'" and "os_now st \<le> os_now st'"
  shows "cache_ok e st'"
  unfolding cache_ok_def
proof (intro allI impI)
  fix key v ex assume "os_cache st' key = Some (v, ex)"
  then have "os_cache st key = Some (v, ex)" using assms(2) by simp
  with assms(1) obtain t s where "(t, s) \<in> os_read st" "t \<le> os_now st" "ex = t + cache_ttl" "built_for e key v t s"
    by (rule cache_okD)
  then show "\<exists>t s. (t, s) \<in> os_read st' \<and> t \<le> os_now st' \<and> ex = t + cache_ttl \<and> built_for e key v t s"
    using assms(3,4) by (intro exI[of _ t] exI[of _ s]) auto
qed

lemma cache_same_ok:
  "cache_ok e st \<Longrightarrow> cache_ok e (st\<lparr>os_cache := os_cache st, os_read := insert (os_now st, os_db st) (os_read st)\<rparr>)"
  by (erule cache_ok_mono) auto

lemma project_read_cases:
  obtains (hit) b ex where "os_cache st (project_key slug v) = Some (CachedProject b, ex)" "os_now st \<le> ex"
      "project_context_read e slug v (os_now st) (os_db st) (os_cache st) = (Served (Inr b), os_cache st)"
  | (panic) g ex where "os_cache st (project_key slug v) = Some (CachedGlobal g, ex)"
      "project_context_read e slug v (os_now st) (os_db st) (os_cache st) = (Panicked, os_cache st)"
  | (failed) er where "build_project_context e slug v (os_now st) (os_db st) = Inl er"
      "project_context_read e slug v (os_now st) (os_db st) (os_cache st) = (Served (Inl er), os_cache st)"
  | (built) b where "build_project_context e slug v (os_now st) (os_db st) = Inr b"
      "project_context_read e slug v (os_now st) (os_db st) (os_cache st)
         = (Served (Inr b), cache_set (os_now st) (project_key slug v) (CachedProject b) (os_cache st))"
proof (cases "cache_get (os_now st) (project_key slug v) (os_cache st)")
  case None
  then show ?thesis using failed built
    by (cases "build_project_context e slug v (os_now st) (os_db st)") (simp_all add: project_context_read_def)
next
  case (Some c)
  then obtain ex where "os_cache st (project_key slug v) = Some (c, ex)" "os_now st \<le> ex"
    by (auto simp: cache_get_def split: option.splits if_splits)
  then show ?thesis using Some hit panic by (cases c) (simp_all add: project_context_read_def)
qed

lemma orient_step_ok: "orient_step e st st' \<Longrightarrow> cache_ok e st \<Longrightarrow> cache_ok e st'"
proof (induction rule: orient_step.induct)
  case (tick d st)
  from tick(2) show ?case by (rule cache_ok_mono) (use tick(1) in auto)
next
  case (service_write st s)
  then show ?case by (simp add: cache_ok_def cache_clear_def)
next
  case (other_write st s)
  then show ?case by (simp add: cache_ok_def)
next
  case (read_project v st slug)
  show ?case
  proof (cases rule: project_read_cases[of st slug v e])
    case (built b)
    have "built_for e (project_key slug v) (CachedProject b) (os_now st) (os_db st)"
      using built(1) read_project(1) by (auto simp: built_for_def)
    then show ?thesis using cache_set_ok[OF read_project(2)] built(2) by simp
  qed (use cache_same_ok[OF read_project(2)] in simp_all)
next
  case (read_global v st)
  show ?case
  proof (cases "cache_get (os_now st) (global_key v) (os_cache st)")
    case None
    have "built_for e (global_key v) (CachedGlobal (build_global_context e v (os_db st))) (os_now st) (os_db st)"
      using read_global(1) by (auto simp: built_for_def)
    then show ?thesis using cache_set_ok[OF read_global(2)] None by (simp add: global_context_read_def Let_def)
  next
    case (Some c)
    then have "snd (global_context_read e v (os_now st) (os_db st) (os_cache st)) = os_cache st"
      by (cases c) (simp_all add: global_context_read_def)
    then show ?thesis using cache_same_ok[OF read_global(2)] by simp
  qed
qed

lemma orient_run_ok:
  assumes "(orient_step e)\<^sup>*\<^sup>* (fresh_service now0 s0) st"
  shows "cache_ok e st"
  using assms
proof (induction rule: rtranclp_induct)
  case base
  then show ?case by (simp add: cache_ok_def fresh_service_def)
qed (rule orient_step_ok)

inductive_cases orient_stepE: "orient_step e st st'"

text \<open>C28: The type assertions on cached values never fail: whatever reads and writes came before, a cached value
  under the key of a project is a project bundle and one under a key of the map is a map, so that no orient
  read panics.
\<close>

theorem cached_bundles_keep_their_type:
  assumes "(orient_step e)\<^sup>*\<^sup>* (fresh_service now0 s0) st"
  shows "fst (project_context_read e slug v (os_now st) (os_db st) (os_cache st)) \<noteq> Panicked
    \<and> fst (global_context_read e v (os_now st) (os_db st) (os_cache st)) \<noteq> Panicked"
proof -
  have ok: "cache_ok e st" using assms by (rule orient_run_ok)
  have "fst (project_context_read e slug v (os_now st) (os_db st) (os_cache st)) \<noteq> Panicked"
  proof (cases rule: project_read_cases[of st slug v e])
    case (panic g ex)
    obtain t s where "built_for e (project_key slug v) (CachedGlobal g) t s" using ok panic(1) by (rule cache_okD)
    then show ?thesis using key_kinds by (auto simp: built_for_def)
  qed simp_all
  moreover have "fst (global_context_read e v (os_now st) (os_db st) (os_cache st)) \<noteq> Panicked"
  proof (cases "cache_get (os_now st) (global_key v) (os_cache st)")
    case (Some c)
    then obtain ex where c: "os_cache st (global_key v) = Some (c, ex)"
      by (auto simp: cache_get_def split: option.splits if_splits)
    obtain t s where "built_for e (global_key v) c t s" using ok c by (rule cache_okD)
    then obtain g where "c = CachedGlobal g" using key_kinds by (auto simp: built_for_def) (metis key_kinds)
    then show ?thesis using Some by (simp add: global_context_read_def)
  qed (simp add: global_context_read_def Let_def)
  ultimately show ?thesis ..
qed


subsection \<open>Blocked flags\<close>

lemma list_open_items_in: "i \<in> set (list_open_items pr n s) \<Longrightarrow> i \<in> set (items s) \<and> i_project i = pr \<and> live i \<and> open_status (i_status i)"
  by (auto simp: list_open_items_def dest!: in_set_takeD)

lemma project_blockers_iff:
  assumes i: "i \<in> set (items s)" "live i" "i_project i = pr"
  shows "project_blockers pr s (i_id i) \<noteq> [] \<longleftrightarrow> blocked s (i_id i)"
proof -
  have "project_blockers pr s (i_id i) \<noteq> [] \<longleftrightarrow> (\<exists>b t st. (i_id i, b, t, st) \<in> set (blocking_edges (\<lambda>d. i_project d = pr) s))"
    by (auto simp: project_blockers_def list_blocking_edges_by_project_def filter_empty_conv)
  also have "\<dots> \<longleftrightarrow> blocked s (i_id i)"
    unfolding in_blocking_edges blocked_def open_blocker_def has_row_iff using i by (auto; blast)
  finally show ?thesis .
qed

lemma open_item_dto_fields:
  "d_id (open_item_dto rnd v s pr i) = i_id i" "d_blocked (open_item_dto rnd v s pr i) \<longleftrightarrow> project_blockers pr s (i_id i) \<noteq> []"
  "d_ref (open_item_dto rnd v s pr i) = i_ref i"
  by (simp_all add: open_item_dto_def Let_def compacted_def to_item_trunc_def)

lemma build_project_context_Inr:
  assumes "build_project_context e slug v now s = Inr b"
  obtains p n where "find_slug slug s = Inr p" "cx_open b = map (open_item_dto (oe_round e) v s (p_id p)) (list_open_items (p_id p) n s)"
    "cx_ready b = map to_item_brief (take 3 (filter (\<lambda>d. \<not> d_blocked d) (cx_open b)))"
    "cx_summary_at b = p_updated_at p" "cx_since b = count_activity_since (p_id p) (p_updated_at p) s"
    "pd_summary (cx_project b) = p_summary p"
proof (cases "find_slug slug s")
  case (Inr p)
  then show ?thesis
    using assms that[OF Inr, of "if v = verbosity_compact then compact_open_items else 50"]
    by (auto simp: build_project_context_def Let_def orient_hints_def to_project_def)
qed (use assms in \<open>simp add: build_project_context_def\<close>)

lemma build_open:
  assumes "build_project_context e slug v now s = Inr b"
  obtains p :: project and n where "cx_open b = map (open_item_dto (oe_round e) v s (p_id p)) (list_open_items (p_id p) n s)"
    "cx_ready b = map to_item_brief (take 3 (filter (\<lambda>d. \<not> d_blocked d) (cx_open b)))"
  using assms by (rule build_project_context_Inr) (rule that; assumption)

lemma build_summary:
  assumes "build_project_context e slug v now s = Inr b"
  obtains p where "find_slug slug s = Inr p" "cx_summary_at b = p_updated_at p"
    "cx_since b = count_activity_since (p_id p) (p_updated_at p) s" "pd_summary (cx_project b) = p_summary p"
  using assms by (rule build_project_context_Inr) (rule that; assumption)

text \<open>C26: In the bundle of a project an open item is flagged as blocked exactly when a live, open item blocks it,
  and what is offered as ready to start are the first three of its open items that nothing blocks.
\<close>

theorem orient_offers_unblocked:
  assumes "build_project_context e slug v now s = Inr b"
  shows "(\<forall>d \<in> set (cx_open b). d_blocked d \<longleftrightarrow> blocked s (d_id d))
    \<and> cx_ready b = map to_item_brief (take 3 (filter (\<lambda>d. \<not> blocked s (d_id d)) (cx_open b)))"
proof -
  obtain p :: project and n where o: "cx_open b = map (open_item_dto (oe_round e) v s (p_id p)) (list_open_items (p_id p) n s)"
    and r: "cx_ready b = map to_item_brief (take 3 (filter (\<lambda>d. \<not> d_blocked d) (cx_open b)))"
    using assms by (rule build_open)
  have f: "d_blocked d \<longleftrightarrow> blocked s (d_id d)" if "d \<in> set (cx_open b)" for d
  proof -
    from that o obtain i where i: "i \<in> set (list_open_items (p_id p) n s)" "d = open_item_dto (oe_round e) v s (p_id p) i" by auto
    then show ?thesis using list_open_items_in[OF i(1)] project_blockers_iff[of i s "p_id p"]
      by (simp add: open_item_dto_fields)
  qed
  then have "filter (\<lambda>d. \<not> d_blocked d) (cx_open b) = filter (\<lambda>d. \<not> blocked s (d_id d)) (cx_open b)"
    by (intro filter_cong) auto
  with f r show ?thesis by simp
qed

subsection \<open>A deletion that the cache does not see\<close>

lemma delete_handler_204:
  assumes ok: "db_ok s" and i: "i \<in> set (items s)" "live i" and x: "ae_parse a raw = Some (i_id i)"
    and d: "delete_item_handler a raw now s = (st, s')"
  shows "st = 204 \<and> (\<forall>j \<in> set (items s'). i_id j \<noteq> i_id i \<or> \<not> live j)"
proof -
  let ?c = "\<lambda>j. i_id j = i_id i \<and> live j" and ?f = "\<lambda>j. j\<lparr>i_deleted_at := Some now, i_updated_at := now\<rparr>"
  obtain j where j: "row_find ?c (items s) = Inr j"
    using i by (cases "row_find ?c (items s)") (auto simp: row_find_Inl)
  then have "j \<in> set (items s)" by (auto dest: row_find_Inr)
  then have "item_checks j" using ok by (auto simp: db_ok_def items_ok_def item_ok_def)
  then have "item_checks (?f j)" by (simp add: item_checks_def)
  then have "soft_delete_item (i_id i) (s\<lparr>db_now := now\<rparr>)
      = Inr (?f j, (s\<lparr>db_now := now\<rparr>)\<lparr>items := rows_update ?c ?f (items s)\<rparr>)"
    using j by (simp add: soft_delete_item_def tx_bind_def get_now_def tx_read_def update_item_where_def)
  then have "with_tx now (soft_delete_item (i_id i)) s
      = (Inr (?f j), (s\<lparr>db_now := now\<rparr>)\<lparr>items := rows_update ?c ?f (items s)\<rparr>)"
    by (simp add: with_tx_def)
  then have "st = 204" "items s' = rows_update ?c ?f (items s)" using d x by (auto simp: delete_item_handler_def)
  then show ?thesis by (auto simp: rows_update_def live_def)
qed

text \<open>Deleting an item over HTTP does not clear the cache: for the rest of the three seconds an orient read
  returns the bundle from before the deletion, with the item still open in it.
\<close>

theorem deleted_item_still_open:
  assumes "db_ok s" and "project_context_read e slug v t s (\<lambda>_. None) = (Served (Inr b), c)"
    and "x \<in> d_id ` set (cx_open b)" and "ae_parse a raw = Some x" and "delete_item_handler a raw t2 s = (st, s2)"
    and "t3 \<le> t + 3 * second"
  shows "st = 204 \<and> (\<forall>j \<in> set (items s2). i_id j \<noteq> x \<or> \<not> live j)
    \<and> project_context_read e slug v t3 s2 c = (Served (Inr b), c)"
proof -
  have bc: "build_project_context e slug v t s = Inr b \<and> c = cache_set t (project_key slug v) (CachedProject b) (\<lambda>_. None)"
    using assms(2) by (auto simp: project_context_read_def cache_get_def split: sum.splits)
  obtain p :: project and n where "cx_open b = map (open_item_dto (oe_round e) v s (p_id p)) (list_open_items (p_id p) n s)"
    by (rule build_open[OF bc[THEN conjunct1]])
  then obtain i where i: "i \<in> set (list_open_items (p_id p) n s)" "x = i_id i"
    using assms(3) by (auto simp: open_item_dto_fields)
  have "i \<in> set (items s)" "live i" using list_open_items_in[OF i(1)] by auto
  from delete_handler_204[OF assms(1) this, of a raw t2 st s2] assms(4,5) i(2)
  have "st = 204 \<and> (\<forall>j \<in> set (items s2). i_id j \<noteq> x \<or> \<not> live j)" by simp
  moreover have "project_context_read e slug v t3 s2 c = (Served (Inr b), c)"
    using bc assms(6) by (simp add: project_context_read_def cache_get_def cache_set_def cache_ttl_def)
  ultimately show ?thesis by blast
qed

subsection \<open>The age of the summary\<close>

lemma created_projects:
  assumes "create_item_stmt q s = Inr (i, t)"
  shows "\<exists>p \<in> set (projects s). p_id p = cp_project q
    \<and> projects t = rows_update (\<lambda>r. p_id r = cp_project q) (\<lambda>r. r\<lparr>p_item_seq := p_item_seq p + 1, p_updated_at := db_now s\<rparr>) (projects s)"
proof -
  from assms obtain u i0 s' where a: "assign_item_ref (new_item q u (db_now s)) (s\<lparr>db_drawn := db_drawn s + 1\<rparr>) = Inr (i0, s')"
    and b: "append_item i0 s' = Inr (i, t)"
    by (auto simp: create_item_stmt_def tx_simps)
  from b have t: "projects t = projects s'" by (auto simp: append_item_Inr)
  from a obtain p where "find_project (i_project (new_item q u (db_now s))) (s\<lparr>db_drawn := db_drawn s + 1\<rparr>) = Inr p"
    and s': "s' = (s\<lparr>db_drawn := db_drawn s + 1\<rparr>)\<lparr>projects := rows_update (\<lambda>q'. p_id q' = i_project (new_item q u (db_now s)))
        (\<lambda>q'. q'\<lparr>p_item_seq := p_item_seq p + 1, p_updated_at := db_now (s\<lparr>db_drawn := db_drawn s + 1\<rparr>)\<rparr>)
        (projects (s\<lparr>db_drawn := db_drawn s + 1\<rparr>))\<rparr>"
    by (rule assign_item_ref_Inr)
  then have "p \<in> set (projects s)" "p_id p = cp_project q" by (auto dest: find_project_Inr simp: new_item_def)
  then show ?thesis unfolding t s' by (intro bexI[of _ p]) (simp_all add: new_item_def)
qed

lemma enqueue_projects: "enqueue pr ev d s = Inr (u, t) \<Longrightarrow> projects t = projects s \<and> activities t = activities s"
  by (auto elim: enqueue_Inr)

lemma create_activity_time:
  assumes "create_activity p s = Inr (a, t)"
  shows "a_created_at a = db_now s \<and> projects t = projects s \<and> activities t = activities s @ [a]"
  using assms by (auto simp: create_activity_def tx_simps append_activity_Inr new_activity_def)

lemma inserted_item_clock:
  assumes "insert_item_tx q actor s = Inr (i, t)"
  shows "\<exists>p \<in> set (projects s). \<exists>a. p_id p = cp_project q
    \<and> projects t = rows_update (\<lambda>r. p_id r = cp_project q) (\<lambda>r. r\<lparr>p_item_seq := p_item_seq p + 1, p_updated_at := db_now s\<rparr>) (projects s)
    \<and> activities t = activities s @ [a] \<and> a_created_at a = db_now s"
proof -
  from assms obtain s1 a s2 u where c: "create_item_stmt q s = Inr (i, s1)"
    and a: "create_activity (activity_of (i_project i) (i_id i) ''created'' actor
       (''created '' @ i_type i @ '': '' @ i_title i)) s1 = Inr (a, s2)"
    and e: "enqueue (i_project i) ''item.created'' (ItemData i) s2 = Inr (u, t)"
    by (auto simp: insert_item_tx_def tx_simps)
  note ct = create_activity_time[OF a] and en = enqueue_projects[OF e] and cr = create_item_stmt_row(6,8)[OF c]
  from created_projects[OF c] obtain p where p: "p \<in> set (projects s)" "p_id p = cp_project q"
    "projects s1 = rows_update (\<lambda>r. p_id r = cp_project q) (\<lambda>r. r\<lparr>p_item_seq := p_item_seq p + 1, p_updated_at := db_now s\<rparr>) (projects s)"
    by blast
  show ?thesis using p ct en cr by (intro bexI[of _ p] exI[of _ a]) simp_all
qed

text \<open>Creating an item makes the summary of its project look fresh: the row of the project is touched to
  number the item, so the bundle then reports the moment of the creation as the moment the summary was written
  and no activity since, although the summary is the old one.
\<close>

theorem new_item_refreshes_summary_age:
  assumes "\<not> has_key q" and "create_item (\<lambda>s. s) q actor now s = (Inr i, s')"
    and "\<forall>a \<in> set (activities s). a_created_at a \<le> now"
    and "find_slug slug s = Inr p" and "p_id p = cp_project q" and "db_ok s"
    and "build_project_context e slug v later s' = Inr b"
  shows "pd_summary (cx_project b) = p_summary p \<and> cx_summary_at b = now \<and> cx_since b = 0"
proof -
  have ins: "insert_item_tx q actor (s\<lparr>db_now := now\<rparr>) = Inr (i, s')"
    using assms(1,2) by (auto simp: create_item_def Let_def with_tx_def create_item_tx_def split: sum.splits if_splits)
  obtain n a where pr: "projects s' = rows_update (\<lambda>r. p_id r = cp_project q) (\<lambda>r. r\<lparr>p_item_seq := n, p_updated_at := now\<rparr>) (projects s)"
    and ac: "activities s' = activities s @ [a]" "a_created_at a = now"
    using inserted_item_clock[OF ins] by auto
  obtain p' where f: "find_slug slug s' = Inr p'" and b: "cx_summary_at b = p_updated_at p'"
    "cx_since b = count_activity_since (p_id p') (p_updated_at p') s'" "pd_summary (cx_project b) = p_summary p'"
    using assms(7) by (rule build_summary)
  have p: "p \<in> set (projects s)" "p_slug p = slug" using assms(4) by (auto dest: find_slug_Inr)
  have p': "p' \<in> set (projects s')" "p_slug p' = slug" using f by (auto dest: find_slug_Inr)
  then obtain r where r: "r \<in> set (projects s)" "p' = (if p_id r = cp_project q then r\<lparr>p_item_seq := n, p_updated_at := now\<rparr> else r)"
    unfolding pr rows_update_def by auto
  have "p_slug r = p_slug p" using r(2) p'(2) p(2) by (auto split: if_splits)
  moreover have "distinct (map p_slug (projects s))" using assms(6) by (simp add: db_ok_def projects_ok_def)
  ultimately have "r = p" using distinct_key[OF _ r(1) p(1)] by blast
  then have e: "p' = p\<lparr>p_item_seq := n, p_updated_at := now\<rparr>" using r(2) assms(5) by simp
  have "count_activity_since (p_id p') now s' = 0"
    using assms(3) ac by (auto simp: count_activity_since_def filter_empty_conv)
  then show ?thesis using b e by simp
qed

subsection \<open>Resolving a path\<close>

text \<open>The best match so far, after the keys of some projects were tried.\<close>

definition best_of :: "string list \<Rightarrow> (project \<times> string) set \<Rightarrow> (project \<times> nat) option \<Rightarrow> bool" where
  "best_of segs tried best = (case best of
     None \<Rightarrow> (\<forall>(q, k) \<in> tried. k \<in> set segs \<longrightarrow> k = [])
   | Some (p, n) \<Rightarrow> (\<exists>k. (p, k) \<in> tried \<and> k \<in> set segs \<and> length k = n \<and> 0 < n)
       \<and> (\<forall>(q, k) \<in> tried. k \<in> set segs \<longrightarrow> length k \<le> n))"

lemma best_key_of:
  "best_of segs tried best \<Longrightarrow> best_of segs (tried \<union> {p} \<times> set ks) (best_key segs p ks best)"
proof (induction ks arbitrary: tried best)
  case (Cons k ks)
  let ?b = "if k \<in> set segs \<and> (case best of None \<Rightarrow> 0 | Some (_, n) \<Rightarrow> n) < length k then Some (p, length k) else best"
  have "best_of segs (insert (p, k) tried) ?b"
    using Cons.prems by (cases best) (auto simp: best_of_def split: if_splits; fastforce)+
  moreover have "insert (p, k) tried \<union> {p} \<times> set ks = tried \<union> {p} \<times> set (k # ks)" by auto
  ultimately show ?case using Cons.IH[of "insert (p, k) tried" ?b] by simp
qed simp

definition project_pairs :: "(string \<Rightarrow> string) \<Rightarrow> project list \<Rightarrow> (project \<times> string) set" where
  "project_pairs low ps = (\<Union>p \<in> set ps. {p} \<times> set (project_keys low p))"

lemma best_fold:
  "best_of segs tried best \<Longrightarrow> best_of segs (tried \<union> project_pairs low ps)
     (fold (\<lambda>p b. best_key segs p (project_keys low p) b) ps best)"
proof (induction ps arbitrary: tried best)
  case (Cons p ps)
  from Cons.IH[OF best_key_of[OF Cons.prems, of p "project_keys low p"]]
  show ?case by (simp add: project_pairs_def Un_assoc)
qed (simp add: project_pairs_def)

lemma segments_nonempty: "k \<in> set (path_segments low hint) \<Longrightarrow> k \<noteq> []"
  by (auto simp: path_segments_def generic_segments_def)

text \<open>A path resolves to a project that one of its segments names, by the longest name that any segment
  matches; and it is refused exactly when no segment is a slug, name, alias or repository of a listed project.
\<close>

theorem resolve_project_longest:
  "(\<forall>p. resolve_project low hint s = Inr p \<longrightarrow> p \<in> set (list_projects None s)
      \<and> (\<exists>k \<in> set (project_keys low p). k \<in> set (path_segments low hint)
           \<and> (\<forall>q \<in> set (list_projects None s). \<forall>k' \<in> set (project_keys low q).
                k' \<in> set (path_segments low hint) \<longrightarrow> length k' \<le> length k)))
    \<and> (isl (resolve_project low hint s) \<longleftrightarrow>
         (\<forall>q \<in> set (list_projects None s). \<forall>k \<in> set (project_keys low q). k \<notin> set (path_segments low hint)))"
proof -
  let ?segs = "path_segments low hint" and ?ps = "list_projects None s"
  let ?f = "fold (\<lambda>p b. best_key ?segs p (project_keys low p) b) ?ps None"
  have b: "best_of ?segs (project_pairs low ?ps) ?f"
    using best_fold[of ?segs "{}" None low ?ps] by (simp add: best_of_def)
  show ?thesis
  proof (cases ?f)
    case None
    then have n: "k \<notin> set ?segs" if "q \<in> set ?ps" "k \<in> set (project_keys low q)" for q k
      using b that segments_nonempty by (auto simp: best_of_def project_pairs_def)
    have "isl (resolve_project low hint s)" using None by (simp add: resolve_project_def Let_def)
    then show ?thesis using n by (auto simp: isl_def)
  next
    case (Some pn)
    obtain p n where pn: "pn = (p, n)" by (cases pn)
    have r: "resolve_project low hint s = Inr p" using Some pn by (simp add: resolve_project_def Let_def)
    obtain k where k: "p \<in> set ?ps" "k \<in> set (project_keys low p)" "k \<in> set ?segs" "length k = n"
      using b Some pn by (auto simp: best_of_def project_pairs_def)
    moreover have "length k' \<le> n" if "q \<in> set ?ps" "k' \<in> set (project_keys low q)" "k' \<in> set ?segs" for q k'
      using b Some pn that by (auto simp: best_of_def project_pairs_def)
    ultimately show ?thesis using r by auto
  qed
qed

subsection \<open>Concrete input\<close>

definition demo_orient :: orient_env where
  "demo_orient = \<lparr>oe_round = (\<lambda>x. x), oe_coll = (\<lambda>_. 0)\<rparr>"

lemma demo_slug: obtains p where "find_slug ''a-1'' demo_made = Inr p" "p_id p = 7"
proof -
  have "map_sum (\<lambda>_. ()) p_id (find_slug ''a-1'' demo_made) = Inr 7" by code_simp
  then show ?thesis using that by (cases "find_slug ''a-1'' demo_made") auto
qed

lemma built_when_found: "find_slug slug s = Inr p \<Longrightarrow> \<exists>b. build_project_context e slug v now s = Inr b"
  by (simp add: build_project_context_def Let_def)

lemma demo_built: obtains b where "build_project_context demo_orient ''a-1'' verbosity_full 9 demo_made = Inr b"
  using demo_slug built_when_found by metis

lemma demo_orient_run: "(orient_step demo_orient)\<^sup>*\<^sup>* (fresh_service 9 demo_made)
    ((fresh_service 9 demo_made)\<lparr>os_cache := snd (project_context_read demo_orient ''a-1'' verbosity_full 9 demo_made (\<lambda>_. None)),
       os_read := {(9, demo_made)}\<rparr>)"
  using read_project[of verbosity_full demo_orient "fresh_service 9 demo_made" "''a-1''"]
  by (intro r_into_rtranclp) (simp add: verbosity_def fresh_service_def)

lemma cached_bundles_keep_their_type_witness:
  "fst (project_context_read demo_orient ''a-1'' verbosity_full 9 demo_made
     (snd (project_context_read demo_orient ''a-1'' verbosity_full 9 demo_made (\<lambda>_. None)))) \<noteq> Panicked"
  using cached_bundles_keep_their_type[OF demo_orient_run, of "''a-1''" verbosity_full] by (simp add: fresh_service_def)


lemma orient_offers_unblocked_witness:
  "\<exists>b. build_project_context demo_orient ''a-1'' verbosity_full 9 demo_made = Inr b
     \<and> cx_ready b = map to_item_brief (take 3 (filter (\<lambda>d. \<not> blocked demo_made (d_id d)) (cx_open b)))"
proof -
  obtain b where b: "build_project_context demo_orient ''a-1'' verbosity_full 9 demo_made = Inr b" by (rule demo_built)
  from orient_offers_unblocked[OF b] b show ?thesis by blast
qed

lemma deleted_item_still_open_witness:
  "\<exists>b c. project_context_read demo_orient ''a-1'' verbosity_full 9 demo_made (\<lambda>_. None) = (Served (Inr b), c)
     \<and> project_context_read demo_orient ''a-1'' verbosity_full 10
         (snd (delete_item_handler (demo_api\<lparr>ae_parse := (\<lambda>_. Some 10)\<rparr>) ''x'' 9 demo_made)) c = (Served (Inr b), c)"
proof -
  obtain b where b: "build_project_context demo_orient ''a-1'' verbosity_full 9 demo_made = Inr b" by (rule demo_built)
  obtain c where r: "project_context_read demo_orient ''a-1'' verbosity_full 9 demo_made (\<lambda>_. None) = (Served (Inr b), c)"
    using b by (simp add: project_context_read_def cache_get_def)
  have "map_sum (\<lambda>_. ()) (\<lambda>b. map d_id (cx_open b)) (build_project_context demo_orient ''a-1'' verbosity_full 9 demo_made) = Inr [10]"
    by code_simp
  then have x: "10 \<in> d_id ` set (cx_open b)" using b by (metis list.set_map list.set_intros(1) map_sum.simps(2) sum.inject(2))
  obtain st s2 where d: "delete_item_handler (demo_api\<lparr>ae_parse := (\<lambda>_. Some 10)\<rparr>) ''x'' 9 demo_made = (st, s2)" by (metis surj_pair)
  from deleted_item_still_open[OF demo_made_ok r x _ d, of 10] r d show ?thesis by (auto simp: second_def)
qed

lemma new_item_refreshes_summary_age_witness:
  "\<exists>b. build_project_context demo_orient ''a-1'' verbosity_full 9
     (snd (create_item (\<lambda>s. s) (demo_create\<lparr>cp_key := None\<rparr>) ''me'' 8 demo_made)) = Inr b \<and> cx_summary_at b = 8 \<and> cx_since b = 0"
proof -
  let ?q = "demo_create\<lparr>cp_key := None\<rparr>" and ?s = "snd (create_item (\<lambda>s. s) (demo_create\<lparr>cp_key := None\<rparr>) ''me'' 8 demo_made)"
  have "\<not> isl (fst (create_item (\<lambda>s. s) ?q ''me'' 8 demo_made))" by code_simp
  then obtain i where r: "create_item (\<lambda>s. s) ?q ''me'' 8 demo_made = (Inr i, ?s)"
    by (cases "create_item (\<lambda>s. s) ?q ''me'' 8 demo_made"; cases "fst (create_item (\<lambda>s. s) ?q ''me'' 8 demo_made)") auto
  have "\<not> isl (find_slug ''a-1'' ?s)" by code_simp
  then obtain p' where "find_slug ''a-1'' ?s = Inr p'" by (cases "find_slug ''a-1'' ?s") auto
  then obtain b where b: "build_project_context demo_orient ''a-1'' verbosity_full 9 ?s = Inr b"
    using built_when_found by metis
  obtain p where p: "find_slug ''a-1'' demo_made = Inr p" "p_id p = 7" by (rule demo_slug)
  have k: "\<not> has_key ?q" by code_simp
  have "list_all (\<lambda>a. a_created_at a \<le> 8) (activities demo_made)" by code_simp
  then have t: "\<forall>a \<in> set (activities demo_made). a_created_at a \<le> 8" by (simp add: list_all_iff)
  have "p_id p = cp_project ?q" using p(2) by (simp add: demo_create_def)
  from new_item_refreshes_summary_age[OF k r t p(1) this demo_made_ok b] b show ?thesis by blast
qed

lemma resolve_project_longest_witness:
  "\<exists>p. resolve_project (\<lambda>x. x) ''home/a-1'' demo_made = Inr p \<and> p \<in> set (list_projects None demo_made)"
proof -
  have "\<not> isl (resolve_project (\<lambda>x. x) ''home/a-1'' demo_made)" by code_simp
  then obtain p where "resolve_project (\<lambda>x. x) ''home/a-1'' demo_made = Inr p"
    by (cases "resolve_project (\<lambda>x. x) ''home/a-1'' demo_made") auto
  with resolve_project_longest[of "\<lambda>x. x" "''home/a-1''" demo_made] show ?thesis by blast
qed

end
