(* ===== verification/Hub.thy ===== *)
theory Hub
  imports Prelude "HOL-Library.Sublist"
begin

text \<open>
  The live-event bus (\<open>internal/service/hub.go\<close>) and the loop that relays its events to a client
  (\<open>internal/api/stream.go\<close>). A channel is a number; its buffer stays readable after it is closed. The bus is
  refined from a log: what a client receives is a subsequence, in order, of what was broadcast while it was
  subscribed, and all of it as long as the client keeps up.
\<close>

subsection \<open>The bus\<close>

record 'p hub =
  hb_fresh :: nat
  hb_subs :: "nat list"
  hb_buf :: "nat \<Rightarrow> 'p list"

definition new_hub :: "'p hub" where
  "new_hub = \<lparr>hb_fresh = 0, hb_subs = [], hb_buf = (\<lambda>_. [])\<rparr>"

definition buffer_size :: nat where "buffer_size = 64"

definition subscribe :: "'p hub \<Rightarrow> nat \<times> 'p hub" where
  "subscribe h = (hb_fresh h, h\<lparr>hb_fresh := hb_fresh h + 1, hb_subs := hb_fresh h # hb_subs h\<rparr>)"

definition unsubscribe :: "nat \<Rightarrow> 'p hub \<Rightarrow> 'p hub" where
  "unsubscribe ch h = (if ch \<in> set (hb_subs h) then h\<lparr>hb_subs := removeAll ch (hb_subs h)\<rparr> else h)"

text \<open>A channel with room takes the payload; a full one is skipped.\<close>

definition offer :: "'p \<Rightarrow> 'p list \<Rightarrow> 'p list" where
  "offer p buf = (if length buf < buffer_size then buf @ [p] else buf)"

definition broadcast :: "'p \<Rightarrow> 'p hub \<Rightarrow> 'p hub" where
  "broadcast p h = h\<lparr>hb_buf := (\<lambda>ch. if ch \<in> set (hb_subs h) then offer p (hb_buf h ch) else hb_buf h ch)\<rparr>"

definition subscribers :: "'p hub \<Rightarrow> nat" where
  "subscribers h = length (hb_subs h)"

text \<open>One turn of the relay: the next payload, the end of the stream, or nothing to do yet.\<close>

datatype 'p turn = Frame 'p | Ended | Waiting

definition relay :: "nat \<Rightarrow> 'p hub \<Rightarrow> 'p turn \<times> 'p hub" where
  "relay ch h = (case hb_buf h ch of
     p # ps \<Rightarrow> (Frame p, h\<lparr>hb_buf := (hb_buf h)(ch := ps)\<rparr>)
   | [] \<Rightarrow> (if ch \<in> set (hb_subs h) then Waiting else Ended, h))"

subsection \<open>Labelled steps\<close>

datatype 'p event = Sub nat | Unsub nat | Bcast 'p | Recv nat 'p

inductive hub_step :: "'p hub \<Rightarrow> 'p event \<Rightarrow> 'p hub \<Rightarrow> bool" where
  sub: "subscribe h = (ch, h') \<Longrightarrow> hub_step h (Sub ch) h'"
| unsub: "hub_step h (Unsub ch) (unsubscribe ch h)"
| bcast: "hub_step h (Bcast p) (broadcast p h)"
| recv: "relay ch h = (Frame p, h') \<Longrightarrow> hub_step h (Recv ch p) h'"

inductive_cases hub_stepE: "hub_step h ev h'"

inductive hub_run :: "'p hub \<Rightarrow> 'p event list \<Rightarrow> 'p hub \<Rightarrow> bool" where
  idle: "hub_run h [] h"
| more: "hub_run h evs h1 \<Longrightarrow> hub_step h1 ev h2 \<Longrightarrow> hub_run h (evs @ [ev]) h2"

subsection \<open>The log it refines\<close>

text \<open>Per channel, what was broadcast while it was subscribed and what its client has received. A client that
  has never been a whole buffer behind at a broadcast receives the next payload it has not seen; one that has
  been (\<open>lg_slow\<close>) receives some later one: payloads may be skipped, but not reordered, repeated or invented.\<close>

record 'p log_state =
  lg_open :: "nat set"
  lg_sent :: "nat \<Rightarrow> 'p list"
  lg_got :: "nat \<Rightarrow> 'p list"
  lg_slow :: "nat set"

definition new_log :: "'p log_state" where
  "new_log = \<lparr>lg_open = {}, lg_sent = (\<lambda>_. []), lg_got = (\<lambda>_. []), lg_slow = {}\<rparr>"

definition behind :: "'p log_state \<Rightarrow> nat \<Rightarrow> nat" where
  "behind g ch = length (lg_sent g ch) - length (lg_got g ch)"

definition may_receive :: "'p log_state \<Rightarrow> nat \<Rightarrow> 'p \<Rightarrow> bool" where
  "may_receive g ch p = (if ch \<in> lg_slow g then subseq (lg_got g ch @ [p]) (lg_sent g ch)
     else prefix (lg_got g ch @ [p]) (lg_sent g ch))"

definition log_open :: "nat \<Rightarrow> 'p log_state \<Rightarrow> 'p log_state" where
  "log_open ch g = g\<lparr>lg_open := insert ch (lg_open g)\<rparr>"

definition log_close :: "nat \<Rightarrow> 'p log_state \<Rightarrow> 'p log_state" where
  "log_close ch g = g\<lparr>lg_open := lg_open g - {ch}\<rparr>"

definition log_send :: "'p \<Rightarrow> 'p log_state \<Rightarrow> 'p log_state" where
  "log_send p g = g\<lparr>lg_sent := (\<lambda>ch. if ch \<in> lg_open g then lg_sent g ch @ [p] else lg_sent g ch),
     lg_slow := lg_slow g \<union> {ch \<in> lg_open g. buffer_size \<le> behind g ch}\<rparr>"

definition log_take :: "nat \<Rightarrow> 'p \<Rightarrow> 'p log_state \<Rightarrow> 'p log_state" where
  "log_take ch p g = g\<lparr>lg_got := (lg_got g)(ch := lg_got g ch @ [p])\<rparr>"

inductive log_step :: "'p log_state \<Rightarrow> 'p event \<Rightarrow> 'p log_state \<Rightarrow> bool" where
  log_sub: "ch \<notin> lg_open g \<Longrightarrow> log_step g (Sub ch) (log_open ch g)"
| log_unsub: "log_step g (Unsub ch) (log_close ch g)"
| log_bcast: "log_step g (Bcast p) (log_send p g)"
| log_recv: "may_receive g ch p \<Longrightarrow> log_step g (Recv ch p) (log_take ch p g)"

inductive log_run :: "'p log_state \<Rightarrow> 'p event list \<Rightarrow> 'p log_state \<Rightarrow> bool" where
  log_done: "log_run g [] g"
| log_more: "log_run g evs g1 \<Longrightarrow> log_step g1 ev g2 \<Longrightarrow> log_run g (evs @ [ev]) g2"

subsection \<open>Simulation\<close>

text \<open>What relates one channel's buffer to its log.\<close>

definition chan_ok :: "'p list \<Rightarrow> 'p list \<Rightarrow> 'p list \<Rightarrow> bool \<Rightarrow> bool" where
  "chan_ok buf got sent slow = (length buf \<le> buffer_size \<and> subseq (got @ buf) sent
     \<and> (\<not> slow \<longrightarrow> got @ buf = sent))"

definition simulates :: "'p hub \<Rightarrow> 'p log_state \<Rightarrow> bool" where
  "simulates h g = (lg_open g = set (hb_subs h) \<and> (\<forall>ch \<in> set (hb_subs h). ch < hb_fresh h)
     \<and> (\<forall>ch. chan_ok (hb_buf h ch) (lg_got g ch) (lg_sent g ch) (ch \<in> lg_slow g)))"

lemma simulatesI:
  assumes "lg_open g = set (hb_subs h)" and "\<And>ch. ch \<in> set (hb_subs h) \<Longrightarrow> ch < hb_fresh h"
    and "\<And>ch. chan_ok (hb_buf h ch) (lg_got g ch) (lg_sent g ch) (ch \<in> lg_slow g)"
  shows "simulates h g"
  using assms by (simp add: simulates_def)

lemma simulatesD:
  assumes "simulates h g"
  shows "lg_open g = set (hb_subs h)" and "\<And>ch. ch \<in> set (hb_subs h) \<Longrightarrow> ch < hb_fresh h"
    and "\<And>ch. chan_ok (hb_buf h ch) (lg_got g ch) (lg_sent g ch) (ch \<in> lg_slow g)"
  using assms by (simp_all add: simulates_def)

lemma chan_ok_offer:
  assumes "chan_ok buf got sent slow"
  shows "chan_ok (offer p buf) got (sent @ [p]) (slow \<or> buffer_size \<le> length sent - length got)"
proof -
  have s: "subseq (got @ buf) sent" using assms by (simp add: chan_ok_def)
  have "subseq ((got @ buf) @ [p]) (sent @ [p])" using s by (rule list_emb_append_mono) simp
  moreover have "subseq (got @ buf) (sent @ [p])" using s by (meson prefixI prefix_imp_subseq subseq_order.order_trans)
  ultimately show ?thesis using assms by (auto simp: chan_ok_def offer_def)
qed

lemma chan_ok_take:
  assumes "chan_ok (p # ps) got sent slow"
  shows "chan_ok ps (got @ [p]) sent slow"
  using assms by (simp add: chan_ok_def)

lemma chan_ok_receive:
  assumes "chan_ok (p # ps) got sent slow"
  shows "if slow then subseq (got @ [p]) sent else prefix (got @ [p]) sent"
proof -
  have "subseq (got @ [p]) ((got @ [p]) @ ps)" by (rule prefix_imp_subseq) simp
  moreover have "subseq ((got @ [p]) @ ps) sent" using assms by (simp add: chan_ok_def)
  ultimately have "subseq (got @ [p]) sent" by (rule subseq_order.order_trans)
  moreover have "prefix (got @ [p]) sent" if "\<not> slow" using assms that by (auto simp: chan_ok_def prefix_def)
  ultimately show ?thesis by simp
qed

lemma hub_step_simulated:
  assumes "hub_step h ev h'" and sim: "simulates h g"
  shows "\<exists>g'. log_step g ev g' \<and> simulates h' g'"
  using assms(1)
proof (cases rule: hub_step.cases)
  case (sub ch)
  have c: "ch = hb_fresh h" and h': "hb_fresh h' = Suc ch" "hb_subs h' = ch # hb_subs h" "hb_buf h' = hb_buf h"
    using sub(2) by (auto simp: subscribe_def)
  have n: "ch \<notin> lg_open g" using simulatesD(1,2)[OF sim] c by auto
  have "simulates h' (log_open ch g)"
    using simulatesD[OF sim] by (intro simulatesI) (auto simp: log_open_def h' c less_Suc_eq)
  then show ?thesis unfolding sub(1) using log_sub[OF n] by (intro exI conjI)
next
  case (unsub ch)
  have "simulates h' (log_close ch g)"
    unfolding unsub(2) using simulatesD[OF sim]
    by (intro simulatesI) (auto simp: log_close_def unsubscribe_def split: if_splits)
  then show ?thesis unfolding unsub(1) using log_unsub by (intro exI conjI)
next
  case (bcast p)
  have "simulates h' (log_send p g)"
    unfolding bcast(2) using simulatesD[OF sim] chan_ok_offer[OF simulatesD(3)[OF sim]]
    by (intro simulatesI) (simp_all add: log_send_def broadcast_def behind_def)
  then show ?thesis unfolding bcast(1) using log_bcast by (intro exI conjI)
next
  case (recv ch p)
  obtain ps where b: "hb_buf h ch = p # ps" and h': "h' = h\<lparr>hb_buf := (hb_buf h)(ch := ps)\<rparr>"
    using recv(2) by (auto simp: relay_def split: list.splits if_splits)
  have c: "chan_ok (p # ps) (lg_got g ch) (lg_sent g ch) (ch \<in> lg_slow g)"
    using simulatesD(3)[OF sim, of ch] by (simp add: b)
  have g: "may_receive g ch p" unfolding may_receive_def by (rule chan_ok_receive[OF c])
  have "simulates h' (log_take ch p g)"
    unfolding h' using simulatesD[OF sim] chan_ok_take[OF c]
    by (intro simulatesI) (simp_all add: log_take_def)
  then show ?thesis unfolding recv(1) using log_recv[OF g] by (intro exI conjI)
qed

lemma new_simulates: "simulates new_hub new_log"
  by (simp add: simulates_def chan_ok_def new_hub_def new_log_def)

lemma hub_run_from:
  "hub_run h0 evs h \<Longrightarrow> simulates h0 g0 \<Longrightarrow> \<exists>g. log_run g0 evs g \<and> simulates h g"
proof (induction rule: hub_run.induct)
  case (idle h)
  then show ?case using log_done by blast
next
  case (more h0 evs h1 ev h2)
  then obtain g1 where g: "log_run g0 evs g1" "simulates h1 g1" by blast
  from hub_step_simulated[OF more.hyps(2) g(2)] obtain g2 where "log_step g1 ev g2" "simulates h2 g2" by blast
  then show ?case using log_more[OF g(1)] by blast
qed

text \<open>C23: The live-event bus refines the log. Whatever subscriptions, disconnections, broadcasts and relayed
  frames happen, in any order, the log allows the same sequence: a client that has never been 64 events behind
  at a broadcast has received every event since it subscribed, in order, except those still in its channel; a
  slower one misses whole events but never sees them reordered, repeated or invented, and no other client
  notices. The bus itself never holds more than 64 events for a client.\<close>
theorem hub_refines_log:
  assumes "hub_run new_hub evs h"
  shows "\<exists>g. log_run new_log evs g \<and> (\<forall>ch. length (hb_buf h ch) \<le> 64
    \<and> subseq (lg_got g ch @ hb_buf h ch) (lg_sent g ch)
    \<and> (ch \<in> lg_slow g \<or> lg_got g ch @ hb_buf h ch = lg_sent g ch))"
proof -
  from hub_run_from[OF assms new_simulates] obtain g where g: "log_run new_log evs g" "simulates h g" by blast
  show ?thesis
    using g(1) simulatesD(3)[OF g(2)] by (intro exI[of _ g] conjI allI) (auto simp: chan_ok_def buffer_size_def)
qed


theorem hub_refines_log_witness:
  "\<exists>h g. hub_run new_hub [Sub 0, Bcast ''a'', Recv 0 ''a''] h \<and> hb_buf h 0 = []
     \<and> log_run new_log [Sub 0, Bcast ''a'', Recv 0 ''a''] g"
proof -
  let ?h1 = "snd (subscribe (new_hub :: string hub))"
  let ?h2 = "broadcast ''a'' ?h1"
  let ?h3 = "snd (relay 0 ?h2)"
  have "hub_run (new_hub :: string hub) [] new_hub" by (rule idle)
  moreover have "hub_step (new_hub :: string hub) (Sub 0) ?h1"
    by (rule sub) (simp add: subscribe_def new_hub_def)
  ultimately have "hub_run (new_hub :: string hub) ([] @ [Sub 0]) ?h1" by (rule more)
  moreover have "hub_step ?h1 (Bcast ''a'') ?h2" by (rule bcast)
  ultimately have "hub_run (new_hub :: string hub) (([] @ [Sub 0]) @ [Bcast ''a'']) ?h2" by (rule more)
  moreover have "hub_step ?h2 (Recv 0 ''a'') ?h3"
    by (rule recv) (simp add: relay_def broadcast_def subscribe_def new_hub_def offer_def buffer_size_def)
  ultimately have "hub_run (new_hub :: string hub) ((([] @ [Sub 0]) @ [Bcast ''a'']) @ [Recv 0 ''a'']) ?h3"
    by (rule more)
  then have r: "hub_run (new_hub :: string hub) [Sub 0, Bcast ''a'', Recv 0 ''a''] ?h3" by simp
  have b: "hb_buf ?h3 0 = []"
    by (simp add: relay_def broadcast_def subscribe_def new_hub_def offer_def buffer_size_def)
  from hub_refines_log[OF r] obtain g where "log_run new_log [Sub 0, Bcast ''a'', Recv 0 ''a''] g" by (elim exE conjE)
  then show ?thesis using r b by (intro exI conjI)
qed

end
