(* ===== verification/Usage.thy ===== *)
theory Usage
  imports Orient Settings Context_Impact "HOL-Library.Multiset"
begin

text \<open>
  Usage analytics (\<open>internal/service/usage.go\<close>, the statements of \<open>usage.sql.go\<close>, the report of
  \<open>internal/dto/dto.go\<close>): one row per tool call, and the report over a window of days. The ten statements of a
  report read one state of the database here; the code runs them in parallel. A day is 24 hours long, and which day
  a time falls on, and its name, are arguments, like the order of names.
\<close>

subsection \<open>Recording a call\<close>

definition max_recorded_args :: nat where "max_recorded_args = 2048"

record observed_call =
  ob_tool :: string
  ob_actor :: string
  ob_project :: string
  ob_ok :: bool
  ob_err :: string
  ob_ms :: int
  ob_args :: string
  ob_bytes :: int
  ob_session :: string

text \<open>What PostgreSQL stores as text: valid UTF-8 without a null byte.\<close>

definition text_ok :: "string \<Rightarrow> bool" where
  "text_ok t = (concat (runes t) = t \<and> CHR 0x00 \<notin> set t)"

text \<open>The arguments are cast to JSON, absent ones are the empty object.\<close>

definition insert_tool_call :: "json option \<Rightarrow> tool_call \<Rightarrow> unit dbtx" where
  "insert_tool_call args r s =
     (case args of
        None \<Rightarrow> Inl (ErrText ''invalid input syntax for type json'')
      | Some v \<Rightarrow>
         if list_all text_ok [tc_tool r, tc_actor r, tc_project r, tc_error r, tc_session r]
         then Inr ((), s\<lparr>tool_calls := tool_calls s @ [r\<lparr>tc_args := v, tc_called_at := db_now s\<rparr>]\<rparr>)
         else Inl (ErrText ''invalid byte sequence''))"

definition recorded_args :: "(string \<Rightarrow> json option) \<Rightarrow> string \<Rightarrow> json option" where
  "recorded_args parse args =
     (if max_recorded_args < length args
      then Some (JObj [(''_truncated'', JBool True), (''_bytes'', JNum (of_nat (length args)))])
      else if args = [] then Some (JObj []) else parse args)"

definition record_tool_call :: "(string \<Rightarrow> json option) \<Rightarrow> bool \<Rightarrow> string \<Rightarrow> observed_call \<Rightarrow> gtime \<Rightarrow> db \<Rightarrow> db" where
  "record_tool_call parse enabled session c now s =
     (if \<not> enabled then s
      else snd (with_tx now (insert_tool_call (recorded_args parse (ob_args c))
        \<lparr>tc_called_at = now, tc_tool = ob_tool c, tc_actor = ob_actor c, tc_project = ob_project c, tc_ok = ob_ok c,
         tc_error = (if 500 < length (ob_err c) then take 500 (ob_err c) else ob_err c),
         tc_duration_ms = to_int32 (ob_ms c), tc_args = JNull, tc_result_bytes = to_int32 (ob_bytes c),
         tc_session = (if ob_session c = [] then session else ob_session c)\<rparr>) s))"

subsection \<open>Aggregates\<close>

text \<open>\<open>percentile_cont\<close>: linear interpolation between the two closest ranks.\<close>

definition percentile_cont :: "rat \<Rightarrow> int list \<Rightarrow> rat" where
  "percentile_cont q xs =
     (let ys = sort xs; p = q * of_nat (length ys - 1); lo = nat \<lfloor>p\<rfloor>; hi = nat \<lceil>p\<rceil>
      in of_int (ys ! lo) + (p - of_nat lo) * (of_int (ys ! hi) - of_int (ys ! lo)))"

definition average :: "int list \<Rightarrow> rat" where
  "average xs = (if xs = [] then 0 else of_int (sum_list xs) / of_nat (length xs))"

definition group_rows :: "('r \<Rightarrow> 'k) \<Rightarrow> 'r list \<Rightarrow> ('k \<times> 'r list) list" where
  "group_rows key rows = map (\<lambda>k. (k, filter (\<lambda>r. key r = k) rows)) (remdups (map key rows))"

definition counting :: "('r \<Rightarrow> bool) \<Rightarrow> 'r list \<Rightarrow> nat" where
  "counting p rows = length (filter p rows)"

definition earliest :: "gtime list \<Rightarrow> gtime" where "earliest ts = foldr min ts (last ts)"
definition latest :: "gtime list \<Rightarrow> gtime" where "latest ts = foldr max ts (last ts)"

definition calls_since :: "gtime \<Rightarrow> db \<Rightarrow> tool_call list" where
  "calls_since t s = filter (\<lambda>c. t \<le> tc_called_at c) (tool_calls s)"

definition searches_since :: "gtime \<Rightarrow> db \<Rightarrow> search_entry list" where
  "searches_since t s = filter (\<lambda>r. t \<le> sl_searched_at r) (search_logs s)"

definition failed_calls :: "tool_call list \<Rightarrow> nat" where
  "failed_calls rows = counting (\<lambda>c. \<not> tc_ok c) rows"

subsection \<open>Statements\<close>

definition orient_calls :: "string list" where
  "orient_calls = [''get_project_context'', ''get_global_context'']"

definition read_calls :: "string list" where
  "read_calls = orient_calls @ [''get_item'', ''list_items'', ''search'']"

definition write_calls :: "string list" where
  "write_calls = [''create_item'', ''create_items'', ''update_item'', ''complete_item'', ''log_activity'',
     ''update_project_summary'', ''set_project_instructions'', ''create_project'', ''archive_project'',
     ''link_items'', ''unlink_items'', ''add_item_ref'']"

definition entry_calls :: "string list" where
  "entry_calls = orient_calls @ [''list_projects'', ''resolve_project'']"

record tool_stats =
  ts_tool :: string
  ts_calls :: nat
  ts_errors :: nat
  ts_p50 :: rat
  ts_p95 :: rat
  ts_avg_bytes :: rat
  ts_last :: gtime

definition tool_call_stats :: "gtime \<Rightarrow> db \<Rightarrow> tool_stats list" where
  "tool_call_stats t s = sort_key (\<lambda>r. - int (ts_calls r))
     (map (\<lambda>(k, rows). \<lparr>ts_tool = k, ts_calls = length rows, ts_errors = failed_calls rows,
        ts_p50 = percentile_cont (1 / 2) (map tc_duration_ms rows), ts_p95 = percentile_cont (95 / 100) (map tc_duration_ms rows),
        ts_avg_bytes = average (map tc_result_bytes rows), ts_last = latest (map tc_called_at rows)\<rparr>)
       (group_rows tc_tool (calls_since t s)))"

record actor_stats =
  as_actor :: string
  as_calls :: nat
  as_errors :: nat
  as_orient :: nat
  as_write :: nat
  as_search :: nat
  as_p50 :: rat
  as_avg_bytes :: rat
  as_first :: gtime
  as_last :: gtime
  as_top :: "string list"

definition top_tools :: "(string \<Rightarrow> rat) \<Rightarrow> tool_call list \<Rightarrow> string list" where
  "top_tools coll rows = take 5 (map fst (sort_key (\<lambda>(_, n). - int n) (sort_key (\<lambda>(k, _). coll k) (count_by tc_tool rows))))"

definition list_actor_stats :: "(string \<Rightarrow> rat) \<Rightarrow> gtime \<Rightarrow> db \<Rightarrow> actor_stats list" where
  "list_actor_stats coll t s = sort_key (\<lambda>r. - int (as_calls r))
     (map (\<lambda>(k, rows). \<lparr>as_actor = k, as_calls = length rows, as_errors = failed_calls rows,
        as_orient = counting (\<lambda>c. tc_tool c \<in> set entry_calls) rows, as_write = counting (\<lambda>c. tc_tool c \<in> set write_calls) rows,
        as_search = counting (\<lambda>c. tc_tool c = ''search'') rows, as_p50 = percentile_cont (1 / 2) (map tc_duration_ms rows),
        as_avg_bytes = average (map tc_result_bytes rows), as_first = earliest (map tc_called_at rows),
        as_last = latest (map tc_called_at rows), as_top = top_tools coll rows\<rparr>)
       (group_rows tc_actor (calls_since t s)))"

definition daily_tool_calls :: "(gtime \<Rightarrow> gtime) \<Rightarrow> gtime \<Rightarrow> db \<Rightarrow> (gtime \<times> nat \<times> nat) list" where
  "daily_tool_calls day_of t s = sort_key fst (map (\<lambda>(d, rows). (d, length rows, failed_calls rows))
     (group_rows (\<lambda>c. day_of (tc_called_at c)) (calls_since t s)))"

definition top_projects_by_tool_calls :: "gtime \<Rightarrow> db \<Rightarrow> (string \<times> nat) list" where
  "top_projects_by_tool_calls t s = take 10 (sort_key (\<lambda>(_, n). - int n)
     (count_by tc_project (filter (\<lambda>c. tc_project c \<noteq> []) (calls_since t s))))"

definition recent_tool_errors :: "gtime \<Rightarrow> db \<Rightarrow> (string \<times> string \<times> gtime) list" where
  "recent_tool_errors t s = take 10 (map (\<lambda>c. (tc_tool c, tc_error c, tc_called_at c))
     (sort_key (\<lambda>c. - tc_called_at c) (filter (\<lambda>c. \<not> tc_ok c) (calls_since t s))))"

record search_summary =
  ss_searches :: nat
  ss_zero :: nat
  ss_any :: nat
  ss_semantic :: nat
  ss_trigram :: nat
  ss_avg :: rat

definition search_usage_summary :: "gtime \<Rightarrow> db \<Rightarrow> search_summary" where
  "search_usage_summary t s =
     (let rows = searches_since t s
      in \<lparr>ss_searches = length rows, ss_zero = counting (\<lambda>r. sl_returned r = 0 \<and> sl_activity r = 0) rows,
          ss_any = counting (\<lambda>r. sl_fts r = 0 \<and> 0 < sl_fts_any r) rows,
          ss_semantic = counting (\<lambda>r. sl_fts r = 0 \<and> 0 < sl_semantic r) rows,
          ss_trigram = counting (\<lambda>r. sl_fts r = 0 \<and> sl_semantic r = 0 \<and> 0 < sl_trigram r) rows,
          ss_avg = average (map sl_returned rows)\<rparr>)"

definition recent_zero_result_searches :: "gtime \<Rightarrow> db \<Rightarrow> (string \<times> gtime) list" where
  "recent_zero_result_searches t s = take 10 (map (\<lambda>r. (sl_query r, sl_searched_at r))
     (sort_key (\<lambda>r. - sl_searched_at r) (filter (\<lambda>r. sl_returned r = 0 \<and> sl_activity r = 0) (searches_since t s))))"

definition recent_search_log :: "gtime \<Rightarrow> db \<Rightarrow> search_entry list" where
  "recent_search_log t s = sort_key sl_searched_at (searches_since t s)"

record coverage_row =
  cv_items :: nat
  cv_embedded :: nat
  cv_failed :: nat
  cv_activity :: nat
  cv_activity_embedded :: nat

definition high_signal :: "activity \<Rightarrow> bool" where
  "high_signal a = (a_kind a \<in> {''decision'', ''progress'', ''rejected''} \<and> a_body a \<noteq> [])"

definition embedding_coverage :: "db \<Rightarrow> coverage_row" where
  "embedding_coverage s =
     \<lparr>cv_items = counting live (items s), cv_embedded = counting (\<lambda>i. live i \<and> i_embedding i \<noteq> None) (items s),
      cv_failed = counting (\<lambda>i. live i \<and> i_embedding i = None \<and> i_model i = ''failed'') (items s),
      cv_activity = counting high_signal (activities s),
      cv_activity_embedded = sum_list (map (\<lambda>a. counting (\<lambda>r. ae_activity r = a_id a \<and> ae_vector r \<noteq> None) (act_embeddings s))
        (filter high_signal (activities s)))\<rparr>"


text \<open>Per session of the transport: when it first read its context, when it first wrote, and what it reported.\<close>

record session_row =
  sr_orient :: "gtime option"
  sr_write :: "gtime option"
  sr_read :: bool
  sr_impacts :: nat
  sr_calls :: nat

definition first_call :: "string list \<Rightarrow> tool_call list \<Rightarrow> gtime option" where
  "first_call tools rows = (case map tc_called_at (filter (\<lambda>c. tc_tool c \<in> set tools) rows) of [] \<Rightarrow> None | ts \<Rightarrow> Some (earliest ts))"

definition session_row_of :: "tool_call list \<Rightarrow> session_row" where
  "session_row_of rows = \<lparr>sr_orient = first_call orient_calls rows, sr_write = first_call write_calls rows,
     sr_read = list_ex (\<lambda>c. tc_tool c \<in> set read_calls) rows,
     sr_impacts = counting (\<lambda>c. tc_tool c = ''record_context_impact'') rows, sr_calls = length rows\<rparr>"

definition per_session :: "gtime \<Rightarrow> db \<Rightarrow> session_row list" where
  "per_session t s = map (\<lambda>(_, rows). session_row_of rows)
     (group_rows tc_session (filter (\<lambda>c. tc_session c \<noteq> []) (calls_since t s)))"

definition oriented_first :: "session_row \<Rightarrow> bool" where
  "oriented_first r = (case sr_orient r of None \<Rightarrow> False
     | Some o1 \<Rightarrow> (case sr_write r of None \<Rightarrow> True | Some w \<Rightarrow> o1 \<le> w))"

definition wrote_first :: "session_row \<Rightarrow> bool" where
  "wrote_first r = (case sr_write r of None \<Rightarrow> False
     | Some w \<Rightarrow> (case sr_orient r of None \<Rightarrow> True | Some o1 \<Rightarrow> w < o1))"

record session_stats_row =
  st_sessions :: nat
  st_oriented :: nat
  st_wrote_first :: nat
  st_read :: nat
  st_reported :: nat
  st_unread :: nat
  st_impacts :: nat
  st_avg :: rat

definition session_stats :: "gtime \<Rightarrow> db \<Rightarrow> session_stats_row" where
  "session_stats t s = (let rows = per_session t s
     in \<lparr>st_sessions = length rows, st_oriented = counting oriented_first rows, st_wrote_first = counting wrote_first rows,
         st_read = counting sr_read rows, st_reported = counting (\<lambda>r. 0 < sr_impacts r) rows,
         st_unread = counting (\<lambda>r. 0 < sr_impacts r \<and> \<not> sr_read r) rows,
         st_impacts = sum_list (map sr_impacts rows), st_avg = average (map (\<lambda>r. int (sr_calls r)) rows)\<rparr>)"

subsection \<open>The report\<close>

record tool_usage =
  tu_tool :: string
  tu_calls :: nat
  tu_errors :: nat
  tu_p50 :: rat
  tu_p95 :: rat
  tu_avg_kb :: rat
  tu_last :: gtime

record actor_usage =
  au_actor :: string
  au_calls :: nat
  au_errors :: nat
  au_orient :: nat
  au_write :: nat
  au_search :: nat
  au_p50 :: rat
  au_avg_kb :: rat
  au_top :: "string list"
  au_first :: gtime
  au_last :: gtime

record session_usage =
  su_sessions :: nat
  su_oriented :: nat
  su_wrote_first :: nat
  su_read :: nat
  su_reported :: nat
  su_unread :: nat
  su_impacts :: nat
  su_orient_rate :: rat
  su_coverage :: rat
  su_avg :: rat

record effectiveness_usage =
  eu_reported :: nat
  eu_helpful :: nat
  eu_neutral :: nat
  eu_harmful :: nat
  eu_contribution :: rat
  eu_prevented :: nat
  eu_prevented_rate :: rat
  eu_duplicates :: nat
  eu_duplicate_rate :: rat
  eu_harm_rate :: rat
  eu_minutes :: int

record usage_report =
  ur_days :: int
  ur_since :: gtime
  ur_calls :: nat
  ur_errors :: nat
  ur_tools :: "tool_usage list"
  ur_unused :: "string list"
  ur_projects :: "(string \<times> nat) list"
  ur_actors :: "actor_usage list"
  ur_sessions :: session_usage
  ur_daily :: "(string \<times> nat \<times> nat) list"
  ur_recent_errors :: "(string \<times> string \<times> gtime) list"
  ur_search :: search_summary
  ur_zero_queries :: "string list"
  ur_effect :: effectiveness_usage
  ur_embedded :: coverage_row

definition context_impact_rate :: "int \<Rightarrow> int \<Rightarrow> rat" where
  "context_impact_rate n d = (if d = 0 then 0 else of_int n / of_int d)"

definition to_tool_usage :: "tool_stats \<Rightarrow> tool_usage" where
  "to_tool_usage r = \<lparr>tu_tool = ts_tool r, tu_calls = ts_calls r, tu_errors = ts_errors r, tu_p50 = ts_p50 r,
     tu_p95 = ts_p95 r, tu_avg_kb = ts_avg_bytes r / 1024, tu_last = ts_last r\<rparr>"

definition to_actor_usage :: "actor_stats \<Rightarrow> actor_usage" where
  "to_actor_usage r = \<lparr>au_actor = as_actor r, au_calls = as_calls r, au_errors = as_errors r, au_orient = as_orient r,
     au_write = as_write r, au_search = as_search r, au_p50 = as_p50 r, au_avg_kb = as_avg_bytes r / 1024,
     au_top = as_top r, au_first = as_first r, au_last = as_last r\<rparr>"

definition to_session_usage :: "session_stats_row \<Rightarrow> session_usage" where
  "to_session_usage r = \<lparr>su_sessions = st_sessions r, su_oriented = st_oriented r, su_wrote_first = st_wrote_first r,
     su_read = st_read r, su_reported = st_reported r, su_unread = st_unread r, su_impacts = st_impacts r,
     su_orient_rate = context_impact_rate (int (st_oriented r)) (int (st_sessions r)),
     su_coverage = context_impact_rate (int (st_reported r) - int (st_unread r)) (int (st_read r)), su_avg = st_avg r\<rparr>"

definition to_effectiveness :: "effectiveness \<Rightarrow> effectiveness_usage" where
  "to_effectiveness r = (let reported = int (ef_reported r) in
     \<lparr>eu_reported = ef_reported r, eu_helpful = ef_helpful r, eu_neutral = ef_neutral r, eu_harmful = ef_harmful r,
      eu_contribution = context_impact_rate (int (ef_helpful r)) reported, eu_prevented = ef_prevented r,
      eu_prevented_rate = context_impact_rate (int (ef_prevented r)) reported, eu_duplicates = ef_duplicate r,
      eu_duplicate_rate = context_impact_rate (int (ef_duplicate r)) reported,
      eu_harm_rate = context_impact_rate (int (ef_harmful r)) reported, eu_minutes = ef_minutes r\<rparr>)"

record report_env =
  re_coll :: "string \<Rightarrow> rat"
  re_day :: "gtime \<Rightarrow> gtime"
  re_day_name :: "gtime \<Rightarrow> string"

definition report_days :: "int \<Rightarrow> int" where
  "report_days n = (let d = (if n \<le> 0 then 7 else n) in if 90 < d then 90 else d)"

definition build_usage_report :: "report_env \<Rightarrow> int \<Rightarrow> string list \<Rightarrow> gtime \<Rightarrow> db \<Rightarrow> usage_report" where
  "build_usage_report e n known now s =
     (let days = report_days n; since = now - days * day; stats = tool_call_stats since s
      in \<lparr>ur_days = days, ur_since = since, ur_calls = sum_list (map ts_calls stats), ur_errors = sum_list (map ts_errors stats),
          ur_tools = map to_tool_usage stats, ur_unused = filter (\<lambda>k. k \<notin> ts_tool ` set stats) known,
          ur_projects = top_projects_by_tool_calls since s, ur_actors = map to_actor_usage (list_actor_stats (re_coll e) since s),
          ur_sessions = to_session_usage (session_stats since s),
          ur_daily = map (\<lambda>(d, c, x). (re_day_name e d, c, x)) (daily_tool_calls (re_day e) since s),
          ur_recent_errors = recent_tool_errors since s, ur_search = search_usage_summary since s,
          ur_zero_queries = map fst (recent_zero_result_searches since s),
          ur_effect = to_effectiveness (context_effectiveness_summary since s), ur_embedded = embedding_coverage s\<rparr>)"

subsection \<open>The figures of a report agree\<close>

lemma count_groups:
  "sum_list (map (\<lambda>(_, rs). counting p rs) (group_rows key rows)) = counting p rows"
proof -
  have "sum_list (map (\<lambda>k. counting p (filter (\<lambda>r. key r = k) rows)) ks) = counting (\<lambda>r. p r \<and> key r \<in> set ks) rows"
    if "distinct ks" for ks
    using that
  proof (induction ks)
    case Nil
    then show ?case by (simp add: counting_def)
  next
    case (Cons k ks)
    have "length (filter (\<lambda>r. p r \<and> (key r = k \<or> key r \<in> set ks)) rows)
        = length (filter (\<lambda>r. key r = k \<and> p r) rows) + length (filter (\<lambda>r. p r \<and> key r \<in> set ks) rows)"
      using Cons.prems by (induction rows) auto
    then show ?case using Cons by (simp add: counting_def conj_commute)
  qed
  from this[of "remdups (map key rows)"] show ?thesis
    by (simp add: group_rows_def comp_def counting_def cong: filter_cong)
qed

lemma counting_all: "counting (\<lambda>_. True) rows = length rows"
  by (simp add: counting_def)

lemmas length_groups = count_groups[where p = "\<lambda>_. True", unfolded counting_all]

lemma sum_list_sort_key [simp]: "sum_list (map (f :: _ \<Rightarrow> nat) (sort_key k xs)) = sum_list (map f xs)"
proof -
  have m: "sum_list (map f ys) = sum_mset (image_mset f (mset ys))" for ys by (induction ys) auto
  show ?thesis by (simp add: m)
qed

lemma counting_le: "counting p rows \<le> length rows"
  by (simp add: counting_def)

lemma counting_mono: "(\<And>r. r \<in> set rows \<Longrightarrow> p r \<Longrightarrow> q r) \<Longrightarrow> counting p rows \<le> counting q rows"
  unfolding counting_def by (induction rows) auto

lemma counting_split: "counting p rows + counting (\<lambda>r. q r \<and> \<not> p r) rows = counting q rows"
  if "\<And>r. p r \<Longrightarrow> q r"
  unfolding counting_def using that by (induction rows) auto

lemma rate_bounded: "0 \<le> n \<Longrightarrow> n \<le> d \<Longrightarrow> context_impact_rate n d \<in> {0..1}"
  by (auto simp: context_impact_rate_def divide_le_eq_1)


lemma tool_totals:
  "sum_list (map ts_calls (tool_call_stats t s)) = length (calls_since t s)"
  "sum_list (map ts_errors (tool_call_stats t s)) = failed_calls (calls_since t s)"
  using length_groups[of tc_tool "calls_since t s"] count_groups[of "\<lambda>c. \<not> tc_ok c" tc_tool "calls_since t s"]
  by (simp_all add: tool_call_stats_def failed_calls_def comp_def case_prod_unfold)

lemma actor_totals:
  "sum_list (map as_calls (list_actor_stats coll t s)) = length (calls_since t s)"
  "sum_list (map as_errors (list_actor_stats coll t s)) = failed_calls (calls_since t s)"
  using length_groups[of tc_actor "calls_since t s"] count_groups[of "\<lambda>c. \<not> tc_ok c" tc_actor "calls_since t s"]
  by (simp_all add: list_actor_stats_def failed_calls_def comp_def case_prod_unfold)

lemma daily_totals:
  "sum_list (map (\<lambda>(_, n, _). n) (daily_tool_calls day_of t s)) = length (calls_since t s)"
  "sum_list (map (\<lambda>(_, _, x). x) (daily_tool_calls day_of t s)) = failed_calls (calls_since t s)"
  using length_groups[of "\<lambda>c. day_of (tc_called_at c)" "calls_since t s"]
    count_groups[of "\<lambda>c. \<not> tc_ok c" "\<lambda>c. day_of (tc_called_at c)" "calls_since t s"]
  by (simp_all add: daily_tool_calls_def failed_calls_def comp_def case_prod_unfold)

lemma tools_called: "ts_tool ` set (tool_call_stats t s) = tc_tool ` set (calls_since t s)"
  by (auto simp: tool_call_stats_def group_rows_def image_image)

lemma report_days_range: "report_days n \<in> {1..90}"
  by (simp add: report_days_def Let_def)

lemma session_order: "\<not> (oriented_first r \<and> wrote_first r)"
  by (auto simp: oriented_first_def wrote_first_def split: option.splits)

lemma session_stats_fields:
  "st_sessions (session_stats t s) = length (per_session t s)"
  "st_oriented (session_stats t s) = counting oriented_first (per_session t s)"
  "st_wrote_first (session_stats t s) = counting wrote_first (per_session t s)"
  "st_read (session_stats t s) = counting sr_read (per_session t s)"
  "st_reported (session_stats t s) = counting (\<lambda>r. 0 < sr_impacts r) (per_session t s)"
  "st_unread (session_stats t s) = counting (\<lambda>r. 0 < sr_impacts r \<and> \<not> sr_read r) (per_session t s)"
  by (simp_all add: session_stats_def Let_def)

lemma session_bounds:
  "st_oriented (session_stats t s) + st_wrote_first (session_stats t s) \<le> st_sessions (session_stats t s)"
  "st_unread (session_stats t s) \<le> st_reported (session_stats t s)"
  "st_reported (session_stats t s) \<le> st_unread (session_stats t s) + st_read (session_stats t s)"
proof -
  let ?rows = "per_session t s"
  have "counting oriented_first rows + counting wrote_first rows \<le> length rows" for rows
    using session_order by (induction rows) (auto simp: counting_def)
  then show "st_oriented (session_stats t s) + st_wrote_first (session_stats t s) \<le> st_sessions (session_stats t s)"
    by (simp add: session_stats_fields)
  have u: "counting (\<lambda>r. 0 < sr_impacts r \<and> \<not> sr_read r) rows \<le> counting (\<lambda>r. 0 < sr_impacts r) rows" for rows
    by (rule counting_mono) simp
  have r: "counting (\<lambda>r. 0 < sr_impacts r) rows \<le> counting (\<lambda>r. 0 < sr_impacts r \<and> \<not> sr_read r) rows + counting sr_read rows" for rows
    by (induction rows) (auto simp: counting_def)
  show "st_unread (session_stats t s) \<le> st_reported (session_stats t s)"
    using u[of ?rows] by (simp add: session_stats_fields)
  show "st_reported (session_stats t s) \<le> st_unread (session_stats t s) + st_read (session_stats t s)"
    using r[of ?rows] by (simp add: session_stats_fields)
qed

lemma effectiveness_bounds:
  "ef_helpful (context_effectiveness_summary t s) \<le> ef_reported (context_effectiveness_summary t s)"
  "ef_prevented (context_effectiveness_summary t s) \<le> ef_reported (context_effectiveness_summary t s)"
  "ef_duplicate (context_effectiveness_summary t s) \<le> ef_reported (context_effectiveness_summary t s)"
  "ef_harmful (context_effectiveness_summary t s) \<le> ef_reported (context_effectiveness_summary t s)"
  by (simp_all add: context_effectiveness_summary_def Let_def)


text \<open>An error text of more than 500 bytes is cut at byte 500; when the cut splits a character, PostgreSQL refuses
  the row, and the failed call is missing from the report.\<close>

lemma cut_error_unrecorded:
  assumes "500 < length (ob_err c)" and "\<not> text_ok (take 500 (ob_err c))"
  shows "record_tool_call parse enabled session c now s = s"
  using assms by (simp add: record_tool_call_def insert_tool_call_def with_tx_def split: option.split)

end
