(* ===== verification/Mcp.thy ===== *)
theory Mcp
  imports Usage
begin

text \<open>
  The tools that agents call (\<open>internal/mcp/server.go\<close>): each decodes its input, resolves slugs and item handles
  and runs an operation of the service or a statement; and what wraps every call: the nudges of a session's first
  write and the record for usage analytics. The SDK that decodes the requests is an argument, like the texts of the
  nudges.
\<close>

subsection \<open>Helpers\<close>

record mcp_env =
  me_api :: api_env
  me_orient :: orient_env
  me_search :: search_env
  me_faults :: search_faults
  me_embed :: embedding
  me_finger :: "impact_input \<Rightarrow> string"
  me_report :: report_env
  me_notice :: string
  me_other :: "db \<Rightarrow> db"

record caller =
  cl_identity :: "identity option"
  cl_session :: string

text \<open>Sessions that have been seen. Past the bound the set is emptied, the new session with it.\<close>

record session_set =
  ss_members :: "string list"
  ss_count :: nat

definition session_set_max :: nat where "session_set_max = 10000"

definition session_add :: "string \<Rightarrow> session_set \<Rightarrow> bool \<times> session_set" where
  "session_add sid st =
     (if sid = [] \<or> sid \<in> set (ss_members st) then (False, st)
      else if session_set_max < ss_count st + 1 then (True, \<lparr>ss_members = [], ss_count = 0\<rparr>)
      else (True, \<lparr>ss_members = sid # ss_members st, ss_count = ss_count st + 1\<rparr>))"

definition session_has :: "string \<Rightarrow> session_set \<Rightarrow> bool" where
  "session_has sid st = (sid \<in> set (ss_members st))"

record mcp_state =
  ms_db :: db
  ms_cache :: ttl_cache
  ms_nudged :: session_set
  ms_oriented :: session_set

definition opt_of :: "string option \<Rightarrow> string option" where
  "opt_of p = (case p of None \<Rightarrow> None | Some x \<Rightarrow> if x = [] then None else Some x)"

text \<open>Metadata is decoded into a map and encoded again; an empty one is absent.\<close>

definition meta_json :: "(json \<Rightarrow> json) \<Rightarrow> (string \<times> json) list \<Rightarrow> json option" where
  "meta_json rnd kvs = (let m = json_fields (map (\<lambda>(k, v). (k, rnd v)) kvs) in if m = [] then None else Some (JObj m))"

definition criteria_json :: "criterion list \<Rightarrow> json option" where
  "criteria_json cs = (if cs = [] then None
     else Some (JArr (map (\<lambda>c. JObj ((''text'', JStr (cr_text c)) # (if cr_done c then [(''done'', JBool True)] else []))) cs)))"

definition mcp_project :: "string \<Rightarrow> db \<Rightarrow> error + uuid" where
  "mcp_project slug s = (case find_slug slug s of Inl _ \<Rightarrow> Inl (ErrText ''project not found'') | Inr p \<Rightarrow> Inr (p_id p))"

definition resolve_item_ref :: "api_env \<Rightarrow> string \<Rightarrow> db \<Rightarrow> error + uuid" where
  "resolve_item_ref e ref s =
     (case ae_parse e ref of
        Some x \<Rightarrow> Inr x
      | None \<Rightarrow> (case get_item_by_ref (ae_lower e) ref s of
                   Inl _ \<Rightarrow> Inl (ErrText ''no item with id or ref'') | Inr (i, _) \<Rightarrow> Inr (i_id i)))"

definition verbosity_of :: "string option \<Rightarrow> string" where
  "verbosity_of p = (if p = Some verbosity_full then verbosity_full else verbosity_compact)"

text \<open>The optional project of a filter.\<close>

definition mcp_filter :: "string option \<Rightarrow> db \<Rightarrow> error + uuid option" where
  "mcp_filter p s = (case opt_of p of None \<Rightarrow> Inr None
     | Some slug \<Rightarrow> (case mcp_project slug s of Inl er \<Rightarrow> Inl er | Inr x \<Rightarrow> Inr (Some x)))"

definition attempt :: "(error + 'a) \<Rightarrow> ('a \<Rightarrow> (error + 'b) \<times> 's) \<Rightarrow> 's \<Rightarrow> (error + 'b) \<times> 's" where
  "attempt m f st = (case m of Inl er \<Rightarrow> (Inl er, st) | Inr x \<Rightarrow> f x)"

definition refused :: "string option \<Rightarrow> error + unit" where
  "refused v = (case v of None \<Rightarrow> Inr () | Some msg \<Rightarrow> Inl (ErrText msg))"

text \<open>A write of the store, which leaves the cache alone, and one of the service, which clears it when it commits.\<close>

definition store_write :: "mcp_state \<Rightarrow> (error + 'a) \<times> db \<Rightarrow> (error + 'a) \<times> mcp_state" where
  "store_write st w = (fst w, st\<lparr>ms_db := snd w\<rparr>)"

definition service_write :: "mcp_state \<Rightarrow> (error + 'a) \<times> db \<Rightarrow> (error + 'a) \<times> mcp_state" where
  "service_write st w = (fst w, st\<lparr>ms_db := snd w,
     ms_cache := (case fst w of Inl _ \<Rightarrow> ms_cache st | Inr _ \<Rightarrow> cache_clear (ms_cache st))\<rparr>)"

definition map_out :: "('a \<Rightarrow> 'b) \<Rightarrow> (error + 'a) \<times> 's \<Rightarrow> (error + 'b) \<times> 's" where
  "map_out f w = (map_sum id f (fst w), snd w)"

subsection \<open>Reading tools\<close>

text \<open>The two shapes of a project listing.\<close>

datatype project_listing = FullListing "project_dto list" | BriefListing "project_brief list"

definition mcp_list_projects :: "string option \<Rightarrow> string option \<Rightarrow> db \<Rightarrow> project_listing" where
  "mcp_list_projects st v s =
     (let ps = list_projects (opt_of st) s
      in if verbosity_of v = verbosity_full then FullListing (map to_project ps) else BriefListing (map to_project_list_brief ps))"

definition mcp_get_project_context :: "mcp_env \<Rightarrow> string \<Rightarrow> string option \<Rightarrow> gtime \<Rightarrow> mcp_state
    \<Rightarrow> (error + project_context) served \<times> mcp_state" where
  "mcp_get_project_context e slug v now st =
     (case project_context_read (me_orient e) slug (verbosity_of v) now (ms_db st) (ms_cache st) of
        (Panicked, c) \<Rightarrow> (Panicked, st\<lparr>ms_cache := c\<rparr>)
      | (Served (Inl er), c) \<Rightarrow> (Served (Inl er), st\<lparr>ms_cache := c\<rparr>)
      | (Served (Inr b), c) \<Rightarrow>
          (Served (Inr (if me_notice e \<noteq> [] then b\<lparr>cx_nudges := cx_nudges b @ [me_notice e]\<rparr> else b)), st\<lparr>ms_cache := c\<rparr>))"

definition mcp_get_global_context :: "mcp_env \<Rightarrow> string option \<Rightarrow> gtime \<Rightarrow> mcp_state
    \<Rightarrow> (project_overview list \<times> string list) served \<times> mcp_state" where
  "mcp_get_global_context e v now st =
     (case global_context_read (me_orient e) (verbosity_of v) now (ms_db st) (ms_cache st) of
        (Panicked, c) \<Rightarrow> (Panicked, st\<lparr>ms_cache := c\<rparr>)
      | (Served b, c) \<Rightarrow> (Served (b, if me_notice e \<noteq> [] then [me_notice e] else []), st\<lparr>ms_cache := c\<rparr>))"

record search_in =
  si_query :: string
  si_project :: "string option"
  si_type :: "string option"
  si_limit :: "int option"
  si_verbosity :: "string option"

definition mcp_search :: "mcp_env \<Rightarrow> caller \<Rightarrow> search_in \<Rightarrow> gtime \<Rightarrow> db \<Rightarrow> (error + (item_dto list \<times> activity_dto list)) \<times> db" where
  "mcp_search e cl i now s =
     attempt (mcp_filter (si_project i) s) (\<lambda>pr.
       let n = (case si_limit i of None \<Rightarrow> None | Some k \<Rightarrow> if 0 < k then Some (to_int32 k) else None);
           (item_max, act_max) = body_limits (verbosity_of (si_verbosity i))
       in search_logged (me_search e) (me_faults e) (me_embed e)
            \<lparr>sp_q = si_query i, sp_project = pr, sp_type = opt_of (si_type i), sp_lim = n\<rparr> item_max act_max
            (actor_of (cl_identity cl)) (cl_session cl) now s) s"

record list_items_in =
  li_project :: "string option"
  li_status :: "string option"
  li_type :: "string option"
  li_assignee :: "string option"
  li_tag :: "string option"
  li_since :: "string option"
  li_limit :: "int option"
  li_cursor :: "int option"
  li_verbosity :: "string option"

definition page_limit :: "int option \<Rightarrow> int" where
  "page_limit v = (let n = (case v of None \<Rightarrow> 50 | Some k \<Rightarrow> if 0 < k then k else 50) in if 500 < n then 500 else n)"

definition page_offset :: "int option \<Rightarrow> int" where
  "page_offset v = (case v of None \<Rightarrow> 0 | Some k \<Rightarrow> if 0 < k then k else 0)"

definition updated_since :: "api_env \<Rightarrow> string option \<Rightarrow> error + gtime option" where
  "updated_since e v = (case opt_of v of None \<Rightarrow> Inr None
     | Some x \<Rightarrow> (case ae_time e x of None \<Rightarrow> Inl (ErrText ''invalid updated_since'') | Some t \<Rightarrow> Inr (Some t)))"

text \<open>One row more than the page is fetched to see whether there is another page. PostgreSQL refuses a negative
  offset.\<close>

definition mcp_list_items :: "mcp_env \<Rightarrow> list_items_in \<Rightarrow> db \<Rightarrow> error + (item_dto list \<times> int option)" where
  "mcp_list_items e i s =
     (case mcp_filter (li_project i) s of
        Inl er \<Rightarrow> Inl er
      | Inr pr \<Rightarrow>
         (case updated_since (me_api e) (li_since i) of
            Inl er \<Rightarrow> Inl er
          | Inr since \<Rightarrow>
             (let n = page_limit (li_limit i); k = page_offset (li_cursor i); fetch = to_int32 (n + 1); off = to_int32 k
              in if off < 0 then Inl (ErrText ''OFFSET must not be negative'')
                 else (let rows = list_items_rows (ae_fts (me_api e))
                             \<lparr>lp_project = pr, lp_status = opt_of (li_status i), lp_type = opt_of (li_type i),
                              lp_assignee = opt_of (li_assignee i), lp_tag = opt_of (li_tag i), lp_since = since,
                              lp_q = None, lp_off = Some off, lp_lim = Some fetch\<rparr> s;
                           more = n < int (length rows);
                           item_max = fst (body_limits (verbosity_of (li_verbosity i)))
                       in Inr (to_items_trunc (oe_round (me_orient e)) item_max (if more then take (nat n) rows else rows),
                               if more then Some (k + n) else None)))))"

definition mcp_get_item :: "mcp_env \<Rightarrow> string \<Rightarrow> db \<Rightarrow> error + item_dto" where
  "mcp_get_item e ref s =
     (case resolve_item_ref (me_api e) ref s of
        Inl er \<Rightarrow> Inl er
      | Inr x \<Rightarrow> (case get_item x s of
                    Inl er \<Rightarrow> Inl er
                  | Inr (i, _) \<Rightarrow> Inr ((to_item_trunc (oe_round (me_orient e)) 0 i)
                      \<lparr>d_attachments := list_attachments_for_item (i_id i) s\<rparr>)))"

definition mcp_list_item_refs :: "mcp_env \<Rightarrow> string \<Rightarrow> db \<Rightarrow> error + item_ref list" where
  "mcp_list_item_refs e ref s =
     (case resolve_item_ref (me_api e) ref s of Inl er \<Rightarrow> Inl er | Inr x \<Rightarrow> Inr (list_item_refs x s))"

definition mcp_resolve_project :: "mcp_env \<Rightarrow> string \<Rightarrow> db \<Rightarrow> error + project_dto" where
  "mcp_resolve_project e path s = map_sum id to_project (resolve_project (ae_lower (me_api e)) path s)"

subsection \<open>Writing tools\<close>

record create_item_in =
  ci_project :: string
  ci_type :: "string option"
  ci_title :: string
  ci_body :: "string option"
  ci_priority :: "string option"
  ci_status :: "string option"
  ci_tags :: "string list option"
  ci_metadata :: "(string \<times> json) list"
  ci_key :: "string option"
  ci_criteria :: "criterion list"

definition mcp_create_params :: "mcp_env \<Rightarrow> create_item_in \<Rightarrow> uuid \<Rightarrow> create_params" where
  "mcp_create_params e i pr = \<lparr>cp_project = pr, cp_type = opt_of (ci_type i), cp_title = ci_title i, cp_body = opt_of (ci_body i),
     cp_status = opt_of (ci_status i), cp_priority = opt_of (ci_priority i), cp_assignee = None, cp_position = None,
     cp_source = Some ''agent'', cp_external_ref = None, cp_tags = ci_tags i,
     cp_metadata = meta_json (oe_round (me_orient e)) (ci_metadata i), cp_key = opt_of (ci_key i),
     cp_criteria = criteria_json (ci_criteria i)\<rparr>"

text \<open>The parameters of one item, after the checks.\<close>

definition checked_params :: "mcp_env \<Rightarrow> db \<Rightarrow> create_item_in \<Rightarrow> error + create_params" where
  "checked_params e s i =
     (case validate_item_fields (ci_type i) (ci_status i) (ci_priority i) of
        Some msg \<Rightarrow> Inl (ErrText msg)
      | None \<Rightarrow> (case mcp_project (ci_project i) s of Inl er \<Rightarrow> Inl er | Inr pr \<Rightarrow> Inr (mcp_create_params e i pr)))"

text \<open>A creation that finds its key taken commits nothing, so it does not clear the cache.\<close>

definition key_found :: "create_params \<Rightarrow> db \<Rightarrow> bool" where
  "key_found p s = (has_key p \<and> \<not> isl (get_item_by_key (cp_project p) (cp_key p) s))"

definition creation_commits :: "(db \<Rightarrow> db) \<Rightarrow> create_params \<Rightarrow> string \<Rightarrow> gtime \<Rightarrow> db \<Rightarrow> bool" where
  "creation_commits other p actor now s = (\<not> key_found p s \<and> \<not> isl (fst (with_tx now (create_item_tx p actor) (other s))))"

definition mcp_create_item :: "mcp_env \<Rightarrow> caller \<Rightarrow> create_item_in \<Rightarrow> gtime \<Rightarrow> mcp_state \<Rightarrow> (error + item_dto) \<times> mcp_state" where
  "mcp_create_item e cl i now st =
     attempt (checked_params e (ms_db st) i) (\<lambda>p.
       let actor = actor_of (cl_identity cl); w = create_item (me_other e) p actor now (ms_db st)
       in map_out (to_item_trunc (oe_round (me_orient e)) 0)
            (if creation_commits (me_other e) p actor now (ms_db st) then service_write st w else store_write st w)) st"

fun all_params :: "mcp_env \<Rightarrow> db \<Rightarrow> create_item_in list \<Rightarrow> error + create_params list" where
  "all_params e s [] = Inr []"
| "all_params e s (i # is) =
     (case checked_params e s i of
        Inl er \<Rightarrow> Inl er
      | Inr p \<Rightarrow> (case all_params e s is of Inl er \<Rightarrow> Inl er | Inr ps \<Rightarrow> Inr (p # ps)))"

definition mcp_create_items :: "mcp_env \<Rightarrow> caller \<Rightarrow> create_item_in list \<Rightarrow> gtime \<Rightarrow> mcp_state \<Rightarrow> (error + item_dto list) \<times> mcp_state" where
  "mcp_create_items e cl is now st =
     (if is = [] then (Inl (ErrText ''items is required''), st)
      else attempt (all_params e (ms_db st) is) (\<lambda>ps.
        map_out (to_items_trunc (oe_round (me_orient e)) 0)
          (service_write st (bulk_create_items ps (actor_of (cl_identity cl)) now (ms_db st)))) st)"

record update_item_in =
  ui_item :: string
  ui_title :: "string option"
  ui_type :: "string option"
  ui_status :: "string option"
  ui_priority :: "string option"
  ui_assignee :: "string option"
  ui_body :: "string option"
  ui_tags :: "string list option"
  ui_position :: "rat option"
  ui_metadata :: "(string \<times> json) list"
  ui_criteria :: "criterion list"
  ui_expected :: "int option"

definition mcp_update_item :: "mcp_env \<Rightarrow> caller \<Rightarrow> update_item_in \<Rightarrow> gtime \<Rightarrow> mcp_state \<Rightarrow> (error + item_dto) \<times> mcp_state" where
  "mcp_update_item e cl i now st =
     attempt (refused (validate_item_fields (ui_type i) (ui_status i) (ui_priority i))) (\<lambda>_.
     attempt (resolve_item_ref (me_api e) (ui_item i) (ms_db st)) (\<lambda>x.
       map_out (to_item_trunc (oe_round (me_orient e)) 0) (service_write st
         (update_item \<lparr>up_title = opt_of (ui_title i), up_body = ui_body i, up_type = opt_of (ui_type i),
            up_status = opt_of (ui_status i), up_priority = opt_of (ui_priority i), up_assignee = ui_assignee i,
            up_position = ui_position i, up_tags = ui_tags i, up_metadata = meta_json (oe_round (me_orient e)) (ui_metadata i),
            up_criteria = criteria_json (ui_criteria i), up_id = x, up_expected = map_option to_int32 (ui_expected i)\<rparr>
            (actor_of (cl_identity cl)) now (ms_db st)))) st) st"

record log_activity_in =
  la_project :: string
  la_item :: "string option"
  la_kind :: string
  la_body :: string
  la_confidence :: "string option"
  la_metadata :: "(string \<times> json) list"

definition optional_item :: "api_env \<Rightarrow> string option \<Rightarrow> db \<Rightarrow> error + uuid option" where
  "optional_item e v s = (case opt_of v of None \<Rightarrow> Inr None
     | Some ref \<Rightarrow> (case resolve_item_ref e ref s of Inl er \<Rightarrow> Inl er | Inr x \<Rightarrow> Inr (Some x)))"

definition mcp_log_activity :: "mcp_env \<Rightarrow> caller \<Rightarrow> log_activity_in \<Rightarrow> gtime \<Rightarrow> mcp_state \<Rightarrow> (error + activity_dto) \<times> mcp_state" where
  "mcp_log_activity e cl i now st =
     attempt (refused (validate_activity_kind (Some (la_kind i)))) (\<lambda>_.
     attempt (refused (validate_confidence (la_confidence i))) (\<lambda>_.
     attempt (mcp_project (la_project i) (ms_db st)) (\<lambda>pr.
     attempt (optional_item (me_api e) (la_item i) (ms_db st)) (\<lambda>it.
       map_out (to_activity (oe_round (me_orient e))) (service_write st
         (log_activity \<lparr>ap_project = pr, ap_item = it, ap_kind = Some (la_kind i), ap_actor = Some (actor_of (cl_identity cl)),
            ap_body = Some (la_body i), ap_metadata = meta_json (oe_round (me_orient e)) (la_metadata i),
            ap_confidence = opt_of (la_confidence i)\<rparr> now (ms_db st)))) st) st) st) st"

text \<open>The session of a report is the one it names, or that of the transport.\<close>

record impact_in =
  ii_session :: "string option"
  ii_input :: impact_input

definition mcp_impact_env :: "mcp_env \<Rightarrow> impact_env" where
  "mcp_impact_env e = \<lparr>ie_parse = ae_parse (me_api e), ie_lower = ae_lower (me_api e), ie_finger = me_finger e\<rparr>"

definition impact_session :: "caller \<Rightarrow> impact_in \<Rightarrow> string" where
  "impact_session cl i = coalesce (opt_of (ii_session i)) (cl_session cl)"

definition mcp_record_context_impact :: "mcp_env \<Rightarrow> caller \<Rightarrow> impact_in \<Rightarrow> gtime \<Rightarrow> mcp_state \<Rightarrow> (error + impact) \<times> mcp_state" where
  "mcp_record_context_impact e cl i now st =
     (case cl_identity cl of
        None \<Rightarrow> (Inl (ErrInvalidContextImpact ''authenticated actor is required''), st)
      | Some idn \<Rightarrow>
         (if id_name idn = [] then (Inl (ErrInvalidContextImpact ''authenticated actor is required''), st)
          else if impact_session cl i = []
          then (Inl (ErrInvalidContextImpact ''session_id is required when the transport has no session''), st)
          else map_out fst (store_write st (record_context_impact (mcp_impact_env e) (me_other e)
                 ((ii_input i)\<lparr>in_session := impact_session cl i\<rparr>) (id_name idn) now (ms_db st)))))"

definition mcp_update_project_summary :: "string \<Rightarrow> string \<Rightarrow> gtime \<Rightarrow> mcp_state \<Rightarrow> (error + project_dto) \<times> mcp_state" where
  "mcp_update_project_summary slug summary now st =
     map_out to_project (store_write st (with_tx now (update_project_summary slug summary) (ms_db st)))"

record create_project_in =
  cj_params :: project_params
  cj_parent :: "string option"

text \<open>Empty texts are absent ones.\<close>

definition project_params_of :: "project_params \<Rightarrow> project_params" where
  "project_params_of a = a\<lparr>pp_status := opt_of (pp_status a), pp_summary := opt_of (pp_summary a),
     pp_instructions := opt_of (pp_instructions a), pp_repo_url := opt_of (pp_repo_url a), pp_site_url := opt_of (pp_site_url a)\<rparr>"

definition mcp_create_project :: "create_project_in \<Rightarrow> gtime \<Rightarrow> mcp_state \<Rightarrow> (error + project_dto) \<times> mcp_state" where
  "mcp_create_project i now st =
     (let a = cj_params i in
      if pp_slug a = [] \<or> pp_name a = [] then (Inl (ErrText ''slug and name are required''), st)
      else attempt (refused (validate_project_status (pp_status a))) (\<lambda>_.
        map_out to_project (store_write st (create_with_parent (project_params_of a) (cj_parent i) now (ms_db st)))) st)"

definition mcp_complete_item :: "mcp_env \<Rightarrow> caller \<Rightarrow> string \<Rightarrow> string \<Rightarrow> string option \<Rightarrow> gtime \<Rightarrow> mcp_state
    \<Rightarrow> (error + item_dto) \<times> mcp_state" where
  "mcp_complete_item e cl ref why summary now st =
     attempt (resolve_item_ref (me_api e) ref (ms_db st)) (\<lambda>x.
       map_out (to_item_trunc (oe_round (me_orient e)) 0) (service_write st
         (complete_item x why (coalesce summary []) (actor_of (cl_identity cl)) now (ms_db st)))) st"

definition instructions_nudge_chars :: nat where "instructions_nudge_chars = 3000"

text \<open>The nudge states the length of the instructions.\<close>

definition mcp_set_project_instructions :: "string \<Rightarrow> string \<Rightarrow> gtime \<Rightarrow> mcp_state \<Rightarrow> (error + (project_dto \<times> nat option)) \<times> mcp_state" where
  "mcp_set_project_instructions slug x now st =
     map_out (\<lambda>p. (to_project p, if instructions_nudge_chars < length x then Some (length x) else None))
       (store_write st (with_tx now (set_project_instructions slug x) (ms_db st)))"

definition mcp_archive_project :: "string \<Rightarrow> gtime \<Rightarrow> mcp_state \<Rightarrow> (error + unit) \<times> mcp_state" where
  "mcp_archive_project slug now st = map_out (\<lambda>_. ()) (service_write st (archive_project slug now (ms_db st)))"

definition mcp_link_items :: "mcp_env \<Rightarrow> link_req \<Rightarrow> gtime \<Rightarrow> mcp_state \<Rightarrow> (error + item_link) \<times> mcp_state" where
  "mcp_link_items e i now st =
     attempt (refused (validate_link_kind (Some (lq_kind i)))) (\<lambda>_.
     attempt (resolve_item_ref (me_api e) (lq_from i) (ms_db st)) (\<lambda>f.
     attempt (resolve_item_ref (me_api e) (lq_to i) (ms_db st)) (\<lambda>t.
       store_write st (link_items f t (lq_kind i) now (ms_db st))) st) st) st"

definition mcp_unlink_items :: "mcp_env \<Rightarrow> string \<Rightarrow> gtime \<Rightarrow> mcp_state \<Rightarrow> (error + unit) \<times> mcp_state" where
  "mcp_unlink_items e raw now st =
     (case ae_parse (me_api e) raw of
        None \<Rightarrow> (Inl (ErrText ''invalid id''), st)
      | Some x \<Rightarrow> store_write st (delete_link x now (ms_db st)))"

record add_ref_in =
  ar_item :: string
  ar_kind :: "string option"
  ar_ref :: string
  ar_label :: "string option"

definition mcp_add_item_ref :: "mcp_env \<Rightarrow> add_ref_in \<Rightarrow> gtime \<Rightarrow> mcp_state \<Rightarrow> (error + item_ref) \<times> mcp_state" where
  "mcp_add_item_ref e i now st =
     attempt (refused (validate_ref_kind (ar_kind i))) (\<lambda>_.
     attempt (resolve_item_ref (me_api e) (ar_item i) (ms_db st)) (\<lambda>x.
       store_write st (add_item_ref x (coalesce (ar_kind i) []) (ar_ref i) (coalesce (ar_label i) []) now (ms_db st))) st) st"

subsection \<open>Every tool\<close>

datatype tool_in =
    ListProjects "string option" "string option"
  | GetProjectContext string "string option"
  | GetGlobalContext "string option"
  | SearchAll search_in
  | ListItems list_items_in
  | GetItem string
  | CreateItem create_item_in
  | CreateItems "create_item_in list"
  | UpdateItem update_item_in
  | LogActivity log_activity_in
  | RecordContextImpact impact_in
  | UpdateProjectSummary string string
  | CreateProject create_project_in
  | ResolveProject string
  | CompleteItem string string "string option"
  | SetProjectInstructions string string
  | ArchiveProject string
  | LinkItems link_req
  | UnlinkItems string
  | AddItemRef add_ref_in
  | ListItemRefs string
  | ReportUsage "int option"

datatype tool_out =
    OutProjects project_listing
  | OutContext project_context
  | OutGlobal "project_overview list" "string list"
  | OutSearch string "item_dto list" "activity_dto list"
  | OutPage "item_dto list" "int option"
  | OutItem item_dto
  | OutItems "item_dto list"
  | OutActivity activity_dto
  | OutImpact impact
  | OutProject project_dto "nat option"
  | OutOk
  | OutLink item_link
  | OutRef item_ref
  | OutRefs "item_ref list"
  | OutReport usage_report

primrec tool_name :: "tool_in \<Rightarrow> string" where
  "tool_name (ListProjects st v) = ''list_projects''"
| "tool_name (GetProjectContext slug v) = ''get_project_context''"
| "tool_name (GetGlobalContext v) = ''get_global_context''"
| "tool_name (SearchAll i) = ''search''"
| "tool_name (ListItems i) = ''list_items''"
| "tool_name (GetItem r) = ''get_item''"
| "tool_name (CreateItem i) = ''create_item''"
| "tool_name (CreateItems is) = ''create_items''"
| "tool_name (UpdateItem i) = ''update_item''"
| "tool_name (LogActivity i) = ''log_activity''"
| "tool_name (RecordContextImpact i) = ''record_context_impact''"
| "tool_name (UpdateProjectSummary slug x) = ''update_project_summary''"
| "tool_name (CreateProject i) = ''create_project''"
| "tool_name (ResolveProject p) = ''resolve_project''"
| "tool_name (CompleteItem r w x) = ''complete_item''"
| "tool_name (SetProjectInstructions slug x) = ''set_project_instructions''"
| "tool_name (ArchiveProject slug) = ''archive_project''"
| "tool_name (LinkItems i) = ''link_items''"
| "tool_name (UnlinkItems r) = ''unlink_items''"
| "tool_name (AddItemRef i) = ''add_item_ref''"
| "tool_name (ListItemRefs r) = ''list_item_refs''"
| "tool_name (ReportUsage d) = ''usage_report''"

definition tool_names :: "string list" where
  "tool_names = [''list_projects'', ''get_project_context'', ''get_global_context'', ''search'', ''list_items'', ''get_item'',
     ''create_item'', ''create_items'', ''update_item'', ''log_activity'', ''record_context_impact'', ''update_project_summary'',
     ''create_project'', ''resolve_project'', ''complete_item'', ''set_project_instructions'', ''archive_project'',
     ''link_items'', ''unlink_items'', ''add_item_ref'', ''list_item_refs'', ''usage_report'']"

type_synonym tool_result = "(error + tool_out) served \<times> mcp_state"

definition reading :: "mcp_state \<Rightarrow> error + tool_out \<Rightarrow> tool_result" where
  "reading st r = (Served r, st)"

definition writing :: "('a \<Rightarrow> tool_out) \<Rightarrow> (error + 'a) \<times> mcp_state \<Rightarrow> tool_result" where
  "writing f w = (Served (map_sum id f (fst w)), snd w)"

fun run_tool :: "mcp_env \<Rightarrow> caller \<Rightarrow> tool_in \<Rightarrow> gtime \<Rightarrow> mcp_state \<Rightarrow> tool_result" where
  "run_tool e cl (ListProjects x v) now st = reading st (Inr (OutProjects (mcp_list_projects x v (ms_db st))))"
| "run_tool e cl (GetProjectContext slug v) now st =
     (case mcp_get_project_context e slug v now st of
        (Panicked, st') \<Rightarrow> (Panicked, st') | (Served r, st') \<Rightarrow> (Served (map_sum id OutContext r), st'))"
| "run_tool e cl (GetGlobalContext v) now st =
     (case mcp_get_global_context e v now st of
        (Panicked, st') \<Rightarrow> (Panicked, st') | (Served (b, ns), st') \<Rightarrow> (Served (Inr (OutGlobal b ns)), st'))"
| "run_tool e cl (SearchAll i) now st =
     writing (\<lambda>(its, acts). OutSearch (si_query i) its acts) (store_write st (mcp_search e cl i now (ms_db st)))"
| "run_tool e cl (ListItems i) now st = reading st (map_sum id (\<lambda>(its, nx). OutPage its nx) (mcp_list_items e i (ms_db st)))"
| "run_tool e cl (GetItem r) now st = reading st (map_sum id OutItem (mcp_get_item e r (ms_db st)))"
| "run_tool e cl (CreateItem i) now st = writing OutItem (mcp_create_item e cl i now st)"
| "run_tool e cl (CreateItems is) now st = writing OutItems (mcp_create_items e cl is now st)"
| "run_tool e cl (UpdateItem i) now st = writing OutItem (mcp_update_item e cl i now st)"
| "run_tool e cl (LogActivity i) now st = writing OutActivity (mcp_log_activity e cl i now st)"
| "run_tool e cl (RecordContextImpact i) now st = writing OutImpact (mcp_record_context_impact e cl i now st)"
| "run_tool e cl (UpdateProjectSummary slug x) now st = writing (\<lambda>p. OutProject p None) (mcp_update_project_summary slug x now st)"
| "run_tool e cl (CreateProject i) now st = writing (\<lambda>p. OutProject p None) (mcp_create_project i now st)"
| "run_tool e cl (ResolveProject p) now st = reading st (map_sum id (\<lambda>d. OutProject d None) (mcp_resolve_project e p (ms_db st)))"
| "run_tool e cl (CompleteItem r w x) now st = writing OutItem (mcp_complete_item e cl r w x now st)"
| "run_tool e cl (SetProjectInstructions slug x) now st = writing (\<lambda>(p, n). OutProject p n) (mcp_set_project_instructions slug x now st)"
| "run_tool e cl (ArchiveProject slug) now st = writing (\<lambda>_. OutOk) (mcp_archive_project slug now st)"
| "run_tool e cl (LinkItems i) now st = writing OutLink (mcp_link_items e i now st)"
| "run_tool e cl (UnlinkItems r) now st = writing (\<lambda>_. OutOk) (mcp_unlink_items e r now st)"
| "run_tool e cl (AddItemRef i) now st = writing OutRef (mcp_add_item_ref e i now st)"
| "run_tool e cl (ListItemRefs r) now st = reading st (map_sum id OutRefs (mcp_list_item_refs e r (ms_db st)))"
| "run_tool e cl (ReportUsage d) now st =
     reading st (Inr (OutReport (build_usage_report (me_report e) (coalesce d 7) tool_names now (ms_db st))))"

subsection \<open>What wraps a call\<close>

definition write_tools :: "string list" where
  "write_tools = [''create_item'', ''create_items'', ''update_item'', ''complete_item'', ''log_activity'',
     ''update_project_summary'', ''set_project_instructions'', ''create_project'', ''archive_project'', ''link_items'',
     ''unlink_items'', ''add_item_ref'']"

definition orient_tools :: "string list" where
  "orient_tools = [''get_project_context'', ''get_global_context'']"

text \<open>The top-level project or slug of an input, or the project of its first item.\<close>

fun named_project :: "tool_in \<Rightarrow> string" where
  "named_project (CreateItem i) = ci_project i"
| "named_project (CreateItems (i # is)) = ci_project i"
| "named_project (LogActivity i) = la_project i"
| "named_project (UpdateProjectSummary slug x) = slug"
| "named_project (SetProjectInstructions slug x) = slug"
| "named_project (CreateProject i) = pp_slug (cj_params i)"
| "named_project (ArchiveProject slug) = slug"
| "named_project (RecordContextImpact i) = in_project (ii_input i)"
| "named_project (SearchAll i) = coalesce (si_project i) []"
| "named_project (ListItems i) = coalesce (li_project i) []"
| "named_project (GetProjectContext slug v) = slug"
| "named_project _ = []"

datatype orient_call = CallGlobal | CallProject string
datatype nudge = ImpactNudge | OrientNudge orient_call

definition orient_hint :: "tool_in \<Rightarrow> orient_call" where
  "orient_hint i = (if named_project i = [] then CallGlobal else CallProject (named_project i))"

definition call_nudges :: "caller \<Rightarrow> tool_in \<Rightarrow> mcp_state \<Rightarrow> nudge list \<times> mcp_state" where
  "call_nudges cl i st =
     (let sid = cl_session cl;
          st1 = (if tool_name i \<in> set orient_tools then st\<lparr>ms_oriented := snd (session_add sid (ms_oriented st))\<rparr> else st)
      in if tool_name i \<in> set write_tools
         then (case session_add sid (ms_nudged st1) of
                 (False, ns) \<Rightarrow> ([], st1\<lparr>ms_nudged := ns\<rparr>)
               | (True, ns) \<Rightarrow>
                   (ImpactNudge # (if sid \<noteq> [] \<and> \<not> session_has sid (ms_oriented st1) then [OrientNudge (orient_hint i)] else []),
                    st1\<lparr>ms_nudged := ns\<rparr>))
         else ([], st1))"

definition call_tool :: "mcp_env \<Rightarrow> caller \<Rightarrow> tool_in \<Rightarrow> gtime \<Rightarrow> mcp_state \<Rightarrow> (error + (tool_out \<times> nudge list)) served \<times> mcp_state" where
  "call_tool e cl i now st =
     (case run_tool e cl i now st of
        (Panicked, st') \<Rightarrow> (Panicked, st')
      | (Served (Inl er), st') \<Rightarrow> (Served (Inl er), st')
      | (Served (Inr out), st') \<Rightarrow> (case call_nudges cl i st' of (ns, st2) \<Rightarrow> (Served (Inr (out, ns)), st2)))"

text \<open>The SDK: it checks and decodes the arguments of a call, and turns what the handler returns into an error or into
  a result of some size. The middleware probes the arguments for a project and records the call when it is over.\<close>

record sdk =
  sd_decode :: "string \<Rightarrow> string \<Rightarrow> tool_in option"
  sd_probe :: "string \<Rightarrow> string \<times> string"
  sd_reply :: "(error + (tool_out \<times> nudge list)) option \<Rightarrow> string + int"
  sd_json :: "string \<Rightarrow> json option"

record raw_call =
  rc_name :: string
  rc_args :: string
  rc_at :: gtime
  rc_over :: gtime

definition decoded_call :: "sdk \<Rightarrow> mcp_env \<Rightarrow> caller \<Rightarrow> raw_call \<Rightarrow> mcp_state
    \<Rightarrow> (error + (tool_out \<times> nudge list)) option served \<times> mcp_state" where
  "decoded_call k e cl r st =
     (case sd_decode k (rc_name r) (rc_args r) of
        None \<Rightarrow> (Served None, st)
      | Some i \<Rightarrow> (case call_tool e cl i (rc_at r) st of
                    (Panicked, st') \<Rightarrow> (Panicked, st') | (Served x, st') \<Rightarrow> (Served (Some x), st')))"

definition observed :: "sdk \<Rightarrow> caller \<Rightarrow> raw_call \<Rightarrow> string + int \<Rightarrow> observed_call" where
  "observed k cl r ans = \<lparr>ob_tool = rc_name r, ob_actor = actor_of (cl_identity cl),
     ob_project = (case sd_probe k (rc_args r) of (p, slug) \<Rightarrow> if p = [] then slug else p), ob_ok = \<not> isl ans,
     ob_err = (case ans of Inl t \<Rightarrow> t | Inr _ \<Rightarrow> []), ob_ms = (rc_over r - rc_at r) div (second div 1000),
     ob_args = rc_args r, ob_bytes = (case ans of Inl _ \<Rightarrow> 0 | Inr n \<Rightarrow> n), ob_session = cl_session cl\<rparr>"

definition usage_middleware :: "sdk \<Rightarrow> mcp_env \<Rightarrow> bool \<Rightarrow> caller \<Rightarrow> raw_call \<Rightarrow> mcp_state
    \<Rightarrow> (error + (tool_out \<times> nudge list)) option served \<times> mcp_state" where
  "usage_middleware k e enabled cl r st =
     (case decoded_call k e cl r st of
        (Panicked, st') \<Rightarrow> (Panicked, st')
      | (Served x, st') \<Rightarrow> (Served x, st'\<lparr>ms_db := record_tool_call (sd_json k) enabled (cl_session cl)
          (observed k cl r (sd_reply k x)) (rc_over r) (ms_db st')\<rparr>))"

end
