(* ===== verification/Mcp_Store.thy ===== *)
theory Mcp_Store
  imports Mcp Project_Tree
begin

text \<open>
  The interface between the tools and the store: what a predicate of the database has to survive for every call to
  keep it, and three predicates that provide it: the tables are well-formed and the projects form a forest, and
  everything that was recorded is still there.
\<close>

definition mcp_step :: "sdk \<Rightarrow> mcp_env \<Rightarrow> bool \<Rightarrow> mcp_state \<Rightarrow> caller \<times> raw_call \<Rightarrow> mcp_state" where
  "mcp_step k e enabled st c = snd (usage_middleware k e enabled (fst c) (snd c) st)"

lemmas tool_defs = writing_def reading_def mcp_create_item_def mcp_create_items_def mcp_update_item_def mcp_log_activity_def
  mcp_update_project_summary_def mcp_create_project_def mcp_complete_item_def mcp_set_project_instructions_def
  mcp_archive_project_def mcp_link_items_def mcp_unlink_items_def mcp_add_item_ref_def

lemmas service_defs = update_item_def log_activity_def complete_item_def bulk_create_items_def link_items_def delete_link_def
  add_item_ref_def

subsection \<open>The interface\<close>

text \<open>A predicate that every transaction of the tools keeps. The rows of the analytics and the clock do not matter.\<close>

locale tool_store =
  fixes I :: "db \<Rightarrow> bool"
  assumes now: "I (s\<lparr>db_now := t\<rparr>) = I s"
    and creates: "tx_keeps I (create_item_tx p actor)"
    and updates: "tx_keeps I (update_item_tx u actor)"
    and completes: "tx_keeps I (complete_item_tx x why summary actor)"
    and logs: "tx_keeps I (log_activity_tx ap)"
    and links: "tx_keeps I (create_item_link f g kind)"
    and unlinks: "tx_keeps I (delete_item_link l)"
    and refs: "tx_keeps I (create_item_ref x rk rf lb)"
    and summaries: "tx_keeps I (update_project_summary slug y)"
    and instructions: "tx_keeps I (set_project_instructions slug z)"
    and impacts: "tx_keeps I (create_context_impact_event i actor ref fp)"
    and calls: "tx_keeps I (insert_tool_call args r)"
    and searches: "tx_keeps I (insert_search_log q)"
    and projects: "I s \<Longrightarrow> I (snd (create_with_parent a req now s))"
    and archives: "I s \<Longrightarrow> I (snd (archive_project slug now s))"
begin

lemma with_tx_kept: "tx_keeps I m \<Longrightarrow> I s \<Longrightarrow> I (snd (with_tx t m s))"
  by (auto simp: with_tx_def now split: sum.splits dest: tx_keepsD)

lemma search_kept:
  assumes "I s"
  shows "I (snd (search_logged se f em p n m actor session t s))"
  using assms with_tx_kept[OF searches]
  by (auto simp: search_logged_def log_search_def split: sum.splits prod.splits)

lemma create_kept:
  assumes "I s" and "\<And>s. I s \<Longrightarrow> I (other s)"
  shows "I (snd (create_item other p actor t s))"
proof -
  have "I (snd (with_tx t (create_item_tx p actor) (other s)))" by (rule with_tx_kept[OF creates]) (rule assms(2)[OF assms(1)])
  then show ?thesis using assms(1) by (auto simp: create_item_def Let_def split: sum.splits prod.splits if_splits)
qed

lemma impact_kept:
  assumes "I s" and "\<And>s. I s \<Longrightarrow> I (other s)"
  shows "I (snd (record_context_impact ie other i actor t s))"
proof -
  have "I (snd (insert_impact other i' actor' ref fp t s))" for i' actor' ref fp
  proof (cases "with_tx t (create_context_impact_event i' actor' ref fp) (other s)")
    case (Pair a b)
    have "I (snd (with_tx t (create_context_impact_event i' actor' ref fp) (other s)))"
      by (rule with_tx_kept[OF impacts]) (rule assms(2)[OF assms(1)])
    then have "I b" by (simp add: Pair)
    then show ?thesis by (auto simp: insert_impact_def Pair split: sum.split option.split)
  qed
  then show ?thesis using assms(1)
    by (auto simp: record_context_impact_def Let_def split: sum.splits option.splits)
qed

lemma attempt_kept: "I (ms_db st) \<Longrightarrow> (\<And>x. I (ms_db (snd (f x)))) \<Longrightarrow> I (ms_db (snd (attempt m f st)))"
  by (auto simp: attempt_def split: sum.split)

lemma write_kept: "I (ms_db (snd (store_write st w))) = I (snd w)" "I (ms_db (snd (service_write st w))) = I (snd w)"
  "ms_db (snd (map_out g v)) = ms_db (snd v)"
  by (simp_all add: store_write_def service_write_def map_out_def)

lemmas tx_kept = updates[THEN with_tx_kept] logs[THEN with_tx_kept] completes[THEN with_tx_kept] links[THEN with_tx_kept]
  unlinks[THEN with_tx_kept] refs[THEN with_tx_kept] summaries[THEN with_tx_kept] instructions[THEN with_tx_kept]
  tx_keeps_map[OF creates, THEN with_tx_kept]

lemma search_tool_kept: "I s \<Longrightarrow> I (snd (mcp_search e cl i t s))"
  by (auto simp: mcp_search_def attempt_def Let_def search_kept split: sum.split prod.split)

lemma impact_tool_kept:
  assumes "I (ms_db st)" and "\<And>s. I s \<Longrightarrow> I (me_other e s)"
  shows "I (ms_db (snd (mcp_record_context_impact e cl i t st)))"
  using assms by (auto simp: mcp_record_context_impact_def write_kept intro!: impact_kept split: option.split)

lemma context_tool_db:
  "ms_db (snd (mcp_get_project_context e slug v t st)) = ms_db st" "ms_db (snd (mcp_get_global_context e v t st)) = ms_db st"
  by (auto simp: mcp_get_project_context_def mcp_get_global_context_def split: prod.split served.split sum.split)

lemma run_kept:
  assumes i: "I (ms_db st)" and other: "\<And>s. I s \<Longrightarrow> I (me_other e s)"
  shows "I (ms_db (snd (run_tool e cl inp t st)))"
proof (cases inp)
  case (GetProjectContext slug v)
  then show ?thesis using i context_tool_db(1)[of e slug v t st]
    by (cases "mcp_get_project_context e slug v t st") (auto split: served.split)
next
  case (GetGlobalContext v)
  then show ?thesis using i context_tool_db(2)[of e v t st]
    by (cases "mcp_get_global_context e v t st") (auto split: served.split)
next
  case (CreateItem c)
  then show ?thesis using i other
    by (auto simp: writing_def mcp_create_item_def write_kept Let_def intro!: attempt_kept create_kept)
next
  case (CreateItems cs)
  then show ?thesis using i by (auto simp: tool_defs service_defs write_kept intro!: attempt_kept tx_kept)
next
  case (RecordContextImpact c)
  then show ?thesis using i other by (simp add: writing_def impact_tool_kept)
next
  case (UnlinkItems r)
  then show ?thesis using i by (auto simp: tool_defs service_defs write_kept intro!: tx_kept split: option.split)
qed (use i in \<open>auto simp: tool_defs service_defs write_kept search_tool_kept Let_def projects archives
    intro!: attempt_kept tx_kept\<close>)

text \<open>A call through the middleware, whatever the SDK makes of it.\<close>

lemma nudges_db: "ms_db (snd (call_nudges cl inp st)) = ms_db st"
  by (auto simp: call_nudges_def Let_def split: prod.split bool.split)

lemma call_kept:
  assumes "I (ms_db st)" and "\<And>s. I s \<Longrightarrow> I (me_other e s)"
  shows "I (ms_db (snd (call_tool e cl inp t st)))"
proof (cases "run_tool e cl inp t st")
  case (Pair r st')
  have "I (ms_db st')" using run_kept[OF assms, of cl inp t] by (simp add: Pair)
  moreover have "ms_db (snd (call_nudges cl inp st')) = ms_db st'" by (rule nudges_db)
  ultimately show ?thesis by (auto simp: call_tool_def Pair split: served.split sum.split prod.split)
qed

lemma record_kept: "I s \<Longrightarrow> I (record_tool_call parse enabled session c t s)"
  by (auto simp: record_tool_call_def with_tx_kept[OF calls])

lemma usage_kept:
  assumes "I (ms_db st)" and "\<And>s. I s \<Longrightarrow> I (me_other e s)"
  shows "I (ms_db (snd (usage_middleware k e enabled cl r st)))"
proof -
  have "I (ms_db (snd (decoded_call k e cl r st)))"
    using assms(1) call_kept[OF assms, of cl]
    by (auto simp: decoded_call_def split: option.split prod.split served.split) (metis snd_conv)+
  then show ?thesis by (auto simp: usage_middleware_def record_kept split: prod.split served.split)
qed

lemma session_kept:
  assumes "\<And>s. I s \<Longrightarrow> I (me_other e s)"
  shows "I (ms_db st) \<Longrightarrow> I (ms_db (foldl (mcp_step k e enabled) st cs))"
  using usage_kept[OF _ assms] by (induction cs arbitrary: st) (auto simp: mcp_step_def)

end

subsection \<open>A forest of well-formed rows\<close>

text \<open>What the tree depends on: the slug and the parent of every project.\<close>

definition tree_shape :: "db \<Rightarrow> (string \<times> string option) list" where
  "tree_shape s = map (\<lambda>p. (p_slug p, p_parent p)) (projects s)"

lemma tree_shape_simps [simp]:
  "tree_shape (s\<lparr>db_now := t\<rparr>) = tree_shape s" "tree_shape (s\<lparr>db_drawn := n\<rparr>) = tree_shape s"
  "tree_shape (s\<lparr>items := is\<rparr>) = tree_shape s" "tree_shape (s\<lparr>activities := as\<rparr>) = tree_shape s"
  "tree_shape (s\<lparr>item_links := ls\<rparr>) = tree_shape s" "tree_shape (s\<lparr>item_refs := rs\<rparr>) = tree_shape s"
  "tree_shape (s\<lparr>impacts := ms\<rparr>) = tree_shape s" "tree_shape (s\<lparr>tool_calls := cs\<rparr>) = tree_shape s"
  "tree_shape (s\<lparr>search_logs := qs\<rparr>) = tree_shape s"
  by (simp_all add: tree_shape_def)

lemma tree_shape_update:
  "(\<And>p. p_slug (f p) = p_slug p \<and> p_parent (f p) = p_parent p)
    \<Longrightarrow> tree_shape (s\<lparr>projects := rows_update c f (projects s)\<rparr>) = tree_shape s"
  by (simp add: tree_shape_def rows_update_def)

lemma tree_ok_shape: "tree_shape s = tree_shape t \<Longrightarrow> tree_ok s = tree_ok t"
proof -
  have e: "edges ps = {(a, b). (b, Some a) \<in> set (map (\<lambda>p. (p_slug p, p_parent p)) ps)}" for ps
    by (auto simp: edges_def)
  have q: "parent_exists pa ps = (case pa of None \<Rightarrow> True | Some x \<Rightarrow> x \<in> fst ` set (map (\<lambda>p. (p_slug p, p_parent p)) ps))" for pa ps
    by (simp add: parent_exists_iff image_image split: option.split)
  have b: "(\<forall>p \<in> set ps. parent_exists (p_parent p) ps)
      = (\<forall>(x, pa) \<in> set (map (\<lambda>p. (p_slug p, p_parent p)) ps). parent_exists pa ps)" for ps
    by auto
  assume "tree_shape s = tree_shape t"
  then show ?thesis unfolding tree_ok_def b unfolding e q by (simp add: tree_shape_def)
qed

lemma keeps_shape:
  "(\<And>s x t. m s = Inr (x, t) \<Longrightarrow> tree_shape t = tree_shape s) \<Longrightarrow> tx_keeps (\<lambda>s. tree_shape s = c) m"
  by (auto simp: tx_keeps_def)

lemma keeps_forest: "tx_keeps db_ok m \<Longrightarrow> (\<And>c. tx_keeps (\<lambda>s. tree_shape s = c) m) \<Longrightarrow> tx_keeps forest m"
  unfolding tx_keeps_def forest_def using tree_ok_shape by blast

lemma assign_shape: "assign_item_ref i s = Inr (j, t) \<Longrightarrow> tree_shape t = tree_shape s"
  by (auto simp: assign_item_ref_def Let_def split: sum.splits intro!: tree_shape_update)

lemma enqueue_shape: "enqueue pr ev d s = Inr (x, t) \<Longrightarrow> tree_shape t = tree_shape s"
  using enqueue_core[of pr ev d s x t] by (simp add: tree_shape_def same_core_def)

lemma shape_stmts [tx_pres]:
  "tx_keeps (\<lambda>s. tree_shape s = c) draw_uuid" "tx_keeps (\<lambda>s. tree_shape s = c) get_now"
  "tx_keeps (\<lambda>s. tree_shape s = c) (get_item x)" "tx_keeps (\<lambda>s. tree_shape s = c) (get_item_by_key pr ky)"
  "tx_keeps (\<lambda>s. tree_shape s = c) (append_item i)" "tx_keeps (\<lambda>s. tree_shape s = c) (assign_item_ref i)"
  "tx_keeps (\<lambda>s. tree_shape s = c) (update_item_where w f)" "tx_keeps (\<lambda>s. tree_shape s = c) (append_activity a)"
  "tx_keeps (\<lambda>s. tree_shape s = c) (enqueue pr ev d)" "tx_keeps (\<lambda>s. tree_shape s = c) (get_project_by_id y)"
  "tx_keeps (\<lambda>s. tree_shape s = c) (create_item_link g h kd)" "tx_keeps (\<lambda>s. tree_shape s = c) (delete_item_link l)"
  "tx_keeps (\<lambda>s. tree_shape s = c) (create_item_ref x rk rf lb)"
  "tx_keeps (\<lambda>s. tree_shape s = c) (update_project_summary slug sm)"
  "tx_keeps (\<lambda>s. tree_shape s = c) (set_project_instructions slug sm)"
  "tx_keeps (\<lambda>s. tree_shape s = c) (create_context_impact_event ii actor ref fp)"
  by (rule keeps_shape; auto simp: tx_simps get_item_def get_item_by_key_def append_item_Inr append_activity_Inr
      update_item_where_def create_item_link_def delete_item_link_def create_item_ref_def update_project_summary_def
      set_project_instructions_def create_context_impact_event_def get_project_by_id_def Let_def
      split: sum.splits if_splits dest: assign_shape enqueue_shape intro!: tree_shape_update)+

lemma shape_txs:
  "tx_keeps (\<lambda>s. tree_shape s = c) (create_activity ap)"
  "tx_keeps (\<lambda>s. tree_shape s = c) (log_activity_tx ap)"
  "tx_keeps (\<lambda>s. tree_shape s = c) (record_status_change fr i actor)"
  "tx_keeps (\<lambda>s. tree_shape s = c) (create_item_tx p actor)"
  "tx_keeps (\<lambda>s. tree_shape s = c) (update_item_tx u actor)"
  "tx_keeps (\<lambda>s. tree_shape s = c) (complete_item_tx x why summary actor)"
  unfolding create_activity_def log_activity_tx_def record_status_change_def create_item_tx_def insert_item_tx_def
    create_item_stmt_def update_item_tx_def complete_item_tx_def update_item_stmt_def
  by (intro tx_pres shape_stmts)+

lemma keeps_instructions: "tx_keeps db_ok (set_project_instructions slug x)"
proof (rule tx_keepsI)
  fix s y s' assume ok: "db_ok s" and r: "set_project_instructions slug x s = Inr (y, s')"
  then have s': "s' = s\<lparr>projects := rows_update (\<lambda>q. p_slug q = slug)
      (\<lambda>q. q\<lparr>p_instructions := x, p_updated_at := db_now s\<rparr>) (projects s)\<rparr>"
    by (auto simp: set_project_instructions_def Let_def split: sum.splits)
  show "db_ok s'" unfolding s'
    by (rule update_projects_ok[OF ok]) (use ok in \<open>auto simp: db_ok_def projects_ok_def project_checks_def\<close>)
qed

lemma keeps_core: "(\<And>s x t. m s = Inr (x, t) \<Longrightarrow> same_core s t) \<Longrightarrow> tx_keeps db_ok m"
  unfolding tx_keeps_def using db_ok_same_core by blast

lemma analytics_core:
  "create_context_impact_event ii actor ref fp s = Inr (c, t) \<Longrightarrow> same_core s t"
  "insert_tool_call args r s = Inr (x, t) \<Longrightarrow> same_core s t"
  "insert_search_log q s = Inr (x, t) \<Longrightarrow> same_core s t"
  by (auto simp: create_context_impact_event_def insert_tool_call_def insert_search_log_def same_core_def tx_simps Let_def
      split: option.splits if_splits)

lemma keeps_analytics:
  "tx_keeps db_ok (create_context_impact_event ii actor ref fp)" "tx_keeps db_ok (insert_tool_call args r)"
  "tx_keeps db_ok (insert_search_log q)"
  by (rule keeps_core, erule analytics_core)+

lemma analytics_shape:
  "tx_keeps (\<lambda>s. tree_shape s = c) (insert_tool_call args r)" "tx_keeps (\<lambda>s. tree_shape s = c) (insert_search_log q)"
  by (rule keeps_shape; auto dest!: analytics_core simp: tree_shape_def same_core_def)+

interpretation tree_store: tool_store forest
proof
  fix s a req t slug assume f: "forest s"
  show "forest (snd (create_with_parent a req t s))" using pstep_forest[OF f, of "PCreate a req t"] by simp
  show "forest (snd (archive_project slug t s))" using pstep_forest[OF f, of "PArchive slug t"] by simp
qed (auto intro!: keeps_forest shape_txs shape_stmts analytics_shape keeps_instructions keeps_analytics)

subsection \<open>Nothing that was recorded is lost\<close>

text \<open>Items stay, and stay visible; entries of the log, code references, attachments and reports stay as they are; and
  projects stay.\<close>

definition recorded :: "db \<Rightarrow> db \<Rightarrow> bool" where
  "recorded s t = (i_id ` set (items s) \<subseteq> i_id ` set (items t)
     \<and> i_id ` {i \<in> set (items s). live i} \<subseteq> i_id ` {i \<in> set (items t). live i}
     \<and> set (activities s) \<subseteq> set (activities t) \<and> set (item_refs s) \<subseteq> set (item_refs t)
     \<and> set (attachments s) \<subseteq> set (attachments t) \<and> set (impacts s) \<subseteq> set (impacts t)
     \<and> p_id ` set (projects s) \<subseteq> p_id ` set (projects t))"

text \<open>What most statements do: they only append, or leave alone.\<close>

definition appended :: "db \<Rightarrow> db \<Rightarrow> bool" where
  "appended s t = (set (items s) \<subseteq> set (items t) \<and> set (activities s) \<subseteq> set (activities t)
     \<and> set (item_refs s) \<subseteq> set (item_refs t) \<and> attachments t = attachments s
     \<and> set (impacts s) \<subseteq> set (impacts t) \<and> p_id ` set (projects s) \<subseteq> p_id ` set (projects t))"

lemma recorded_refl: "recorded s s"
  by (simp add: recorded_def)

lemma recorded_appended: "recorded s0 s \<Longrightarrow> appended s t \<Longrightarrow> recorded s0 t"
proof -
  assume r: "recorded s0 s" and a: "appended s t"
  have i: "i_id ` set (items s) \<subseteq> i_id ` set (items t)"
    using a by (intro image_mono) (simp add: appended_def)
  have l: "i_id ` {i \<in> set (items s). live i} \<subseteq> i_id ` {i \<in> set (items t). live i}"
    using a by (intro image_mono) (auto simp: appended_def)
  have rest: "set (activities s) \<subseteq> set (activities t)" "set (item_refs s) \<subseteq> set (item_refs t)"
    "set (impacts s) \<subseteq> set (impacts t)" "p_id ` set (projects s) \<subseteq> p_id ` set (projects t)" "attachments t = attachments s"
    using a by (simp_all add: appended_def)
  have r': "i_id ` set (items s0) \<subseteq> i_id ` set (items s)" "i_id ` {i \<in> set (items s0). live i} \<subseteq> i_id ` {i \<in> set (items s). live i}"
    "set (activities s0) \<subseteq> set (activities s)" "set (item_refs s0) \<subseteq> set (item_refs s)" "set (attachments s0) \<subseteq> set (attachments s)"
    "set (impacts s0) \<subseteq> set (impacts s)" "p_id ` set (projects s0) \<subseteq> p_id ` set (projects s)"
    using r by (simp_all add: recorded_def)
  show ?thesis
    unfolding recorded_def rest(5)
    by (intro conjI order_trans[OF r'(1) i] order_trans[OF r'(2) l] order_trans[OF r'(3) rest(1)] order_trans[OF r'(4) rest(2)]
        r'(5) order_trans[OF r'(6) rest(3)] order_trans[OF r'(7) rest(4)])
qed

lemma keeps_recorded: "(\<And>s x t. m s = Inr (x, t) \<Longrightarrow> appended s t) \<Longrightarrow> tx_keeps (recorded s0) m"
  unfolding tx_keeps_def using recorded_appended by blast

lemma rows_update_ids: "(\<And>r. g (f r) = g r) \<Longrightarrow> g ` set (rows_update c f rs) = g ` set rs"
  by (induction rs) (auto simp: rows_update_def)

lemma recorded_update:
  assumes f: "\<And>i. i_id (f i) = i_id i" "\<And>i. live i \<Longrightarrow> live (f i)"
  shows "tx_keeps (recorded s0) (update_item_where c f)"
proof (rule tx_keepsI)
  fix s x t assume r: "recorded s0 s" and u: "update_item_where c f s = Inr (x, t)"
  have t: "t = s\<lparr>items := rows_update c f (items s)\<rparr>" by (rule update_item_where_Inr[OF u])
  have "i_id ` {i \<in> set (items s). live i} \<subseteq> i_id ` {i \<in> set (items t). live i}"
  proof
    fix y assume "y \<in> i_id ` {i \<in> set (items s). live i}"
    then obtain i where i: "i \<in> set (items s)" "live i" "y = i_id i" by blast
    let ?j = "if c i then f i else i"
    have "?j \<in> set (items t)" using i(1) by (simp add: t rows_update_def)
    moreover have "live ?j" "i_id ?j = y" using f i by simp_all
    ultimately show "y \<in> i_id ` {i \<in> set (items t). live i}" by (intro image_eqI[of _ _ ?j]) simp_all
  qed
  with r have l: "i_id ` {i \<in> set (items s0). live i} \<subseteq> i_id ` {i \<in> set (items t). live i}"
    unfolding recorded_def by (elim conjE) (rule order_trans)
  have "i_id ` set (items t) = i_id ` set (items s)" by (simp add: t rows_update_ids f)
  with r l show "recorded s0 t" by (simp add: recorded_def t)
qed

lemma assign_appended: "assign_item_ref i s = Inr (j, t) \<Longrightarrow> appended s t"
  by (auto simp: assign_item_ref_def Let_def appended_def rows_update_ids split: sum.splits)

lemma enqueue_appended: "enqueue pr ev d s = Inr (x, t) \<Longrightarrow> appended s t"
  by (erule enqueue_Inr) (simp add: appended_def)

lemma recorded_trans: "recorded s t \<Longrightarrow> recorded t u \<Longrightarrow> recorded s u"
  unfolding recorded_def by (elim conjE, intro conjI; erule (1) order_trans)

lemma appended_projects:
  assumes "\<And>p. p_id (f p) = p_id p"
  shows "appended s (s\<lparr>projects := rows_update c f (projects s)\<rparr>)"
  using rows_update_ids[of p_id f c "projects s"] assms by (simp add: appended_def)

lemma recorded_stmts [tx_pres]:
  "tx_keeps (recorded s0) draw_uuid" "tx_keeps (recorded s0) get_now"
  "tx_keeps (recorded s0) (get_item x)" "tx_keeps (recorded s0) (get_item_by_key pr ky)"
  "tx_keeps (recorded s0) (append_item i)" "tx_keeps (recorded s0) (assign_item_ref i)"
  "tx_keeps (recorded s0) (append_activity a)" "tx_keeps (recorded s0) (enqueue pr ev d)"
  "tx_keeps (recorded s0) (get_project_by_id y)" "tx_keeps (recorded s0) (create_item_link g h kd)"
  "tx_keeps (recorded s0) (delete_item_link l)" "tx_keeps (recorded s0) (create_item_ref x rk rf lb)"
  "tx_keeps (recorded s0) (update_project_summary slug sm)" "tx_keeps (recorded s0) (set_project_instructions slug sm)"
  "tx_keeps (recorded s0) (create_context_impact_event ii actor ref fp)" "tx_keeps (recorded s0) (insert_tool_call args r)"
  "tx_keeps (recorded s0) (insert_search_log q)" "tx_keeps (recorded s0) (create_project ap)"
  "tx_keeps (recorded s0) (update_project pa)"
  by (rule keeps_recorded; auto simp: tx_simps get_item_def get_item_by_key_def append_item_Inr append_activity_Inr
      create_item_link_def delete_item_link_def create_item_ref_def update_project_summary_def
      set_project_instructions_def create_context_impact_event_def get_project_by_id_def insert_tool_call_def
      insert_search_log_def create_project_def update_project_def Let_def
      split: sum.splits if_splits option.splits dest: assign_appended enqueue_appended
      intro!: appended_projects; auto simp: appended_def patched_project_def)+

lemma recorded_update_stmt: "tx_keeps (recorded s0) (update_item_stmt u)"
  unfolding update_item_stmt_def
  by (intro tx_keeps_bind recorded_stmts recorded_update) (simp_all add: updated_item_def live_def)

lemma recorded_txs:
  "tx_keeps (recorded s0) (create_activity ap)"
  "tx_keeps (recorded s0) (log_activity_tx ap)"
  "tx_keeps (recorded s0) (record_status_change fr i actor)"
  "tx_keeps (recorded s0) (create_item_tx p actor)"
  "tx_keeps (recorded s0) (update_item_tx u actor)"
  "tx_keeps (recorded s0) (complete_item_tx x why summary actor)"
  unfolding create_activity_def log_activity_tx_def record_status_change_def create_item_tx_def insert_item_tx_def
    create_item_stmt_def update_item_tx_def complete_item_tx_def
  by (intro tx_pres recorded_stmts recorded_update_stmt keeps_conflict)+

lemma recorded_now: "recorded s0 (s\<lparr>db_now := t\<rparr>) = recorded s0 s"
  by (simp add: recorded_def)

lemma recorded_with_tx: "tx_keeps (recorded s0) m \<Longrightarrow> recorded s0 s \<Longrightarrow> recorded s0 (snd (with_tx t m s))"
  by (auto simp: with_tx_def recorded_now split: sum.splits dest: tx_keepsD)

interpretation record_store: tool_store "recorded s0" for s0
proof
  fix s a req t slug assume r: "recorded s0 s"
  show "recorded s0 (snd (create_with_parent a req t s))"
    using r by (auto simp: create_with_parent_def split: sum.split intro!: recorded_with_tx recorded_stmts)
  show "recorded s0 (snd (archive_project slug t s))"
    using r by (auto simp: archive_project_def intro!: recorded_with_tx recorded_stmts)
qed (auto simp: recorded_now intro!: recorded_stmts recorded_txs)

text \<open>C11: Agents cannot destroy. Over every history of tool calls, of any sessions, with any arguments and any answers of
  the SDK, no tool removes an item or hides it, changes or drops an entry of the activity log, a code reference, an
  attachment or a report, or removes a project (purging is no tool; links between items may go), provided the other callers do not; and the
  tables stay well-formed and the projects a forest.\<close>

theorem tools_lose_nothing:
  assumes "forest (ms_db st)" and "\<forall>s. recorded s (me_other e s)" and "\<forall>s. forest s \<longrightarrow> forest (me_other e s)"
  shows "forest (ms_db (foldl (mcp_step k e enabled) st cs)) \<and> recorded (ms_db st) (ms_db (foldl (mcp_step k e enabled) st cs))"
proof
  show "forest (ms_db (foldl (mcp_step k e enabled) st cs))"
    using assms(1,3) by (intro tree_store.session_kept) simp_all
  show "recorded (ms_db st) (ms_db (foldl (mcp_step k e enabled) st cs))"
    by (rule record_store.session_kept) (use assms(2) recorded_trans recorded_refl in blast)+
qed

definition demo_mcp :: mcp_env where
  "demo_mcp = \<lparr>me_api = demo_api, me_orient = \<lparr>oe_round = (\<lambda>x. x), oe_coll = (\<lambda>_. 0)\<rparr>, me_search = demo_engine,
     me_faults = no_faults, me_embed = \<lparr>em_enabled = False, em_cached = None, em_live = None\<rparr>, me_finger = demo_finger,
     me_report = \<lparr>re_coll = (\<lambda>_. 0), re_day = (\<lambda>t. t), re_day_name = (\<lambda>_. [])\<rparr>, me_notice = [], me_other = (\<lambda>s. s)\<rparr>"

definition started :: "db \<Rightarrow> mcp_state" where
  "started s = \<lparr>ms_db = s, ms_cache = (\<lambda>_. None), ms_nudged = \<lparr>ss_members = [], ss_count = 0\<rparr>,
     ms_oriented = \<lparr>ss_members = [], ss_count = 0\<rparr>\<rparr>"

definition demo_sdk :: sdk where
  "demo_sdk = \<lparr>sd_decode = (\<lambda>name args. if name = ''archive_project'' then Some (ArchiveProject args) else None),
     sd_probe = (\<lambda>_. ([], [])), sd_reply = (\<lambda>_. Inr 0), sd_json = (\<lambda>_. None)\<rparr>"

definition demo_calls :: "(caller \<times> raw_call) list" where
  "demo_calls = [(\<lparr>cl_identity = None, cl_session = ''s''\<rparr>, \<lparr>rc_name = ''archive_project'', rc_args = ''a'', rc_at = 3, rc_over = 4\<rparr>)]"

lemma tools_lose_nothing_witness:
  "forest (ms_db (foldl (mcp_step demo_sdk demo_mcp False) (started tree_db) demo_calls))
   \<and> recorded tree_db (ms_db (foldl (mcp_step demo_sdk demo_mcp False) (started tree_db) demo_calls))
   \<and> map p_status (projects (ms_db (foldl (mcp_step demo_sdk demo_mcp False) (started tree_db) demo_calls))) = [''archived'', ''archived'']"
proof -
  have "forest (ms_db (started tree_db))" by (simp add: started_def tree_db_forest)
  moreover have "\<forall>s. recorded s (me_other demo_mcp s)" "\<forall>s. forest s \<longrightarrow> forest (me_other demo_mcp s)"
    by (simp_all add: demo_mcp_def recorded_refl)
  moreover have "map p_status (projects (ms_db (foldl (mcp_step demo_sdk demo_mcp False) (started tree_db) demo_calls)))
      = [''archived'', ''archived'']" by code_simp
  ultimately show ?thesis
    using tools_lose_nothing[of "started tree_db" demo_mcp demo_sdk False demo_calls] by (simp add: started_def)
qed

end
