(* ===== verification/Mcp_Properties.thy ===== *)
theory Mcp_Properties
  imports Mcp_Store "HOL-Library.Product_Lexorder"
begin

text \<open>
  What the tools promise the agents that call them: the pages of a listing are the whole listing, a session is
  nudged exactly when the program means to, and no tool destroys or hides anything that was recorded.
\<close>

subsection \<open>Two stable sorts are one\<close>

lemma insort_key_pair:
  "\<forall>z \<in> set zs. g y \<le> g z \<Longrightarrow> insort_key f y zs = insort_key (\<lambda>x. (f x, g x)) y zs"
  by (induction zs) (auto simp: less_eq_prod_def)

lemma sort_key_pair:
  "sorted (map g ys) \<Longrightarrow> sort_key f ys = sort_key (\<lambda>x. (f x, g x)) ys"
  by (induction ys) (simp_all add: insort_key_pair)

lemma sort_key_sort_key: "sort_key f (sort_key g xs) = sort_key (\<lambda>x. (f x, g x)) (sort_key g xs)"
  by (rule sort_key_pair) (rule sorted_sort_key)

lemma sort_key_perm:
  assumes "mset xs = mset ys" and "distinct (map k xs)"
  shows "sort_key k xs = sort_key k ys"
proof (rule map_inj_on)
  have s: "set xs = set ys" using assms(1) by (rule mset_eq_setD)
  have d: "distinct (map k ys)"
    using assms mset_eq_imp_distinct_iff[of "map k xs" "map k ys"] by simp
  show "map k (sort_key k xs) = map k (sort_key k ys)"
    using assms d s by (intro sorted_distinct_set_unique sorted_sort_key) (simp_all add: distinct_map)
  show "inj_on k (set (sort_key k xs) \<union> set (sort_key k ys))" using assms(2) s by (simp add: distinct_map)
qed

subsection \<open>Pages\<close>

definition listing_key :: "item \<Rightarrow> rat \<times> gtime" where
  "listing_key i = (i_position i, - i_created_at i)"

definition listing_params :: "list_items_in \<Rightarrow> uuid option \<Rightarrow> gtime option \<Rightarrow> list_params" where
  "listing_params i pr since = \<lparr>lp_project = pr, lp_status = opt_of (li_status i), lp_type = opt_of (li_type i),
     lp_assignee = opt_of (li_assignee i), lp_tag = opt_of (li_tag i), lp_since = since, lp_q = None, lp_off = None, lp_lim = None\<rparr>"

text \<open>All the rows that a listing matches, in its order.\<close>

definition matching_items :: "mcp_env \<Rightarrow> list_items_in \<Rightarrow> db \<Rightarrow> item list" where
  "matching_items e i s =
     (case (mcp_filter (li_project i) s, updated_since (me_api e) (li_since i)) of
        (Inr pr, Inr since) \<Rightarrow> sort_key i_position (sort_key (\<lambda>i. - i_created_at i)
          (filter (list_items_match (ae_fts (me_api e)) (listing_params i pr since) s) (items s)))
      | _ \<Rightarrow> [])"

definition shown :: "mcp_env \<Rightarrow> list_items_in \<Rightarrow> item list \<Rightarrow> item_dto list" where
  "shown e i = to_items_trunc (oe_round (me_orient e)) (fst (body_limits (verbosity_of (li_verbosity i))))"

lemma shown_append: "shown e i (xs @ ys) = shown e i xs @ shown e i ys"
  by (simp add: shown_def to_items_trunc_def)

lemma page_limit_range: "0 < page_limit v" "page_limit v \<le> 500"
  by (auto simp: page_limit_def Let_def split: option.splits)

lemma to_int32_id: "0 \<le> n \<Longrightarrow> n < 2 ^ 31 \<Longrightarrow> to_int32 n = n"
  by (simp add: to_int32_def)

lemma take_Suc_page: "take n (take (Suc n) xs) = take n xs"
  by (simp add: min_def)

lemma page_of:
  assumes r: "mcp_filter (li_project i) s = Inr pr" "updated_since (me_api e) (li_since i) = Inr since"
    and k: "int k < 2 ^ 31" "page_offset (li_cursor i) = int k"
  shows "mcp_list_items e i s =
    (let n = nat (page_limit (li_limit i)); rest = drop k (matching_items e i s)
     in Inr (shown e i (take n rest), if n < length rest then Some (int k + int n) else None))"
proof -
  let ?n = "page_limit (li_limit i)"
  have n: "0 < ?n" "?n \<le> 500" by (rule page_limit_range)+
  have f: "to_int32 (?n + 1) = ?n + 1" using n by (intro to_int32_id) simp_all
  have o1: "to_int32 (int k) = int k" using k by (intro to_int32_id) simp_all
  have nn: "nat (?n + 1) = Suc (nat ?n)" using n by simp
  have m: "?n < int (length (take (nat (?n + 1)) xs)) \<longleftrightarrow> nat ?n < length xs" for xs :: "item list"
    using n by (auto simp: nn min_def)
  have match: "list_items_match fts (listing_params i pr since\<lparr>lp_off := a, lp_lim := b\<rparr>) s = list_items_match fts (listing_params i pr since) s"
    for fts a b by (auto simp: list_items_match_def fun_eq_iff)
  have rows: "list_items_rows (ae_fts (me_api e)) \<lparr>lp_project = pr, lp_status = opt_of (li_status i), lp_type = opt_of (li_type i),
      lp_assignee = opt_of (li_assignee i), lp_tag = opt_of (li_tag i), lp_since = since,
      lp_q = None, lp_off = Some (int k), lp_lim = Some (?n + 1)\<rparr> s = take (nat (?n + 1)) (drop k (matching_items e i s))"
    using match[of "ae_fts (me_api e)" "Some (?n + 1)" "Some (int k)"]
    by (simp add: list_items_rows_def limit_rows_def matching_items_def r listing_params_def)
  have t: "take (nat ?n) (take (nat (?n + 1)) xs) = take (nat ?n) xs" for xs :: "item list"
    unfolding nn by (rule take_Suc_page)
  have l: "take (nat (?n + 1)) xs = take (nat ?n) xs" if "\<not> nat ?n < length xs" for xs :: "item list"
    using that by (simp add: nn)
  show ?thesis
    using n m[of "drop k (matching_items e i s)"] t[of "drop k (matching_items e i s)"] l[of "drop k (matching_items e i s)"]
    by (cases "nat ?n < length (drop k (matching_items e i s))")
      (simp_all add: mcp_list_items_def r k(2) f o1 rows shown_def Let_def del: length_take length_drop take_take)
qed

text \<open>A client that follows \<open>next_offset\<close> from page to page, each read from the state the database is in by then.\<close>

fun follow_pages :: "mcp_env \<Rightarrow> list_items_in \<Rightarrow> db list \<Rightarrow> item_dto list option" where
  "follow_pages e i [] = None"
| "follow_pages e i (s # ss) =
     (case mcp_list_items e i s of
        Inl _ \<Rightarrow> None
      | Inr (its, None) \<Rightarrow> Some its
      | Inr (its, Some k) \<Rightarrow> map_option ((@) its) (follow_pages e (i\<lparr>li_cursor := Some k\<rparr>) ss))"

text \<open>The same rows, perhaps in another physical order.\<close>

definition same_rows :: "db \<Rightarrow> db \<Rightarrow> bool" where
  "same_rows s t = (mset (items s) = mset (items t) \<and> projects s = projects t)"

lemma listing_params_cursor [simp]: "listing_params (i\<lparr>li_cursor := c\<rparr>) pr since = listing_params i pr since"
  by (simp add: listing_params_def)

lemma filter_cursor [simp]:
  "matching_items e (i\<lparr>li_cursor := c\<rparr>) s = matching_items e i s" "shown e (i\<lparr>li_cursor := c\<rparr>) = shown e i"
  by (simp_all add: matching_items_def shown_def split: sum.split)

lemma mcp_filter_same: "same_rows s t \<Longrightarrow> mcp_filter p s = mcp_filter p t"
  by (simp add: same_rows_def mcp_filter_def mcp_project_def find_slug_def split: option.splits)

lemma matching_same:
  assumes sr: "same_rows s t" and d: "distinct (map listing_key (matching_items e i s))"
  shows "matching_items e i t = matching_items e i s"
proof (cases "mcp_filter (li_project i) s")
  case (Inr pr)
  show ?thesis
  proof (cases "updated_since (me_api e) (li_since i)")
    case up: (Inr since)
    let ?m = "list_items_match (ae_fts (me_api e)) (listing_params i pr since)"
    have m: "?m s = ?m t" using sr by (simp add: list_items_match_def in_archived_def same_rows_def fun_eq_iff)
    let ?k = "\<lambda>i. (i_position i, - i_created_at i)"
    have ms: "mset (filter (?m s) (items t)) = mset (filter (?m s) (items s))"
      using sr by (simp add: same_rows_def)
    have dk: "distinct (map ?k (sort_key (\<lambda>i. - i_created_at i) (filter (?m s) (items s))))"
      using d by (simp add: matching_items_def Inr up distinct_map listing_key_def[abs_def])
    have "sort_key ?k (sort_key (\<lambda>i. - i_created_at i) (filter (?m s) (items s)))
        = sort_key ?k (sort_key (\<lambda>i. - i_created_at i) (filter (?m s) (items t)))"
      using ms dk by (intro sort_key_perm) simp_all
    moreover have "mcp_filter (li_project i) t = Inr pr" using mcp_filter_same[OF sr, of "li_project i"] Inr by simp
    ultimately show ?thesis
      by (simp add: matching_items_def Inr up flip: m) (simp add: sort_key_sort_key[of i_position])
  qed (simp add: matching_items_def Inr split: sum.split)
qed (use mcp_filter_same[OF sr, of "li_project i"] in \<open>simp add: matching_items_def\<close>)

lemma same_rows_length: "same_rows s t \<Longrightarrow> length (items t) = length (items s)"
  by (metis same_rows_def size_mset)

lemma matching_length: "length (matching_items e i s) \<le> length (items s)"
  by (auto simp: matching_items_def split: sum.split intro: length_filter_le)

lemma follow_from:
  assumes r: "mcp_filter (li_project i) s = Inr pr" "updated_since (me_api e) (li_since i) = Inr since"
    and d: "distinct (map listing_key (matching_items e i s))" and few: "length (items s) < 2 ^ 31"
  shows "\<lbrakk>\<forall>t \<in> set ss. same_rows s t; ss \<noteq> []; page_offset (li_cursor i) = int k; int k < 2 ^ 31;
      length (matching_items e i s) \<le> k + length ss * nat (page_limit (li_limit i))\<rbrakk>
    \<Longrightarrow> follow_pages e i ss = Some (shown e i (drop k (matching_items e i s)))"
  using r d
proof (induction ss arbitrary: i k)
  case (Cons t ss)
  let ?n = "nat (page_limit (li_limit i))" and ?all = "matching_items e i s"
  have t: "same_rows s t" using Cons.prems(1) by simp
  have rt: "mcp_filter (li_project i) t = Inr pr" using Cons.prems(6) mcp_filter_same[OF t] by simp
  have all: "matching_items e i t = ?all" by (rule matching_same[OF t Cons.prems(8)])
  note page = page_of[OF rt Cons.prems(7,4,3), unfolded all Let_def]
  show ?case
  proof (cases "?n < length (drop k ?all)")
    case True
    have n: "0 < ?n" using page_limit_range(1) by simp
    have l: "k + ?n < length ?all" using True by simp
    then have "k + ?n < 2 ^ 31" using matching_length[of e i s] few by linarith
    then have "int (k + ?n) < 2 ^ 31" using of_nat_less_iff[of "k + ?n" "2 ^ 31", where 'a = int] by simp
    moreover have "ss \<noteq> []" using Cons.prems(5) l by auto
    moreover have "length ?all \<le> (k + ?n) + length ss * ?n" using Cons.prems(5) by (simp add: algebra_simps)
    moreover have "page_offset (Some (int k + int ?n)) = int (k + ?n)" using n by (simp add: page_offset_def)
    ultimately have "follow_pages e (i\<lparr>li_cursor := Some (int k + int ?n)\<rparr>) ss = Some (shown e i (drop (k + ?n) ?all))"
      using Cons.IH[of "i\<lparr>li_cursor := Some (int k + int ?n)\<rparr>" "k + ?n"] Cons.prems(1,6,7,8) by simp
    moreover have "shown e i (take ?n (drop k ?all)) @ shown e i (drop (k + ?n) ?all) = shown e i (drop k ?all)"
      using append_take_drop_id[of ?n "drop k ?all"] by (simp add: add.commute flip: shown_append)
    ultimately show ?thesis using True page by simp
  next
    case False
    then show ?thesis using page by simp
  qed
qed simp

text \<open>C12: Following \<open>next_offset\<close> from the first page gives the whole listing. Whatever order PostgreSQL returns rows of
  equal keys in on each request, as long as no two matching items share position and creation time and nobody changes
  the rows meanwhile, the pages of \<open>list_items\<close> put together are exactly the matching items in order, each once, and
  as many requests as full pages fit into the listing, rounded up, are enough.\<close>

theorem pages_exact:
  assumes "mcp_filter (li_project i) s = Inr pr" and "updated_since (me_api e) (li_since i) = Inr since"
    and "li_cursor i = None" and "distinct (map listing_key (matching_items e i s))" and "length (items s) < 2 ^ 31"
    and "\<forall>t \<in> set ss. same_rows s t" and "ss \<noteq> []"
    and "length (matching_items e i s) \<le> length ss * nat (page_limit (li_limit i))"
  shows "follow_pages e i ss = Some (shown e i (matching_items e i s))"
  using follow_from[OF assms(1,2,4,5,6,7), of 0] assms(3,8) by (simp add: page_offset_def)

subsection \<open>Nudges\<close>

type_synonym tool_event = "caller \<times> tool_in \<times> gtime"
type_synonym tool_answer = "(error + (tool_out \<times> nudge list)) served"

fun serve_tools :: "mcp_env \<Rightarrow> tool_event list \<Rightarrow> mcp_state \<Rightarrow> tool_answer list \<times> mcp_state" where
  "serve_tools e [] st = ([], st)"
| "serve_tools e ((cl, i, t) # cs) st =
     (case call_tool e cl i t st of (r, st1) \<Rightarrow> (case serve_tools e cs st1 of (rs, st2) \<Rightarrow> (r # rs, st2)))"

definition answered :: "tool_answer \<Rightarrow> bool" where
  "answered r = (case r of Served (Inr _) \<Rightarrow> True | _ \<Rightarrow> False)"

text \<open>Whether a session has made a successful call of one of some tools.\<close>

definition called :: "(tool_event \<times> tool_answer) list \<Rightarrow> string \<Rightarrow> string list \<Rightarrow> bool" where
  "called h sid tools = (\<exists>((cl, i, t), r) \<in> set h. answered r \<and> cl_session cl = sid \<and> tool_name i \<in> set tools)"

definition sessions_of :: "tool_event list \<Rightarrow> string set" where
  "sessions_of cs = (\<lambda>(cl, _). cl_session cl) ` set cs"

text \<open>A set that remembers the sessions which called some tools, as long as there are not too many.\<close>

definition remembers :: "string list \<Rightarrow> (tool_event \<times> tool_answer) list \<Rightarrow> session_set \<Rightarrow> bool" where
  "remembers tools h st = (ss_count st = length (ss_members st) \<and> distinct (ss_members st)
     \<and> set (ss_members st) = {sid. sid \<noteq> [] \<and> called h sid tools})"

definition no_sessions :: session_set where "no_sessions = \<lparr>ss_members = [], ss_count = 0\<rparr>"

lemma remembers_empty: "remembers tools [] no_sessions"
  by (simp add: remembers_def no_sessions_def called_def)

lemma called_snoc: "called (h @ [((cl, i, t), r)]) sid tools \<longleftrightarrow>
    called h sid tools \<or> (answered r \<and> cl_session cl = sid \<and> tool_name i \<in> set tools)"
  by (auto simp: called_def)

lemma remembers_same:
  assumes "remembers tools h st" and "\<not> (answered r \<and> tool_name i \<in> set tools)"
  shows "remembers tools (h @ [((cl, i, t), r)]) st"
  using assms by (auto simp: remembers_def called_snoc)

lemma remembers_add:
  assumes m: "remembers tools h st" and r: "answered r" "tool_name i \<in> set tools"
    and bound: "finite S" "card S \<le> session_set_max" "insert (cl_session cl) {sid. called h sid tools} \<subseteq> S"
  shows "fst (session_add (cl_session cl) st) = (cl_session cl \<noteq> [] \<and> \<not> called h (cl_session cl) tools)"
    and "remembers tools (h @ [((cl, i, t), r)]) (snd (session_add (cl_session cl) st))"
proof -
  let ?sid = "cl_session cl"
  have mem: "?sid \<in> set (ss_members st) \<longleftrightarrow> ?sid \<noteq> [] \<and> called h ?sid tools" using m by (simp add: remembers_def)
  have room: "\<not> session_set_max < ss_count st + 1" if "?sid \<noteq> []" "\<not> called h ?sid tools"
  proof -
    have d: "distinct (?sid # ss_members st)" and l: "ss_count st = length (ss_members st)"
      using m mem that by (auto simp: remembers_def)
    have "set (?sid # ss_members st) \<subseteq> S" using m bound(3) by (auto simp: remembers_def)
    then have "card (set (?sid # ss_members st)) \<le> card S" using bound(1) by (intro card_mono)
    then show ?thesis using d l bound(2) by (simp add: distinct_card)
  qed
  show "fst (session_add ?sid st) = (?sid \<noteq> [] \<and> \<not> called h ?sid tools)"
    using mem by (auto simp: session_add_def)
  show "remembers tools (h @ [((cl, i, t), r)]) (snd (session_add ?sid st))"
  proof (cases "?sid \<noteq> [] \<and> \<not> called h ?sid tools")
    case True
    then have a: "snd (session_add ?sid st) = \<lparr>ss_members = ?sid # ss_members st, ss_count = ss_count st + 1\<rparr>"
      using mem room by (simp add: session_add_def)
    show ?thesis using m True r mem by (auto simp: a remembers_def called_snoc)
  next
    case False
    then have "snd (session_add ?sid st) = st" using mem by (auto simp: session_add_def)
    then show ?thesis using m False by (auto simp: remembers_def called_snoc)
  qed
qed

lemma tools_disjoint: "x \<in> set write_tools \<Longrightarrow> x \<notin> set orient_tools"
  by (auto simp: write_tools_def orient_tools_def)

text \<open>The tools that the report counts as writes and as orientation are the ones that nudge, and all are registered.\<close>

lemma tool_sets: "write_tools = write_calls" "orient_tools = orient_calls" "set write_calls \<union> set read_calls \<subseteq> set tool_names"
  "tool_name i \<in> set tool_names"
  by (simp_all add: write_tools_def write_calls_def orient_tools_def orient_calls_def read_calls_def tool_names_def)
    (cases i; simp)

lemma run_sessions: "ms_nudged (snd (run_tool e cl i t st)) = ms_nudged st \<and> ms_oriented (snd (run_tool e cl i t st)) = ms_oriented st"
  by (cases i) (auto simp: tool_defs mcp_get_project_context_def mcp_get_global_context_def mcp_record_context_impact_def attempt_def
      store_write_def service_write_def map_out_def Let_def split: prod.splits served.splits sum.splits option.splits)

definition expected_nudges :: "(tool_event \<times> tool_answer) list \<Rightarrow> caller \<Rightarrow> tool_in \<Rightarrow> nudge list" where
  "expected_nudges h cl i =
     (if cl_session cl \<noteq> [] \<and> tool_name i \<in> set write_tools \<and> \<not> called h (cl_session cl) write_tools
      then ImpactNudge # (if called h (cl_session cl) orient_tools then [] else [OrientNudge (orient_hint i)]) else [])"

definition nudge_ok :: "(tool_event \<times> tool_answer) list \<Rightarrow> mcp_state \<Rightarrow> bool" where
  "nudge_ok h st = (remembers write_tools h (ms_nudged st) \<and> remembers orient_tools h (ms_oriented st))"

lemma call_nudged:
  assumes ok: "nudge_ok h st" and c: "call_tool e cl i t st = (r, st1)"
    and S: "finite S" "card S \<le> session_set_max" "cl_session cl \<in> S" "\<forall>((cl', i', t'), r') \<in> set h. cl_session cl' \<in> S"
  shows "nudge_ok (h @ [((cl, i, t), r)]) st1 \<and> (\<forall>out ns. r = Served (Inr (out, ns)) \<longrightarrow> ns = expected_nudges h cl i)"
proof -
  obtain r0 st0 where run: "run_tool e cl i t st = (r0, st0)" by (cases "run_tool e cl i t st")
  have keep: "ms_nudged st0 = ms_nudged st" "ms_oriented st0 = ms_oriented st"
    using run_sessions[of e cl i t st] by (simp_all add: run)
  have ok0: "remembers write_tools h (ms_nudged st0)" "remembers orient_tools h (ms_oriented st0)"
    using ok by (simp_all add: nudge_ok_def keep)
  show ?thesis
  proof (cases "answered r")
    case False
    then have "st1 = st0" using c run by (auto simp: call_tool_def answered_def split: served.splits sum.splits prod.splits)
    then have "nudge_ok (h @ [((cl, i, t), r)]) st1" using ok0 False by (simp add: nudge_ok_def remembers_same)
    then show ?thesis using False by (auto simp: answered_def)
  next
    case True
    then obtain out ns where r: "r = Served (Inr (out, ns))" by (auto simp: answered_def split: served.splits sum.splits)
    then have n: "call_nudges cl i st0 = (ns, st1)"
      using c run by (auto simp: call_tool_def split: served.splits sum.splits prod.splits)
    have cov: "insert (cl_session cl) {sid. called h sid tools} \<subseteq> S" for tools
      using S(3,4) by (auto simp: called_def)
    note add = remembers_add[OF _ True _ S(1,2) cov]
    have has: "session_has (cl_session cl) (ms_oriented st0) \<longleftrightarrow> cl_session cl \<noteq> [] \<and> called h (cl_session cl) orient_tools"
      using ok0(2) by (simp add: session_has_def remembers_def)
    consider (w) "tool_name i \<in> set write_tools" "tool_name i \<notin> set orient_tools"
      | (o) "tool_name i \<in> set orient_tools" "tool_name i \<notin> set write_tools"
      | (x) "tool_name i \<notin> set orient_tools" "tool_name i \<notin> set write_tools"
      using tools_disjoint by blast
    then show ?thesis
    proof cases
      case w
      obtain b ss where a: "session_add (cl_session cl) (ms_nudged st0) = (b, ss)" by (cases "session_add (cl_session cl) (ms_nudged st0)")
      note adds = add(1)[OF ok0(1) w(1), unfolded a, simplified] add(2)[OF ok0(1) w(1), of t, unfolded a, simplified]
      have "remembers orient_tools (h @ [((cl, i, t), r)]) (ms_oriented st0)" using remembers_same[OF ok0(2)] w by simp
      then show ?thesis using n adds w has
        by (auto simp: call_nudges_def a nudge_ok_def expected_nudges_def r split: bool.splits)
    next
      case o
      have "remembers write_tools (h @ [((cl, i, t), r)]) (ms_nudged st0)" using remembers_same[OF ok0(1)] o by simp
      then show ?thesis using n add(2)[OF ok0(2) o(1), of t] o
        by (auto simp: call_nudges_def nudge_ok_def expected_nudges_def r)
    next
      case x
      then show ?thesis using n remembers_same[OF ok0(1)] remembers_same[OF ok0(2)]
        by (auto simp: call_nudges_def nudge_ok_def expected_nudges_def r)
    qed
  qed
qed

lemma serve_nudged:
  assumes S: "finite S" "card S \<le> session_set_max"
  shows "\<lbrakk>serve_tools e cs st = (rs, st'); nudge_ok h st; sessions_of cs \<subseteq> S;
      \<forall>((cl', i', t'), r') \<in> set h. cl_session cl' \<in> S; n < length cs; cs ! n = (cl, i, t); rs ! n = Served (Inr (out, ns))\<rbrakk>
    \<Longrightarrow> ns = expected_nudges (h @ take n (zip cs rs)) cl i"
proof (induction cs arbitrary: st h rs n)
  case (Cons c cs)
  obtain cl0 i0 t0 where c: "c = (cl0, i0, t0)" by (cases c)
  obtain r st1 where call: "call_tool e cl0 i0 t0 st = (r, st1)" by (cases "call_tool e cl0 i0 t0 st")
  obtain rs1 st2 where rest: "serve_tools e cs st1 = (rs1, st2)" by (cases "serve_tools e cs st1")
  have rs: "rs = r # rs1" "st' = st2" using Cons.prems(1) by (simp_all add: c call rest)
  have s0: "cl_session cl0 \<in> S" and ss: "sessions_of cs \<subseteq> S" using Cons.prems(3) by (auto simp: sessions_of_def c)
  note step = call_nudged[OF Cons.prems(2) call S s0 Cons.prems(4)]
  show ?case
  proof (cases n)
    case 0
    then show ?thesis using step Cons.prems(6,7) by (simp add: c rs)
  next
    case (Suc m)
    have "ns = expected_nudges ((h @ [((cl0, i0, t0), r)]) @ take m (zip cs rs1)) cl i"
    proof (rule Cons.IH[OF _ _ ss])
      show "serve_tools e cs st1 = (rs1, st')" using rest rs by simp
      show "nudge_ok (h @ [((cl0, i0, t0), r)]) st1" using step by simp
      show "\<forall>((cl', i', t'), r') \<in> set (h @ [((cl0, i0, t0), r)]). cl_session cl' \<in> S" using Cons.prems(4) s0 by auto
    qed (use Cons.prems(5,6,7) in \<open>simp_all add: Suc rs\<close>)
    then show ?thesis by (simp add: Suc c rs)
  qed
qed simp

text \<open>C13: Every session is nudged as the program means to. As long as no more than 10000 sessions come, whatever calls
  they make in whatever order, a result carries the reminder to report the context's impact exactly if it answers the
  first successful write of a session that has an id, and with it the advice to orient exactly if that session has not
  successfully read a project context or the global one before; no other result carries a nudge.\<close>

theorem nudges_exact:
  assumes "serve_tools e cs st = (rs, st')" and "ms_nudged st = no_sessions" and "ms_oriented st = no_sessions"
    and "card (sessions_of cs) \<le> 10000" and "n < length cs" and "cs ! n = (cl, i, t)" and "rs ! n = Served (Inr (out, ns))"
  shows "ns = (let h = take n (zip cs rs); sid = cl_session cl
     in if sid \<noteq> [] \<and> tool_name i \<in> set write_tools \<and> \<not> called h sid write_tools
        then ImpactNudge # (if called h sid orient_tools then [] else [OrientNudge (orient_hint i)]) else [])"
proof -
  have "finite (sessions_of cs)" by (simp add: sessions_of_def)
  moreover have "nudge_ok [] st" using assms(2,3) by (simp add: nudge_ok_def remembers_empty)
  ultimately show ?thesis
    using serve_nudged[of "sessions_of cs" e cs st rs st' "[]" n cl i t out ns] assms
    by (simp add: session_set_max_def expected_nudges_def Let_def)
qed

subsection \<open>The properties at work\<close>

definition demo_listing :: list_items_in where
  "demo_listing = \<lparr>li_project = None, li_status = None, li_type = None, li_assignee = None, li_tag = None, li_since = None,
     li_limit = Some 1, li_cursor = None, li_verbosity = None\<rparr>"

lemma pages_exact_witness:
  "follow_pages demo_mcp demo_listing [demo_two, demo_two] = Some (shown demo_mcp demo_listing (matching_items demo_mcp demo_listing demo_two))
   \<and> map i_title (matching_items demo_mcp demo_listing demo_two) = [''two'', ''t'']"
proof -
  have f: "mcp_filter (li_project demo_listing) demo_two = Inr None" "updated_since (me_api demo_mcp) (li_since demo_listing) = Inr None"
    "li_cursor demo_listing = None"
    by (simp_all add: demo_listing_def mcp_filter_def updated_since_def opt_of_def)
  have d: "distinct (map listing_key (matching_items demo_mcp demo_listing demo_two))" by code_simp
  have n: "length (items demo_two) = 2" by code_simp
  have l: "length (matching_items demo_mcp demo_listing demo_two) = 2" by code_simp
  have p: "page_limit (li_limit demo_listing) = 1" by code_simp
  have t: "map i_title (matching_items demo_mcp demo_listing demo_two) = [''two'', ''t'']" by code_simp
  show ?thesis using pages_exact[OF f d, of "[demo_two, demo_two]"] t by (simp add: same_rows_def n l p)
qed

definition demo_events :: "tool_event list" where
  "demo_events = [(\<lparr>cl_identity = None, cl_session = ''s''\<rparr>, ArchiveProject ''a'', 3),
     (\<lparr>cl_identity = None, cl_session = ''s''\<rparr>, ArchiveProject ''a'', 4)]"

definition nudges_of :: "tool_answer \<Rightarrow> nudge list option" where
  "nudges_of r = (case r of Served (Inr (_, ns)) \<Rightarrow> Some ns | _ \<Rightarrow> None)"

lemma nudges_exact_witness:
  "nudges_of (fst (serve_tools demo_mcp demo_events (started tree_db)) ! 0) = Some [ImpactNudge, OrientNudge (CallProject ''a'')]"
proof -
  obtain rs st' where s: "serve_tools demo_mcp demo_events (started tree_db) = (rs, st')"
    by (cases "serve_tools demo_mcp demo_events (started tree_db)")
  have "map (\<lambda>r. nudges_of r \<noteq> None) (fst (serve_tools demo_mcp demo_events (started tree_db))) = [True, True]" by code_simp
  then have "nudges_of (rs ! 0) \<noteq> None" by (auto simp: s)
  then obtain out ns where r: "rs ! 0 = Served (Inr (out, ns))" by (auto simp: nudges_of_def split: served.splits sum.splits)
  have "sessions_of demo_events = {''s''}" by (simp add: sessions_of_def demo_events_def)
  then have "ns = [ImpactNudge, OrientNudge (CallProject ''a'')]"
    using nudges_exact[OF s _ _ _ _ _ r, of "\<lparr>cl_identity = None, cl_session = ''s''\<rparr>" "ArchiveProject ''a''" 3]
    by (simp add: started_def no_sessions_def demo_events_def write_tools_def called_def orient_hint_def Let_def)
  then show ?thesis by (simp add: s r nudges_of_def)
qed

end
