(* ===== verification/Release.thy ===== *)
theory Release
  imports Api_Properties
begin

text \<open>
  Releases: the versions of \<open>internal/update/checker.go\<close> and their order, the watcher that compares the running build
  with the newest release, and the commands \<open>flightdeck up\<close> and \<open>flightdeck update\<close> (\<open>cmd/flightdeck/up.go\<close>,
  \<open>update.go\<close>) that set an instance up and move it to a release. The release API, git, docker and the drawn
  secrets are arguments.
\<close>

subsection \<open>Versions\<close>

datatype semver = Semver (v_major: int) (v_minor: int) (v_patch: int)

definition newer_than :: "semver \<Rightarrow> semver \<Rightarrow> bool" where
  "newer_than a b =
     (if v_major a \<noteq> v_major b then v_major b < v_major a
      else if v_minor a \<noteq> v_minor b then v_minor b < v_minor a
      else v_patch b < v_patch a)"

text \<open>The order of versions: the theory of linear orders of the library applies to it.\<close>

instantiation semver :: linorder
begin

definition less_semver :: "semver \<Rightarrow> semver \<Rightarrow> bool" where
  "less_semver a b = newer_than b a"

definition less_eq_semver :: "semver \<Rightarrow> semver \<Rightarrow> bool" where
  "less_eq_semver a b = (newer_than b a \<or> a = b)"

instance
proof
  fix a b c :: semver
  note defs = less_semver_def less_eq_semver_def newer_than_def
  show "(a < b) = (a \<le> b \<and> \<not> b \<le> a)" by (cases a; cases b) (auto simp: defs split: if_splits)
  show "a \<le> a" by (simp add: defs)
  show "a \<le> b \<Longrightarrow> b \<le> c \<Longrightarrow> a \<le> c" by (cases a; cases b; cases c) (auto simp: defs split: if_splits)
  show "a \<le> b \<Longrightarrow> b \<le> a \<Longrightarrow> a = b" by (cases a; cases b) (auto simp: defs split: if_splits)
  show "a \<le> b \<or> b \<le> a" by (cases a; cases b) (auto simp: defs split: if_splits)
qed

end

definition version_part :: "string \<Rightarrow> int option" where
  "version_part p = (case atoi p of None \<Rightarrow> None | Some n \<Rightarrow> if n < 0 then None else Some n)"

definition parse_semver :: "string \<Rightarrow> semver option" where
  "parse_semver s =
     (let t = trim_prefix ''v'' s; base = takeWhile (\<lambda>c. c \<noteq> CHR ''-'') t; parts = split_on (CHR ''.'') base
      in if length parts \<noteq> 3 then None
         else (case (version_part (parts ! 0), version_part (parts ! 1), version_part (parts ! 2)) of
                 (Some a, Some b, Some c) \<Rightarrow> Some (Semver a b c) | _ \<Rightarrow> None))"

definition same_version :: "string \<Rightarrow> string \<Rightarrow> bool" where
  "same_version a b = (case (parse_semver a, parse_semver b) of (Some v, Some w) \<Rightarrow> v = w | _ \<Rightarrow> False)"

fun latest_loop :: "string list \<Rightarrow> (semver \<times> string) option \<Rightarrow> (semver \<times> string) option" where
  "latest_loop [] best = best"
| "latest_loop (t # ts) best =
     (case parse_semver t of
        None \<Rightarrow> latest_loop ts best
      | Some v \<Rightarrow> (case best of
                     None \<Rightarrow> latest_loop ts (Some (v, t))
                   | Some (b, bt) \<Rightarrow> latest_loop ts (if newer_than v b then Some (v, t) else Some (b, bt))))"

definition latest_tag :: "string list \<Rightarrow> string option" where
  "latest_tag tags = map_option snd (latest_loop tags None)"

subsection \<open>The watcher\<close>

record release =
  rel_tag :: string
  rel_url :: string

record checker =
  ck_version :: string
  ck_repo :: string
  ck_token :: string
  ck_api :: string
  ck_latest :: "release option"

definition default_repo :: string where "default_repo = ''nathanblatter/flightdeck''"

text \<open>The environment as a function; an unset variable reads as the empty text.\<close>

definition new_checker :: "(string \<Rightarrow> string) \<Rightarrow> string \<Rightarrow> checker option" where
  "new_checker env version =
     (let r = env ''FLIGHTDECK_UPDATE_REPO''; repo = (if r = [] then default_repo else r);
          a = env ''FLIGHTDECK_UPDATE_API''
      in if repo = ''off'' then None
         else Some \<lparr>ck_version = version, ck_repo = repo, ck_token = env ''FLIGHTDECK_GITHUB_TOKEN'',
                ck_api = (if a = [] then ''https://api.github.com'' else a), ck_latest = None\<rparr>)"

text \<open>The answer to a request, an error or a status with a body, and the decoding of the body (tag and address).\<close>

definition check_now :: "(string \<Rightarrow> string \<Rightarrow> error + nat \<times> string) \<Rightarrow> (string \<Rightarrow> error + string \<times> string)
    \<Rightarrow> checker \<Rightarrow> error option \<times> checker" where
  "check_now fetch decode c =
     (case fetch (ck_api c @ ''/repos/'' @ ck_repo c @ ''/releases/latest'') (ck_token c) of
        Inl er \<Rightarrow> (Some er, c)
      | Inr (st, body) \<Rightarrow>
          (if st = 404 then (None, c\<lparr>ck_latest := None\<rparr>)
           else if st \<noteq> 200 then (Some (ErrText ''github api''), c)
           else (case decode (take (2 ^ 20) body) of
                   Inl er \<Rightarrow> (Some er, c)
                 | Inr (tag, url) \<Rightarrow>
                     (if tag = [] then (Some (ErrText ''github api: release without tag_name''), c)
                      else (None, c\<lparr>ck_latest := Some \<lparr>rel_tag = tag, rel_url = url\<rparr>\<rparr>)))))"

definition available :: "checker option \<Rightarrow> release option" where
  "available co =
     (case co of None \<Rightarrow> None
      | Some c \<Rightarrow> (case ck_latest c of None \<Rightarrow> None
          | Some rel \<Rightarrow> (case (parse_semver (ck_version c), parse_semver (rel_tag rel)) of
                (Some cur, Some lat) \<Rightarrow> if newer_than lat cur then Some rel else None
              | _ \<Rightarrow> None)))"

definition notice :: "checker option \<Rightarrow> string" where
  "notice co = (case available co of None \<Rightarrow> []
     | Some rel \<Rightarrow> ''flightdeck '' @ rel_tag rel @ '' is available (running '' @ (case co of None \<Rightarrow> [] | Some c \<Rightarrow> ck_version c)
         @ ''). To upgrade, run `flightdeck update` in the flightdeck repo checkout on the host machine.''
         @ (if rel_url rel \<noteq> [] then '' Release notes: '' @ rel_url rel else []))"

text \<open>The checks at the start and at every tick, each with the answer it gets.\<close>

definition run_checks :: "(string \<Rightarrow> error + string \<times> string) \<Rightarrow> (string \<Rightarrow> string \<Rightarrow> error + nat \<times> string) list \<Rightarrow> checker \<Rightarrow> checker" where
  "run_checks decode answers c = foldl (\<lambda>c fetch. snd (check_now fetch decode c)) c answers"

subsection \<open>The highest tag\<close>

definition tag_versions :: "string list \<Rightarrow> semver list" where
  "tag_versions tags = List.map_filter parse_semver tags"

lemma tag_versions_simps [simp]:
  "tag_versions [] = []"
  "tag_versions (ts @ us) = tag_versions ts @ tag_versions us"
  "tag_versions [t] = (case parse_semver t of None \<Rightarrow> [] | Some v \<Rightarrow> [v])"
  by (auto simp: tag_versions_def List.map_filter_def split: option.splits)

lemma set_tag_versions: "set (tag_versions tags) = {v. \<exists>t \<in> set tags. parse_semver t = Some v}"
  by (force simp: tag_versions_def List.map_filter_def image_iff)

lemma find_append: "find P (xs @ ys) = (case find P xs of None \<Rightarrow> find P ys | Some x \<Rightarrow> Some x)"
  by (induction xs) auto

lemma latest_loop_append: "latest_loop (ts @ us) best = latest_loop us (latest_loop ts best)"
  by (induction ts best rule: latest_loop.induct) (auto split: option.split)

lemma newer_less: "newer_than a b \<longleftrightarrow> b < a"
  by (simp add: less_semver_def)

lemma latest_loop_max:
  "latest_loop tags None =
     (if tag_versions tags = [] then None
      else map_option (Pair (Max (set (tag_versions tags)))) (find (\<lambda>t. parse_semver t = Some (Max (set (tag_versions tags)))) tags))"
proof (induction tags rule: rev_induct)
  case Nil
  then show ?case by simp
next
  case (snoc t ts)
  let ?m = "Max (set (tag_versions ts))"
  show ?case
  proof (cases "parse_semver t")
    case None
    then show ?thesis using snoc by (auto simp: latest_loop_append find_append split: option.split)
  next
    case (Some v)
    show ?thesis
    proof (cases "tag_versions ts = []")
      case True
      then have "find (\<lambda>t. parse_semver t = Some v) ts = None"
        using set_tag_versions[of ts] by (auto simp: find_None_iff)
      then show ?thesis using True snoc Some by (simp add: latest_loop_append find_append)
    next
      case False
      then have m: "?m \<in> set (tag_versions ts)" by simp
      then have "\<exists>t \<in> set ts. parse_semver t = Some ?m" using set_tag_versions[of ts] by blast
      then have "find (\<lambda>t. parse_semver t = Some ?m) ts \<noteq> None" by (auto simp: find_None_iff)
      then obtain u where u: "find (\<lambda>t. parse_semver t = Some ?m) ts = Some u" by blast
      have mx: "Max (insert v (set (tag_versions ts))) = (if ?m < v then v else ?m)"
        using False Max_insert[of "set (tag_versions ts)" v] by (auto simp: max_def not_less simp del: Max_less_iff Max_insert)
      have none: "find (\<lambda>t. parse_semver t = Some v) ts = None" if "?m < v"
      proof -
        have "w \<le> ?m" if "x \<in> set ts" "parse_semver x = Some w" for x w
          using that set_tag_versions[of ts] by (intro Max_ge List.finite_set) blast
        then show ?thesis using that by (force simp: find_None_iff)
      qed
      have tv: "tag_versions (ts @ [t]) = tag_versions ts @ [v]" using Some by simp
      have "latest_loop ts None = Some (?m, u)" using snoc False u by simp
      then have l: "latest_loop (ts @ [t]) None = Some (if ?m < v then (v, t) else (?m, u))"
        by (simp add: latest_loop_append Some newer_less del: Max_less_iff)
      have "find (\<lambda>x. parse_semver x = Some (if ?m < v then v else ?m)) (ts @ [t]) = Some (if ?m < v then t else u)"
        using u none Some by (cases "?m < v") (simp_all add: find_append del: Max_less_iff)
      moreover have "set (tag_versions (ts @ [t])) = insert v (set (tag_versions ts))" using tv by simp
      ultimately show ?thesis using l mx tv by (simp del: Max_less_iff tag_versions_simps)
    qed
  qed
qed

text \<open>The release that an update moves to is the first of the tags with the highest version: tags that are no version
  are passed over, and without any version there is none. The order of versions is linear.\<close>

theorem latest_tag_exact:
  "latest_tag tags = (let vs = List.map_filter parse_semver tags
     in if vs = [] then None else find (\<lambda>t. parse_semver t = Some (Max (set vs))) tags)"
  by (cases "find (\<lambda>t. parse_semver t = Some (Max (set (tag_versions tags)))) tags")
    (simp_all add: latest_tag_def latest_loop_max Let_def flip: tag_versions_def)

lemma atoi_dec_nat: "int n < 2 ^ 63 \<Longrightarrow> atoi (dec_nat n) = Some (int n)"
  using atoi_dec[of "int n"] by (simp add: dec_int_def)

lemma digit_not_mark: "is_digit_char c \<Longrightarrow> c \<noteq> CHR ''.'' \<and> c \<noteq> CHR ''-''"
  by (auto simp: is_digit_char_def)

lemma split_on_skip: "c \<notin> set p \<Longrightarrow> split_on c (p @ c # s) = p # split_on c s"
  by (induction p) auto

lemma split_on_one: "c \<notin> set p \<Longrightarrow> split_on c p = [p]"
  by (induction p) auto

text \<open>The text of a version, perhaps with the suffix of \<open>git describe\<close>, is read back as the version.\<close>

lemma parse_described:
  assumes "int a < 2 ^ 63" "int b < 2 ^ 63" "int c < 2 ^ 63" and "suffix = [] \<or> hd suffix = CHR ''-''"
  shows "parse_semver (''v'' @ dec_nat a @ ''.'' @ dec_nat b @ ''.'' @ dec_nat c @ suffix) = Some (Semver (int a) (int b) (int c))"
proof -
  let ?base = "dec_nat a @ CHR ''.'' # dec_nat b @ CHR ''.'' # dec_nat c"
  have dot: "CHR ''.'' \<notin> set (dec_nat n)" for n using dec_nat_digits digit_not_mark by blast
  have cut: "takeWhile (\<lambda>c. c \<noteq> CHR ''-'') (b @ suffix) = b" if "CHR ''-'' \<notin> set b" for b
  proof -
    have "takeWhile (\<lambda>c. c \<noteq> CHR ''-'') (b @ suffix) = b @ takeWhile (\<lambda>c. c \<noteq> CHR ''-'') suffix"
      using that by (intro takeWhile_append2) auto
    then show ?thesis using assms(4) by (cases suffix) auto
  qed
  have "CHR ''-'' \<notin> set (dec_nat n)" for n using dec_nat_digits digit_not_mark by blast
  then have tw: "takeWhile (\<lambda>c. c \<noteq> CHR ''-'') (?base @ suffix) = ?base" by (intro cut) simp
  have t: "trim_prefix ''v'' (''v'' @ ?base @ suffix) = ?base @ suffix" by (simp add: trim_prefix_def)
  have sp: "split_on (CHR ''.'') ?base = [dec_nat a, dec_nat b, dec_nat c]"
    by (simp add: split_on_skip split_on_one dot)
  have "parse_semver (''v'' @ ?base @ suffix) = Some (Semver (int a) (int b) (int c))"
    unfolding parse_semver_def Let_def t tw sp using assms(1-3) by (simp add: version_part_def atoi_dec_nat)
  then show ?thesis by simp
qed

end
