(* ===== verification/Front.thy ===== *)
theory Front
  imports Api_Ingest Settings Release
begin

text \<open>
  What a request reaches: the two surfaces of the server process (\<open>runServe\<close> of \<open>cmd/flightdeck/main.go\<close>), the
  private one and the connector under the public hostname (\<open>internal/public/public.go\<close>), and the routing of Go's
  \<open>ServeMux\<close> that both use. The verification of a token is the library's, an argument, like the parsing of the public
  address and the comparison of hostnames. CONNECT requests, for which \<open>ServeMux\<close> cleans no path, are left out, and paths
  carry no percent escapes.
\<close>

subsection \<open>Routing\<close>

text \<open>The path as \<open>ServeMux\<close> cleans it: empty and dot segments go, a double dot takes one back.\<close>

fun clean_segs :: "string list \<Rightarrow> string list \<Rightarrow> string list" where
  "clean_segs acc [] = rev acc"
| "clean_segs acc (x # xs) =
     (if x = [] \<or> x = ''.'' then clean_segs acc xs
      else if x = ''..'' then clean_segs (tl acc) xs
      else clean_segs (x # acc) xs)"

definition clean_path :: "string \<Rightarrow> string" where
  "clean_path p =
     (let segs = clean_segs [] (split_on (CHR ''/'') p); np = CHR ''/'' # join ''/'' segs
      in if p \<noteq> [] \<and> last p = CHR ''/'' \<and> segs \<noteq> [] then np @ ''/'' else np)"

definition wild :: "string \<Rightarrow> bool" where
  "wild s = (s \<noteq> [] \<and> hd s = CHR ''{'')"

definition seg_matches :: "string \<Rightarrow> string \<Rightarrow> bool" where
  "seg_matches p s = (if wild p then s \<noteq> [] else p = s)"

definition path_matches :: "string \<Rightarrow> string \<Rightarrow> bool" where
  "path_matches pat path = list_all2 seg_matches (split_on (CHR ''/'') pat) (split_on (CHR ''/'') path)"

text \<open>A pattern for GET takes HEAD as well.\<close>

definition method_matches :: "string \<Rightarrow> string \<Rightarrow> bool" where
  "method_matches m meth = (m = meth \<or> m = ''GET'' \<and> meth = ''HEAD'')"

definition find_route :: "string \<Rightarrow> string \<Rightarrow> nat + (string \<times> string \<times> guard)" where
  "find_route meth path =
     (let here = filter (\<lambda>(_, pat, _). path_matches pat path) routes
      in case filter (\<lambda>(m, _, _). method_matches m meth) here of
           r # _ \<Rightarrow> Inr r
         | [] \<Rightarrow> Inl (if here = [] then 404 else 405))"

subsection \<open>Requests and what they reach\<close>

record front_req =
  fr_method :: string
  fr_host :: string
  fr_path :: string
  fr_cred :: credentials
  fr_token :: string

datatype reached =
    Healthz
  | Metrics
  | Agents identity
  | ApiRoute "string \<times> string \<times> guard" identity
  | ApiPreflight
  | Assets string
  | Document
  | Moved string
  | Refusal nat

record front_env =
  fe_hash :: "string \<Rightarrow> string"
  fe_allowed :: bool
  fe_server :: server

text \<open>The API under \<open>/api\<close>, whose handlers are reached behind their guards.\<close>

definition serve_api :: "front_env \<Rightarrow> front_req \<Rightarrow> string \<Rightarrow> gtime \<Rightarrow> db \<Rightarrow> reached \<times> db" where
  "serve_api e r path now s =
     (case find_route (fr_method r) path of
        Inl st \<Rightarrow> (Refusal st, s)
      | Inr (m, pat, g) \<Rightarrow>
          (case guarded (fe_hash e) g (fe_allowed e) (\<lambda>i s. (ApiRoute (m, pat, g) i, s)) (fr_cred r) now s of
             (Inl (st, _), s') \<Rightarrow> (Refusal st, s')
           | (Inr None, s') \<Rightarrow> (ApiPreflight, s')
           | (Inr (Some x), s') \<Rightarrow> (x, s')))"

definition serve_private :: "front_env \<Rightarrow> front_req \<Rightarrow> gtime \<Rightarrow> db \<Rightarrow> reached \<times> db" where
  "serve_private e r now s =
     (let p = fr_path r; reading = method_matches ''GET'' (fr_method r) in
      if clean_path p = ''/api'' then (Moved ''/api/'', s)
      else if clean_path p \<noteq> p then (Moved (clean_path p), s)
      else if p = ''/healthz'' \<and> reading then (Healthz, s)
      else if p = ''/metrics'' \<and> reading then (Metrics, s)
      else if has_prefix ''/api/'' p then serve_api e r (trim_prefix ''/api'' p) now s
      else if p = ''/mcp'' \<or> has_prefix ''/mcp/'' p
      then (case key_middleware (fe_hash e) scope_write (\<lambda>i s. (Agents i, s)) (fr_cred r) now s of
              (Inl (st, _), s') \<Rightarrow> (Refusal st, s') | (Inr x, s') \<Rightarrow> (x, s'))
      else if p = ''/bug-widget.js'' \<and> \<not> flag flag_bug_widget (fe_server e) then (Refusal 404, s)
      else (Assets p, s))"

subsection \<open>The public connector\<close>

definition actor_name :: string where "actor_name = ''claude-connector''"

record public_config =
  pc_url :: string
  pc_issuer :: string
  pc_service :: string

text \<open>The library: the claims' scopes of a token that verifies for a resource, or the status of a refusal.\<close>

record oauth =
  oa_parse :: "string \<Rightarrow> (string \<times> string \<times> string \<times> string) option"
  oa_token :: "public_config \<Rightarrow> string \<Rightarrow> string \<Rightarrow> nat + string list"
  oa_scope :: "string \<Rightarrow> string list \<Rightarrow> nat option"

text \<open>The scheme, host, path and hostname of the address are checked before anything is served. The result is the
  resource that tokens must name, and the hostname.\<close>

definition public_handler :: "oauth \<Rightarrow> public_config \<Rightarrow> error + string \<times> string" where
  "public_handler o1 cfg =
     (case oa_parse o1 (pc_url cfg) of
        None \<Rightarrow> Inl (ErrText ''public URL must be an https origin with no path'')
      | Some (scheme, host, path, name) \<Rightarrow>
          (if scheme \<noteq> ''https'' \<or> host = [] \<or> path \<noteq> [] \<and> path \<noteq> ''/''
           then Inl (ErrText ''public URL must be an https origin with no path'')
           else if pc_issuer cfg = [] then Inl (ErrText ''auth issuer is required'')
           else if pc_service cfg = [] then Inl (ErrText ''auth service id is required'')
           else Inr (scheme @ ''://'' @ host @ ''/mcp'', name)))"

text \<open>The verified claims become an identity of the program.\<close>

definition bridge :: "string list option \<Rightarrow> reached" where
  "bridge claims = (case claims of None \<Rightarrow> Refusal 401 | Some scopes \<Rightarrow> Agents \<lparr>id_name = actor_name, id_scopes = scopes\<rparr>)"

definition serve_public :: "oauth \<Rightarrow> public_config \<Rightarrow> string \<Rightarrow> front_req \<Rightarrow> reached" where
  "serve_public o1 cfg resource r =
     (let p = fr_path r in
      if clean_path p \<noteq> p then Moved (clean_path p)
      else if p = ''/.well-known/oauth-protected-resource/mcp''
      then (if method_matches ''GET'' (fr_method r) then Document else Refusal 405)
      else if p = ''/mcp'' \<or> has_prefix ''/mcp/'' p
      then (case oa_token o1 cfg resource (fr_token r) of
              Inl st \<Rightarrow> Refusal st
            | Inr scopes \<Rightarrow> (case oa_scope o1 scope_write scopes of Some st \<Rightarrow> Refusal st | None \<Rightarrow> bridge (Some scopes)))
      else Refusal 404)"

text \<open>The hostname of a request, and the surface it selects.\<close>

definition host_of :: "(string \<Rightarrow> string option) \<Rightarrow> string \<Rightarrow> string" where
  "host_of split h = (case split h of None \<Rightarrow> h | Some x \<Rightarrow> x)"

definition split_by_host :: "(string \<Rightarrow> string option) \<Rightarrow> (string \<Rightarrow> string \<Rightarrow> bool) \<Rightarrow> string \<Rightarrow> 'a \<Rightarrow> 'a \<Rightarrow> front_req \<Rightarrow> 'a" where
  "split_by_host split same name pub private r = (if same (host_of split (fr_host r)) name then pub else private)"

definition default_auth_issuer :: string where "default_auth_issuer = ''https://squawk.nathanblatter.com''"

text \<open>The surfaces of the process from its environment: a public URL without a service id ends the process.\<close>

definition surfaces :: "oauth \<Rightarrow> (string \<Rightarrow> string) \<Rightarrow> error + (public_config \<times> string \<times> string) option" where
  "surfaces o1 env =
     (let pub = env ''FLIGHTDECK_PUBLIC_URL''; issuer = env ''FLIGHTDECK_AUTH_ISSUER'';
          cfg = \<lparr>pc_url = pub, pc_issuer = (if issuer = [] then default_auth_issuer else issuer),
                 pc_service = env ''FLIGHTDECK_AUTH_SERVICE_ID''\<rparr>
      in if pub = [] then Inr None
         else if pc_service cfg = [] then Inl (ErrText ''FLIGHTDECK_AUTH_SERVICE_ID is empty'')
         else (case public_handler o1 cfg of Inl er \<Rightarrow> Inl er | Inr (resource, name) \<Rightarrow> Inr (Some (cfg, resource, name))))"

definition serve_front :: "oauth \<Rightarrow> (string \<Rightarrow> string option) \<Rightarrow> (string \<Rightarrow> string \<Rightarrow> bool) \<Rightarrow> (public_config \<times> string \<times> string) option
    \<Rightarrow> front_env \<Rightarrow> front_req \<Rightarrow> gtime \<Rightarrow> db \<Rightarrow> reached \<times> db" where
  "serve_front o1 split same pub e r now s =
     (case pub of
        None \<Rightarrow> serve_private e r now s
      | Some (cfg, resource, name) \<Rightarrow>
          split_by_host split same name (serve_public o1 cfg resource r, s) (serve_private e r now s) r)"

subsection \<open>Routing is well defined\<close>

text \<open>Patterns that some path matches both of.\<close>

definition overlap :: "string \<Rightarrow> string \<Rightarrow> bool" where
  "overlap p q = list_all2 (\<lambda>a b. a = b \<or> wild a \<or> wild b) (split_on (CHR ''/'') p) (split_on (CHR ''/'') q)"

definition compatible :: "string \<times> string \<times> guard \<Rightarrow> string \<times> string \<times> guard \<Rightarrow> bool" where
  "compatible r1 r2 = (case (r1, r2) of ((m, p, _), (n, q, _)) \<Rightarrow> m \<noteq> n \<or> \<not> overlap p q)"

fun pairwise :: "('a \<Rightarrow> 'a \<Rightarrow> bool) \<Rightarrow> 'a list \<Rightarrow> bool" where
  "pairwise P [] = True"
| "pairwise P (x # xs) = (list_all (P x) xs \<and> pairwise P xs)"

lemma routes_compatible: "pairwise compatible routes"
  by code_simp

lemma routes_no_head: "list_all (\<lambda>(m, _, _). m \<noteq> ''HEAD'') routes"
  by code_simp

lemma matches_overlap: "path_matches p s \<Longrightarrow> path_matches q s \<Longrightarrow> overlap p q"
proof -
  have "list_all2 seg_matches as cs \<Longrightarrow> list_all2 seg_matches bs cs
      \<Longrightarrow> list_all2 (\<lambda>a b. a = b \<or> wild a \<or> wild b) as bs" for as bs cs
    by (induction as arbitrary: bs cs) (fastforce simp: list_all2_Cons1 list_all2_Cons2 seg_matches_def split: if_splits)+
  then show "path_matches p s \<Longrightarrow> path_matches q s \<Longrightarrow> overlap p q"
    unfolding path_matches_def overlap_def by blast
qed

text \<open>At most one route takes a request, so the order of registration and the precedence of patterns do not matter.\<close>

lemma routes_unambiguous:
  "length (filter (\<lambda>(m, pat, _). method_matches m meth \<and> path_matches pat path) routes) \<le> 1"
proof -
  let ?P = "\<lambda>(m, pat, _). method_matches m meth \<and> path_matches pat path"
  have "length (filter ?P rs) \<le> 1" if "pairwise compatible rs" "list_all (\<lambda>(m, _, _). m \<noteq> ''HEAD'') rs" for rs
    using that
  proof (induction rs)
    case (Cons r rs)
    obtain m p g where r: "r = (m, p, g)" by (cases r)
    show ?case
    proof (cases "?P r")
      case True
      have "\<not> ?P x" if "x \<in> set rs" for x
      proof -
        obtain n q h where x: "x = (n, q, h)" by (cases x)
        have c: "m \<noteq> n \<or> \<not> overlap p q" "m \<noteq> ''HEAD''" "n \<noteq> ''HEAD''"
          using Cons.prems that by (auto simp: r x compatible_def list_all_iff)
        then have "\<not> (method_matches m meth \<and> method_matches n meth \<and> m \<noteq> n)" by (auto simp: method_matches_def)
        then show ?thesis using True c(1) matches_overlap[of p path q] by (auto simp: r x)
      qed
      then have "filter ?P rs = []" by (simp add: filter_empty_conv)
      then show ?thesis using True by simp
    next
      case False
      then show ?thesis using Cons by simp
    qed
  qed simp
  then show ?thesis using routes_compatible routes_no_head by blast
qed

text \<open>Cleaning a path once is enough: no request is sent around in circles.\<close>

definition plain_seg :: "string \<Rightarrow> bool" where
  "plain_seg x = (x \<noteq> [] \<and> x \<noteq> ''.'' \<and> x \<noteq> ''..'' \<and> CHR ''/'' \<notin> set x)"

lemma clean_segs_plain:
  "\<lbrakk>\<forall>x \<in> set acc. plain_seg x; \<forall>x \<in> set xs. CHR ''/'' \<notin> set x\<rbrakk> \<Longrightarrow> \<forall>x \<in> set (clean_segs acc xs). plain_seg x"
proof (induction xs arbitrary: acc)
  case (Cons x xs)
  have xs: "\<forall>x \<in> set xs. CHR ''/'' \<notin> set x" using Cons.prems(2) by simp
  consider (skip) "x = [] \<or> x = ''.''" | (up) "x = ''..''" | (keep) "x \<noteq> []" "x \<noteq> ''.''" "x \<noteq> ''..''" by blast
  then show ?case
  proof cases
    case skip
    then show ?thesis using Cons.IH[OF Cons.prems(1) xs] by simp
  next
    case up
    have "\<forall>y \<in> set (tl acc). plain_seg y" using Cons.prems(1) by (cases acc) simp_all
    then show ?thesis using Cons.IH[OF _ xs, of "tl acc"] up by simp
  next
    case keep
    then have "\<forall>y \<in> set (x # acc). plain_seg y" using Cons.prems by (simp add: plain_seg_def)
    then have "\<forall>y \<in> set (clean_segs (x # acc) xs). plain_seg y" by (rule Cons.IH[OF _ xs])
    moreover have "clean_segs acc (x # xs) = clean_segs (x # acc) xs" using keep by simp
    ultimately show ?thesis by (simp only:)
  qed
qed simp

lemma clean_segs_id: "\<forall>x \<in> set xs. plain_seg x \<Longrightarrow> clean_segs acc xs = rev acc @ xs"
  by (induction acc xs rule: clean_segs.induct) (auto simp: plain_seg_def)

lemma clean_segs_nil: "clean_segs [] (xs @ [[]]) = clean_segs [] xs"
proof -
  have "clean_segs acc (xs @ [[]]) = clean_segs acc xs" for acc
    by (induction acc xs rule: clean_segs.induct) auto
  then show ?thesis by simp
qed

lemma split_join: "segs \<noteq> [] \<Longrightarrow> \<forall>x \<in> set segs. c \<notin> set x \<Longrightarrow> split_on c (join [c] segs) = segs"
proof (induction "[c]" segs rule: join.induct)
  case (3 x y ys)
  then show ?case using split_on_skip[of c x "join [c] (y # ys)"] by simp
qed (auto simp: split_on_one)

lemma last_join:
  "segs \<noteq> [] \<Longrightarrow> \<forall>x \<in> set segs. x \<noteq> [] \<and> c \<notin> set x \<Longrightarrow> join [c] segs \<noteq> [] \<and> last (join [c] segs) \<noteq> c"
proof (induction "[c]" segs rule: join.induct)
  case (2 x)
  then show ?case using last_in_set[of x] by auto
qed auto

lemma split_snoc: "split_on c (s @ [c]) = split_on c s @ [[]]"
  by (induction s) (auto split: list.split)

lemma clean_path_idem: "clean_path (clean_path p) = clean_path p"
proof -
  let ?segs = "clean_segs [] (split_on (CHR ''/'') p)"
  have plain: "\<forall>x \<in> set ?segs. plain_seg x" by (rule clean_segs_plain) (auto dest: split_on_no_sep)
  show ?thesis
  proof (cases "?segs = []")
    case True
    then have "clean_path p = ''/''" by (simp add: clean_path_def Let_def)
    moreover have "clean_path ''/'' = ''/''" by code_simp
    ultimately show ?thesis by simp
  next
    case False
    let ?np = "CHR ''/'' # join ''/'' ?segs"
    have sp: "split_on (CHR ''/'') ?np = [] # ?segs"
      using split_join[OF False, of "CHR ''/''"] plain by (auto simp: plain_seg_def)
    have c: "clean_segs [] (split_on (CHR ''/'') ?np) = ?segs" using clean_segs_id[OF plain, of "[]"] unfolding sp by simp
    have c2: "clean_segs [] (split_on (CHR ''/'') (?np @ ''/'')) = ?segs"
      using c by (simp only: split_snoc clean_segs_nil)
    have l: "last ?np \<noteq> CHR ''/''"
      using last_join[OF False, of "CHR ''/''"] plain by (auto simp: plain_seg_def)
    show ?thesis
      using False c c2 l by (auto simp: clean_path_def[of p] Let_def) (simp_all add: clean_path_def Let_def)
  qed
qed

subsection \<open>The two surfaces\<close>

lemma authenticate_live:
  assumes "authenticate hash r now s = (Inr i, s')"
  shows "\<exists>k \<in> set (api_keys s). k_hash k = hash (presented r) \<and> \<not> k_revoked k
    \<and> (k_expires_at k = None \<or> now < the (k_expires_at k)) \<and> i = \<lparr>id_name = k_name k, id_scopes = k_scopes k\<rparr>"
proof -
  obtain k where k: "get_api_key_by_hash (hash (presented r)) (s\<lparr>db_now := now\<rparr>) = Inr k"
    "i = \<lparr>id_name = k_name k, id_scopes = k_scopes k\<rparr>"
    using assms by (auto simp: authenticate_def Let_def split: if_splits sum.splits)
  then show ?thesis
    using row_find_Inr[OF k(1)[unfolded get_api_key_by_hash_def]] by (auto split: option.splits)
qed

lemma middleware_runs:
  "key_middleware hash scope h r now s = (Inr x, s') \<Longrightarrow>
     \<exists>i s1. authenticate hash r now s = (Inr i, s1) \<and> has_scope i scope \<and> h i s1 = (x, s')"
  by (auto simp: key_middleware_def split: prod.splits sum.splits if_splits)

lemma serve_api_agents: "fst (serve_api e r path now s) \<noteq> Agents i"
proof -
  have "x = ApiRoute q i'" if "guarded hash g a (\<lambda>i s. (ApiRoute q i, s)) c now s = (Inr (Some x), s')" "\<forall>i'. x \<noteq> ApiRoute q i'" for hash g a q c now s s' x i'
    using that by (auto simp: guarded_def Let_def split: guard.splits prod.splits sum.splits if_splits dest!: middleware_runs)
  then have g: "x \<noteq> Agents i" if "guarded hash g a (\<lambda>i s. (ApiRoute q i, s)) c now s = (Inr (Some x), s')" for hash g a q c now s s' x
    using that by fastforce
  show ?thesis
    by (auto simp: serve_api_def dest: g split: sum.split prod.split option.split)
qed

lemma private_agents:
  assumes "serve_private e r now s = (Agents i, s')"
  shows "has_scope i scope_write \<and> (\<exists>k \<in> set (api_keys s). k_hash k = fe_hash e (presented (fr_cred r)) \<and> \<not> k_revoked k
    \<and> (k_expires_at k = None \<or> now < the (k_expires_at k)) \<and> i = \<lparr>id_name = k_name k, id_scopes = k_scopes k\<rparr>)"
proof -
  have "\<exists>s1. key_middleware (fe_hash e) scope_write (\<lambda>i s. (Agents i, s)) (fr_cred r) now s = (Inr (Agents i), s1)"
    using assms serve_api_agents[of e r "trim_prefix ''/api'' (fr_path r)" now s i]
    by (auto simp: serve_private_def Let_def split: if_splits prod.splits sum.splits)
  then obtain s1 where "key_middleware (fe_hash e) scope_write (\<lambda>i s. (Agents i, s)) (fr_cred r) now s = (Inr (Agents i), s1)" by blast
  from middleware_runs[OF this] obtain s2 where "authenticate (fe_hash e) (fr_cred r) now s = (Inr i, s2)" "has_scope i scope_write"
    by auto
  then show ?thesis using authenticate_live by blast
qed

lemma serve_public_keyless: "serve_public o1 cfg resource (r\<lparr>fr_cred := c\<rparr>) = serve_public o1 cfg resource r"
proof -
  have "fr_path (r\<lparr>fr_cred := c\<rparr>) = fr_path r" "fr_method (r\<lparr>fr_cred := c\<rparr>) = fr_method r" "fr_token (r\<lparr>fr_cred := c\<rparr>) = fr_token r"
    by simp_all
  then show ?thesis unfolding serve_public_def Let_def by (simp only:)
qed

lemma serve_public_reached:
  assumes "\<forall>sc scopes. oa_scope o1 sc scopes = None \<longrightarrow> sc \<in> set scopes"
  shows "serve_public o1 cfg resource r \<in> {Document, Moved (clean_path (fr_path r))} \<union> range Refusal
    \<or> (\<exists>scopes. oa_token o1 cfg resource (fr_token r) = Inr scopes \<and> scope_write \<in> set scopes
         \<and> (fr_path r = ''/mcp'' \<or> has_prefix ''/mcp/'' (fr_path r))
         \<and> serve_public o1 cfg resource r = Agents \<lparr>id_name = ''claude-connector'', id_scopes = scopes\<rparr>)"
  using assms unfolding serve_public_def Let_def by (auto simp: bridge_def actor_name_def split: sum.split option.split)

text \<open>C2: The tunnel exposes the connector and nothing else. A request under the public hostname changes nothing, is not
  affected by any API key it carries, and reaches the agents' tools only on \<open>/mcp\<close>, with a token that verifies for this
  resource and holds the write scope, as the connector's actor; else it gets the resource document, a redirect to the
  cleaned path, or a refusal. Under any other hostname the tools are reached only with a live key that holds the
  write scope.\<close>

theorem public_surface_closed:
  assumes "serve_front o1 split same (Some (cfg, resource, name)) e r now s = (out, s')"
    and "\<forall>sc scopes. oa_scope o1 sc scopes = None \<longrightarrow> sc \<in> set scopes"
  shows "if same (host_of split (fr_host r)) name
    then s' = s \<and> serve_front o1 split same (Some (cfg, resource, name)) e (r\<lparr>fr_cred := c\<rparr>) now s = (out, s)
      \<and> (out \<in> {Document, Moved (clean_path (fr_path r))} \<union> range Refusal
         \<or> (\<exists>scopes. oa_token o1 cfg resource (fr_token r) = Inr scopes \<and> scope_write \<in> set scopes
              \<and> (fr_path r = ''/mcp'' \<or> has_prefix ''/mcp/'' (fr_path r))
              \<and> out = Agents \<lparr>id_name = ''claude-connector'', id_scopes = scopes\<rparr>))
    else (\<forall>i. out = Agents i \<longrightarrow> scope_write \<in> set (id_scopes i)
      \<and> (\<exists>k \<in> set (api_keys s). k_hash k = fe_hash e (presented (fr_cred r)) \<and> \<not> k_revoked k
           \<and> (k_expires_at k = None \<or> now < the (k_expires_at k)) \<and> id_name i = k_name k))"
proof (cases "same (host_of split (fr_host r)) name")
  case True
  then have o2: "out = serve_public o1 cfg resource r" "s' = s"
    using assms(1) by (simp_all add: serve_front_def split_by_host_def)
  have "serve_front o1 split same (Some (cfg, resource, name)) e (r\<lparr>fr_cred := c\<rparr>) now s = (out, s)"
    using True by (simp add: serve_front_def split_by_host_def o2 serve_public_keyless)
  then show ?thesis using True o2 serve_public_reached[OF assms(2), of cfg resource r] by simp
next
  case False
  then have "serve_private e r now s = (out, s')" using assms(1) by (simp add: serve_front_def split_by_host_def)
  then show ?thesis using False private_agents[of e r now s _ s'] by (fastforce simp: has_scope_def list_ex_iff)
qed

definition demo_oauth :: oauth where
  "demo_oauth = \<lparr>oa_parse = (\<lambda>u. Some (''https'', u, [], u)), oa_token = (\<lambda>cfg res t. if t = ''tok'' then Inr [''read'', ''write''] else Inl 401),
     oa_scope = (\<lambda>sc scopes. if sc \<in> set scopes then None else Some 403)\<rparr>"

definition demo_front :: front_env where
  "demo_front = \<lparr>fe_hash = (\<lambda>x. x), fe_allowed = True,
     fe_server = \<lparr>sv_db = empty_db, sv_snapshot = None, sv_embed_key = [], sv_env_key = False, sv_setup_token = [], sv_setup_done = True\<rparr>\<rparr>"

definition demo_request :: front_req where
  "demo_request = \<lparr>fr_method = ''POST'', fr_host = ''pub:443'', fr_path = ''/mcp'', fr_cred = \<lparr>cr_header = ''k'', cr_query = []\<rparr>, fr_token = ''tok''\<rparr>"

lemma public_surface_closed_witness:
  "fst (serve_front demo_oauth (\<lambda>h. Some (takeWhile (\<lambda>c. c \<noteq> CHR '':'') h)) (=) (Some (\<lparr>pc_url = [], pc_issuer = [], pc_service = []\<rparr>, [], ''pub''))
      demo_front (demo_request\<lparr>fr_cred := \<lparr>cr_header = [], cr_query = []\<rparr>\<rparr>) 0 empty_db)
   = Agents \<lparr>id_name = ''claude-connector'', id_scopes = [''read'', ''write'']\<rparr>"
proof -
  let ?serve = "\<lambda>r. serve_front demo_oauth (\<lambda>h. Some (takeWhile (\<lambda>c. c \<noteq> CHR '':'') h)) (=) (Some (\<lparr>pc_url = [], pc_issuer = [], pc_service = []\<rparr>, [], ''pub''))
      demo_front r 0 empty_db"
  obtain out s' where r: "?serve demo_request = (out, s')" by (cases "?serve demo_request")
  have "fst (?serve demo_request) = Agents \<lparr>id_name = ''claude-connector'', id_scopes = [''read'', ''write'']\<rparr>" by code_simp
  then have o1: "out = Agents \<lparr>id_name = ''claude-connector'', id_scopes = [''read'', ''write'']\<rparr>" using r by simp
  have sc: "\<forall>sc scopes. oa_scope demo_oauth sc scopes = None \<longrightarrow> sc \<in> set scopes" by (simp add: demo_oauth_def)
  have h: "host_of (\<lambda>h. Some (takeWhile (\<lambda>c. c \<noteq> CHR '':'') h)) (fr_host demo_request) = ''pub''" by code_simp
  show ?thesis
    using public_surface_closed[OF r sc, of "\<lparr>cr_header = [], cr_query = []\<rparr>", unfolded h, simplified] o1 by simp
qed

end
