(* ===== verification/Metrics.thy ===== *)
theory Metrics
  imports Complex_Main Text "HOL-Library.List_Lexorder" "HOL-Library.Char_ord"
begin

text \<open>
  The metrics of \<open>internal/metrics\<close>: counters and histograms per set of labels, and the text that is scraped.
  Counts are natural numbers where the code has uint64, and seconds are rationals. The quoting of \<open>%q\<close> and the text
  of a float are arguments.
\<close>

subsection \<open>Histograms\<close>

definition buckets :: "rat list" where
  "buckets = [5 / 1000, 1 / 100, 25 / 1000, 5 / 100, 1 / 10, 25 / 100, 5 / 10, 1, 25 / 10, 5, 10]"

record hist =
  h_counts :: "nat list"
  h_sum :: rat
  h_n :: nat

definition new_hist :: hist where
  "new_hist = \<lparr>h_counts = replicate (length buckets) 0, h_sum = 0, h_n = 0\<rparr>"

text \<open>Only the first bucket that the value fits in is incremented.\<close>

fun bump :: "rat list \<Rightarrow> nat list \<Rightarrow> rat \<Rightarrow> nat list" where
  "bump (b # bs) (c # cs) x = (if x \<le> b then (c + 1) # cs else c # bump bs cs x)"
| "bump _ cs x = cs"

definition observe :: "rat \<Rightarrow> hist \<Rightarrow> hist" where
  "observe x h = \<lparr>h_counts = bump buckets (h_counts h) x, h_sum = h_sum h + x, h_n = h_n h + 1\<rparr>"

subsection \<open>The registry\<close>

definition dq :: string where "dq = [CHR 0x22]"

record metric =
  mt_name :: string
  mt_help :: string
  mt_counters :: "(string \<times> nat) list"
  mt_hists :: "(string \<times> hist) list"

definition metric_incr :: "string \<Rightarrow> metric \<Rightarrow> metric" where
  "metric_incr labels m =
     m\<lparr>mt_counters := AList.update labels ((case map_of (mt_counters m) labels of None \<Rightarrow> 0 | Some n \<Rightarrow> n) + 1) (mt_counters m)\<rparr>"

definition metric_observe :: "string \<Rightarrow> rat \<Rightarrow> metric \<Rightarrow> metric" where
  "metric_observe labels x m =
     m\<lparr>mt_hists := AList.update labels (observe x (case map_of (mt_hists m) labels of None \<Rightarrow> new_hist | Some h \<Rightarrow> h)) (mt_hists m)\<rparr>"

record registry =
  rg_http_req :: metric
  rg_http_dur :: metric
  rg_mcp_req :: metric
  rg_mcp_dur :: metric
  rg_search_dur :: metric

definition empty_registry :: registry where
  "empty_registry = \<lparr>rg_http_req = \<lparr>mt_name = ''flightdeck_http_requests_total'', mt_help = ''HTTP requests by route and status.'', mt_counters = [], mt_hists = []\<rparr>,
     rg_http_dur = \<lparr>mt_name = ''flightdeck_http_request_duration_seconds'', mt_help = ''HTTP request latency by route.'', mt_counters = [], mt_hists = []\<rparr>,
     rg_mcp_req = \<lparr>mt_name = ''flightdeck_mcp_tool_calls_total'', mt_help = ''MCP tool calls by tool and result.'', mt_counters = [], mt_hists = []\<rparr>,
     rg_mcp_dur = \<lparr>mt_name = ''flightdeck_mcp_tool_duration_seconds'', mt_help = ''MCP tool latency by tool.'', mt_counters = [], mt_hists = []\<rparr>,
     rg_search_dur = \<lparr>mt_name = ''flightdeck_search_duration_seconds'', mt_help = ''Search latency by recall path (lexical|cache|embed).'', mt_counters = [], mt_hists = []\<rparr>\<rparr>"

definition record_http :: "(string \<Rightarrow> string) \<Rightarrow> string \<Rightarrow> string \<Rightarrow> int \<Rightarrow> rat \<Rightarrow> registry \<Rightarrow> registry" where
  "record_http q method route st d r =
     r\<lparr>rg_http_req := metric_incr (''method='' @ q method @ '',route='' @ q route @ '',status='' @ dq @ dec_int st @ dq) (rg_http_req r),
       rg_http_dur := metric_observe (''method='' @ q method @ '',route='' @ q route) d (rg_http_dur r)\<rparr>"

definition record_mcp :: "(string \<Rightarrow> string) \<Rightarrow> string \<Rightarrow> bool \<Rightarrow> rat \<Rightarrow> registry \<Rightarrow> registry" where
  "record_mcp q tool ok d r =
     r\<lparr>rg_mcp_req := metric_incr (''tool='' @ q tool @ '',result='' @ q (if ok then ''ok'' else ''error'')) (rg_mcp_req r),
       rg_mcp_dur := metric_observe (''tool='' @ q tool) d (rg_mcp_dur r)\<rparr>"

definition record_search :: "(string \<Rightarrow> string) \<Rightarrow> string \<Rightarrow> rat \<Rightarrow> registry \<Rightarrow> registry" where
  "record_search q path d r = r\<lparr>rg_search_dur := metric_observe (''path='' @ q path) d (rg_search_dur r)\<rparr>"

subsection \<open>Routes\<close>

definition is_hex :: "char \<Rightarrow> bool" where
  "is_hex c = (c \<in> set ''0123456789abcdefABCDEF'')"

definition is_uuid :: "string \<Rightarrow> bool" where
  "is_uuid p = (let parts = split_on (CHR ''-'') p
     in map length parts = [8, 4, 4, 4, 12] \<and> list_all (list_all is_hex) parts)"

definition normalize_route :: "string \<Rightarrow> string" where
  "normalize_route path = join ''/'' (map (\<lambda>p. if is_uuid p then '':id'' else p) (split_on (CHR ''/'') path))"

text \<open>A served request: the status is the last one the handler wrote, or 200.\<close>

definition http_middleware :: "(string \<Rightarrow> string) \<Rightarrow> string \<Rightarrow> string \<Rightarrow> int list \<Rightarrow> rat \<Rightarrow> registry \<Rightarrow> registry" where
  "http_middleware q method path written d r =
     record_http q method (normalize_route path) (if written = [] then 200 else last written) d r"

subsection \<open>The scraped text\<close>

fun cumulate :: "nat \<Rightarrow> nat list \<Rightarrow> nat list" where
  "cumulate n [] = []"
| "cumulate n (c # cs) = (n + c) # cumulate (n + c) cs"

definition hist_lines :: "(rat \<Rightarrow> string) \<Rightarrow> string \<Rightarrow> string \<Rightarrow> hist \<Rightarrow> string list" where
  "hist_lines fmt name ls h =
     map (\<lambda>(b, n). name @ ''_bucket{'' @ ls @ '',le='' @ dq @ fmt b @ dq @ ''} '' @ dec_nat n) (zip buckets (cumulate 0 (h_counts h)))
     @ [name @ ''_bucket{'' @ ls @ '',le='' @ dq @ ''+Inf'' @ dq @ ''} '' @ dec_nat (h_n h),
        name @ ''_sum{'' @ ls @ ''} '' @ fmt (h_sum h), name @ ''_count{'' @ ls @ ''} '' @ dec_nat (h_n h)]"

definition metric_lines :: "(rat \<Rightarrow> string) \<Rightarrow> metric \<Rightarrow> string list" where
  "metric_lines fmt m =
     (if mt_counters m = [] \<and> mt_hists m = [] then []
      else [''# HELP '' @ mt_name m @ '' '' @ mt_help m,
            ''# TYPE '' @ mt_name m @ '' '' @ (if mt_hists m \<noteq> [] then ''histogram'' else ''counter'')]
        @ map (\<lambda>ls. mt_name m @ ''{'' @ ls @ ''} '' @ dec_nat (the (map_of (mt_counters m) ls))) (sort (map fst (mt_counters m)))
        @ concat (map (\<lambda>ls. hist_lines fmt (mt_name m) ls (the (map_of (mt_hists m) ls))) (sort (map fst (mt_hists m)))))"

definition write_prometheus :: "(rat \<Rightarrow> string) \<Rightarrow> registry \<Rightarrow> string list" where
  "write_prometheus fmt r =
     concat (map (metric_lines fmt) [rg_http_req r, rg_http_dur r, rg_mcp_req r, rg_mcp_dur r, rg_search_dur r])"

subsection \<open>What a histogram shows\<close>

definition observed_all :: "rat list \<Rightarrow> hist" where
  "observed_all xs = foldl (\<lambda>h x. observe x h) new_hist xs"

lemma length_bump: "length (bump bs cs x) = length cs"
  by (induction bs cs x rule: bump.induct) auto

lemma length_cumulate: "length (cumulate n cs) = length cs"
  by (induction cs arbitrary: n) auto

lemma cumulate_shift: "cumulate (k + n) cs = map ((+) k) (cumulate n cs)"
  by (induction cs arbitrary: n) (simp_all add: add.assoc)

lemma bump_all:
  "\<forall>y \<in> set bs. x \<le> y \<Longrightarrow> length ds = length bs \<Longrightarrow> map2 (\<lambda>b c. if x \<le> b then c + 1 else c) bs ds = map ((+) (1 :: nat)) ds"
  by (induction bs arbitrary: ds) (auto simp: length_Suc_conv)

lemma cumulate_bump:
  "sorted bs \<Longrightarrow> length cs = length bs \<Longrightarrow>
     cumulate n (bump bs cs x) = map2 (\<lambda>b c. if x \<le> b then c + 1 else c) bs (cumulate n cs)"
proof (induction bs cs x arbitrary: n rule: bump.induct)
  case (1 b bs c cs x)
  show ?case
  proof (cases "x \<le> b")
    case True
    then have "\<forall>y \<in> set bs. x \<le> y" using 1 by auto
    then have "map2 (\<lambda>b c. if x \<le> b then c + 1 else c) bs (cumulate (n + c) cs) = map ((+) 1) (cumulate (n + c) cs)"
      using 1 by (intro bump_all) (simp_all add: length_cumulate)
    then show ?thesis using True 1 cumulate_shift[of 1 "n + c" cs] by simp
  next
    case False
    then show ?thesis using 1 by simp
  qed
qed auto

lemma buckets_sorted: "sorted buckets"
  by (simp add: buckets_def)

lemma observed_counts:
  "length (h_counts (observed_all xs)) = length buckets
   \<and> cumulate 0 (h_counts (observed_all xs)) = map (\<lambda>b. length (filter (\<lambda>x. x \<le> b) xs)) buckets
   \<and> h_n (observed_all xs) = length xs \<and> h_sum (observed_all xs) = sum_list xs"
proof (induction xs rule: rev_induct)
  case Nil
  have "cumulate 0 (replicate k 0) = replicate k 0" for k by (induction k) auto
  then show ?case by (simp add: observed_all_def new_hist_def map_replicate_const)
next
  case (snoc x xs)
  have zip_map: "map2 (\<lambda>b c. if x \<le> b then c + 1 else c) bs (map f bs) = map (\<lambda>b. if x \<le> b then f b + 1 else f b) bs"
    for bs :: "rat list" and f :: "rat \<Rightarrow> nat"
    by (induction bs) auto
  have o1: "observed_all (xs @ [x]) = observe x (observed_all xs)" by (simp add: observed_all_def)
  have l: "length (h_counts (observed_all xs)) = length buckets" using snoc by blast
  have "cumulate 0 (bump buckets (h_counts (observed_all xs)) x)
      = map (\<lambda>b. if x \<le> b then length (filter (\<lambda>x. x \<le> b) xs) + 1 else length (filter (\<lambda>x. x \<le> b) xs)) buckets"
    using snoc cumulate_bump[OF buckets_sorted l, of 0 x] by (simp add: zip_map)
  then show ?case using snoc by (simp add: o1 observe_def length_bump cong: map_cong)
qed


text \<open>The labels of a path that holds no id are the path itself: every such path, known or not, gets its own series.\<close>

lemma plain_path_kept:
  "list_all (\<lambda>p. \<not> is_uuid p) (split_on (CHR ''/'') path) \<Longrightarrow> normalize_route path = path"
proof -
  assume "list_all (\<lambda>p. \<not> is_uuid p) (split_on (CHR ''/'') path)"
  then have "map (\<lambda>p. if is_uuid p then '':id'' else p) (split_on (CHR ''/'') path) = split_on (CHR ''/'') path"
    by (intro map_idI) (simp add: list_all_iff)
  then show ?thesis by (simp add: normalize_route_def join_split_on)
qed

end
