(* ===== verification/Deploy.thy ===== *)
theory Deploy
  imports Release Protocol Keys
begin

text \<open>
  The commands of \<open>cmd/flightdeck\<close> besides the server: the keys (\<open>main.go\<close>), setting up an instance (\<open>up.go\<close>)
  and moving it to a release (\<open>update.go\<close>). A command ends the process with a message where the code calls
  \<open>log.Fatal\<close> or exits; that is an error here. Git, docker, the template, and the outcome of every write are
  arguments; a write that fails may leave a part of the file behind.
\<close>

subsection \<open>Keys\<close>

text \<open>A secret: a prefix and the drawn bytes in URL-safe base64.\<close>

definition new_raw_key :: "error + string \<Rightarrow> string \<Rightarrow> error + string" where
  "new_raw_key drawn prefix = map_sum id (\<lambda>b. prefix @ b64_encode b) drawn"

lemma new_raw_key_inj: "new_raw_key (Inr a) p = new_raw_key (Inr b) p \<longleftrightarrow> a = b"
  by (simp add: new_raw_key_def) (metis b64_roundtrip option.inject)

text \<open>The expiry of a new key in days; a day is 24 hours long.\<close>

definition expiry_arg :: "string list \<Rightarrow> gtime \<Rightarrow> error + gtime option" where
  "expiry_arg args now =
     (if length args < 3 then Inr None
      else (case atoi (args ! 2) of
              None \<Rightarrow> Inl (ErrText ''invalid expiry-days'')
            | Some n \<Rightarrow> if n \<le> 0 then Inl (ErrText ''invalid expiry-days'') else Inr (Some (now + n * (24 * hour)))))"

definition run_keygen :: "(string \<Rightarrow> string) \<Rightarrow> error + string \<Rightarrow> string list \<Rightarrow> gtime \<Rightarrow> db \<Rightarrow> (error + api_key \<times> string) \<times> db" where
  "run_keygen hash drawn args now s =
     (if length args < 2 then (Inl (ErrText ''usage''), s)
      else let scopes = split_scopes (args ! 1)
      in if scopes = [] then (Inl (ErrText ''at least one scope is required''), s)
         else (case expiry_arg args now of
                 Inl er \<Rightarrow> (Inl er, s)
               | Inr expires \<Rightarrow>
                   (case new_raw_key drawn ''fd_'' of
                      Inl er \<Rightarrow> (Inl er, s)
                    | Inr raw \<Rightarrow>
                        (case with_tx now (create_api_key (args ! 0) (hash raw) scopes expires) s of
                           (Inl er, s') \<Rightarrow> (Inl er, s') | (Inr k, s') \<Rightarrow> (Inr (k, raw), s')))))"

datatype keys_out = KeyList "api_key list" | KeyRevoked api_key | KeyRotated api_key string

text \<open>The statement for one key, named by its id on the command line.\<close>

definition key_arg :: "(string \<Rightarrow> uuid option) \<Rightarrow> string list \<Rightarrow> error + uuid" where
  "key_arg parse args =
     (if length args < 2 then Inl (ErrText ''usage'')
      else (case parse (args ! 1) of None \<Rightarrow> Inl (ErrText ''invalid id'') | Some x \<Rightarrow> Inr x))"

definition run_keys :: "(string \<Rightarrow> uuid option) \<Rightarrow> (string \<Rightarrow> string) \<Rightarrow> error + string \<Rightarrow> string list \<Rightarrow> gtime \<Rightarrow> db
    \<Rightarrow> (error + keys_out) \<times> db" where
  "run_keys parse hash drawn args now s =
     (if args = [] then (Inl (ErrText ''usage''), s)
      else if args ! 0 = ''list'' then (Inr (KeyList (list_api_keys s)), s)
      else if args ! 0 = ''revoke''
      then (case key_arg parse args of
              Inl er \<Rightarrow> (Inl er, s)
            | Inr x \<Rightarrow> (case with_tx now (revoke_api_key x) s of (r, s') \<Rightarrow> (map_sum id KeyRevoked r, s')))
      else if args ! 0 = ''rotate''
      then (case key_arg parse args of
              Inl er \<Rightarrow> (Inl er, s)
            | Inr x \<Rightarrow>
                (case new_raw_key drawn ''fd_'' of
                   Inl er \<Rightarrow> (Inl er, s)
                 | Inr raw \<Rightarrow> (case with_tx now (rotate_api_key x (hash raw)) s of
                                 (r, s') \<Rightarrow> (map_sum id (\<lambda>k. KeyRotated k raw) r, s'))))
      else (Inl (ErrText ''unknown keys subcommand''), s))"

subsection \<open>The directory of an instance\<close>

type_synonym files = "string \<rightharpoonup> string"

datatype write_outcome = WriteAll | WriteNot error | WriteSome nat error

definition write_file :: "write_outcome \<Rightarrow> string \<Rightarrow> string \<Rightarrow> files \<Rightarrow> error option \<times> files" where
  "write_file w path content fs =
     (case w of
        WriteAll \<Rightarrow> (None, fs(path \<mapsto> content))
      | WriteNot er \<Rightarrow> (Some er, fs)
      | WriteSome n er \<Rightarrow> (Some er, fs(path \<mapsto> take n content)))"

record instance_opts =
  io_repo :: string
  io_name :: string
  io_port :: int

text \<open>The files of the directory, and the compose file that docker last started.\<close>

record instance_state =
  is_files :: files
  is_running :: "string option"

record up_env =
  ue_mkdir :: "error option"
  ue_stat :: "error option"
  ue_pass :: "error + string"
  ue_token :: "error + string"
  ue_env_write :: write_outcome
  ue_render :: "string \<Rightarrow> string \<Rightarrow> error + string"
  ue_compose_write :: write_outcome
  ue_docker :: "error option"

definition env_path :: string where "env_path = ''.env''"
definition compose_path :: string where "compose_path = ''docker-compose.yml''"

definition env_line :: "string \<Rightarrow> string \<Rightarrow> string" where
  "env_line k v = k @ ''='' @ v @ [CHR 0x0A]"

definition env_text :: "string \<Rightarrow> int \<Rightarrow> string \<Rightarrow> string \<Rightarrow> string" where
  "env_text comment port pw token = comment @ [CHR 0x0A] @ env_line ''FLIGHTDECK_PORT'' (dec_int port)
     @ env_line ''POSTGRES_PASSWORD'' pw @ env_line ''FLIGHTDECK_SETUP_TOKEN'' token
     @ ''# Optional: enables semantic search (can also be set later in the web UI).'' @ [CHR 0x0A] @ env_line ''OPENAI_API_KEY'' []"

text \<open>The secrets are drawn and written once; the result is the setup token if this call wrote them.\<close>

definition ensure_env :: "string \<Rightarrow> up_env \<Rightarrow> instance_opts \<Rightarrow> files \<Rightarrow> (error + string) \<times> files" where
  "ensure_env comment u opts fs =
     (case ue_stat u of
        Some er \<Rightarrow> (Inl er, fs)
      | None \<Rightarrow>
          (case fs env_path of
             Some _ \<Rightarrow> (Inr [], fs)
           | None \<Rightarrow>
               (case (new_raw_key (ue_pass u) [], new_raw_key (ue_token u) ''fdsetup_'') of
                  (Inl er, _) \<Rightarrow> (Inl er, fs)
                | (Inr _, Inl er) \<Rightarrow> (Inl er, fs)
                | (Inr pw, Inr token) \<Rightarrow>
                    (case write_file (ue_env_write u) env_path (env_text comment (io_port opts) pw token) fs of
                       (Some er, fs') \<Rightarrow> (Inl er, fs') | (None, fs') \<Rightarrow> (Inr token, fs')))))"

definition apply_instance :: "string \<Rightarrow> up_env \<Rightarrow> string \<Rightarrow> instance_opts \<Rightarrow> bool \<Rightarrow> instance_state
    \<Rightarrow> (error + string) \<times> instance_state" where
  "apply_instance comment u version opts no_start st =
     (case ue_mkdir u of
        Some er \<Rightarrow> (Inl er, st)
      | None \<Rightarrow>
          (case ensure_env comment u opts (is_files st) of
             (Inl er, fs) \<Rightarrow> (Inl er, st\<lparr>is_files := fs\<rparr>)
           | (Inr token, fs) \<Rightarrow>
               (case ue_render u (io_repo opts) version of
                  Inl er \<Rightarrow> (Inl er, st\<lparr>is_files := fs\<rparr>)
                | Inr text \<Rightarrow>
                    (case write_file (ue_compose_write u) compose_path text fs of
                       (Some er, fs') \<Rightarrow> (Inl er, st\<lparr>is_files := fs'\<rparr>)
                     | (None, fs') \<Rightarrow>
                         (if no_start then (Inr token, st\<lparr>is_files := fs'\<rparr>)
                          else (case ue_docker u of
                                  Some er \<Rightarrow> (Inl er, st\<lparr>is_files := fs'\<rparr>)
                                | None \<Rightarrow> (Inr token, st\<lparr>is_files := fs', is_running := Some text\<rparr>)))))))"

subsection \<open>Moving to a release\<close>

text \<open>\<open>strings.Fields\<close>: the maximal runs of bytes without white space.\<close>

fun cut_word :: "string \<Rightarrow> string \<times> string" where
  "cut_word [] = ([], [])"
| "cut_word (c # cs) =
     (if no_lead_space (c # cs) then (case cut_word cs of (w, r) \<Rightarrow> (c # w, r)) else ([], c # cs))"

lemma cut_word_append: "cut_word s = (w, r) \<Longrightarrow> s = w @ r"
  by (induction s arbitrary: w r) (auto split: if_splits prod.splits)

lemma trim_left_suffix: "length (trim_left s) \<le> length s"
proof (induction s rule: trim_left.induct)
  case (1 s)
  then show ?case by (subst trim_left.simps) (auto split: option.split)
qed

lemma cut_word_shorter:
  assumes "cut_word (trim_left s) = (w, r)" and "trim_left s \<noteq> []"
  shows "length r < length s"
proof -
  obtain c cs where t: "trim_left s = c # cs" using assms(2) by (metis neq_Nil_conv)
  have "no_lead_space (c # cs)" using trim_left_clean[of s] t by simp
  then have "w \<noteq> []" using assms(1) t by (auto split: prod.splits)
  then have "length r < length (trim_left s)" using cut_word_append[OF assms(1)] by simp
  then show ?thesis using trim_left_suffix[of s] by simp
qed

function str_fields :: "string \<Rightarrow> string list" where
  "str_fields s = (let t = trim_left s in if t = [] then [] else (case cut_word t of (w, r) \<Rightarrow> w # str_fields r))"
  by auto
termination
  by (relation "measure length") (auto dest: cut_word_shorter[OF sym])

declare str_fields.simps [simp del]

text \<open>The commands of git on the checkout.\<close>

record 'g git =
  gt_fetch :: "'g \<Rightarrow> error + 'g"
  gt_tags :: "'g \<Rightarrow> error + string"
  gt_describe :: "'g \<Rightarrow> error + string"
  gt_status :: "'g \<Rightarrow> error + string"
  gt_checkout :: "string \<Rightarrow> 'g \<Rightarrow> error + 'g"

definition repo_version :: "'g git \<Rightarrow> 'g \<Rightarrow> string" where
  "repo_version k g = (case gt_describe k g of Inl _ \<Rightarrow> ''dev''
     | Inr out \<Rightarrow> (let v = trim_space out in if v = [] then ''dev'' else v))"

text \<open>Polling until the instance answers 200, or the deadline has passed. A probe is given the time it starts at and
  returns the time of its answer.\<close>

type_synonym probe = "gtime \<Rightarrow> gtime \<times> (error + nat)"

partial_function (option) wait_healthy :: "probe \<Rightarrow> gtime \<Rightarrow> gtime \<Rightarrow> (gtime \<times> error option) option" where
  "wait_healthy probe deadline now =
     (case probe now of (t, r) \<Rightarrow>
        if r = Inr 200 then Some (t, None)
        else if deadline < t then Some (t, Some (ErrText ''timed out''))
        else wait_healthy probe deadline (t + 2 * second))"

declare wait_healthy.simps [code]

datatype update_result = UpdateFailed error | AlreadyLatest string | UpdatedTo string string

definition settle_checkout :: "'g git \<Rightarrow> string \<Rightarrow> string \<Rightarrow> 'g \<Rightarrow> error + 'g" where
  "settle_checkout k current latest g =
     (case gt_status k g of
        Inl er \<Rightarrow> Inl er
      | Inr dirty \<Rightarrow>
          (if trim_space dirty \<noteq> [] then Inl (ErrText ''uncommitted changes'')
           else if \<not> same_version current latest then gt_checkout k latest g else Inr g))"

definition run_update :: "'g git \<Rightarrow> string \<Rightarrow> up_env \<Rightarrow> probe \<Rightarrow> instance_opts \<Rightarrow> bool \<Rightarrow> gtime \<Rightarrow> 'g \<times> instance_state
    \<Rightarrow> update_result option \<times> 'g \<times> instance_state" where
  "run_update k comment u probe opts force now st =
     (case st of (g, ist) \<Rightarrow>
       (case gt_fetch k g of
          Inl er \<Rightarrow> (Some (UpdateFailed er), g, ist)
        | Inr g1 \<Rightarrow>
            (case gt_tags k g1 of
               Inl er \<Rightarrow> (Some (UpdateFailed er), g1, ist)
             | Inr out \<Rightarrow>
                 (case latest_tag (str_fields out) of
                    None \<Rightarrow> (Some (UpdateFailed (ErrText ''no release tags'')), g1, ist)
                  | Some latest \<Rightarrow>
                      (let current = repo_version k g1
                       in if same_version current latest \<and> \<not> force then (Some (AlreadyLatest latest), g1, ist)
                          else (case settle_checkout k current latest g1 of
                                  Inl er \<Rightarrow> (Some (UpdateFailed er), g1, ist)
                                | Inr g2 \<Rightarrow>
                                    (case apply_instance comment u (repo_version k g2) opts False ist of
                                       (Inl er, ist') \<Rightarrow> (Some (UpdateFailed er), g2, ist')
                                     | (Inr _, ist') \<Rightarrow>
                                         (case wait_healthy probe (now + 60 * second) now of
                                            None \<Rightarrow> (None, g2, ist')
                                          | Some (_, Some er) \<Rightarrow> (Some (UpdateFailed er), g2, ist')
                                          | Some (_, None) \<Rightarrow> (Some (UpdatedTo current latest), g2, ist')))))))))"

text \<open>Runs of the two commands, one after the other.\<close>

datatype 'g deploy_run =
    RunUp up_env string bool
  | RunUpdate up_env probe bool gtime "'g \<Rightarrow> 'g"

fun deploy :: "'g git \<Rightarrow> string \<Rightarrow> instance_opts \<Rightarrow> 'g deploy_run \<Rightarrow> 'g \<times> instance_state \<Rightarrow> 'g \<times> instance_state" where
  "deploy k comment opts (RunUp u v b) (g, ist) = (g, snd (apply_instance comment u v opts b ist))"
| "deploy k comment opts (RunUpdate u probe b now other) (g, ist) = snd (run_update k comment u probe opts b now (other g, ist))"

subsection \<open>Secrets are written once\<close>

lemma write_other: "p \<noteq> path \<Longrightarrow> snd (write_file w path x fs) p = fs p"
  by (simp add: write_file_def split: write_outcome.split)

lemma paths_differ [simp]: "env_path \<noteq> compose_path" "compose_path \<noteq> env_path"
  by (simp_all add: env_path_def compose_path_def)

lemma ensure_env_keeps: "fs env_path = Some x \<Longrightarrow> snd (ensure_env comment u opts fs) = fs"
  by (simp add: ensure_env_def split: option.split)

lemma ensure_env_other: "snd (ensure_env comment u opts fs) p = fs p" if "p \<noteq> env_path"
  using that by (auto simp: ensure_env_def write_file_def split: option.split sum.split write_outcome.split)

lemma apply_instance_env: "is_files (snd (apply_instance comment u v opts b st)) env_path = snd (ensure_env comment u opts (is_files st)) env_path"
  if "ue_mkdir u = None"
proof -
  have w: "fs' env_path = fs env_path" if "write_file w compose_path x fs = (r, fs')" for w x fs r fs'
    using write_other[of env_path compose_path w x fs] that by simp
  show ?thesis using that by (auto simp: apply_instance_def w split: option.split sum.split prod.split)
qed

lemma apply_instance_keeps_env:
  assumes "is_files st env_path = Some x"
  shows "is_files (snd (apply_instance comment u v opts b st)) env_path = Some x"
proof (cases "ue_mkdir u")
  case None
  then show ?thesis using assms by (simp add: apply_instance_env ensure_env_keeps)
qed (simp add: apply_instance_def assms)

lemma run_update_keeps_env:
  assumes "is_files ist env_path = Some x"
  shows "is_files (snd (snd (run_update k comment u probe opts force now (g, ist)))) env_path = Some x"
proof -
  have "is_files ist' env_path = Some x" if "apply_instance comment u v opts b ist = (r, ist')" for v b r ist'
    using apply_instance_keeps_env[OF assms, of comment u v opts b] that by simp
  then show ?thesis
    using assms by (auto simp: run_update_def Let_def split: sum.split option.split prod.split)
qed

lemma deploy_keeps_env:
  "is_files (snd st) env_path = Some x \<Longrightarrow> is_files (snd (deploy k comment opts r st)) env_path = Some x"
  by (cases st; cases r) (simp_all add: apply_instance_keeps_env run_update_keeps_env)

lemma deploys_keep_env:
  "is_files (snd st) env_path = Some x \<Longrightarrow> is_files (snd (foldl (\<lambda>st r. deploy k comment opts r st) st runs)) env_path = Some x"
  by (induction runs arbitrary: st) (simp_all add: deploy_keeps_env)

text \<open>C18: The secrets of an instance are drawn once. Whatever runs of \<open>flightdeck up\<close> and \<open>flightdeck update\<close> follow,
  with any failures, a file of secrets that exists keeps its text; and a run that reports a setup token has just
  written the file, with that token in it.\<close>

theorem secrets_written_once:
  "(is_files ist env_path = Some x
      \<longrightarrow> is_files (snd (foldl (\<lambda>st r. deploy k comment opts r st) (g, ist) runs)) env_path = Some x)
   \<and> (fst (apply_instance comment u v opts b ist) = Inr token \<and> token \<noteq> []
      \<longrightarrow> is_files ist env_path = None
        \<and> (\<exists>pw. is_files (snd (apply_instance comment u v opts b ist)) env_path = Some (env_text comment (io_port opts) pw token)))"
  (is "?keep \<and> ?report")
proof
  show ?keep using deploys_keep_env[of "(g, ist)"] by simp
  show ?report
  proof (intro impI, elim conjE)
    assume r: "fst (apply_instance comment u v opts b ist) = Inr token" and ne: "token \<noteq> []"
    have m: "ue_mkdir u = None" using r by (auto simp: apply_instance_def split: option.splits)
    obtain fs where e: "ensure_env comment u opts (is_files ist) = (Inr token, fs)"
      using r m by (auto simp: apply_instance_def split: option.splits sum.splits prod.splits if_splits)
    have "is_files ist env_path = None \<and> (\<exists>pw. fs env_path = Some (env_text comment (io_port opts) pw token))"
      using e ne by (auto simp: ensure_env_def write_file_def split: option.splits sum.splits prod.splits write_outcome.splits)
    then show "is_files ist env_path = None
        \<and> (\<exists>pw. is_files (snd (apply_instance comment u v opts b ist)) env_path = Some (env_text comment (io_port opts) pw token))"
      using apply_instance_env[OF m, of comment v opts b ist] e by simp
  qed
qed

text \<open>A write that fails half-way leaves a file, which no later run completes: the instance never gets its secrets.\<close>

lemma torn_env_stays:
  assumes "is_files ist env_path = None" and "ue_mkdir u = None" and "ue_stat u = None" and "ue_pass u = Inr p" and "ue_token u = Inr t"
    and "ue_env_write u = WriteSome 0 er"
  shows "is_files (snd (foldl (\<lambda>st r. deploy k comment opts r st) (deploy k comment opts (RunUp u v b) (g, ist)) runs)) env_path = Some []"
proof -
  have "is_files (snd (deploy k comment opts (RunUp u v b) (g, ist))) env_path = Some []"
    using assms by (simp add: apply_instance_env ensure_env_def write_file_def new_raw_key_def)
  then show ?thesis by (rule deploys_keep_env)
qed

subsection \<open>An update settles\<close>

text \<open>Git: a release that is checked out is what the checkout describes itself as, and moving it changes no tags.\<close>

definition git_ok :: "'g git \<Rightarrow> bool" where
  "git_ok k \<longleftrightarrow> (\<forall>t g g'. gt_checkout k t g = Inr g' \<longrightarrow> repo_version k g' = t \<and> gt_tags k g' = gt_tags k g)"

lemma latest_tag_max:
  assumes "latest_tag tags = Some t" and "u \<in> set tags" and "parse_semver u = Some w"
  shows "\<exists>v. parse_semver t = Some v \<and> w \<le> v"
proof -
  let ?vs = "tag_versions tags"
  have w: "w \<in> set ?vs" using assms(2,3) by (auto simp: set_tag_versions)
  then have "find (\<lambda>t. parse_semver t = Some (Max (set ?vs))) tags = Some t"
    using assms(1) by (auto simp: latest_tag_def latest_loop_max split: if_splits option.splits)
  then have "parse_semver t = Some (Max (set ?vs))" by (auto simp: find_Some_iff)
  moreover have "w \<le> Max (set ?vs)" using w by (intro Max_ge) simp_all
  ultimately show ?thesis by blast
qed

lemma latest_tag_parses: "latest_tag tags = Some t \<Longrightarrow> t \<in> set tags \<and> parse_semver t \<noteq> None"
  by (auto simp: latest_tag_def latest_loop_max find_Some_iff split: if_splits option.splits)

lemma nothing_newer:
  assumes "latest_tag tags = Some t" and "parse_semver (ck_version c) = parse_semver t"
    and "ck_latest c = Some rel" and "rel_tag rel \<in> set tags"
  shows "notice (Some c) = []"
proof -
  have "\<not> newer_than w v" if "parse_semver t = Some v" "parse_semver (rel_tag rel) = Some w" for v w
    using latest_tag_max[OF assms(1,4) that(2)] that(1) by (auto simp: newer_less)
  then show ?thesis using assms(2,3) by (auto simp: notice_def available_def split: option.splits)
qed

lemma same_version_refl: "parse_semver a \<noteq> None \<Longrightarrow> parse_semver a = parse_semver b \<Longrightarrow> same_version a b"
  by (auto simp: same_version_def split: option.splits)

lemma settled_version:
  assumes "git_ok k" and "settle_checkout k (repo_version k g) latest g = Inr g2"
  shows "parse_semver (repo_version k g2) = parse_semver latest \<and> gt_tags k g2 = gt_tags k g"
proof (cases "same_version (repo_version k g) latest")
  case True
  then show ?thesis using assms(2) by (auto simp: settle_checkout_def same_version_def split: sum.splits option.splits if_splits)
next
  case False
  then have "gt_checkout k latest g = Inr g2" using assms(2) by (auto simp: settle_checkout_def split: sum.splits if_splits)
  then show ?thesis using assms(1) by (simp add: git_ok_def)
qed


text \<open>The wait for the new build ends, no later than one probe and one pause after the deadline.\<close>

lemma wait_ends:
  assumes "\<And>t. t \<le> fst (probe t) \<and> fst (probe t) \<le> t + 3 * second"
  shows "now \<le> deadline + 2 * second \<Longrightarrow> \<exists>t r. wait_healthy probe deadline now = Some (t, r) \<and> t \<le> deadline + 5 * second"
proof (induction "nat (deadline + 2 * second - now)" arbitrary: now rule: less_induct)
  case less
  obtain t r where p: "probe now = (t, r)" by (cases "probe now")
  have t: "now \<le> t" "t \<le> now + 3 * second" using assms[of now] p by simp_all
  show ?case
  proof (cases "r = Inr 200 \<or> deadline < t")
    case True
    then show ?thesis using t less.prems by (subst wait_healthy.simps) (auto simp: p)
  next
    case False
    have "nat (deadline + 2 * second - (t + 2 * second)) < nat (deadline + 2 * second - now)"
      using t(1) False second_pos by linarith
    moreover have "t + 2 * second \<le> deadline + 2 * second" using False by simp
    ultimately obtain t' r' where "wait_healthy probe deadline (t + 2 * second) = Some (t', r')" "t' \<le> deadline + 5 * second"
      using less.hyps by blast
    then show ?thesis using False by (subst wait_healthy.simps) (auto simp: p)
  qed
qed

subsection \<open>The properties at work\<close>

definition demo_git :: "string git" where
  "demo_git = \<lparr>gt_fetch = Inr, gt_tags = (\<lambda>_. Inr ''v1.0.0 v1.2.0 vnext''), gt_describe = Inr, gt_status = (\<lambda>_. Inr []),
     gt_checkout = (\<lambda>t g. if t = ''v1.2.0'' then Inr t else Inl (ErrText ''pathspec''))\<rparr>"

definition demo_up :: up_env where
  "demo_up = \<lparr>ue_mkdir = None, ue_stat = None, ue_pass = Inr ''abc'', ue_token = Inr ''xyz'', ue_env_write = WriteAll,
     ue_render = (\<lambda>r v. Inr (r @ v)), ue_compose_write = WriteAll, ue_docker = None\<rparr>"

definition demo_opts :: instance_opts where
  "demo_opts = \<lparr>io_repo = ''/repo'', io_name = ''work'', io_port = 4300\<rparr>"

definition demo_dir :: instance_state where
  "demo_dir = \<lparr>is_files = [env_path \<mapsto> ''secret''], is_running = None\<rparr>"

definition demo_probe :: probe where "demo_probe t = (t, Inr 200)"

lemma demo_git_ok: "git_ok demo_git"
proof -
  have "repo_version demo_git ''v1.2.0'' = ''v1.2.0''" by code_simp
  then show ?thesis by (auto simp: git_ok_def) (auto simp: demo_git_def split: if_splits)
qed

lemma demo_secrets: "new_raw_key (ue_pass demo_up) [] = Inr ''YWJj''" "new_raw_key (ue_token demo_up) ''fdsetup_'' = Inr ''fdsetup_eHl6''"
  by (simp_all add: new_raw_key_def demo_up_def b64_char_def b64_alphabet_def byte_def)

lemma demo_up_runs: "ue_mkdir demo_up = None" "ue_stat demo_up = None" "ue_env_write demo_up = WriteAll"
  "ue_render demo_up r v = Inr (r @ v)" "ue_compose_write demo_up = WriteAll"
  by (simp_all add: demo_up_def)

lemma secrets_written_once_witness:
  "is_files (snd (foldl (\<lambda>st r. deploy demo_git [] demo_opts r st) (''v1.0.0'', demo_dir) [RunUp demo_up ''v1'' True])) env_path
     = Some ''secret''
   \<and> (\<exists>pw. is_files (snd (apply_instance [] demo_up ''v1'' demo_opts True (demo_dir\<lparr>is_files := \<lambda>_. None\<rparr>))) env_path
        = Some (env_text [] 4300 pw ''fdsetup_eHl6''))"
proof -
  let ?none = "demo_dir\<lparr>is_files := \<lambda>_. None\<rparr>"
  have x: "is_files demo_dir env_path = Some ''secret''" by (simp add: demo_dir_def)
  have t: "fst (apply_instance [] demo_up ''v1'' demo_opts True ?none) = Inr ''fdsetup_eHl6'' \<and> ''fdsetup_eHl6'' \<noteq> []"
    by (simp add: apply_instance_def ensure_env_def demo_secrets demo_up_runs write_file_def)
  have p: "io_port demo_opts = 4300" by (simp add: demo_opts_def)
  note keep = secrets_written_once[of demo_dir "''secret''" demo_git "[]" demo_opts "''v1.0.0''" "[RunUp demo_up ''v1'' True]",
      THEN conjunct1, THEN mp, OF x]
  note report = secrets_written_once[of ?none _ demo_git "[]" demo_opts _ _ demo_up "''v1''" True "''fdsetup_eHl6''",
      THEN conjunct2, THEN mp, OF t, THEN conjunct2]
  show ?thesis by (rule conjI[OF keep report[unfolded p]])
qed


end
