(* ===== verification/Vec_Cache.thy ===== *)
theory Vec_Cache
  imports Search Protocol "HOL-Library.Word"
begin

text \<open>
  The cache of query embeddings (\<open>internal/service/veccache.go\<close>) in a Redis server that instances may share: how a
  vector is packed into bytes, how keys are formed, and the embedding of a query through the cache. Redis is a map
  with an expiry per key, whose failures are arguments, like SHA-256 and the bits of a float.
\<close>

subsection \<open>Packing\<close>

type_synonym float_bits = "32 word"

definition nth_byte :: "nat \<Rightarrow> float_bits \<Rightarrow> char" where
  "nth_byte n w = char_of (unat (take_bit 8 (drop_bit (8 * n) w)))"

text \<open>\<open>binary.LittleEndian\<close>.\<close>

definition put_uint32 :: "float_bits \<Rightarrow> string" where
  "put_uint32 w = [nth_byte 0 w, nth_byte 1 w, nth_byte 2 w, nth_byte 3 w]"

definition uint32_of :: "char \<Rightarrow> char \<Rightarrow> char \<Rightarrow> char \<Rightarrow> float_bits" where
  "uint32_of a b c d = word_of_nat (byte a) + push_bit 8 (word_of_nat (byte b)) + push_bit 16 (word_of_nat (byte c))
     + push_bit 24 (word_of_nat (byte d))"

definition encode_vec :: "float_bits list \<Rightarrow> string" where
  "encode_vec v = concat (map put_uint32 v)"

fun uint32s :: "string \<Rightarrow> float_bits list" where
  "uint32s (a # b # c # d # rest) = uint32_of a b c d # uint32s rest"
| "uint32s _ = []"

definition decode_vec :: "string \<Rightarrow> float_bits list option" where
  "decode_vec b = (if b = [] \<or> length b mod 4 \<noteq> 0 then None else Some (uint32s b))"

text \<open>An encoding that loses nothing: the laws of a pair of coder and decoder.\<close>

locale lossless =
  fixes enc :: "'a \<Rightarrow> string" and dec :: "string \<Rightarrow> 'a option" and ok :: "'a \<Rightarrow> bool"
  assumes read_back: "ok x \<Longrightarrow> dec (enc x) = Some x"
begin

lemma enc_inj: "ok x \<Longrightarrow> ok y \<Longrightarrow> enc x = enc y \<longleftrightarrow> x = y"
  by (metis read_back option.inject)

end

lemma byte_nth_byte: "byte (nth_byte n w) = unat (take_bit 8 (drop_bit (8 * n) w))"
proof -
  have "unat (take_bit 8 (drop_bit (8 * n) w)) < 256"
    by (simp add: unsigned_take_bit_eq) (simp add: take_bit_nat_def)
  then show ?thesis by (simp add: nth_byte_def byte_def)
qed

lemma uint32_roundtrip: "uint32_of (nth_byte 0 w) (nth_byte 1 w) (nth_byte 2 w) (nth_byte 3 w) = w"
proof -
  let ?n = "unat w"
  have b: "byte (nth_byte k w) = ?n div 2 ^ (8 * k) mod 256" for k
    by (simp add: byte_nth_byte unsigned_take_bit_eq unat_drop_bit_eq take_bit_nat_def drop_bit_nat_def)
  have lt: "?n < 2 ^ 32" using unsigned_less[of w, where ?'a = nat] by simp
  have "?n = ?n mod 256 + 2 ^ 8 * (?n div 2 ^ 8 mod 256) + 2 ^ 16 * (?n div 2 ^ 16 mod 256) + 2 ^ 24 * (?n div 2 ^ 24 mod 256)"
  proof -
    define a where "a = ?n div 256"
    define b where "b = a div 256"
    define c where "c = b div 256"
    have "?n = 256 * a + ?n mod 256" "a = 256 * b + a mod 256" "b = 256 * c + b mod 256" by (simp_all add: a_def b_def c_def)
    moreover have "c < 256" using lt by (simp add: a_def b_def c_def div_mult2_eq[symmetric] less_mult_imp_div_less)
    moreover have "?n div 2 ^ 8 = a" "?n div 2 ^ 16 = b" "?n div 2 ^ 24 = c"
      by (simp_all add: a_def b_def c_def div_mult2_eq[symmetric])
    ultimately show ?thesis by simp
  qed
  note split = arg_cong[OF this, of "word_of_nat :: nat \<Rightarrow> 32 word"]
  have "w = word_of_nat ?n" by simp
  also note split
  also have "word_of_nat (?n mod 256 + 2 ^ 8 * (?n div 2 ^ 8 mod 256) + 2 ^ 16 * (?n div 2 ^ 16 mod 256)
      + 2 ^ 24 * (?n div 2 ^ 24 mod 256)) = uint32_of (nth_byte 0 w) (nth_byte 1 w) (nth_byte 2 w) (nth_byte 3 w)"
    by (simp add: uint32_of_def b[of 0, simplified] b[of 1, simplified] b[of 2, simplified] b[of 3, simplified] push_bit_eq_mult mult.commute)
  finally show ?thesis by (rule sym)
qed

lemma uint32s_encode: "uint32s (encode_vec v) = v"
  by (induction v) (simp_all add: encode_vec_def put_uint32_def uint32_roundtrip[simplified])

lemma length_encode: "length (encode_vec v) = 4 * length v"
  by (induction v) (simp_all add: encode_vec_def put_uint32_def)

interpretation vec_code: lossless encode_vec decode_vec "\<lambda>v. v \<noteq> []"
proof
  fix v :: "float_bits list" assume "v \<noteq> []"
  moreover have "encode_vec v = [] \<longleftrightarrow> v = []" using length_encode[of v] by (cases v) auto
  ultimately show "decode_vec (encode_vec v) = Some v" by (simp add: decode_vec_def length_encode uint32s_encode)
qed

interpretation b64_code: lossless b64_encode b64_decode "\<lambda>_. True"
  by standard (rule b64_roundtrip)

subsection \<open>Keys\<close>

definition hex_digit :: "nat \<Rightarrow> char" where "hex_digit n = ''0123456789abcdef'' ! n"

definition hex_encode :: "string \<Rightarrow> string" where
  "hex_encode s = concat (map (\<lambda>c. [hex_digit (byte c div 16), hex_digit (byte c mod 16)]) s)"

definition cache_key :: "(string \<Rightarrow> string) \<Rightarrow> string \<Rightarrow> string \<Rightarrow> string" where
  "cache_key hash model q = ''fd:emb:'' @ model @ '':'' @ hex_encode (hash q)"

lemma hex_digit_inj: "m < 16 \<Longrightarrow> n < 16 \<Longrightarrow> hex_digit m = hex_digit n \<longleftrightarrow> m = n"
proof -
  have "distinct ''0123456789abcdef''" by code_simp
  then show "m < 16 \<Longrightarrow> n < 16 \<Longrightarrow> ?thesis" by (simp add: hex_digit_def nth_eq_iff_index_eq)
qed

lemma hex_inj: "hex_encode s = hex_encode t \<longleftrightarrow> s = t"
proof
  show "hex_encode s = hex_encode t \<Longrightarrow> s = t"
  proof (induction s arbitrary: t)
    case Nil
    then show ?case by (cases t) (simp_all add: hex_encode_def)
  next
    case (Cons c s)
    then obtain d t' where t: "t = d # t'" by (cases t) (simp_all add: hex_encode_def)
    have lt: "byte x div 16 < 16" "byte x mod 16 < 16" for x using byte_bound[of x] by (simp_all add: less_mult_imp_div_less)
    have "byte c div 16 = byte d div 16" "byte c mod 16 = byte d mod 16" "hex_encode s = hex_encode t'"
      using Cons.prems t lt by (auto simp: hex_encode_def hex_digit_inj)
    moreover from this(1,2) have "byte c = byte d" by (metis div_mult_mod_eq)
    ultimately show ?case using Cons.IH t by (simp add: byte_def)
  qed
qed simp

lemma length_hex: "length (hex_encode s) = 2 * length s"
  by (induction s) (simp_all add: hex_encode_def)

text \<open>The model and the query can be read off a key, whatever the name of the model contains.\<close>

lemma cache_key_inj:
  assumes "length (hash p) = length (hash q)" and "cache_key hash m p = cache_key hash n q"
  shows "m = n \<and> hash p = hash q"
proof -
  have "(m @ '':'') @ hex_encode (hash p) = (n @ '':'') @ hex_encode (hash q)" using assms(2) by (simp add: cache_key_def)
  moreover have "length (hex_encode (hash p)) = length (hex_encode (hash q))" using assms(1) by (simp add: length_hex)
  ultimately have "m @ '':'' = n @ '':'' \<and> hex_encode (hash p) = hex_encode (hash q)" by (subst (asm) append_eq_append_conv) auto
  then show ?thesis by (simp add: hex_inj)
qed

subsection \<open>The cache\<close>

type_synonym redis = "string \<rightharpoonup> string \<times> gtime"

record vec_cache =
  vc_on :: bool
  vc_model :: string

definition vec_ttl :: gtime where "vec_ttl = 7 * 24 * hour"

text \<open>The client is configured by the first of two variables; without one, or with an address that does not parse,
  the cache is off.\<close>

definition new_vec_cache :: "(string \<Rightarrow> string) \<Rightarrow> (string \<Rightarrow> bool) \<Rightarrow> string \<Rightarrow> vec_cache" where
  "new_vec_cache env parses model =
     (let u = env ''FLIGHTDECK_REDIS_URL''; url = (if u = [] then env ''REDIS_URL'' else u)
      in \<lparr>vc_on = (url \<noteq> [] \<and> parses url), vc_model = model\<rparr>)"

definition vcache_get :: "(string \<Rightarrow> string) \<Rightarrow> vec_cache \<Rightarrow> bool \<Rightarrow> string \<Rightarrow> gtime \<Rightarrow> redis \<Rightarrow> float_bits list option" where
  "vcache_get hash c down q now rs =
     (if \<not> vc_on c \<or> down then None
      else (case rs (cache_key hash (vc_model c) q) of
              None \<Rightarrow> None | Some (b, expiry) \<Rightarrow> if now < expiry then decode_vec b else None))"

definition vcache_set :: "(string \<Rightarrow> string) \<Rightarrow> vec_cache \<Rightarrow> bool \<Rightarrow> string \<Rightarrow> float_bits list \<Rightarrow> gtime \<Rightarrow> redis \<Rightarrow> redis" where
  "vcache_set hash c down q v now rs =
     (if \<not> vc_on c \<or> v = [] \<or> down then rs
      else rs(cache_key hash (vc_model c) q \<mapsto> (encode_vec v, now + vec_ttl)))"

text \<open>One query of one instance: when it arrives, what the live embedding answers if it is asked, and which calls of
  Redis fail.\<close>

record query_event =
  qe_cache :: vec_cache
  qe_query :: string
  qe_now :: gtime
  qe_live :: "float_bits list list option"
  qe_get_down :: bool
  qe_set_down :: bool

definition embed_through :: "(string \<Rightarrow> string) \<Rightarrow> query_event \<Rightarrow> redis \<Rightarrow> (float_bits list option \<times> bool) \<times> redis" where
  "embed_through hash ev rs =
     (case vcache_get hash (qe_cache ev) (qe_get_down ev) (qe_query ev) (qe_now ev) rs of
        Some v \<Rightarrow> ((Some v, True), rs)
      | None \<Rightarrow> (case qe_live ev of
                   Some [v] \<Rightarrow> ((Some v, False), vcache_set hash (qe_cache ev) (qe_set_down ev) (qe_query ev) v (qe_now ev) rs)
                 | _ \<Rightarrow> ((None, False), rs)))"

fun embed_all :: "(string \<Rightarrow> string) \<Rightarrow> query_event list \<Rightarrow> redis \<Rightarrow> (float_bits list option \<times> bool) list \<times> redis" where
  "embed_all hash [] rs = ([], rs)"
| "embed_all hash (ev # evs) rs =
     (case embed_through hash ev rs of (r, rs1) \<Rightarrow> (case embed_all hash evs rs1 of (out, rs2) \<Rightarrow> (r # out, rs2)))"

text \<open>The search model takes the cached and the live vector as they are here, in floats.\<close>

lemma embed_through_query:
  "map_prod (map_option (map fl)) id (fst (embed_through hash ev rs)) =
     embed_query (map_option (map fl) (vcache_get hash (qe_cache ev) (qe_get_down ev) (qe_query ev) (qe_now ev) rs))
       (map_option (map (map fl)) (qe_live ev))"
  by (auto simp: embed_through_def embed_query_def split: option.split list.split)

subsection \<open>The cache does not show\<close>

text \<open>Every entry holds the vector of its key.\<close>

definition cache_sound :: "(string \<Rightarrow> string) \<Rightarrow> (string \<Rightarrow> string \<Rightarrow> float_bits list) \<Rightarrow> string set \<Rightarrow> redis \<Rightarrow> bool" where
  "cache_sound hash vec qs rs \<longleftrightarrow>
     (\<forall>m. \<forall>q \<in> qs. \<forall>b t. rs (cache_key hash m q) = Some (b, t) \<longrightarrow> b = encode_vec (vec m q))"

lemma through_sound:
  assumes "cache_sound hash vec qs rs" and "inj_on hash qs" and "\<forall>q \<in> qs. length (hash q) = 32" and "\<forall>m q. vec m q \<noteq> []"
    and "qe_query ev \<in> qs" and "qe_live ev \<in> {None, Some [vec (vc_model (qe_cache ev)) (qe_query ev)]}"
    and "embed_through hash ev rs = (r, rs1)"
  shows "cache_sound hash vec qs rs1 \<and> fst r \<in> {None, Some (vec (vc_model (qe_cache ev)) (qe_query ev))}
    \<and> (qe_live ev \<noteq> None \<longrightarrow> fst r \<noteq> None)"
proof -
  let ?c = "qe_cache ev" and ?q = "qe_query ev"
  let ?v = "vec (vc_model ?c) ?q"
  have read: "vcache_get hash ?c (qe_get_down ev) ?q (qe_now ev) rs \<in> {None, Some ?v}"
  proof (cases "rs (cache_key hash (vc_model ?c) ?q)")
    case (Some e)
    obtain b t where e: "e = (b, t)" by (cases e)
    have "b = encode_vec ?v" using assms(1,5) Some unfolding e cache_sound_def by blast
    then have "decode_vec b = Some ?v" using vec_code.read_back[of ?v] assms(4) by simp
    then show ?thesis by (simp add: vcache_get_def Some e)
  qed (simp add: vcache_get_def)
  have set_ok: "cache_sound hash vec qs (vcache_set hash ?c d ?q ?v t rs)" for d t
  proof -
    have "m = vc_model ?c \<and> p = ?q" if "p \<in> qs" "cache_key hash m p = cache_key hash (vc_model ?c) ?q" for m p
    proof -
      have "length (hash p) = length (hash ?q)" using assms(3,5) that(1) by simp
      from cache_key_inj[OF this that(2)] show ?thesis using assms(2,5) that(1) by (auto dest: inj_onD)
    qed
    then show ?thesis using assms(1) by (auto simp: vcache_set_def cache_sound_def split: if_splits)
  qed
  show ?thesis
  proof (cases "vcache_get hash ?c (qe_get_down ev) ?q (qe_now ev) rs")
    case (Some v)
    then have "v = ?v" "r = (Some v, True)" "rs1 = rs" using read assms(7) by (simp_all add: embed_through_def)
    then show ?thesis using assms(1) by simp
  next
    case None
    consider "qe_live ev = None" | "qe_live ev = Some [?v]" using assms(6) by auto
    then show ?thesis
    proof cases
      case 1
      then have "r = (None, False)" "rs1 = rs" using None assms(7) by (simp_all add: embed_through_def)
      then show ?thesis using assms(1) 1 by simp
    next
      case 2
      then have "r = (Some ?v, False)" "rs1 = vcache_set hash ?c (qe_set_down ev) ?q ?v (qe_now ev) rs"
        using None assms(7) by (simp_all add: embed_through_def)
      then show ?thesis using set_ok by simp
    qed
  qed
qed

text \<open>C21: The cache of query embeddings does not show. Whatever instances with whatever models share one Redis, however its
  calls fail and its entries expire, a query gets the vector that the embedding of its own model gives for it or none,
  and it gets one whenever the live embedding would have answered, as long as the embedding of a model is a function of
  the text and SHA-256 does not collide on the queries asked.\<close>

theorem cache_transparent:
  assumes "embed_all hash evs (\<lambda>_. None) = (out, rs)" and "inj_on hash (qe_query ` set evs)"
    and "\<forall>q \<in> qe_query ` set evs. length (hash q) = 32" and "\<forall>m q. vec m q \<noteq> []"
    and "\<forall>ev \<in> set evs. qe_live ev \<in> {None, Some [vec (vc_model (qe_cache ev)) (qe_query ev)]}"
    and "n < length evs"
  shows "fst (out ! n) \<in> {None, Some (vec (vc_model (qe_cache (evs ! n))) (qe_query (evs ! n)))}
    \<and> (qe_live (evs ! n) \<noteq> None \<longrightarrow> fst (out ! n) \<noteq> None)"
proof -
  let ?qs = "qe_query ` set evs"
  have all: "cache_sound hash vec ?qs rs0 \<Longrightarrow> set es \<subseteq> set evs \<Longrightarrow> embed_all hash es rs0 = (os, rs1) \<Longrightarrow> k < length es
      \<Longrightarrow> fst (os ! k) \<in> {None, Some (vec (vc_model (qe_cache (es ! k))) (qe_query (es ! k)))}
        \<and> (qe_live (es ! k) \<noteq> None \<longrightarrow> fst (os ! k) \<noteq> None)" for es rs0 os rs1 k
  proof (induction es arbitrary: rs0 os k)
    case (Cons e es)
    obtain r rs2 where e: "embed_through hash e rs0 = (r, rs2)" by (cases "embed_through hash e rs0")
    obtain os' where rest: "embed_all hash es rs2 = (os', rs1)" and os: "os = r # os'"
      using Cons.prems(3) by (auto simp: e split: prod.splits)
    have i: "qe_query e \<in> ?qs" "qe_live e \<in> {None, Some [vec (vc_model (qe_cache e)) (qe_query e)]}"
      using Cons.prems(2) assms(5) by auto
    note step = through_sound[OF Cons.prems(1) assms(2,3,4) i e]
    show ?case
    proof (cases k)
      case 0
      then show ?thesis using step by (simp add: os)
    next
      case (Suc j)
      then show ?thesis using Cons.IH[of rs2 os' j] step rest Cons.prems(2,4) by (simp add: os)
    qed
  qed simp
  show ?thesis by (rule all[OF _ subset_refl assms(1,6)]) (simp add: cache_sound_def)
qed

text \<open>Within a week after a live answer was stored, the query is answered without another.\<close>

lemma cache_hit:
  assumes "vc_on c" and "v \<noteq> []" and "later < now + vec_ttl"
  shows "vcache_get hash c False q later (vcache_set hash c False q v now rs) = Some v"
  using assms vec_code.read_back[of v] by (simp add: vcache_get_def vcache_set_def)

definition demo_hash :: "string \<Rightarrow> string" where "demo_hash q = take 32 (q @ replicate 32 (CHR 0x00))"

definition demo_vec :: "string \<Rightarrow> string \<Rightarrow> float_bits list" where
  "demo_vec m q = [word_of_nat (length m), word_of_nat (length q)]"

definition demo_query :: "string \<Rightarrow> gtime \<Rightarrow> bool \<Rightarrow> query_event" where
  "demo_query m t answers = \<lparr>qe_cache = \<lparr>vc_on = True, vc_model = m\<rparr>, qe_query = ''q'', qe_now = t,
     qe_live = (if answers then Some [demo_vec m ''q''] else None), qe_get_down = False, qe_set_down = False\<rparr>"

lemma cache_transparent_witness:
  "let out = fst (embed_all demo_hash [demo_query ''small'' 0 True, demo_query ''small'' 1 False, demo_query ''large'' 2 True] (\<lambda>_. None))
   in fst (out ! 1) \<in> {None, Some (demo_vec ''small'' ''q'')} \<and> fst (out ! 2) = Some (demo_vec ''large'' ''q'') \<and> snd (out ! 1)"
proof -
  let ?evs = "[demo_query ''small'' 0 True, demo_query ''small'' 1 False, demo_query ''large'' 2 True]"
  obtain out rs where r: "embed_all demo_hash ?evs (\<lambda>_. None) = (out, rs)" by (cases "embed_all demo_hash ?evs (\<lambda>_. None)")
  have i: "inj_on demo_hash (qe_query ` set ?evs)" "\<forall>q \<in> qe_query ` set ?evs. length (demo_hash q) = 32"
    by (simp_all add: demo_query_def demo_hash_def)
  have v: "\<forall>m q. demo_vec m q \<noteq> []" by (simp add: demo_vec_def)
  have l: "\<forall>ev \<in> set ?evs. qe_live ev \<in> {None, Some [demo_vec (vc_model (qe_cache ev)) (qe_query ev)]}" by (simp add: demo_query_def)
  have "snd (fst (embed_all demo_hash ?evs (\<lambda>_. None)) ! 1)" by code_simp
  then have hit: "snd (out ! 1)" unfolding r by simp
  note c = cache_transparent[OF r i v l]
  have "fst (out ! 1) \<in> {None, Some (demo_vec ''small'' ''q'')}" using c[of 1] by (simp add: demo_query_def)
  moreover have "fst (out ! 2) = Some (demo_vec ''large'' ''q'')" using c[of 2] by (auto simp: demo_query_def)
  ultimately show ?thesis using hit unfolding r Let_def by simp
qed

end
