(* ===== verification/Pki.thy ===== *)
theory Pki
  imports Deploy Vec_Cache
begin

text \<open>
  The certificate authority of the rendezvous server (\<open>internal/mailbox/pki.go\<close>): its four files, the certificates
  derived from it, and the TLS settings of both sides. What X.509, PEM, ECDSA and SHA-256 compute is an argument;
  so are the drawn keys and serial numbers and the outcome of every write, which may leave a part of a file.
\<close>

subsection \<open>The library\<close>

text \<open>The fields of a certificate template that the program sets.\<close>

record cert_fields =
  ct_subject :: string
  ct_org :: "string list"
  ct_serial :: nat
  ct_from :: gtime
  ct_until :: gtime
  ct_is_ca :: bool
  ct_server :: bool
  ct_client :: bool
  ct_ips :: "string list"
  ct_names :: "string list"

text \<open>Keys are opaque. \<open>cy_create\<close> takes the template, the public key and the signing key; \<open>cy_ip\<close> parses an
  address and prints it in its canonical form; \<open>cy_pair\<close> checks that a certificate and a key belong together.\<close>

record 'k crypto =
  cy_pem :: "string \<Rightarrow> string \<Rightarrow> string"
  cy_unpem :: "string \<Rightarrow> string option"
  cy_create :: "cert_fields \<Rightarrow> 'k \<Rightarrow> 'k \<Rightarrow> error + string"
  cy_parse :: "string \<Rightarrow> error + cert_fields"
  cy_key_der :: "'k \<Rightarrow> error + string"
  cy_parse_key :: "string \<Rightarrow> error + 'k"
  cy_pair :: "string \<Rightarrow> string \<Rightarrow> error + unit"
  cy_ip :: "string \<Rightarrow> string option"
  cy_hash :: "string \<Rightarrow> string"

text \<open>What is drawn for one certificate.\<close>

record 'k draw =
  dr_key :: "error + 'k"
  dr_serial :: "error + nat"
  dr_mkdir :: "error option"
  dr_cert_write :: write_outcome
  dr_key_write :: write_outcome

subsection \<open>Files\<close>

definition ca_cert_file :: string where "ca_cert_file = ''ca.pem''"
definition ca_key_file :: string where "ca_key_file = ''ca-key.pem''"
definition server_cert_file :: string where "server_cert_file = ''server.pem''"
definition server_key_file :: string where "server_key_file = ''server-key.pem''"

definition ca_validity :: gtime where "ca_validity = 10 * 365 * 24 * hour"
definition client_validity :: gtime where "client_validity = 2 * 365 * 24 * hour"

definition read_pem :: "'k crypto \<Rightarrow> string \<Rightarrow> files \<Rightarrow> error + string" where
  "read_pem y name fs =
     (case fs name of
        None \<Rightarrow> Inl (ErrText ''no such file'')
      | Some b \<Rightarrow> (case cy_unpem y b of None \<Rightarrow> Inl (ErrText ''no PEM block'') | Some der \<Rightarrow> Inr der))"

definition write_pem :: "'k crypto \<Rightarrow> write_outcome \<Rightarrow> string \<Rightarrow> string \<Rightarrow> string \<Rightarrow> files \<Rightarrow> error option \<times> files" where
  "write_pem y w name kind der fs = write_file w name (cy_pem y kind der) fs"

text \<open>The SHA-256 of a certificate in upper-case hexadecimal, with a colon between the bytes.\<close>

definition upper_hex :: "nat \<Rightarrow> char" where "upper_hex n = ''0123456789ABCDEF'' ! n"

definition fingerprint :: "'k crypto \<Rightarrow> string \<Rightarrow> string" where
  "fingerprint y der = join '':'' (map (\<lambda>c. [upper_hex (byte c div 16), upper_hex (byte c mod 16)]) (cy_hash y der))"

subsection \<open>The authority\<close>

text \<open>A certificate and then its key are written; the first failing write ends it.\<close>

definition write_both :: "'k crypto \<Rightarrow> 'k draw \<Rightarrow> string \<Rightarrow> string \<Rightarrow> string \<Rightarrow> 'k \<Rightarrow> files \<Rightarrow> (error + unit) \<times> files" where
  "write_both y d cert_file key_file der key fs =
     (case write_pem y (dr_cert_write d) cert_file ''CERTIFICATE'' der fs of
        (Some er, fs1) \<Rightarrow> (Inl er, fs1)
      | (None, fs1) \<Rightarrow>
          (case cy_key_der y key of
             Inl er \<Rightarrow> (Inl er, fs1)
           | Inr kd \<Rightarrow>
               (case write_pem y (dr_key_write d) key_file ''EC PRIVATE KEY'' kd fs1 of
                  (Some er, fs2) \<Rightarrow> (Inl er, fs2) | (None, fs2) \<Rightarrow> (Inr (), fs2))))"

definition ensure_ca :: "'k crypto \<Rightarrow> 'k draw \<Rightarrow> gtime \<Rightarrow> files \<Rightarrow> (error + string) \<times> files" where
  "ensure_ca y d now fs =
     (case read_pem y ca_cert_file fs of
        Inr der \<Rightarrow> (Inr (fingerprint y der), fs)
      | Inl _ \<Rightarrow>
          (case (dr_mkdir d, dr_key d, dr_serial d) of
             (Some er, _, _) \<Rightarrow> (Inl er, fs)
           | (None, Inl er, _) \<Rightarrow> (Inl er, fs)
           | (None, Inr _, Inl er) \<Rightarrow> (Inl er, fs)
           | (None, Inr key, Inr serial) \<Rightarrow>
               (case cy_create y \<lparr>ct_subject = ''flightdeck-mailbox CA'', ct_org = [], ct_serial = serial, ct_from = now - hour,
                        ct_until = now + ca_validity, ct_is_ca = True, ct_server = False, ct_client = False, ct_ips = [], ct_names = []\<rparr> key key of
                  Inl er \<Rightarrow> (Inl er, fs)
                | Inr der \<Rightarrow>
                    (case write_both y d ca_cert_file ca_key_file der key fs of
                       (Inl er, fs') \<Rightarrow> (Inl er, fs') | (Inr _, fs') \<Rightarrow> (Inr (fingerprint y der), fs')))))"

definition load_ca :: "'k crypto \<Rightarrow> files \<Rightarrow> error + (string \<times> cert_fields \<times> 'k)" where
  "load_ca y fs =
     (case read_pem y ca_cert_file fs of
        Inl er \<Rightarrow> Inl er
      | Inr der \<Rightarrow>
          (case cy_parse y der of
             Inl er \<Rightarrow> Inl er
           | Inr cert \<Rightarrow>
               (case read_pem y ca_key_file fs of
                  Inl er \<Rightarrow> Inl er
                | Inr kd \<Rightarrow> (case cy_parse_key y kd of Inl er \<Rightarrow> Inl er | Inr key \<Rightarrow> Inr (der, cert, key)))))"

definition ca_fingerprint :: "'k crypto \<Rightarrow> files \<Rightarrow> error + string" where
  "ca_fingerprint y fs = map_sum id (fingerprint y) (read_pem y ca_cert_file fs)"

subsection \<open>The certificate of the server\<close>

text \<open>Addresses and names; without any, the local host.\<close>

definition apply_sans :: "'k crypto \<Rightarrow> string list \<Rightarrow> string list \<times> string list" where
  "apply_sans y sans =
     (let ips = List.map_filter (cy_ip y) sans; names = filter (\<lambda>s. cy_ip y s = None) sans
      in if ips = [] \<and> names = [] then ([''127.0.0.1''], []) else (ips, names))"

definition sans_match :: "'k crypto \<Rightarrow> cert_fields \<Rightarrow> string list \<Rightarrow> bool" where
  "sans_match y cert want =
     (let have = set (ct_ips cert) \<union> set (ct_names cert)
      in if want = [] then ''127.0.0.1'' \<in> have
         else list_all (\<lambda>s. (case cy_ip y s of None \<Rightarrow> s | Some ip \<Rightarrow> ip) \<in> have) want)"

definition server_cert_current :: "'k crypto \<Rightarrow> string list \<Rightarrow> gtime \<Rightarrow> files \<Rightarrow> bool" where
  "server_cert_current y sans now fs =
     (case read_pem y server_cert_file fs of
        Inl _ \<Rightarrow> False
      | Inr der \<Rightarrow> (case cy_parse y der of Inl _ \<Rightarrow> False | Inr cert \<Rightarrow> sans_match y cert sans \<and> now < ct_until cert))"

definition ensure_server_cert :: "'k crypto \<Rightarrow> 'k draw \<Rightarrow> string list \<Rightarrow> gtime \<Rightarrow> files \<Rightarrow> (error + unit) \<times> files" where
  "ensure_server_cert y d sans now fs =
     (if server_cert_current y sans now fs then (Inr (), fs)
      else (case load_ca y fs of
              Inl er \<Rightarrow> (Inl er, fs)
            | Inr (ca_der, ca, ca_key) \<Rightarrow>
                (case (dr_key d, dr_serial d) of
                   (Inl er, _) \<Rightarrow> (Inl er, fs)
                 | (Inr _, Inl er) \<Rightarrow> (Inl er, fs)
                 | (Inr key, Inr serial) \<Rightarrow>
                     (case apply_sans y sans of (ips, names) \<Rightarrow>
                        (case cy_create y \<lparr>ct_subject = ''flightdeck-mailbox'', ct_org = [], ct_serial = serial, ct_from = now - hour,
                                 ct_until = now + ca_validity, ct_is_ca = False, ct_server = True, ct_client = False,
                                 ct_ips = ips, ct_names = names\<rparr> key ca_key of
                           Inl er \<Rightarrow> (Inl er, fs)
                         | Inr der \<Rightarrow> write_both y d server_cert_file server_key_file der key fs)))))"

subsection \<open>Clients\<close>

record client_bundle =
  cb_name :: string
  cb_cert :: string
  cb_key :: string
  cb_ca :: string
  cb_fingerprint :: string

definition issue_client :: "'k crypto \<Rightarrow> 'k draw \<Rightarrow> string \<Rightarrow> gtime \<Rightarrow> files \<Rightarrow> error + client_bundle" where
  "issue_client y d name now fs =
     (if trim_space name = [] then Inl (ErrText ''client name is required'')
      else (case load_ca y fs of
              Inl er \<Rightarrow> Inl er
            | Inr (ca_der, ca, ca_key) \<Rightarrow>
                (case (dr_key d, dr_serial d) of
                   (Inl er, _) \<Rightarrow> Inl er
                 | (Inr _, Inl er) \<Rightarrow> Inl er
                 | (Inr key, Inr serial) \<Rightarrow>
                     (case cy_create y \<lparr>ct_subject = name, ct_org = [''flightdeck''], ct_serial = serial, ct_from = now - hour,
                              ct_until = now + client_validity, ct_is_ca = False, ct_server = False, ct_client = True,
                              ct_ips = [], ct_names = []\<rparr> key ca_key of
                        Inl er \<Rightarrow> Inl er
                      | Inr der \<Rightarrow>
                          (case cy_key_der y key of
                             Inl er \<Rightarrow> Inl er
                           | Inr kd \<Rightarrow> Inr \<lparr>cb_name = name, cb_cert = cy_pem y ''CERTIFICATE'' der,
                                cb_key = cy_pem y ''EC PRIVATE KEY'' kd, cb_ca = cy_pem y ''CERTIFICATE'' ca_der,
                                cb_fingerprint = fingerprint y ca_der\<rparr>)))))"

text \<open>The TLS settings: the own certificate and key, and the one authority that the other side is checked against. A
  server that has no client certificate from it refuses the handshake; only TLS 1.3 is spoken.\<close>

record tls_config =
  tc_cert :: string
  tc_key :: string
  tc_trusted :: string
  tc_needs_client :: bool
  tc_min_version :: nat

definition server_tls :: "'k crypto \<Rightarrow> files \<Rightarrow> error + tls_config" where
  "server_tls y fs =
     (case (fs server_cert_file, fs server_key_file) of
        (Some cert, Some key) \<Rightarrow>
          (case cy_pair y cert key of
             Inl er \<Rightarrow> Inl er
           | Inr _ \<Rightarrow>
               (case read_pem y ca_cert_file fs of
                  Inl er \<Rightarrow> Inl er
                | Inr der \<Rightarrow> (case cy_parse y der of
                     Inl er \<Rightarrow> Inl er
                   | Inr _ \<Rightarrow> Inr \<lparr>tc_cert = cert, tc_key = key, tc_trusted = der, tc_needs_client = True, tc_min_version = 13\<rparr>)))
      | _ \<Rightarrow> Inl (ErrText ''load server keypair''))"

definition client_tls :: "'k crypto \<Rightarrow> client_bundle \<Rightarrow> error + tls_config" where
  "client_tls y b =
     (case cy_pair y (cb_cert b) (cb_key b) of
        Inl er \<Rightarrow> Inl er
      | Inr _ \<Rightarrow>
          (case cy_unpem y (cb_ca b) of
             None \<Rightarrow> Inl (ErrText ''invalid CA PEM in bundle'')
           | Some der \<Rightarrow> (case cy_parse y der of
                Inl _ \<Rightarrow> Inl (ErrText ''invalid CA PEM in bundle'')
              | Inr _ \<Rightarrow> Inr \<lparr>tc_cert = cb_cert b, tc_key = cb_key b, tc_trusted = der, tc_needs_client = False, tc_min_version = 13\<rparr>)))"

subsection \<open>Histories\<close>

datatype 'k pki_event = StepCa "'k draw" gtime | StepServer "'k draw" "string list" gtime

fun pki_step :: "'k crypto \<Rightarrow> files \<Rightarrow> 'k pki_event \<Rightarrow> files" where
  "pki_step y fs (StepCa d t) = snd (ensure_ca y d t fs)"
| "pki_step y fs (StepServer d sans t) = snd (ensure_server_cert y d sans t fs)"

definition pki_after :: "'k crypto \<Rightarrow> 'k pki_event list \<Rightarrow> files \<Rightarrow> files" where
  "pki_after y hist fs = foldl (pki_step y) fs hist"

lemma file_names_differ:
  "ca_cert_file \<noteq> server_cert_file" "ca_cert_file \<noteq> server_key_file" "ca_key_file \<noteq> server_cert_file" "ca_key_file \<noteq> server_key_file"
  "ca_key_file \<noteq> ca_cert_file" "server_key_file \<noteq> server_cert_file"
  by (simp_all add: ca_cert_file_def ca_key_file_def server_cert_file_def server_key_file_def)

lemma write_both_other: "p \<noteq> cf \<Longrightarrow> p \<noteq> kf \<Longrightarrow> snd (write_both y d cf kf der key fs) p = fs p"
proof -
  have w: "fs1 p = fs p" if "write_pem y w n k x fs = (r, fs1)" "p \<noteq> n" for w n k x fs r fs1
    using write_other[OF that(2), of w "cy_pem y k x" fs] that(1) by (simp add: write_pem_def)
  assume "p \<noteq> cf" "p \<noteq> kf"
  then show ?thesis by (auto simp: write_both_def dest!: w split: prod.split option.split sum.split)
qed

text \<open>Only the creation of the authority writes its files, and not while its certificate can be read.\<close>

lemma ensure_ca_readable: "read_pem y ca_cert_file fs = Inr der \<Longrightarrow> ensure_ca y d t fs = (Inr (fingerprint y der), fs)"
  by (simp add: ensure_ca_def)

lemma server_cert_other: "p \<in> {ca_cert_file, ca_key_file} \<Longrightarrow> snd (ensure_server_cert y d sans t fs) p = fs p"
proof -
  assume "p \<in> {ca_cert_file, ca_key_file}"
  then have "p \<noteq> server_cert_file" "p \<noteq> server_key_file" using file_names_differ by auto
  then have w: "snd (write_both y d server_cert_file server_key_file der key fs) p = fs p" for der key by (rule write_both_other)
  show ?thesis by (simp add: ensure_server_cert_def w split: sum.split prod.split)
qed

lemma pki_after_keeps:
  assumes "read_pem y ca_cert_file fs = Inr der" and "p \<in> {ca_cert_file, ca_key_file}"
  shows "pki_after y hist fs p = fs p \<and> read_pem y ca_cert_file (pki_after y hist fs) = Inr der"
  using assms(1)
proof (induction hist arbitrary: fs)
  case Nil
  then show ?case by (simp add: pki_after_def)
next
  case (Cons st hist)
  have s: "pki_step y fs st q = fs q" if "q \<in> {ca_cert_file, ca_key_file}" for q
    using that Cons.prems by (cases st) (simp_all add: ensure_ca_readable server_cert_other)
  have "read_pem y ca_cert_file (pki_step y fs st) = Inr der"
    using Cons.prems s[of ca_cert_file] by (simp add: read_pem_def)
  from Cons.IH[OF this] show ?case using s[OF assms(2)] by (simp add: pki_after_def)
qed

lemma load_ca_after:
  assumes "read_pem y ca_cert_file fs = Inr der"
  shows "load_ca y (pki_after y hist fs) = load_ca y fs"
proof -
  have "pki_after y hist fs ca_key_file = fs ca_key_file" "read_pem y ca_cert_file (pki_after y hist fs) = read_pem y ca_cert_file fs"
    using pki_after_keeps[OF assms, of ca_key_file hist] assms by simp_all
  moreover from this(1) have "read_pem y ca_key_file (pki_after y hist fs) = read_pem y ca_key_file fs" by (simp add: read_pem_def)
  ultimately show ?thesis unfolding load_ca_def by (simp only:)
qed

text \<open>C20: An issued client stays a client. A bundle names the authority's fingerprint, its certificate is signed with the
  authority's key for two years, and over every later history of the server, restarts with other addresses and failing
  writes included, the authority stays the one the bundle pins: its fingerprint does not change, and whenever server
  and client can set TLS up, both trust the same authority, and the server demands a certificate from it.\<close>

theorem issued_client_stays:
  assumes "issue_client y d name now fs = Inr b" and "\<forall>kind der. cy_unpem y (cy_pem y kind der) = Some der"
    and "fs' = pki_after y hist fs"
  shows "ca_fingerprint y fs' = Inr (cb_fingerprint b)
    \<and> fst (ensure_ca y d' later fs') = Inr (cb_fingerprint b)
    \<and> (\<exists>ca_der ca ca_key fields key der. load_ca y fs' = Inr (ca_der, ca, ca_key) \<and> cy_create y fields key ca_key = Inr der
         \<and> cb_cert b = cy_pem y ''CERTIFICATE'' der \<and> ct_subject fields = name \<and> ct_client fields \<and> \<not> ct_server fields \<and> \<not> ct_is_ca fields
         \<and> ct_until fields = now + client_validity)
    \<and> (\<forall>scfg ccfg. server_tls y fs' = Inr scfg \<and> client_tls y b = Inr ccfg
         \<longrightarrow> tc_trusted scfg = tc_trusted ccfg \<and> tc_needs_client scfg)"
proof -
  obtain ca_der ca ca_key key serial der kd where l: "load_ca y fs = Inr (ca_der, ca, ca_key)" "dr_key d = Inr key" "dr_serial d = Inr serial"
    and c: "cy_create y \<lparr>ct_subject = name, ct_org = [''flightdeck''], ct_serial = serial, ct_from = now - hour,
      ct_until = now + client_validity, ct_is_ca = False, ct_server = False, ct_client = True, ct_ips = [], ct_names = []\<rparr> key ca_key = Inr der"
    and b: "b = \<lparr>cb_name = name, cb_cert = cy_pem y ''CERTIFICATE'' der, cb_key = cy_pem y ''EC PRIVATE KEY'' kd,
      cb_ca = cy_pem y ''CERTIFICATE'' ca_der, cb_fingerprint = fingerprint y ca_der\<rparr>"
    using assms(1) by (auto simp: issue_client_def split: if_splits sum.splits prod.splits)
  have r: "read_pem y ca_cert_file fs = Inr ca_der" using l(1) by (auto simp: load_ca_def split: sum.splits)
  then have r': "read_pem y ca_cert_file fs' = Inr ca_der" using pki_after_keeps[OF r, of ca_key_file hist] assms(3) by simp
  have "load_ca y fs' = Inr (ca_der, ca, ca_key)" using load_ca_after[OF r] l(1) assms(3) by simp
  moreover have "tc_trusted scfg = ca_der \<and> tc_needs_client scfg" if "server_tls y fs' = Inr scfg" for scfg
    using that r' by (auto simp: server_tls_def split: option.splits sum.splits)
  moreover have "tc_trusted ccfg = ca_der" if "client_tls y b = Inr ccfg" for ccfg
    using that assms(2) by (auto simp: client_tls_def b split: option.splits sum.splits)
  moreover have "ca_fingerprint y fs' = Inr (cb_fingerprint b)" "fst (ensure_ca y d' later fs') = Inr (cb_fingerprint b)"
    using r' by (simp_all add: ca_fingerprint_def ensure_ca_readable b)
  moreover have "cb_cert b = cy_pem y ''CERTIFICATE'' der" by (simp add: b)
  moreover let ?f = "\<lparr>ct_subject = name, ct_org = [''flightdeck''], ct_serial = serial, ct_from = now - hour,
      ct_until = now + client_validity, ct_is_ca = False, ct_server = False, ct_client = True, ct_ips = [], ct_names = []\<rparr>"
  have "ct_subject ?f = name \<and> ct_client ?f \<and> \<not> ct_server ?f \<and> \<not> ct_is_ca ?f \<and> ct_until ?f = now + client_validity" by simp
  ultimately show ?thesis using c by blast
qed


text \<open>The certificate of the server is taken as current without its key: after a write of the key that fails, every later
  start keeps the pair that does not belong together, and TLS cannot be set up.\<close>

lemma torn_server_pair:
  assumes "server_cert_current y sans now fs" and "fs server_key_file = None"
  shows "ensure_server_cert y d sans now fs = (Inr (), fs) \<and> (\<exists>er. server_tls y fs = Inl er)"
  using assms by (auto simp: ensure_server_cert_def server_tls_def split: option.splits)

text \<open>An address that the server is no longer known under stays in its certificate.\<close>

lemma dropped_san_kept:
  assumes "sans_match y cert (s # sans)" and "sans \<noteq> []"
  shows "sans_match y cert sans"
  using assms by (simp add: sans_match_def Let_def)

text \<open>A certificate made for some addresses and names is current for them.\<close>

lemma fresh_cert_matches:
  assumes "apply_sans y sans = (ips, names)" and "ct_ips cert = ips" and "ct_names cert = names"
  shows "sans_match y cert sans"
proof (cases "sans = []")
  case True
  then have "ct_ips cert = [''127.0.0.1'']" using assms by (simp add: apply_sans_def List.map_filter_def)
  then show ?thesis using True by (simp add: sans_match_def)
next
  case False
  have "(case cy_ip y s of None \<Rightarrow> s | Some ip \<Rightarrow> ip) \<in> set ips \<union> set names" if "s \<in> set sans" for s
  proof (cases "cy_ip y s")
    case None
    then have "filter (\<lambda>s. cy_ip y s = None) sans \<noteq> []" using that by (auto simp: filter_empty_conv)
    then have "names = filter (\<lambda>s. cy_ip y s = None) sans" using assms(1) by (auto simp: apply_sans_def Let_def split: if_splits)
    then show ?thesis using None that by simp
  next
    case (Some ip)
    then have "ip \<in> set (List.map_filter (cy_ip y) sans)" using that by (force simp: List.map_filter_def)
    then show ?thesis using assms(1) Some by (auto simp: apply_sans_def Let_def split: if_splits)
  qed
  then show ?thesis using False assms(2,3) by (simp add: sans_match_def Let_def list_all_iff)
qed

subsection \<open>The properties at work\<close>

definition demo_fields :: cert_fields where
  "demo_fields = \<lparr>ct_subject = [], ct_org = [], ct_serial = 1, ct_from = 0, ct_until = 10, ct_is_ca = True, ct_server = False,
     ct_client = False, ct_ips = [''127.0.0.1''], ct_names = []\<rparr>"

definition demo_crypto :: "string crypto" where
  "demo_crypto = \<lparr>cy_pem = (\<lambda>_ der. der), cy_unpem = Some, cy_create = (\<lambda>f k ca. Inr (ct_subject f)), cy_parse = (\<lambda>_. Inr demo_fields),
     cy_key_der = Inr, cy_parse_key = Inr, cy_pair = (\<lambda>_ _. Inr ()), cy_ip = Some, cy_hash = (\<lambda>x. x)\<rparr>"

definition demo_draw :: "write_outcome \<Rightarrow> string draw" where
  "demo_draw w = \<lparr>dr_key = Inr ''k'', dr_serial = Inr 1, dr_mkdir = None, dr_cert_write = WriteAll, dr_key_write = w\<rparr>"

lemma demo_crypto_laws: "\<forall>kind der. cy_unpem demo_crypto (cy_pem demo_crypto kind der) = Some der"
  "\<forall>tmpl k1 k2. \<exists>der. cy_create demo_crypto tmpl k1 k2 = Inr der"
  by (simp_all add: demo_crypto_def)

definition demo_ca :: files where "demo_ca = [ca_cert_file \<mapsto> ''ca'', ca_key_file \<mapsto> ''k'']"

lemma issued_client_stays_witness:
  "\<exists>b. issue_client demo_crypto (demo_draw WriteAll) ''home'' 0 demo_ca = Inr b
     \<and> ca_fingerprint demo_crypto (pki_after demo_crypto [StepServer (demo_draw WriteAll) [''h''] 1] demo_ca) = Inr (cb_fingerprint b)"
proof -
  have "\<not> isl (issue_client demo_crypto (demo_draw WriteAll) ''home'' 0 demo_ca)" by code_simp
  then obtain b where b: "issue_client demo_crypto (demo_draw WriteAll) ''home'' 0 demo_ca = Inr b"
    by (cases "issue_client demo_crypto (demo_draw WriteAll) ''home'' 0 demo_ca") simp_all
  then show ?thesis using issued_client_stays[OF b demo_crypto_laws(1) refl, of "[StepServer (demo_draw WriteAll) [''h''] 1]"] by blast
qed


end
