(* ===== verification/Mailbox_Host.thy ===== *)
theory Mailbox_Host
  imports Pki Mailbox_Http
begin

text \<open>
  The rendezvous server as a process (\<open>cmd/flightdeck-mailbox/main.go\<close>): its start from the environment and the
  directory of its authority, its commands, the handler that issues client certificates (\<open>issueClient\<close> of
  \<open>internal/mailbox/mailbox.go\<close>) and a request over mutual TLS. Whether a client certificate verifies against an
  authority is a function of the library, an argument.
\<close>

subsection \<open>Commands\<close>

definition env_or :: "(string \<Rightarrow> string) \<Rightarrow> string \<Rightarrow> string \<Rightarrow> string" where
  "env_or env k d = (if env k \<noteq> [] then env k else d)"

definition data_dir :: "(string \<Rightarrow> string) \<Rightarrow> string" where
  "data_dir env = env_or env ''MAILBOX_DATA_DIR'' ''/var/lib/flightdeck-mailbox''"

record mailbox_host =
  hs_dir :: string
  hs_addr :: string
  hs_admin :: string
  hs_fingerprint :: string
  hs_tls :: tls_config

text \<open>The start: \<open>d1\<close> is drawn for the authority, \<open>d2\<close> for the certificate of the server; \<open>store_err\<close> is the outcome of
  opening the mailboxes.\<close>

definition start_host :: "'k crypto \<Rightarrow> 'k draw \<Rightarrow> 'k draw \<Rightarrow> (string \<Rightarrow> string) \<Rightarrow> error option \<Rightarrow> gtime \<Rightarrow> files
    \<Rightarrow> (error + mailbox_host) \<times> files" where
  "start_host y d1 d2 env store_err now fs =
     (let admin = env ''MAILBOX_ADMIN_TOKEN'' in
      if admin = [] then (Inl (ErrText ''MAILBOX_ADMIN_TOKEN is required''), fs)
      else if length admin < 32 then (Inl (ErrText ''MAILBOX_ADMIN_TOKEN must be at least 32 characters''), fs)
      else (case store_err of
              Some er \<Rightarrow> (Inl er, fs)
            | None \<Rightarrow>
                (case ensure_ca y d1 now fs of
                   (Inl er, fs1) \<Rightarrow> (Inl er, fs1)
                 | (Inr fp, fs1) \<Rightarrow>
                     (case ensure_server_cert y d2 (str_fields (env ''MAILBOX_SANS'')) now fs1 of
                        (Inl er, fs2) \<Rightarrow> (Inl er, fs2)
                      | (Inr _, fs2) \<Rightarrow>
                          (case server_tls y fs2 of
                             Inl er \<Rightarrow> (Inl er, fs2)
                           | Inr tls \<Rightarrow> (Inr \<lparr>hs_dir = data_dir env, hs_addr = env_or env ''MAILBOX_ADDR'' '':443'', hs_admin = admin,
                                hs_fingerprint = fp, hs_tls = tls\<rparr>, fs2))))))"

definition run_issue :: "'k crypto \<Rightarrow> 'k draw \<Rightarrow> 'k draw \<Rightarrow> string list \<Rightarrow> gtime \<Rightarrow> files \<Rightarrow> (error + client_bundle) \<times> files" where
  "run_issue y d1 d2 args now fs =
     (if args = [] then (Inl (ErrText ''usage''), fs)
      else (case ensure_ca y d1 now fs of
              (Inl er, fs1) \<Rightarrow> (Inl er, fs1)
            | (Inr _, fs1) \<Rightarrow> (issue_client y d2 (hd args) now fs1, fs1)))"

definition run_fingerprint :: "'k crypto \<Rightarrow> files \<Rightarrow> error + string" where
  "run_fingerprint y fs = ca_fingerprint y fs"

datatype host_out = Serving mailbox_host | Bundle client_bundle | Line string

text \<open>Without a command the server is started.\<close>

definition host_command :: "string \<Rightarrow> 'k crypto \<Rightarrow> 'k draw \<Rightarrow> 'k draw \<Rightarrow> (string \<Rightarrow> string) \<Rightarrow> error option \<Rightarrow> string list \<Rightarrow> gtime \<Rightarrow> files
    \<Rightarrow> (error + host_out) \<times> files" where
  "host_command version y d1 d2 env store_err args now fs =
     (let cmd = (if args = [] then ''serve'' else hd args) in
      if cmd = ''serve'' then map_prod (map_sum id Serving) id (start_host y d1 d2 env store_err now fs)
      else if cmd = ''issue'' then map_prod (map_sum id Bundle) id (run_issue y d1 d2 (tl args) now fs)
      else if cmd = ''fingerprint'' then (map_sum id Line (run_fingerprint y fs), fs)
      else if cmd = ''version'' then (Inr (Line version), fs)
      else (Inl (ErrText ''unknown command''), fs))"

subsection \<open>Requests\<close>

text \<open>\<open>issueClient\<close>: the body is read up to 64 KiB and decodes to a name; a server without an authority has \<open>None\<close>.\<close>

definition http_issue_client :: "string \<Rightarrow> (string \<Rightarrow> string option) \<Rightarrow> ('k crypto \<times> 'k draw) option \<Rightarrow> gtime \<Rightarrow> request \<Rightarrow> files
    \<Rightarrow> nat \<times> client_bundle option" where
  "http_issue_client admin decode pki now r fs =
     (if admin = [] \<or> bearer r \<noteq> admin then (401, None)
      else (case pki of
              None \<Rightarrow> (501, None)
            | Some (y, d) \<Rightarrow>
                (case Option.bind (req_body r) (\<lambda>b. decode (take 65536 b)) of
                   None \<Rightarrow> (400, None)
                 | Some name \<Rightarrow> (case issue_client y d name now fs of Inl _ \<Rightarrow> (400, None) | Inr b \<Rightarrow> (201, Some b)))))"

datatype host_route = Boxes route | Clients

datatype host_reply = HandshakeRefused | BoxReply response | ClientReply nat "client_bundle option"

text \<open>One request at a running server: the handshake, and then the handler; \<open>verifies\<close> takes the authority and the
  certificate that the client presents.\<close>

definition serve_host :: "mailbox_host \<Rightarrow> (string \<Rightarrow> string \<Rightarrow> bool) \<Rightarrow> string option \<Rightarrow> (string \<Rightarrow> string option) \<Rightarrow> 'k crypto \<Rightarrow> 'k draw
    \<Rightarrow> world \<Rightarrow> host_route \<Rightarrow> request \<Rightarrow> mstore \<times> files \<Rightarrow> host_reply \<times> mstore" where
  "serve_host h verifies cert decode y d w rt r st =
     (case st of (ms, fs) \<Rightarrow>
        (if tc_needs_client (hs_tls h) \<and> (case cert of None \<Rightarrow> True | Some c \<Rightarrow> \<not> verifies (tc_trusted (hs_tls h)) c)
         then (HandshakeRefused, ms)
         else (case rt of
                 Boxes br \<Rightarrow> (case handle (w\<lparr>w_admin := hs_admin h\<rparr>) br r ms of (resp, ms') \<Rightarrow> (BoxReply resp, ms'))
               | Clients \<Rightarrow> (case http_issue_client (hs_admin h) decode (Some (y, d)) (w_now w) r fs of
                               (st, b) \<Rightarrow> (ClientReply st b, ms)))))"

text \<open>Which instance calls, for the log, and which messages of the TLS library reach it.\<close>

definition client_identity :: "(string \<Rightarrow> string) \<Rightarrow> string option \<Rightarrow> string" where
  "client_identity common_name cert = (case cert of None \<Rightarrow> ''unknown'' | Some c \<Rightarrow> common_name c)"

definition routine_noise :: "string list" where
  "routine_noise = [''tls: client didn't provide a certificate'', ''tls: bad certificate'',
     ''tls: first record does not look like a TLS handshake'', ''tls: unknown certificate authority'', ''remote error'', ''EOF'']"

definition handshake_log :: "string \<Rightarrow> string option" where
  "handshake_log msg = (if list_ex (str_contains msg) routine_noise then None else Some (''http: '' @ trim_space msg))"

subsection \<open>Who is let in\<close>

lemma start_host_Inr:
  assumes "start_host y d1 d2 env store_err now fs0 = (Inr h, fs)"
  obtains fs1 where "ensure_ca y d1 now fs0 = (Inr (hs_fingerprint h), fs1)"
    and "ensure_server_cert y d2 (str_fields (env ''MAILBOX_SANS'')) now fs1 = (Inr (), fs)"
    and "server_tls y fs = Inr (hs_tls h)" and "32 \<le> length (hs_admin h)"
  using assms by (auto simp: start_host_def Let_def split: if_splits option.splits sum.splits prod.splits)

lemma server_tls_Inr: "server_tls y fs = Inr c \<Longrightarrow> read_pem y ca_cert_file fs = Inr (tc_trusted c) \<and> tc_needs_client c \<and> tc_min_version c = 13"
  by (auto simp: server_tls_def split: option.splits sum.splits)

text \<open>The authority that was made or found is the one that can be read afterwards.\<close>

lemma ensure_ca_reads:
  assumes "ensure_ca y d now fs0 = (Inr fp, fs)" and "\<forall>kind der. cy_unpem y (cy_pem y kind der) = Some der"
  shows "\<exists>der. read_pem y ca_cert_file fs = Inr der \<and> fingerprint y der = fp"
proof (cases "read_pem y ca_cert_file fs0")
  case (Inr der)
  then show ?thesis using assms(1) by (auto simp: ensure_ca_def)
next
  case (Inl er)
  then obtain der key where w: "write_both y d ca_cert_file ca_key_file der key fs0 = (Inr (), fs)" "fp = fingerprint y der"
    using assms(1) by (auto simp: ensure_ca_def split: option.splits sum.splits prod.splits)
  then have "fs ca_cert_file = Some (cy_pem y ''CERTIFICATE'' der)"
    by (auto simp: write_both_def write_pem_def write_file_def file_names_differ[symmetric] file_names_differ(5)[symmetric] split: write_outcome.splits sum.splits)
  then show ?thesis using w(2) assms(2) by (simp add: read_pem_def)
qed

lemma started_host:
  assumes "start_host y d1 d2 env store_err now fs0 = (Inr h, fs)" and "\<forall>kind der. cy_unpem y (cy_pem y kind der) = Some der"
  shows "read_pem y ca_cert_file fs = Inr (tc_trusted (hs_tls h)) \<and> fingerprint y (tc_trusted (hs_tls h)) = hs_fingerprint h
    \<and> tc_needs_client (hs_tls h) \<and> 32 \<le> length (hs_admin h)"
proof (rule start_host_Inr[OF assms(1)])
  fix fs1 assume s: "ensure_ca y d1 now fs0 = (Inr (hs_fingerprint h), fs1)"
    "ensure_server_cert y d2 (str_fields (env ''MAILBOX_SANS'')) now fs1 = (Inr (), fs)" "server_tls y fs = Inr (hs_tls h)" "32 \<le> length (hs_admin h)"
  obtain der where der: "read_pem y ca_cert_file fs1 = Inr der" "fingerprint y der = hs_fingerprint h"
    using ensure_ca_reads[OF s(1) assms(2)] by blast
  have "fs ca_cert_file = fs1 ca_cert_file"
    using server_cert_other[of ca_cert_file y d2 "str_fields (env ''MAILBOX_SANS'')" now fs1] s(2) by simp
  then have "read_pem y ca_cert_file fs = Inr der" using der(1) by (simp add: read_pem_def)
  then show ?thesis using server_tls_Inr[OF s(3)] der(2) s(4) by simp
qed

lemma http_issue_Inr:
  assumes "http_issue_client admin decode (Some (y, d)) now r fs = (st, Some b)"
  shows "bearer r = admin \<and> (\<exists>name. issue_client y d name now fs = Inr b)"
  using assms by (auto simp: http_issue_client_def split: if_splits option.splits sum.splits)

lemma issued_fingerprint:
  assumes "issue_client y d name now fs = Inr b" and "read_pem y ca_cert_file fs = Inr der"
  shows "cb_fingerprint b = fingerprint y der \<and> cb_name b = name \<and> cb_ca b = cy_pem y ''CERTIFICATE'' der"
  using assms by (auto simp: issue_client_def load_ca_def split: if_splits sum.splits prod.splits)

text \<open>C17: The server lets in whom its authority vouches for. While a started server runs, whatever histories of other
  starts and commands touch its directory, a request without a client certificate that verifies against the authority
  read at the start reaches no handler and changes nothing; and a client bundle is handed out only for the administrator's
  token, of at least 32 bytes, pins the fingerprint that the start reported, carries that authority, and is what the
  command \<open>fingerprint\<close> still prints.\<close>

theorem host_admits_verified_only:
  assumes "start_host y d1 d2 env store_err t0 fs0 = (Inr h, fs)" and "\<forall>kind der. cy_unpem y (cy_pem y kind der) = Some der"
    and "fs' = pki_after y hist fs" and "serve_host h verifies cert decode y d w rt r (ms, fs') = (reply, ms')"
  shows "((case cert of None \<Rightarrow> True | Some c \<Rightarrow> \<not> verifies (tc_trusted (hs_tls h)) c) \<longrightarrow> reply = HandshakeRefused \<and> ms' = ms)
    \<and> (\<forall>st b. reply = ClientReply st (Some b) \<longrightarrow> bearer r = env ''MAILBOX_ADMIN_TOKEN'' \<and> 32 \<le> length (bearer r)
         \<and> cb_fingerprint b = hs_fingerprint h \<and> cb_ca b = cy_pem y ''CERTIFICATE'' (tc_trusted (hs_tls h))
         \<and> run_fingerprint y fs' = Inr (cb_fingerprint b) \<and> ms' = ms)"
proof -
  note st = started_host[OF assms(1,2)]
  have admin: "hs_admin h = env ''MAILBOX_ADMIN_TOKEN''"
    using assms(1) by (auto simp: start_host_def Let_def split: if_splits option.splits sum.splits prod.splits)
  have r': "read_pem y ca_cert_file fs' = Inr (tc_trusted (hs_tls h))"
    using pki_after_keeps[of y fs _ ca_cert_file hist] st assms(3) by simp
  have "reply = HandshakeRefused \<and> ms' = ms" if "case cert of None \<Rightarrow> True | Some c \<Rightarrow> \<not> verifies (tc_trusted (hs_tls h)) c"
    using assms(4) that st by (simp add: serve_host_def)
  moreover have "bearer r = hs_admin h \<and> (\<exists>name. issue_client y d name (w_now w) fs' = Inr b) \<and> ms' = ms" if "reply = ClientReply st (Some b)" for st b
    using assms(4) that by (auto simp: serve_host_def dest!: http_issue_Inr split: if_splits host_route.splits prod.splits)
  ultimately show ?thesis
    using issued_fingerprint[OF _ r'] st admin r' unfolding run_fingerprint_def ca_fingerprint_def by fastforce
qed

text \<open>Messages that merely mention the end of a file are dropped with the handshakes.\<close>

lemma unexpected_eof_dropped: "str_contains msg ''EOF'' \<Longrightarrow> handshake_log msg = None"
  by (simp add: handshake_log_def routine_noise_def)

definition demo_host_env :: "string \<Rightarrow> string" where
  "demo_host_env k = (if k = ''MAILBOX_ADMIN_TOKEN'' then replicate 32 (CHR ''t'') else [])"

definition demo_host_world :: world where
  "demo_host_world = \<lparr>w_admin = [], w_hash = (\<lambda>x. x), w_drawn = ([], [], []), w_now = 5,
     w_io = WritesOk, w_decode = (\<lambda>_. None), w_stuck = (\<lambda>_. False)\<rparr>"

lemma host_admits_verified_only_witness:
  "\<exists>h fs b. start_host demo_crypto (demo_draw WriteAll) (demo_draw WriteAll) demo_host_env None 0 (\<lambda>_. None) = (Inr h, fs)
     \<and> fst (serve_host h (\<lambda>_ _. True) (Some ''c'') Some demo_crypto (demo_draw WriteAll) demo_host_world Clients
         \<lparr>req_auth = ''Bearer '' @ replicate 32 (CHR ''t''), req_id = [], req_body = Some ''home''\<rparr> (new_store, fs)) = ClientReply 201 (Some b)
     \<and> run_fingerprint demo_crypto fs = Inr (cb_fingerprint b)"
proof -
  let ?start = "start_host demo_crypto (demo_draw WriteAll) (demo_draw WriteAll) demo_host_env None 0 (\<lambda>_. None)"
  let ?r = "\<lparr>req_auth = ''Bearer '' @ replicate 32 (CHR ''t''), req_id = [], req_body = Some ''home''\<rparr>"
  let ?serve = "\<lambda>h fs. serve_host h (\<lambda>_ _. True) (Some ''c'') Some demo_crypto (demo_draw WriteAll) demo_host_world Clients ?r (new_store, fs)"
  have "trim_left [] = []" by code_simp
  then have m: "str_fields [] = []" by (subst str_fields.simps) simp
  have "\<exists>h fs. ?start = (Inr h, fs)"
    by (simp add: start_host_def demo_host_env_def m demo_crypto_def demo_draw_def demo_fields_def ensure_ca_def read_pem_def
        write_both_def write_pem_def write_file_def ensure_server_cert_def server_cert_current_def load_ca_def apply_sans_def
        List.map_filter_def server_tls_def file_names_differ file_names_differ[symmetric])
  then obtain h fs where s: "?start = (Inr h, fs)" by blast
  then have l: "\<exists>ca k. load_ca demo_crypto fs = Inr (''flightdeck-mailbox CA'', ca, k)" "hs_admin h = replicate 32 (CHR ''t'')"
    by (auto simp: start_host_def demo_host_env_def m demo_crypto_def demo_draw_def demo_fields_def ensure_ca_def read_pem_def
        write_both_def write_pem_def write_file_def ensure_server_cert_def server_cert_current_def load_ca_def apply_sans_def
        List.map_filter_def server_tls_def file_names_differ file_names_differ[symmetric])
  have "trim_space ''home'' \<noteq> []" by code_simp
  then have "\<exists>b. fst (?serve h fs) = ClientReply 201 (Some b)"
    using l by (auto simp: serve_host_def http_issue_client_def bearer_def issue_client_def demo_draw_def demo_crypto_def)
  then obtain b where b: "fst (?serve h fs) = ClientReply 201 (Some b)" by blast
  obtain ms' where v: "?serve h fs = (ClientReply 201 (Some b), ms')" using b by (metis prod.collapse)
  have "fs = pki_after demo_crypto [] fs" by (simp add: pki_after_def)
  from host_admits_verified_only[OF s demo_crypto_laws(1) this v] s b show ?thesis by blast
qed

end
