(* ===== verification/Api_Projects.thy ===== *)
theory Api_Projects
  imports Api_Items Project_Tree Dto Settings Release Usage Context_Impact
begin

text \<open>
  The handlers of projects (\<open>internal/api/projects.go\<close>) and the readers of the instance (\<open>usage.go\<close>, \<open>setup.go\<close>,
  \<open>context_impact.go\<close> and the webhook listing of \<open>features.go\<close>). Only a confirmed DELETE of an archived project
  without children loses a project or its items, over every history of requests.
\<close>

subsection \<open>Projects\<close>

definition list_projects_handler :: "query \<Rightarrow> db \<Rightarrow> project_dto list reply" where
  "list_projects_handler q s = (200, Some (map to_project (list_projects (query_str q ''status'') s)))"

definition get_project_handler :: "string \<Rightarrow> db \<Rightarrow> project_dto reply" where
  "get_project_handler slug s =
     (case find_slug slug s of Inl er \<Rightarrow> (db_error_status er, None) | Inr p \<Rightarrow> (200, Some (to_project p)))"

definition parent_error_status :: "error \<Rightarrow> nat" where
  "parent_error_status er = (case er of ErrInvalidProjectParent _ \<Rightarrow> 400 | NoRows \<Rightarrow> 404 | _ \<Rightarrow> db_error_status er)"

text \<open>A body that does not decode is \<open>None\<close>; else it is the fields and the requested parent.\<close>

definition create_project_handler :: "(project_params \<times> string option) option \<Rightarrow> gtime \<Rightarrow> db \<Rightarrow> project_dto reply \<times> db" where
  "create_project_handler req now s =
     (case req of
        None \<Rightarrow> ((400, None), s)
      | Some (a, parent) \<Rightarrow>
          (if pp_slug a = [] \<or> pp_name a = [] then ((400, None), s)
           else if validate_project_status (pp_status a) \<noteq> None then ((400, None), s)
           else (case check_parent (pp_slug a) parent s of
                   Inl er \<Rightarrow> ((parent_error_status er, None), s)
                 | Inr pa \<Rightarrow>
                     (case with_tx now (create_project (a\<lparr>pp_parent := pa\<rparr>)) s of
                        (Inl er, s') \<Rightarrow> ((db_error_status er, None), s')
                      | (Inr p, s') \<Rightarrow> ((201, Some (to_project p)), s')))))"

definition patch_project_handler :: "string \<Rightarrow> (project_patch \<times> string option) option \<Rightarrow> gtime \<Rightarrow> db \<Rightarrow> project_dto reply \<times> db" where
  "patch_project_handler slug req now s =
     (case req of
        None \<Rightarrow> ((400, None), s)
      | Some (a, parent) \<Rightarrow>
          (if validate_project_status (pq_status a) \<noteq> None then ((400, None), s)
           else (case check_parent slug parent s of
                   Inl er \<Rightarrow> ((parent_error_status er, None), s)
                 | Inr pa \<Rightarrow>
                     (case with_tx now (update_project (a\<lparr>pq_slug := slug, pq_set_parent := parent \<noteq> None, pq_parent := pa\<rparr>)) s of
                        (Inl er, s') \<Rightarrow> ((db_error_status er, None), s')
                      | (Inr p, s') \<Rightarrow> ((200, Some (to_project p)), s')))))"

text \<open>The objects of the attachments are deleted once the rows are gone; a failure there is only logged, so the
  deletion of one object is a function on the object store.\<close>

definition delete_project_handler :: "bool \<Rightarrow> (string \<Rightarrow> 'b \<Rightarrow> 'b) \<Rightarrow> string \<Rightarrow> query \<Rightarrow> gtime \<Rightarrow> db \<times> 'b
    \<Rightarrow> (nat \<times> nat \<times> nat) reply \<times> db \<times> 'b" where
  "delete_project_handler blobs del slug q now st =
     (case st of (s, b) \<Rightarrow>
        (if q ''confirm'' \<noteq> slug then ((400, None), s, b)
         else (case purge_project blobs slug now s of
                 (Inl (ErrProjectNotEmpty _), s') \<Rightarrow> ((409, None), s', b)
               | (Inl er, s') \<Rightarrow> ((db_error_status er, None), s', b)
               | (Inr (counts, keys), s') \<Rightarrow> ((200, Some counts), s', fold del keys b))))"

datatype project_call =
    ListProjects query
  | GetProject string
  | PostProject "(project_params \<times> string option) option" gtime
  | PatchProject string "(project_patch \<times> string option) option" gtime
  | DeleteProject string query gtime

fun serve_project :: "bool \<Rightarrow> (string \<Rightarrow> 'b \<Rightarrow> 'b) \<Rightarrow> project_call \<Rightarrow> db \<times> 'b \<Rightarrow> nat \<times> db \<times> 'b" where
  "serve_project blobs del (ListProjects q) (s, b) = (fst (list_projects_handler q s), s, b)"
| "serve_project blobs del (GetProject slug) (s, b) = (fst (get_project_handler slug s), s, b)"
| "serve_project blobs del (PostProject r t) (s, b) = (case create_project_handler r t s of ((st, _), s') \<Rightarrow> (st, s', b))"
| "serve_project blobs del (PatchProject slug r t) (s, b) = (case patch_project_handler slug r t s of ((st, _), s') \<Rightarrow> (st, s', b))"
| "serve_project blobs del (DeleteProject slug q t) (s, b) =
     (case delete_project_handler blobs del slug q t (s, b) of ((st, _), st') \<Rightarrow> (st, st'))"

subsection \<open>Readers of the instance\<close>

definition usage_report_handler :: "report_env \<Rightarrow> query \<Rightarrow> gtime \<Rightarrow> db \<Rightarrow> usage_report reply" where
  "usage_report_handler e q now s =
     (if q ''days'' = [] then (200, Some (build_usage_report e 7 [] now s))
      else (case atoi (q ''days'') of
              None \<Rightarrow> (400, None)
            | Some n \<Rightarrow> if n \<le> 0 then (400, None) else (200, Some (build_usage_report e n [] now s))))"

definition list_context_impact_handler :: "query \<Rightarrow> gtime \<Rightarrow> db \<Rightarrow> impact list reply" where
  "list_context_impact_handler q now s =
     (case (bounded_int atoi (q ''days'') 7 1 90, bounded_int atoi (q ''limit'') 100 1 500) of
        (Some d, Some n) \<Rightarrow> (200, Some (list_context_impact_events (now - d * day) (query_str q ''project'') (nat n) s))
      | _ \<Rightarrow> (400, None))"

record setup_status =
  su_complete :: bool
  su_name :: string
  su_version :: string
  su_latest :: string
  su_url :: string

definition setup_status_handler :: "string \<Rightarrow> checker option \<Rightarrow> server \<Rightarrow> setup_status reply \<times> server" where
  "setup_status_handler version upd sv =
     (case is_setup_complete sv of (finished, sv') \<Rightarrow>
        ((200, Some \<lparr>su_complete = finished, su_name = instance_name sv', su_version = version,
            su_latest = (case available upd of None \<Rightarrow> [] | Some r \<Rightarrow> rel_tag r),
            su_url = (case available upd of None \<Rightarrow> [] | Some r \<Rightarrow> rel_url r)\<rparr>), sv'))"

record settings_view =
  sg_name :: string
  sg_flags :: "(string \<times> bool) list"
  sg_embeds :: bool

definition get_settings_handler :: "server \<Rightarrow> settings_view reply" where
  "get_settings_handler sv = (200, Some \<lparr>sg_name = instance_name sv, sg_flags = flags_snapshot sv, sg_embeds = embedding_enabled sv\<rparr>)"

text \<open>A webhook as it is shown: without its secret.\<close>

record webhook_dto =
  hd_id :: uuid
  hd_project :: "uuid option"
  hd_url :: string
  hd_events :: "string list"
  hd_active :: bool
  hd_created_at :: gtime

definition to_webhook :: "webhook \<Rightarrow> webhook_dto" where
  "to_webhook h = \<lparr>hd_id = h_id h, hd_project = h_project h, hd_url = h_url h, hd_events = h_events h, hd_active = h_active h,
     hd_created_at = h_created_at h\<rparr>"

definition list_webhooks_handler :: "db \<Rightarrow> webhook_dto list reply" where
  "list_webhooks_handler s = (200, Some (map to_webhook (list_webhooks s)))"

subsection \<open>What a history of requests can lose\<close>

definition keeps_project :: "project \<Rightarrow> db \<Rightarrow> db \<Rightarrow> bool" where
  "keeps_project p s s' = ((\<exists>p' \<in> set (projects s'). p_id p' = p_id p \<and> p_slug p' = p_slug p)
     \<and> filter (\<lambda>i. i_project i = p_id p) (items s') = filter (\<lambda>i. i_project i = p_id p) (items s))"

lemma keeps_refl: "p \<in> set (projects s) \<Longrightarrow> keeps_project p s s"
  by (auto simp: keeps_project_def)

lemma keeps_with_tx:
  assumes "p \<in> set (projects s)" and "\<And>x t. m (s\<lparr>db_now := now\<rparr>) = Inr (x, t) \<Longrightarrow> keeps_project p s t"
  shows "keeps_project p s (snd (with_tx now m s))"
  using assms by (auto simp: with_tx_def keeps_refl split: sum.splits)

lemma create_keeps: "create_project a (s\<lparr>db_now := n\<rparr>) = Inr (x, t) \<Longrightarrow> p \<in> set (projects s) \<Longrightarrow> keeps_project p s t"
  using create_project_Inr(7)[of a "s\<lparr>db_now := n\<rparr>" x t] by (auto simp: keeps_project_def)

lemma update_keeps:
  assumes "update_project a (s\<lparr>db_now := n\<rparr>) = Inr (x, t)" and "p \<in> set (projects s)"
  shows "keeps_project p s t"
proof (rule update_project_Inr[OF assms(1)])
  fix q assume t: "t = s\<lparr>db_now := n\<rparr>\<lparr>projects := rows_update (\<lambda>q. p_slug q = pq_slug a)
    (patched_project a (db_now (s\<lparr>db_now := n\<rparr>))) (projects (s\<lparr>db_now := n\<rparr>))\<rparr>"
  let ?f = "\<lambda>q. if p_slug q = pq_slug a then patched_project a n q else q"
  have "?f p \<in> set (projects t)" using assms(2) by (simp add: t rows_update_cond)
  moreover have "p_id (?f p) = p_id p \<and> p_slug (?f p) = p_slug p" by (simp add: patched_project_def)
  moreover have "items t = items s" by (simp add: t)
  ultimately show ?thesis unfolding keeps_project_def by metis
qed

lemma purge_keeps:
  assumes ok: "forest s" and p: "p \<in> set (projects s)" and r: "purge_project blobs slug now s = (r, s')"
  shows "keeps_project p s s' \<or> slug = p_slug p \<and> p_status p = ''archived'' \<and> (\<forall>c \<in> set (projects s). p_parent c \<noteq> Some slug)"
proof (cases r)
  case (Inl er)
  then show ?thesis using purge_guarded[OF r] keeps_refl[OF p] by simp
next
  case (Inr x)
  obtain ni na nk keys where x: "x = ((ni, na, nk), keys)" by (metis prod.collapse)
  obtain q where q: "q \<in> set (projects s)" "p_slug q = slug" "p_status q = ''archived''" "\<forall>c \<in> set (projects s). p_parent c \<noteq> Some slug"
    and s': "projects s' = filter (\<lambda>q. p_slug q \<noteq> slug) (projects s)" "items s' = filter (\<lambda>i. i_project i \<noteq> p_id q) (items s)"
    using purge_guarded[OF r] by (auto simp: Inr x)
  have ok': "db_ok s" using ok by (simp add: forest_def tree_ok_def)
  show ?thesis
  proof (cases "p_slug p = slug")
    case True
    then have "p = q" using slug_row_unique[OF ok' p q(1)] q(2) by simp
    then show ?thesis using q by simp
  next
    case False
    then have "p \<noteq> q" using q(2) by blast
    moreover have "distinct (map p_id (projects s))" using ok' by (simp add: db_ok_def projects_ok_def)
    ultimately have "p_id p \<noteq> p_id q" using p q(1) by (auto simp: distinct_map inj_on_def)
    then have "filter (\<lambda>i. i_project i = p_id p) (items s') = filter (\<lambda>i. i_project i = p_id p) (items s)"
      unfolding s'(2) filter_filter by (intro filter_cong refl) auto
    moreover have "p \<in> set (projects s')" using p False by (simp add: s'(1))
    ultimately show ?thesis unfolding keeps_project_def by blast
  qed
qed

text \<open>The state after a request is a step of the project tree, so the tree stays a forest.\<close>

lemma serve_forest: "forest (fst st) \<Longrightarrow> forest (fst (snd (serve_project blobs del r st)))"
proof -
  assume f: "forest (fst st)"
  obtain s b where st: "st = (s, b)" by (cases st)
  have steps: "forest (pstep s e)" for e using pstep_forest[of s e] f by (simp add: st)
  have c: "forest (snd (create_project_handler q t s))" for q t
    using steps[of "PCreate a pa t" for a pa] f
    by (fastforce simp: create_project_handler_def create_with_parent_def st split: option.split sum.splits prod.splits)
  have p: "forest (snd (patch_project_handler slug q t s))" for slug q t
  proof -
    have "forest s'" if "check_parent slug parent s = Inr pa"
      "with_tx t (update_project (a\<lparr>pq_slug := slug, pq_set_parent := parent \<noteq> None, pq_parent := pa\<rparr>)) s = (x, s')" for a parent pa x s'
      using steps[of "PPatch (a\<lparr>pq_slug := slug\<rparr>) parent t"] that by (simp add: patch_with_parent_def)
    then show ?thesis using f
      by (auto simp: patch_project_handler_def st split: option.split sum.split prod.split)
  qed
  have d: "forest (fst (snd (delete_project_handler blobs del slug q t (s, b))))" for slug q t
    using steps[of "PPurge blobs slug t"] f
    by (auto simp: delete_project_handler_def st split: prod.split sum.split error.split)
  show ?thesis
  proof (cases r)
    case (PostProject q t)
    then show ?thesis using c[of q t] by (auto simp: st split: prod.split)
  next
    case (PatchProject slug q t)
    then show ?thesis using p[of slug q t] by (auto simp: st split: prod.split)
  next
    case (DeleteProject slug q t)
    then show ?thesis using d[of slug q t] by (auto simp: st split: prod.split)
  qed (use f st in simp_all)
qed

text \<open>A confirmed request to delete a project, which is archived and has no children.\<close>

definition purges :: "project \<Rightarrow> project_call \<Rightarrow> db \<Rightarrow> bool" where
  "purges p r s \<longleftrightarrow> (\<exists>q t. r = DeleteProject (p_slug p) q t \<and> q ''confirm'' = p_slug p)
     \<and> (\<exists>p' \<in> set (projects s). p_id p' = p_id p \<and> p_slug p' = p_slug p \<and> p_status p' = ''archived'')
     \<and> (\<forall>c \<in> set (projects s). p_parent c \<noteq> Some (p_slug p))"

lemma serve_keeps:
  assumes f: "forest s" and p: "p \<in> set (projects s)"
  shows "keeps_project p s (fst (snd (serve_project blobs del r (s, b)))) \<or> purges p r s"
proof (cases r)
  case (PostProject q t)
  have "keeps_project p s s'" if "with_tx t (create_project a) s = (x, s')" for a x s'
    using keeps_with_tx[where m = "create_project a" and now = t, OF p create_keeps[OF _ p]] that by fastforce
  then have "keeps_project p s (snd (create_project_handler q t s))"
    using keeps_refl[OF p] by (auto simp: create_project_handler_def split: option.split sum.split prod.split)
  then show ?thesis by (auto simp: PostProject split: prod.split)
next
  case (PatchProject slug q t)
  have "keeps_project p s s'" if "with_tx t (update_project a) s = (x, s')" for a x s'
    using keeps_with_tx[where m = "update_project a" and now = t, OF p update_keeps[OF _ p]] that by fastforce
  then have "keeps_project p s (snd (patch_project_handler slug q t s))"
    using keeps_refl[OF p] by (auto simp: patch_project_handler_def split: option.split sum.split prod.split)
  then show ?thesis by (auto simp: PatchProject split: prod.split)
next
  case (DeleteProject slug q t)
  obtain r0 s1 where pp: "purge_project blobs slug t s = (r0, s1)" by (cases "purge_project blobs slug t s")
  have "q ''confirm'' \<noteq> slug \<Longrightarrow> ?thesis"
    using keeps_refl[OF p] by (simp add: DeleteProject delete_project_handler_def)
  moreover have "fst (snd (serve_project blobs del r (s, b))) = s1" if "q ''confirm'' = slug"
    using that pp by (auto simp: DeleteProject delete_project_handler_def split: prod.split sum.split error.split)
  ultimately show ?thesis using purge_keeps[OF f p pp] DeleteProject p by (auto simp: purges_def)
qed (use keeps_refl[OF p] in simp_all)

lemma keeps_trans:
  assumes "keeps_project p s s1" and "p1 \<in> set (projects s1)" and "p_id p1 = p_id p" and "p_slug p1 = p_slug p"
    and "keeps_project p1 s1 s2"
  shows "keeps_project p s s2"
  using assms by (auto simp: keeps_project_def)

definition serve_projects :: "bool \<Rightarrow> (string \<Rightarrow> 'b \<Rightarrow> 'b) \<Rightarrow> project_call list \<Rightarrow> db \<times> 'b \<Rightarrow> db \<times> 'b" where
  "serve_projects blobs del rs st = foldl (\<lambda>st r. snd (serve_project blobs del r st)) st rs"

lemma serve_projects_simps [simp]:
  "serve_projects blobs del [] st = st"
  "serve_projects blobs del (r # rs) st = serve_projects blobs del rs (snd (serve_project blobs del r st))"
  by (simp_all add: serve_projects_def)

lemma serve_projects_keep:
  assumes "forest s" and "p \<in> set (projects s)"
  shows "keeps_project p s (fst (serve_projects blobs del rs (s, b)))
    \<or> (\<exists>before r later. rs = before @ r # later \<and> purges p r (fst (serve_projects blobs del before (s, b))))"
  using assms
proof (induction rs arbitrary: s b p)
  case Nil
  then show ?case by (simp add: keeps_refl)
next
  case (Cons r rs)
  obtain s1 b1 where st: "snd (serve_project blobs del r (s, b)) = (s1, b1)" by (cases "snd (serve_project blobs del r (s, b))")
  show ?case
  proof (cases "purges p r s")
    case True
    then have "r # rs = [] @ r # rs \<and> purges p r (fst (serve_projects blobs del [] (s, b)))" by simp
    then show ?thesis by blast
  next
    case False
    then have k: "keeps_project p s s1" using serve_keeps[OF Cons.prems, of blobs del r b] st by simp
    then obtain p1 where p1: "p1 \<in> set (projects s1)" "p_id p1 = p_id p" "p_slug p1 = p_slug p" by (auto simp: keeps_project_def)
    have "forest s1" using serve_forest[of "(s, b)" blobs del r] Cons.prems(1) st by simp
    from Cons.IH[OF this p1(1), of b1] show ?thesis
    proof
      assume "keeps_project p1 s1 (fst (serve_projects blobs del rs (s1, b1)))"
      then show ?thesis using keeps_trans[OF k p1] st by simp
    next
      assume "\<exists>before r' later. rs = before @ r' # later \<and> purges p1 r' (fst (serve_projects blobs del before (s1, b1)))"
      then obtain before r' later where "rs = before @ r' # later" "purges p1 r' (fst (serve_projects blobs del before (s1, b1)))" by blast
      then have "r # rs = (r # before) @ r' # later \<and> purges p r' (fst (serve_projects blobs del (r # before) (s, b)))"
        using p1(2,3) st by (simp add: purges_def)
      then show ?thesis by blast
    qed
  qed
qed

text \<open>C10: A project is lost on purpose or not at all. Over every history of requests on projects, each project that was
  there is still there with all its items, unless one of the requests was a DELETE of it that repeated its slug as
  confirmation, at a time when it was archived and no other project hung below it.\<close>

theorem project_lost_on_purpose:
  assumes "forest s" and "p \<in> set (projects s)" and "after = (\<lambda>rs. fst (serve_projects blobs del rs (s, b)))"
  shows "(\<exists>p' \<in> set (projects (after rs)). p_id p' = p_id p \<and> p_slug p' = p_slug p)
      \<and> filter (\<lambda>i. i_project i = p_id p) (items (after rs)) = filter (\<lambda>i. i_project i = p_id p) (items s)
    \<or> (\<exists>before q t later. rs = before @ DeleteProject (p_slug p) q t # later \<and> q ''confirm'' = p_slug p
         \<and> (\<exists>p' \<in> set (projects (after before)). p_id p' = p_id p \<and> p_slug p' = p_slug p \<and> p_status p' = ''archived'')
         \<and> (\<forall>c \<in> set (projects (after before)). p_parent c \<noteq> Some (p_slug p)))"
  using serve_projects_keep[OF assms(1,2), of blobs del rs b]
  unfolding assms(3) keeps_project_def purges_def by blast

lemma project_lost_on_purpose_witness:
  "\<exists>p' \<in> set (projects (fst (serve_projects False (\<lambda>_ b. b) [DeleteProject ''b'' (\<lambda>_. []) 5, PatchProject ''b'' None 6] (tree_db, ())))).
     p_slug p' = ''b''"
proof -
  have "tree_project 2 ''b'' ''archived'' (Some ''a'') \<in> set (projects tree_db)" by (simp add: tree_db_def)
  from project_lost_on_purpose[OF tree_db_forest this refl, where blobs = False and del = "\<lambda>_ b. b" and b = "()" and rs = "[DeleteProject ''b'' (\<lambda>_. []) 5, PatchProject ''b'' None 6]"]
  show ?thesis by (auto simp: tree_project_def Cons_eq_append_conv)
qed

text \<open>The listing of webhooks does not depend on their secrets.\<close>

lemma webhooks_hide_secrets:
  "list_webhooks_handler (s\<lparr>webhooks := map (\<lambda>h. h\<lparr>h_secret := x\<rparr>) (webhooks s)\<rparr>) = list_webhooks_handler s"
proof -
  have "sort_key (\<lambda>h. - h_created_at h) (map (\<lambda>h. h\<lparr>h_secret := x\<rparr>) hs) = map (\<lambda>h. h\<lparr>h_secret := x\<rparr>) (sort_key (\<lambda>h. - h_created_at h) hs)" for hs :: "webhook list"
  proof (induction hs)
    case (Cons h hs)
    have "insort_key (\<lambda>h. - h_created_at h) (h\<lparr>h_secret := x\<rparr>) (map (\<lambda>h. h\<lparr>h_secret := x\<rparr>) ys)
        = map (\<lambda>h. h\<lparr>h_secret := x\<rparr>) (insort_key (\<lambda>h. - h_created_at h) h ys)" for ys
      by (induction ys) simp_all
    then show ?case using Cons by simp
  qed simp
  moreover have "to_webhook (h\<lparr>h_secret := x\<rparr>) = to_webhook h" for h :: webhook by (simp add: to_webhook_def)
  ultimately show ?thesis by (simp add: list_webhooks_handler_def list_webhooks_def)
qed

text \<open>The objects that a request deletes are those of the attachments of the purged project.\<close>

lemma purge_deletes_own_objects:
  assumes "delete_project_handler True del slug q now (s, b) = (out, s', b')" and "b' \<noteq> b"
  shows "\<exists>p. find_slug slug s = Inr p \<and> b' = fold del (list_attachment_keys_for_project (p_id p) s) b"
  using assms by (auto simp: delete_project_handler_def purge_project_def Let_def split: if_splits sum.splits prod.splits error.splits)

end
