(* ===== verification/Spec2Isabelle.thy ===== *)
theory Spec2Isabelle
  imports Webhook_Delivery Ratelimit Sharing Attachment_Properties Orient_Properties Hub Mcp_Properties
    Front Metrics Mailbox_Host Api_Projects
begin

text \<open>
  Flightdeck keeps the projects and the work items of a team of people and agents. One instance is a
  server over a PostgreSQL database (packages under \<open>internal/\<close>): statements generated by sqlc
  (\<open>internal/store\<close>), a service layer that runs them in transactions (\<open>internal/service\<close>), HTTP
  handlers (\<open>internal/api\<close>), and two background workers, the delivery of webhooks and the exchange of
  shared projects with another instance (\<open>internal/sync\<close>) through a rendezvous server of its own
  (\<open>internal/mailbox\<close>, \<open>cmd/flightdeck-mailbox\<close>).

  The theories, from the bottom.

  \<^bold>\<open>Vocabulary.\<close> \<open>Prelude\<close> has UUIDs, times, the errors of the program as one datatype, transactional
  computations (\<open>tx\<close>: a state in, an error or a value and a state out) and the two interfaces that
  components provide: \<open>machine\<close> (steps that keep an invariant, with induction over histories) and
  \<open>keyed_create\<close> (creation under an idempotency key, with its laws about retries). \<open>Text\<close> has the string
  functions of Go's library that the program calls. \<open>Tables\<close> has one record per table
  (\<open>internal/store/models.go\<close>), the database as a record of row lists, \<open>with_tx\<close> (\<open>Store.WithTx\<close>), and
  the enumerations of the CHECK constraints.

  \<^bold>\<open>The rendezvous server.\<close> \<open>Mailbox\<close> is \<open>Store\<close> of \<open>internal/mailbox/mailbox.go\<close>: Create, Send, Receive,
  Ack and Delete on a disk of directory entries, with the in-memory leases. \<open>Mailbox_Delivery\<close> makes it a
  machine with restarts and damaged files and proves at-least-once delivery, exclusion while a lease runs,
  oldest-first hand-out and the bounds. \<open>Mailbox_Http\<close> has the handlers and their authentication,
  \<open>Mail_Client\<close> the client of \<open>internal/sync/client.go\<close> and the way of a sealed change through the server.

  \<^bold>\<open>Items.\<close> \<open>Item_Store\<close> has the statements of \<open>items.sql.go\<close>, \<open>activity.sql.go\<close>, \<open>links.sql.go\<close> and
  \<open>refs.sql.go\<close> with the constraints and the trigger that numbers items; \<open>Item_Invariant\<close> the
  well-formedness \<open>db_ok\<close> and its preservation; \<open>Items\<close> the operations of \<open>service.go\<close> and \<open>features.go\<close>;
  \<open>Item_Properties\<close> what they promise (no lost update, retried creation, completion with its reason,
  all-or-nothing batches, refs that never collide). \<open>Validate\<close> has \<open>validate.go\<close> and compares it with the
  constraints. \<open>Runes\<close> has the decoding of UTF-8 that truncations by rune rest on.

  \<^bold>\<open>HTTP API.\<close> \<open>Api_Items\<close> has the query parameters and the handlers of \<open>internal/api/items.go\<close>,
  \<open>activity.go\<close> and \<open>features.go\<close>; \<open>Api_Ingest\<close> the public reports and captures and the guard of every
  route; \<open>Api_Properties\<close> what they promise. \<open>Api_Projects\<close> has the handlers of projects and the readers of the
  instance, and that a history of requests loses a project on purpose or not at all. \<open>Keys\<close> is authentication and the life of an API key, \<open>Settings\<close>
  the stored settings and the first-run setup, \<open>Ratelimit\<close> the limiter of \<open>internal/ratelimit\<close>.

  \<^bold>\<open>What agents read.\<close> \<open>Dto\<close> has the JSON shapes of \<open>internal/dto\<close>. \<open>Fusion\<close> is \<open>rrfMerge\<close> with its closed
  form; \<open>Search\<close> the tiers of the smart search and its log, \<open>Search_Properties\<close> that every hit is a live row in
  scope and which hits lead. \<open>Embedder\<close> is \<open>embedder.go\<close> and \<open>embed.go\<close>: the pass over the backlog ends, and
  poison rows do not stall it. \<open>Orient\<close> has the context bundles with their cache, the digest, the stale report
  and the resolution of a path to a project; \<open>Orient_Properties\<close> proves what the cache may return and when.
  \<open>Hub\<close> is the live-event bus, refined from a log of what every client was sent.

  \<^bold>\<open>The agents' tools.\<close> \<open>Mcp\<close> has the tools of \<open>internal/mcp/server.go\<close>, one definition each, their dispatch, the
  nudges of a session's first write and the middleware that records every call; \<open>Mcp_Store\<close> proves over every history
  of calls that the tools lose nothing, with an interface of the operations they use (\<open>tool_store\<close>) that is
  interpreted for two invariants; \<open>Mcp_Properties\<close> that the pages of a listing make up the listing and who is nudged.
  \<open>Usage\<close> has the recorded calls and the usage report of \<open>internal/service/usage.go\<close>, and that its figures agree.

  \<^bold>\<open>Attachments and retention.\<close> \<open>Attachments\<close> has \<open>attachments.sql.go\<close>, the service and the uploads over any
  object store (an interface, provided by the in-memory store); \<open>Maintenance\<close> the daily sweep;
  \<open>Attachment_Properties\<close> that every row's object can be opened over all histories of both.

  \<^bold>\<open>Webhooks.\<close> \<open>Webhooks\<close> has the outbox statements and the delivery worker; \<open>Webhook_Delivery\<close> proves that
  a subscriber acknowledges an event at most once, that settled events are never posted again, and what
  one attempt does.

  \<^bold>\<open>Projects.\<close> \<open>Projects\<close> has the statements of \<open>projects.sql.go\<close>, \<open>hierarchy.go\<close>, archive and purge;
  \<open>Project_Tree\<close> proves that the recursive query computes the descendants and that the tree stays a
  forest over every history.

  \<^bold>\<open>Sharing.\<close> \<open>Sync_Store\<close> has the statements of \<open>sharing.sql.go\<close>; \<open>Protocol\<close> the envelopes, sealing and
  invites of \<open>protocol.go\<close>; \<open>Sync\<close> the engine of \<open>engine.go\<close>; \<open>Sharing\<close> how two instances agree on a share
  (\<open>internal/service/sharing.go\<close>). \<open>Sync_Merge\<close> proves that both sides of a
  conflict reach the same merged fields (and which they do not), \<open>Sync_Properties\<close> what applying a change
  does, \<open>Sync_Pass\<close> that nothing is acknowledged before it is settled, that an outbound pass sends
  everything that differs and the next one nothing, and that applied rows are not echoed.

  \<^bold>\<open>Context impact.\<close> \<open>Context_Impact\<close> has the statements, the service and the handler of the reports agents
  make about the context they used, with idempotent retries.

  \<^bold>\<open>The process around it.\<close> \<open>Front\<close> has the routing of a request: the private surface of \<open>runServe\<close> and the
  connector under the public hostname (\<open>internal/public\<close>), and that the tunnel exposes nothing else. \<open>Release\<close> is the
  watcher of \<open>internal/update\<close>, with the choice of the highest tag; \<open>Deploy\<close> the commands \<open>up\<close>, \<open>update\<close>, \<open>keygen\<close>
  and \<open>keys\<close> of \<open>cmd/flightdeck\<close> over a directory whose writes can stop in the middle. \<open>Pki\<close> is \<open>pki.go\<close> of the
  rendezvous server, the files of its authority and the clients it issues; \<open>Mailbox_Host\<close> that server as a process
  (\<open>cmd/flightdeck-mailbox\<close>), from its start to a request over mutual TLS. \<open>Vec_Cache\<close> is the cache of query embeddings
  (\<open>veccache.go\<close>) down to its bytes, which no query can tell from a live embedding; \<open>Metrics\<close> the registry of
  \<open>internal/metrics\<close> and what a scraped histogram shows.

  \<^bold>\<open>Conventions.\<close> Code outside the repository is a parameter: ciphers, hashes, JSON, the UUID parser,
  PostgreSQL's full-text match, distances and letter case, object stores, the network. Floating-point scores
  are rationals. Errors carry the text of the source without the
  values it quotes and without the wrapping of \<open>fmt.Errorf\<close>. Times are integers. A transaction and a
  single statement run without interference; where the code leaves room for other callers between two
  transactions and a property depends on it, the definition takes what they commit as an argument. Loops
  are recursive over the list they walk; the two that are not, the embedder's drain of its backlog and the
  wait for a healthy instance, are partial functions that are proved to return. So no fuel is used.

  \<^bold>\<open>Not modelled.\<close> The transport of the MCP SDK, opening the database, listening, shutting down, the tickers, the compose template and
  the web client are glue around libraries; X.509, TLS, Redis, git, docker and GitHub are parameters. The parent check of
  a project and the update it guards are taken without another request in between, and the clock does not move within one
  sync pass.
\<close>

end
